(* ===== verification/Prelude.thy ===== *)
theory Prelude
  imports Main "HOL-Library.Word"
begin

text \<open>
  Shared vocabulary of the development: the machine integers of
  \<open>simpleworld/ints.hpp\<close> and \<open>simpleworld/cpu/types.hpp\<close>, the byte order of the
  host (\<open>IS_BIG_ENDIAN\<close> / \<open>IS_LITTLE_ENDIAN\<close> of the build), the exception classes
  of the C++ code, a state monad with exceptions, and the fact collections the
  component theories extend.
\<close>

unbundle bit_operations_syntax

named_theorems pres_intros \<open>rules that push an invariant through a monadic program\<close>
named_theorems raise_intros \<open>rules that collect the exceptions a monadic program can throw\<close>
named_theorems word_bits \<open>bit-level facts about the byte order functions\<close>

section \<open>Machine integers\<close>

type_synonym uint8 = "8 word"
type_synonym uint16 = "16 word"
type_synonym uint32 = "32 word"
type_synonym uint64 = "64 word"

type_synonym cpu_word = uint32
type_synonym half_word = uint16
type_synonym quarter_word = uint8
type_synonym address = uint32

text \<open>
  The byte order the program was built for.  Code under \<open>#if defined(IS_BIG_ENDIAN)\<close>
  and \<open>#elif defined(IS_LITTLE_ENDIAN)\<close> takes it as an argument.
\<close>

datatype endian = LittleEndian | BigEndian

section \<open>Exceptions\<close>

text \<open>
  One constructor per exception class.  The message texts are not modelled; the address
  a \<open>MemoryError\<close> carries is, because the CPU hands it to the interrupt handler.
  The last three are not classes of the program and no handler catches them:
  \<open>UndefinedBehaviour\<close> marks an evaluation to which the C++ standard gives no meaning (an
  over-long shift, signed overflow, an access outside an array or to a deleted object),
  \<open>NoReturn\<close> a call that never returns, and \<open>Terminated\<close> the end of the program by
  \<open>std::terminate\<close>.
\<close>

datatype exn =
    CPUException
  | CodeError
  | MemoryError address
  | ParserError
  | ErrorDirective
  | IOError
  | DBException
  | WorldError
  | ActionError
  | ActionBlocked
  | BugDeath
  | UndefinedBehaviour
  | NoReturn
  | Terminated

text \<open>The class hierarchy: what \<open>catch (const C& e)\<close> catches.\<close>

fun is_CPUException :: "exn \<Rightarrow> bool" where
  "is_CPUException CPUException = True"
| "is_CPUException CodeError = True"
| "is_CPUException (MemoryError _) = True"
| "is_CPUException ParserError = True"
| "is_CPUException ErrorDirective = True"
| "is_CPUException _ = False"

fun is_WorldError :: "exn \<Rightarrow> bool" where
  "is_WorldError WorldError = True"
| "is_WorldError ActionError = True"
| "is_WorldError BugDeath = True"
| "is_WorldError _ = False"

text \<open>\<open>catch (const Exception& e)\<close>.\<close>

fun is_Exception :: "exn \<Rightarrow> bool" where
  "is_Exception UndefinedBehaviour = False"
| "is_Exception NoReturn = False"
| "is_Exception Terminated = False"
| "is_Exception _ = True"

section \<open>Stateful programs with exceptions\<close>

text \<open>
  A C++ member function that may throw: it maps the state to an exception or a result,
  together with the state at that point.  The writes done before a \<open>throw\<close> stay done.
\<close>

type_synonym ('s, 'a) prog = "'s \<Rightarrow> (exn + 'a) \<times> 's"

definition ret :: "'a \<Rightarrow> ('s, 'a) prog" where
  "ret x = (\<lambda>s. (Inr x, s))"

definition throw :: "exn \<Rightarrow> ('s, 'a) prog" where
  "throw e = (\<lambda>s. (Inl e, s))"

definition andthen :: "('s, 'a) prog \<Rightarrow> ('a \<Rightarrow> ('s, 'b) prog) \<Rightarrow> ('s, 'b) prog" where
  "andthen m f = (\<lambda>s. case m s of (Inl e, s') \<Rightarrow> (Inl e, s') | (Inr x, s') \<Rightarrow> f x s')"

text \<open>\<open>try m catch h\<close>: \<open>h\<close> says which exceptions it handles.\<close>

definition try_catch :: "('s, 'a) prog \<Rightarrow> (exn \<Rightarrow> ('s, 'a) prog option) \<Rightarrow> ('s, 'a) prog" where
  "try_catch m h = (\<lambda>s. case m s of
      (Inl e, s') \<Rightarrow> (case h e of None \<Rightarrow> (Inl e, s') | Some p \<Rightarrow> p s')
    | (Inr x, s') \<Rightarrow> (Inr x, s'))"

text \<open>A read that may throw, and a state update that may throw.\<close>

definition reading :: "('s \<Rightarrow> exn + 'a) \<Rightarrow> ('s, 'a) prog" where
  "reading f = (\<lambda>s. (f s, s))"

definition updating :: "('s \<Rightarrow> exn + 's) \<Rightarrow> ('s, unit) prog" where
  "updating f = (\<lambda>s. case f s of Inl e \<Rightarrow> (Inl e, s) | Inr s' \<Rightarrow> (Inr (), s'))"

text \<open>Sequencing of computations that may throw and touch no state.\<close>

definition attempt :: "exn + 'a \<Rightarrow> ('a \<Rightarrow> exn + 'b) \<Rightarrow> exn + 'b" where
  "attempt r f = (case r of Inl e \<Rightarrow> Inl e | Inr x \<Rightarrow> f x)"

text \<open>\<open>for\<close> over a list of loop values, leaving at the first exception.\<close>

fun for_each :: "'i list \<Rightarrow> ('i \<Rightarrow> 'acc \<Rightarrow> ('s, 'acc) prog) \<Rightarrow> 'acc \<Rightarrow> ('s, 'acc) prog" where
  "for_each [] body acc = ret acc"
| "for_each (i # is) body acc = andthen (body i acc) (\<lambda>acc'. for_each is body acc')"

lemma ret_apply [simp]: "ret x s = (Inr x, s)"
  by (simp add: ret_def)

lemma throw_apply [simp]: "throw e s = (Inl e, s)"
  by (simp add: throw_def)

lemma andthen_apply [simp]:
  "andthen m f s = (case m s of (Inl e, s') \<Rightarrow> (Inl e, s') | (Inr x, s') \<Rightarrow> f x s')"
  by (simp add: andthen_def)

lemma try_catch_apply [simp]:
  "try_catch m h s = (case m s of
      (Inl e, s') \<Rightarrow> (case h e of None \<Rightarrow> (Inl e, s') | Some p \<Rightarrow> p s')
    | (Inr x, s') \<Rightarrow> (Inr x, s'))"
  by (simp add: try_catch_def)

lemma reading_apply [simp]: "reading f s = (f s, s)"
  by (simp add: reading_def)

lemma updating_apply [simp]:
  "updating f s = (case f s of Inl e \<Rightarrow> (Inl e, s) | Inr s' \<Rightarrow> (Inr (), s'))"
  by (simp add: updating_def)

lemma for_each_map: "for_each (map f xs) body acc = for_each xs (\<lambda>i. body (f i)) acc"
  by (induction xs arbitrary: acc) (auto simp: fun_eq_iff split: prod.split sum.split)

lemma for_each_cong:
  "(\<And>i. i \<in> set xs \<Longrightarrow> body i = body' i) \<Longrightarrow> for_each xs body acc = for_each xs body' acc"
  by (induction xs arbitrary: acc) (auto simp: fun_eq_iff split: prod.split sum.split)

lemma attempt_Inl [simp]: "attempt (Inl e) f = Inl e"
  by (simp add: attempt_def)

lemma attempt_Inr [simp]: "attempt (Inr x) f = f x"
  by (simp add: attempt_def)

lemma attempt_eq_Inr: "attempt r f = Inr y \<longleftrightarrow> (\<exists>x. r = Inr x \<and> f x = Inr y)"
  by (cases r) simp_all

lemma andthen_ret_left: "andthen (ret x) f = f x"
  by (simp add: andthen_def ret_def)

lemma andthen_assoc: "andthen (andthen m f) g = andthen m (\<lambda>x. andthen (f x) g)"
  by (auto simp: andthen_def fun_eq_iff split: prod.splits sum.splits)

section \<open>Invariants of programs\<close>

text \<open>
  \<open>keeps X P m\<close>: wherever \<open>m\<close> starts in a state of \<open>P\<close> it leaves one, unless it throws an exception
  \<open>x\<close> and leaves a state of \<open>X x\<close>; \<open>preserves P m\<close>: it leaves one in every case.  The collection
  \<open>pres_intros\<close> decomposes a program along its structure.
\<close>

definition keeps :: "(exn \<Rightarrow> 's \<Rightarrow> bool) \<Rightarrow> ('s \<Rightarrow> bool) \<Rightarrow> ('s, 'a) prog \<Rightarrow> bool" where
  "keeps X P m \<longleftrightarrow> (\<forall>s. P s \<longrightarrow> (case m s of (Inl x, s') \<Rightarrow> P s' \<or> X x s' | (Inr _, s') \<Rightarrow> P s'))"

abbreviation preserves :: "('s \<Rightarrow> bool) \<Rightarrow> ('s, 'a) prog \<Rightarrow> bool" where
  "preserves P m \<equiv> keeps (\<lambda>_ _. False) P m"

lemma preserves_iff: "preserves P m \<longleftrightarrow> (\<forall>s. P s \<longrightarrow> P (snd (m s)))"
proof -
  have "(case r of (Inl x, s') \<Rightarrow> P s' \<or> False | (Inr _, s') \<Rightarrow> P s') \<longleftrightarrow> P (snd r)"
    for r :: "(exn + 'b) \<times> 'a"
    by (cases r; cases "fst r") simp_all
  then show ?thesis
    unfolding keeps_def by simp
qed

lemma keepsI:
  assumes "\<And>s x s'. P s \<Longrightarrow> m s = (Inl x, s') \<Longrightarrow> P s' \<or> X x s'"
    and "\<And>s v s'. P s \<Longrightarrow> m s = (Inr v, s') \<Longrightarrow> P s'"
  shows "keeps X P m"
  unfolding keeps_def
proof (intro allI impI)
  fix s
  assume s: "P s"
  show "case m s of (Inl x, s') \<Rightarrow> P s' \<or> X x s' | (Inr _, s') \<Rightarrow> P s'"
  proof (cases "m s")
    case (Pair r t)
    then show ?thesis
      using assms(1) [OF s, of _ t] assms(2) [OF s, of _ t] by (cases r) simp_all
  qed
qed

lemma keepsD:
  assumes "keeps X P m" and "P s"
  shows "m s = (Inl x, s') \<Longrightarrow> P s' \<or> X x s'" and "m s = (Inr v, s') \<Longrightarrow> P s'"
  using assms unfolding keeps_def by force+

lemma preservesD: "preserves P m \<Longrightarrow> P s \<Longrightarrow> m s = (r, s') \<Longrightarrow> P s'"
  by (cases r) (auto dest: keepsD)

lemma keeps_preserves: "preserves P m \<Longrightarrow> keeps X P m"
  by (rule keepsI) (auto dest: preservesD)

lemma keeps_ret [pres_intros]: "keeps X P (ret x)"
  by (simp add: keeps_def)

lemma keeps_throw [pres_intros]: "keeps X P (throw e)"
  by (simp add: keeps_def)

lemma keeps_reading [pres_intros]: "keeps X P (reading f)"
  by (simp add: keeps_def split: sum.split)

lemma keeps_updating:
  "(\<And>s s'. P s \<Longrightarrow> f s = Inr s' \<Longrightarrow> P s') \<Longrightarrow> keeps X P (updating f)"
  by (auto simp: keeps_def split: sum.splits)

text \<open>What is known of the result of the first program may be used for the second.\<close>

lemma keeps_andthen_yields:
  assumes "keeps X P m" and "\<And>s x s'. P s \<Longrightarrow> m s = (Inr x, s') \<Longrightarrow> Q x"
    and "\<And>x. Q x \<Longrightarrow> keeps X P (f x)"
  shows "keeps X P (andthen m f)"
proof -
  have step: "P t \<and> keeps X P (f y)" if "P s" "m s = (Inr y, t)" for s y t
    using keepsD(2) [OF assms(1) that] assms(2) [OF that] assms(3) by blast
  show ?thesis
  proof (rule keepsI)
    show "P s' \<or> X x s'" if s: "P s" and run: "andthen m f s = (Inl x, s')" for s x s'
    proof (cases "m s")
      case (Pair r t)
      show ?thesis
      proof (cases r)
        case (Inl y)
        with Pair run have "m s = (Inl x, s')" by simp
        then show ?thesis
          by (rule keepsD(1) [OF assms(1) s])
      next
        case (Inr y)
        with Pair run step [OF s, of y t] have "P t" "keeps X P (f y)" "f y t = (Inl x, s')" by simp_all
        then show ?thesis
          using keepsD(1) by metis
      qed
    qed
    show "P s'" if s: "P s" and run: "andthen m f s = (Inr v, s')" for s v s'
    proof (cases "m s")
      case (Pair r t)
      then obtain y where "m s = (Inr y, t)" "f y t = (Inr v, s')"
        using run by (cases r) auto
      with step [OF s, of y t] show ?thesis
        using keepsD(2) by metis
    qed
  qed
qed

lemma keeps_andthen [pres_intros]:
  assumes "keeps X P m" and "\<And>x. keeps X P (f x)"
  shows "keeps X P (andthen m f)"
  by (rule keeps_andthen_yields [where Q = "\<lambda>_. True"]) (simp_all add: assms)

lemma keeps_try_catch:
  assumes "keeps X P m" and "\<And>e p. h e = Some p \<Longrightarrow> (\<forall>s. \<not> X e s) \<and> keeps X P p"
  shows "keeps X P (try_catch m h)"
proof (rule keepsI)
  show "P s' \<or> X x s'" if "P s" "try_catch m h s = (Inl x, s')" for s x s'
    using that assms(1) by (auto split: prod.splits sum.splits option.splits dest: keepsD dest!: assms(2))
  show "P s'" if "P s" "try_catch m h s = (Inr v, s')" for s v s'
    using that assms(1) by (auto split: prod.splits sum.splits option.splits dest: keepsD dest!: assms(2))
qed

lemma preserves_try_catch [pres_intros]:
  "preserves P m \<Longrightarrow> (\<And>e p. h e = Some p \<Longrightarrow> preserves P p) \<Longrightarrow> preserves P (try_catch m h)"
  by (rule keeps_try_catch) simp_all

lemma keeps_if [pres_intros]:
  "(b \<Longrightarrow> keeps X P m) \<Longrightarrow> (\<not> b \<Longrightarrow> keeps X P n) \<Longrightarrow> keeps X P (if b then m else n)"
  by simp

lemma keeps_let [pres_intros]:
  "(\<And>x. keeps X P (f x)) \<Longrightarrow> keeps X P (let x = v in f x)"
  by simp

lemma keeps_for_each [pres_intros]:
  assumes "\<And>i acc. keeps X P (body i acc)"
  shows "keeps X P (for_each is body acc)"
  by (induction "is" arbitrary: acc) (auto intro!: pres_intros assms simp del: andthen_apply ret_apply)

text \<open>\<open>leads X P Q m\<close>: the same from \<open>P\<close> to \<open>Q\<close>, for programs that open or close a scope.\<close>

definition leads :: "(exn \<Rightarrow> 's \<Rightarrow> bool) \<Rightarrow> ('s \<Rightarrow> bool) \<Rightarrow> ('s \<Rightarrow> bool) \<Rightarrow> ('s, 'a) prog \<Rightarrow> bool" where
  "leads X P Q m \<longleftrightarrow> (\<forall>s. P s \<longrightarrow> (case m s of (Inl x, s') \<Rightarrow> Q s' \<or> X x s' | (Inr _, s') \<Rightarrow> Q s'))"

lemma leads_same [simp]: "leads X P P m \<longleftrightarrow> keeps X P m"
  by (simp add: leads_def keeps_def)

lemma leads_andthen:
  assumes "leads X P R m" and "\<And>x. leads X R Q (f x)" and "\<And>s. R s \<Longrightarrow> Q s"
  shows "leads X P Q (andthen m f)"
  unfolding leads_def
proof (intro allI impI)
  fix s
  assume s: "P s"
  show "case andthen m f s of (Inl x, s') \<Rightarrow> Q s' \<or> X x s' | (Inr _, s') \<Rightarrow> Q s'"
  proof (cases "m s")
    case (Pair r t)
    with s assms(1) have "case r of Inl x \<Rightarrow> R t \<or> X x t | Inr _ \<Rightarrow> R t"
      by (force simp: leads_def split: sum.splits)
    with Pair assms(2,3) show ?thesis
      by (cases r) (auto simp: leads_def)
  qed
qed

lemma leads_prod: "(\<And>x y. leads X P Q (f x y)) \<Longrightarrow> leads X P Q (case v of (x, y) \<Rightarrow> f x y)"
  by (cases v) simp

lemmas leads_then = leads_andthen [where R = P and P = P for P, unfolded leads_same]

text \<open>
  \<open>ends X P Q m\<close>: from a state of \<open>P\<close>, \<open>m\<close> returns a result \<open>y\<close> in a state of \<open>Q y\<close> or throws an
  exception \<open>x\<close> in a state of \<open>X x\<close>.
\<close>

definition ends ::
    "(exn \<Rightarrow> 's \<Rightarrow> bool) \<Rightarrow> ('s \<Rightarrow> bool) \<Rightarrow> ('a \<Rightarrow> 's \<Rightarrow> bool) \<Rightarrow> ('s, 'a) prog \<Rightarrow> bool" where
  "ends X P Q m \<longleftrightarrow> (\<forall>s. P s \<longrightarrow> (case m s of (Inl x, s') \<Rightarrow> X x s' | (Inr y, s') \<Rightarrow> Q y s'))"

lemma endsD:
  assumes "ends X P Q m" and "P s"
  shows "m s = (Inl x, s') \<Longrightarrow> X x s'" and "m s = (Inr y, s') \<Longrightarrow> Q y s'"
  using assms unfolding ends_def by force+

lemma ends_keeps: "keeps Y P m \<Longrightarrow> (\<And>x s. P s \<or> Y x s \<Longrightarrow> X x s) \<Longrightarrow> ends X P (\<lambda>_. P) m"
  unfolding ends_def keeps_def by (fastforce split: prod.splits sum.splits)

lemma ends_andthen:
  assumes "ends X P R m" and "\<And>y. ends X (R y) Q (f y)"
  shows "ends X P Q (andthen m f)"
  unfolding ends_def
proof (intro allI impI)
  fix s
  assume "P s"
  with endsD [OF assms(1) this] assms(2)
  show "case andthen m f s of (Inl x, s') \<Rightarrow> X x s' | (Inr y, s') \<Rightarrow> Q y s'"
    by (cases "m s"; cases "fst (m s)") (auto simp: ends_def)
qed

lemma ends_ret: "(\<And>s. P s \<Longrightarrow> Q x s) \<Longrightarrow> ends X P Q (ret x)"
  by (simp add: ends_def)

section \<open>Exceptions of programs\<close>

text \<open>\<open>raises_only E m\<close>: every exception that leaves \<open>m\<close> satisfies \<open>E\<close>.\<close>

definition raises_only :: "(exn \<Rightarrow> bool) \<Rightarrow> ('s, 'a) prog \<Rightarrow> bool" where
  "raises_only E m \<longleftrightarrow> (\<forall>s x s'. m s = (Inl x, s') \<longrightarrow> E x)"

lemma raises_onlyD: "raises_only E m \<Longrightarrow> m s = (Inl x, s') \<Longrightarrow> E x"
  by (auto simp: raises_only_def)

lemma raises_weaken: "raises_only E m \<Longrightarrow> (\<And>x. E x \<Longrightarrow> F x) \<Longrightarrow> raises_only F m"
  by (auto simp: raises_only_def)

lemma raises_ret [raise_intros]: "raises_only E (ret x)"
  by (simp add: raises_only_def)

lemma raises_throw: "E x \<Longrightarrow> raises_only E (throw x)"
  by (simp add: raises_only_def)

lemma raises_reading: "(\<And>s x. f s = Inl x \<Longrightarrow> E x) \<Longrightarrow> raises_only E (reading f)"
  by (auto simp: raises_only_def)

lemma raises_updating: "(\<And>s x. f s = Inl x \<Longrightarrow> E x) \<Longrightarrow> raises_only E (updating f)"
  by (auto simp: raises_only_def split: sum.splits)

lemma raises_andthen [raise_intros]:
  "raises_only E m \<Longrightarrow> (\<And>x. raises_only E (f x)) \<Longrightarrow> raises_only E (andthen m f)"
  by (fastforce simp: raises_only_def split: prod.splits sum.splits)

lemma raises_try_catch:
  assumes "raises_only F m" and "\<And>x p. F x \<Longrightarrow> h x = Some p \<Longrightarrow> raises_only E p"
    and "\<And>x. F x \<Longrightarrow> h x = None \<Longrightarrow> E x"
  shows "raises_only E (try_catch m h)"
  unfolding raises_only_def
proof (intro allI impI)
  fix s x s'
  assume run: "try_catch m h s = (Inl x, s')"
  show "E x"
  proof (cases "m s")
    case (Pair r t)
    with run obtain y where y: "m s = (Inl y, t)"
      by (cases r) auto
    with assms(1) have "F y"
      by (rule raises_onlyD)
    with run y assms(2,3) show ?thesis
      by (cases "h y") (auto dest: raises_onlyD)
  qed
qed

lemma raises_if [raise_intros]:
  "(b \<Longrightarrow> raises_only E m) \<Longrightarrow> (\<not> b \<Longrightarrow> raises_only E n) \<Longrightarrow> raises_only E (if b then m else n)"
  by simp

lemma raises_let [raise_intros]: "(\<And>x. raises_only E (f x)) \<Longrightarrow> raises_only E (let x = v in f x)"
  by simp

lemma raises_for_each [raise_intros]:
  "(\<And>i acc. raises_only E (body i acc)) \<Longrightarrow> raises_only E (for_each is body acc)"
  by (induction "is" arbitrary: acc) (auto intro: raise_intros simp del: andthen_apply ret_apply)

section \<open>Lists and words\<close>

lemma nth_list_update_swap:
  "i \<noteq> j \<Longrightarrow> xs[i := x, j := y] = xs[j := y, i := x]"
  by (rule list_update_swap)

lemma take_update_other: "n \<le> i \<Longrightarrow> take n (xs[i := x]) = take n xs"
  by simp

lemma drop_update_other: "i < n \<Longrightarrow> drop n (xs[i := x]) = drop n xs"
  by simp

text \<open>Overwriting a chunk of a list in place: \<open>memcpy(xs + i, ys, length ys)\<close>.\<close>

definition blit :: "'a list \<Rightarrow> nat \<Rightarrow> 'a list \<Rightarrow> 'a list" where
  "blit xs i ys = take i xs @ ys @ drop (i + length ys) xs"

text \<open>Reading a chunk of a list.\<close>

definition chunk :: "'a list \<Rightarrow> nat \<Rightarrow> nat \<Rightarrow> 'a list" where
  "chunk xs i n = take n (drop i xs)"

lemma length_blit [simp]: "i + length ys \<le> length xs \<Longrightarrow> length (blit xs i ys) = length xs"
  by (simp add: blit_def)

lemma length_chunk [simp]: "i + n \<le> length xs \<Longrightarrow> length (chunk xs i n) = n"
  by (simp add: chunk_def)

lemma chunk_blit_same [simp]:
  "i + length ys \<le> length xs \<Longrightarrow> n = length ys \<Longrightarrow> chunk (blit xs i ys) i n = ys"
  by (simp add: chunk_def blit_def)

lemma nth_blit:
  assumes "i + length ys \<le> length xs" and "k < length xs"
  shows "blit xs i ys ! k = (if i \<le> k \<and> k < i + length ys then ys ! (k - i) else xs ! k)"
  using assms by (auto simp: blit_def nth_append)

lemma nth_chunk: "i + n \<le> length xs \<Longrightarrow> k < n \<Longrightarrow> chunk xs i n ! k = xs ! (i + k)"
  by (simp add: chunk_def)

lemma chunk_blit_other:
  assumes "i + length ys \<le> length xs" and "j + n \<le> length xs"
    and "j + n \<le> i \<or> i + length ys \<le> j"
  shows "chunk (blit xs i ys) j n = chunk xs j n"
  by (rule nth_equalityI) (use assms in \<open>auto simp: nth_chunk nth_blit\<close>)

lemma blit_chunk_id: "i + n \<le> length xs \<Longrightarrow> blit xs i (chunk xs i n) = xs"
  by (rule nth_equalityI) (auto simp: nth_chunk nth_blit)

lemma blit_blit_same:
  assumes "i + length ys \<le> length xs" and "length zs = length ys"
  shows "blit (blit xs i ys) i zs = blit xs i zs"
  by (rule nth_equalityI) (use assms in \<open>auto simp: nth_blit\<close>)

lemma blit_blit_swap:
  assumes "i + length ys \<le> length xs" and "j + length zs \<le> length xs"
    and "j + length zs \<le> i \<or> i + length ys \<le> j"
  shows "blit (blit xs i ys) j zs = blit (blit xs j zs) i ys"
  by (rule nth_equalityI) (use assms in \<open>auto simp: nth_blit\<close>)

lemma word_bit_length [word_bits]: "bit (w :: 'a::len word) n \<Longrightarrow> n < LENGTH('a)"
  by (rule bit_imp_le_length)

lemma unat_add_le:
  fixes a :: "'a::len word"
  assumes "unat a + n < 2 ^ LENGTH('a)"
  shows "unat (a + of_nat n) = unat a + n"
proof -
  have "unat (of_nat n :: 'a word) = n"
    using assms by (simp add: unsigned_of_nat take_bit_nat_eq_self_iff)
  then show ?thesis
    using assms by (simp add: unat_word_ariths)
qed

section \<open>Dictionaries\<close>

text \<open>\<open>std::map::insert\<close>: an existing key keeps its value.\<close>

definition map_insert :: "('k \<rightharpoonup> 'v) \<Rightarrow> 'k \<Rightarrow> 'v \<Rightarrow> ('k \<rightharpoonup> 'v)" where
  "map_insert m k v = (case m k of None \<Rightarrow> m(k \<mapsto> v) | Some _ \<Rightarrow> m)"

lemma map_insert_fresh [simp]: "m k = None \<Longrightarrow> map_insert m k v = m(k \<mapsto> v)"
  by (simp add: map_insert_def)

lemma map_insert_used [simp]: "m k = Some w \<Longrightarrow> map_insert m k v = m"
  by (simp add: map_insert_def)

text \<open>Calls of one fallible operation with each element of a list, in order.\<close>

fun fold_attempt :: "('t \<Rightarrow> 'x \<Rightarrow> exn + 't) \<Rightarrow> 't \<Rightarrow> 'x list \<Rightarrow> exn + 't" where
  "fold_attempt f t [] = Inr t"
| "fold_attempt f t (x # xs) = attempt (f t x) (\<lambda>t'. fold_attempt f t' xs)"

lemma fold_attempt_append:
  "fold_attempt f t (xs @ ys) = attempt (fold_attempt f t xs) (\<lambda>t'. fold_attempt f t' ys)"
  by (induction xs arbitrary: t) (auto simp: attempt_def split: sum.splits)

text \<open>The 256 byte values in ascending order.\<close>

definition all_bytes :: "uint8 list" where
  "all_bytes = map of_nat [0..<256]"

lemma set_all_bytes [simp]: "set all_bytes = UNIV"
proof -
  have "b \<in> set all_bytes" for b :: uint8
  proof -
    have "unat b < 256"
      using unsigned_less [of b] by simp
    moreover have "b = of_nat (unat b)"
      by simp
    ultimately show ?thesis
      unfolding all_bytes_def by (metis atLeastLessThan_iff image_eqI le0 list.set_map set_upt)
  qed
  then show ?thesis by blast
qed

end
