(* ===== verification/Bytes.thy ===== *)
theory Bytes
  imports Prelude
begin

text \<open>
  \<open>simpleworld/cpu/word.cpp\<close>: reading and writing single bytes of a word through a
  \<open>reinterpret_cast\<close>, and swapping the byte order.  A word in memory is the list of its
  bytes in the order of the host, so both byte orders of the build are modelled.
\<close>

section \<open>Words as bytes\<close>

definition be_bytes :: "cpu_word \<Rightarrow> uint8 list" where
  "be_bytes w = [ucast (drop_bit 24 w), ucast (drop_bit 16 w), ucast (drop_bit 8 w), ucast w]"

definition be_bytes_h :: "half_word \<Rightarrow> uint8 list" where
  "be_bytes_h w = [ucast (drop_bit 8 w), ucast w]"

definition be_word :: "uint8 list \<Rightarrow> cpu_word" where
  "be_word bs = push_bit 24 (ucast (bs ! 0)) OR push_bit 16 (ucast (bs ! 1)) OR
     push_bit 8 (ucast (bs ! 2)) OR ucast (bs ! 3)"

definition be_half :: "uint8 list \<Rightarrow> half_word" where
  "be_half bs = push_bit 8 (ucast (bs ! 0)) OR ucast (bs ! 1)"

text \<open>The bytes of an object as they lie in the memory of the host.\<close>

fun host_order :: "endian \<Rightarrow> 'a list \<Rightarrow> 'a list" where
  "host_order BigEndian bs = bs"
| "host_order LittleEndian bs = rev bs"

definition host_bytes :: "endian \<Rightarrow> cpu_word \<Rightarrow> uint8 list" where
  "host_bytes e w = host_order e (be_bytes w)"

definition host_word :: "endian \<Rightarrow> uint8 list \<Rightarrow> cpu_word" where
  "host_word e bs = be_word (host_order e bs)"

definition host_bytes_h :: "endian \<Rightarrow> half_word \<Rightarrow> uint8 list" where
  "host_bytes_h e w = host_order e (be_bytes_h w)"

definition host_half :: "endian \<Rightarrow> uint8 list \<Rightarrow> half_word" where
  "host_half e bs = be_half (host_order e bs)"

section \<open>The operations of word.cpp\<close>

definition get_byte :: "endian \<Rightarrow> cpu_word \<Rightarrow> uint8 \<Rightarrow> exn + quarter_word" where
  "get_byte e word byte =
     (if byte > 3 then Inl CPUException else Inr (host_bytes e word ! unat byte))"

definition get_byte_h :: "endian \<Rightarrow> half_word \<Rightarrow> uint8 \<Rightarrow> exn + quarter_word" where
  "get_byte_h e hword byte =
     (if byte > 1 then Inl CPUException else Inr (host_bytes_h e hword ! unat byte))"

definition set_byte :: "endian \<Rightarrow> cpu_word \<Rightarrow> uint8 \<Rightarrow> quarter_word \<Rightarrow> exn + cpu_word" where
  "set_byte e word byte value =
     (if byte > 3 then Inl CPUException
      else Inr (host_word e ((host_bytes e word)[unat byte := value])))"

definition set_byte_h :: "endian \<Rightarrow> half_word \<Rightarrow> uint8 \<Rightarrow> quarter_word \<Rightarrow> exn + half_word" where
  "set_byte_h e hword byte value =
     (if byte > 1 then Inl CPUException
      else Inr (host_half e ((host_bytes_h e hword)[unat byte := value])))"

definition change_byte_order :: "cpu_word \<Rightarrow> cpu_word" where
  "change_byte_order x =
     drop_bit 24 (x AND 0xFF000000) OR drop_bit 8 (x AND 0x00FF0000) OR
     push_bit 8 (x AND 0x0000FF00) OR push_bit 24 (x AND 0x000000FF)"

definition change_byte_order_h :: "half_word \<Rightarrow> half_word" where
  "change_byte_order_h x = drop_bit 8 (x AND 0xFF00) OR push_bit 8 (x AND 0x00FF)"

section \<open>Laws\<close>

lemma host_order_host_order [simp]: "host_order e (host_order e bs) = bs"
  by (cases e) simp_all

lemma length_host_order [simp]: "length (host_order e bs) = length bs"
  by (cases e) simp_all

lemma length_be_bytes [simp]: "length (be_bytes w) = 4"
  by (simp add: be_bytes_def)

lemma length_be_bytes_h [simp]: "length (be_bytes_h w) = 2"
  by (simp add: be_bytes_h_def)

lemma length_host_bytes [simp]: "length (host_bytes e w) = 4"
  by (simp add: host_bytes_def)

lemma length_host_bytes_h [simp]: "length (host_bytes_h e w) = 2"
  by (simp add: host_bytes_h_def)

lemma bit_high: "LENGTH('a) \<le> n \<Longrightarrow> \<not> bit (b :: 'a::len word) n"
  by (auto dest: word_bit_length)

lemma byte_bit_high [simp]: "8 \<le> n \<Longrightarrow> \<not> bit (b :: uint8) n"
  by (simp add: bit_high)

lemma length_4D: "length bs = 4 \<Longrightarrow> \<exists>a b c d. bs = [a, b, c, d]"
  by (auto simp: length_Suc_conv numeral_eq_Suc)

lemma length_2D: "length bs = 2 \<Longrightarrow> \<exists>a b. bs = [a, b]"
  by (auto simp: length_Suc_conv numeral_eq_Suc)

lemma be_bytes_be_word [simp]:
  assumes "length bs = 4"
  shows "be_bytes (be_word bs) = bs"
proof -
  obtain a b c d where bs: "bs = [a, b, c, d]"
    using length_4D [OF assms] by blast
  show ?thesis
    unfolding bs be_bytes_def be_word_def
    by (auto intro!: bit_word_eqI simp: bit_simps nth_Cons' dest: word_bit_length)
qed

lemma be_word_be_bytes [simp]: "be_word (be_bytes w) = w"
proof (rule bit_word_eqI)
  fix n
  assume "n < LENGTH(32)"
  then consider "n < 8" | "8 \<le> n" "n < 16" | "16 \<le> n" "n < 24" | "24 \<le> n" "n < 32"
    by force
  then show "bit (be_word (be_bytes w)) n \<longleftrightarrow> bit w n"
    by cases (auto simp: be_bytes_def be_word_def bit_simps)
qed

lemma be_bytes_h_be_half [simp]:
  assumes "length bs = 2"
  shows "be_bytes_h (be_half bs) = bs"
proof -
  obtain a b where bs: "bs = [a, b]"
    using length_2D [OF assms] by blast
  show ?thesis
    unfolding bs be_bytes_h_def be_half_def
    by (auto intro!: bit_word_eqI simp: bit_simps nth_Cons' dest: word_bit_length)
qed

lemma be_half_be_bytes_h [simp]: "be_half (be_bytes_h w) = w"
proof (rule bit_word_eqI)
  fix n
  assume "n < LENGTH(16)"
  then consider "n < 8" | "8 \<le> n" "n < 16"
    by force
  then show "bit (be_half (be_bytes_h w)) n \<longleftrightarrow> bit w n"
    by cases (auto simp: be_bytes_h_def be_half_def bit_simps)
qed

lemma host_word_host_bytes [simp]: "host_word e (host_bytes e w) = w"
  by (simp add: host_word_def host_bytes_def)

lemma host_bytes_host_word [simp]: "length bs = 4 \<Longrightarrow> host_bytes e (host_word e bs) = bs"
  by (simp add: host_word_def host_bytes_def)

lemma host_half_host_bytes_h [simp]: "host_half e (host_bytes_h e w) = w"
  by (simp add: host_half_def host_bytes_h_def)

lemma host_bytes_h_host_half [simp]: "length bs = 2 \<Longrightarrow> host_bytes_h e (host_half e bs) = bs"
  by (simp add: host_half_def host_bytes_h_def)

lemma be_bytes_inject: "be_bytes v = be_bytes w \<longleftrightarrow> v = w"
  by (metis be_word_be_bytes)

text \<open>The byte swap reverses the bytes, whatever the byte order of the host.\<close>

lemma byte_masks:
  "(0xFF000000 :: cpu_word) = push_bit 24 (mask 8)"
  "(0x00FF0000 :: cpu_word) = push_bit 16 (mask 8)"
  "(0x0000FF00 :: cpu_word) = push_bit 8 (mask 8)"
  "(0x000000FF :: cpu_word) = mask 8"
  by (simp_all add: mask_eq_exp_minus_1 push_bit_eq_mult)

lemma be_bytes_change_byte_order: "be_bytes (change_byte_order w) = rev (be_bytes w)"
  unfolding be_bytes_def change_byte_order_def byte_masks
  by (auto intro!: bit_word_eqI simp: bit_simps)

lemma byte_masks_h:
  "(0xFF00 :: half_word) = push_bit 8 (mask 8)"
  "(0x00FF :: half_word) = mask 8"
  by (simp_all add: mask_eq_exp_minus_1 push_bit_eq_mult)

lemma be_bytes_h_change_byte_order_h: "be_bytes_h (change_byte_order_h w) = rev (be_bytes_h w)"
  unfolding be_bytes_h_def change_byte_order_h_def byte_masks_h
  by (auto intro!: bit_word_eqI simp: bit_simps)

lemma change_byte_order_involution [simp]: "change_byte_order (change_byte_order w) = w"
  by (rule be_bytes_inject [THEN iffD1]) (simp add: be_bytes_change_byte_order)

lemma change_byte_order_h_involution [simp]: "change_byte_order_h (change_byte_order_h w) = w"
proof -
  have "be_bytes_h (change_byte_order_h (change_byte_order_h w)) = be_bytes_h w"
    by (simp add: be_bytes_h_change_byte_order_h)
  then show ?thesis
    by (metis be_half_be_bytes_h)
qed

text \<open>A little-endian host stores the swapped word in big-endian order.\<close>

lemma host_bytes_LE_swap [simp]:
  "host_bytes LittleEndian (change_byte_order w) = be_bytes w"
  by (simp add: host_bytes_def be_bytes_change_byte_order)

lemma host_bytes_h_LE_swap [simp]:
  "host_bytes_h LittleEndian (change_byte_order_h w) = be_bytes_h w"
  by (simp add: host_bytes_h_def be_bytes_h_change_byte_order_h)

lemma host_bytes_BE: "host_bytes BigEndian w = be_bytes w"
  by (simp add: host_bytes_def)

lemma host_bytes_h_BE: "host_bytes_h BigEndian w = be_bytes_h w"
  by (simp add: host_bytes_h_def)

lemma swap_host_word_LE [simp]:
  "length bs = 4 \<Longrightarrow> change_byte_order (host_word LittleEndian bs) = be_word bs"
  by (rule be_bytes_inject [THEN iffD1])
    (simp add: be_bytes_change_byte_order host_word_def)

lemma swap_host_half_LE [simp]:
  assumes "length bs = 2"
  shows "change_byte_order_h (host_half LittleEndian bs) = be_half bs"
proof -
  have "be_bytes_h (change_byte_order_h (host_half LittleEndian bs)) = be_bytes_h (be_half bs)"
    using assms by (simp add: be_bytes_h_change_byte_order_h host_half_def)
  then show ?thesis
    by (metis be_half_be_bytes_h)
qed

lemma host_word_BE: "host_word BigEndian bs = be_word bs"
  by (simp add: host_word_def)

lemma host_half_BE: "host_half BigEndian bs = be_half bs"
  by (simp add: host_half_def)

lemmas host_BE = host_bytes_BE host_bytes_h_BE host_word_BE host_half_BE

lemma byte_index: "(i :: uint8) \<le> 3 \<Longrightarrow> unat i < 4"
  by (simp add: word_le_nat_alt)

lemma get_byte_error: "get_byte e w i = Inl x \<longleftrightarrow> i > 3 \<and> x = CPUException"
  by (auto simp: get_byte_def)

lemma get_byte_set_byte:
  assumes "set_byte e w i v = Inr w'"
  shows "get_byte e w' j = (if i = j then Inr v else get_byte e w j)"
  using assms
  by (auto simp: get_byte_def set_byte_def not_less byte_index nth_list_update
      split: if_splits simp flip: word_unat_eq_iff)

text \<open>Two words with the same four bytes are equal.\<close>

lemma get_byte_ext:
  assumes "\<And>i. i \<le> 3 \<Longrightarrow> get_byte e v i = get_byte e w i"
  shows "v = w"
proof -
  have "host_bytes e v ! k = host_bytes e w ! k" if "k < 4" for k
  proof -
    have k: "unat (of_nat k :: uint8) = k"
      using that by (simp add: unsigned_of_nat take_bit_nat_eq_self_iff)
    with that have "\<not> 3 < (of_nat k :: uint8)"
      by (simp add: word_less_nat_alt)
    with assms [of "of_nat k"] k show ?thesis
      by (simp add: get_byte_def)
  qed
  then have "host_bytes e v = host_bytes e w"
    by (simp add: list_eq_iff_nth_eq)
  then show ?thesis
    by (metis host_word_host_bytes)
qed

end
