(* ===== verification/Instruction.thy ===== *)
theory Instruction
  imports Bytes
begin

text \<open>
  \<open>simpleworld/cpu/instruction.cpp\<close>: the 32-bit instruction format.  The two operand
  fields are 4-bit bit-fields; \<open>data\<close> and \<open>offset\<close> are the two views of one union, so the
  offset is the signed reading of the data.
\<close>

record instruction =
  i_code :: uint8
  i_first :: "4 word"
  i_second :: "4 word"
  i_data :: uint16

definition i_offset :: "instruction \<Rightarrow> cpu_word" where
  "i_offset inst = scast (i_data inst)"

text \<open>
  \<open>encode\<close> fills in an uninitialised local word; the argument \<open>w0\<close> stands for what it
  holds.  \<open>decode\<close> starts from the old \<open>data\<close> of the object.
\<close>

definition encode :: "endian \<Rightarrow> cpu_word \<Rightarrow> instruction \<Rightarrow> exn + cpu_word" where
  "encode e w0 this =
     attempt (set_byte e w0 0 (i_code this)) (\<lambda>word.
     attempt (set_byte e word 1 (push_bit 4 (ucast (i_first this)) OR ucast (i_second this))) (\<lambda>word.
     case e of
       BigEndian \<Rightarrow>
         attempt (get_byte e (ucast (i_data this)) 2) (\<lambda>b2.
         attempt (set_byte e word 2 b2) (\<lambda>word.
         attempt (get_byte e (ucast (i_data this)) 3) (\<lambda>b3.
         set_byte e word 3 b3)))
     | LittleEndian \<Rightarrow>
         attempt (get_byte e (ucast (i_data this)) 1) (\<lambda>b1.
         attempt (set_byte e word 2 b1) (\<lambda>word.
         attempt (get_byte e (ucast (i_data this)) 0) (\<lambda>b0.
         set_byte e word 3 b0)))))"

definition decode :: "endian \<Rightarrow> instruction \<Rightarrow> cpu_word \<Rightarrow> exn + instruction" where
  "decode e this word =
     attempt (get_byte e word 0) (\<lambda>c.
     attempt (get_byte e word 1) (\<lambda>regs.
     let this1 = this\<lparr>i_code := c, i_first := ucast (drop_bit 4 regs),
                      i_second := ucast (regs AND 0x0f)\<rparr>;
         dat = (ucast (i_data this) :: cpu_word)
     in attempt
          (case e of
             BigEndian \<Rightarrow>
               attempt (get_byte e word 2) (\<lambda>b2.
               attempt (set_byte e dat 2 b2) (\<lambda>dat.
               attempt (get_byte e word 3) (\<lambda>b3.
               set_byte e dat 3 b3)))
           | LittleEndian \<Rightarrow>
               attempt (get_byte e word 3) (\<lambda>b3.
               attempt (set_byte e dat 0 b3) (\<lambda>dat.
               attempt (get_byte e word 2) (\<lambda>b2.
               set_byte e dat 1 b2))))
          (\<lambda>dat. Inr (this1\<lparr>i_data := ucast dat\<rparr>))))"

section \<open>The format\<close>

text \<open>The four bytes of an instruction, in the order of the object file.\<close>

definition inst_bytes :: "instruction \<Rightarrow> uint8 list" where
  "inst_bytes i = [i_code i, push_bit 4 (ucast (i_first i)) OR ucast (i_second i),
     ucast (drop_bit 8 (i_data i)), ucast (i_data i)]"

definition bytes_inst :: "uint8 list \<Rightarrow> instruction" where
  "bytes_inst bs = \<lparr>i_code = bs ! 0, i_first = ucast (drop_bit 4 (bs ! 1)),
     i_second = ucast (bs ! 1), i_data = push_bit 8 (ucast (bs ! 2)) OR ucast (bs ! 3)\<rparr>"

lemma length_inst_bytes [simp]: "length (inst_bytes i) = 4"
  by (simp add: inst_bytes_def)

lemma and_0f: "(b :: uint8) AND 0x0f = take_bit 4 b"
  by (simp add: take_bit_eq_mask mask_eq_exp_minus_1)

lemma ucast_and_0f: "(ucast ((b :: uint8) AND 0x0f) :: 4 word) = ucast b"
  unfolding and_0f by (auto intro!: bit_word_eqI simp: bit_simps)

lemma host_order_nth:
  "length bs = 4 \<Longrightarrow> host_order BigEndian bs ! k = bs ! k"
  "length bs = 4 \<Longrightarrow> k < 4 \<Longrightarrow> host_order LittleEndian bs ! k = bs ! (3 - k)"
  by (simp_all add: rev_nth)

lemma host_bytes_nth:
  "host_bytes BigEndian w ! k = be_bytes w ! k"
  "k < 4 \<Longrightarrow> host_bytes LittleEndian w ! k = be_bytes w ! (3 - k)"
  by (simp_all add: host_bytes_def rev_nth)

lemma set_byte_host_word:
  "length bs = 4 \<Longrightarrow> i \<le> 3 \<Longrightarrow> set_byte e (host_word e bs) i v = Inr (host_word e (bs[unat i := v]))"
  by (simp add: set_byte_def not_less)

lemma get_byte_host_word:
  "length bs = 4 \<Longrightarrow> i \<le> 3 \<Longrightarrow> get_byte e (host_word e bs) i = Inr (bs ! unat i)"
  by (simp add: get_byte_def not_less)

lemma ucast_data_bytes:
  "be_bytes (ucast (d :: uint16)) = [0, 0, ucast (drop_bit 8 d), ucast d]"
  by (auto simp: be_bytes_def intro!: bit_word_eqI simp: bit_simps bit_high)

lemma encode_host_word: "encode e w0 i = Inr (host_word e (inst_bytes i))"
proof -
  obtain b0 b1 b2 b3 where "host_bytes e w0 = [b0, b1, b2, b3]"
    using length_4D [of "host_bytes e w0"] by auto
  then have w0: "w0 = host_word e [b0, b1, b2, b3]"
    by (metis host_word_host_bytes)
  show ?thesis
    unfolding w0 encode_def
    by (cases e) (simp_all add: set_byte_host_word get_byte_def host_bytes_nth ucast_data_bytes
        inst_bytes_def)
qed

lemma ucast_be_word_low:
  assumes "length bs = 4"
  shows "(ucast (be_word bs) :: uint16) = push_bit 8 (ucast (bs ! 2)) OR ucast (bs ! 3)"
  unfolding be_word_def
  by (auto intro!: bit_word_eqI simp: bit_simps)

lemma decode_host_word:
  assumes "length bs = 4"
  shows "decode e i0 (host_word e bs) = Inr (bytes_inst bs)"
proof -
  obtain a b c d where bs: "bs = [a, b, c, d]"
    using length_4D [OF assms] by blast
  obtain b0 b1 b2 b3 where "host_bytes e (ucast (i_data i0)) = [b0, b1, b2, b3]"
    using length_4D [of "host_bytes e (ucast (i_data i0))"] by auto
  then have w0: "ucast (i_data i0) = host_word e [b0, b1, b2, b3]"
    by (metis host_word_host_bytes)
  show ?thesis
    unfolding bs decode_def w0
    by (cases e) (simp_all add: set_byte_host_word get_byte_host_word bytes_inst_def Let_def
        ucast_and_0f, simp_all add: host_word_def ucast_be_word_low)
qed

lemma bytes_inst_inst_bytes [simp]: "bytes_inst (inst_bytes i) = i"
  unfolding bytes_inst_def inst_bytes_def
  by (cases i) (auto intro!: bit_word_eqI simp: bit_simps bit_high)

lemma inst_bytes_bytes_inst:
  assumes "length bs = 4"
  shows "inst_bytes (bytes_inst bs) = bs"
proof -
  obtain a b c d where bs: "bs = [a, b, c, d]"
    using length_4D [OF assms] by blast
  show ?thesis
    unfolding bs bytes_inst_def inst_bytes_def
    by (auto intro!: bit_word_eqI simp: bit_simps bit_high)
qed

section \<open>Properties\<close>

text \<open>
  C20: encoding and decoding an instruction are inverse to each other in both directions and
  never fail, whatever the host and whatever the uninitialised word and object held; and on
  every host the encoded word has the four bytes of the instruction format.
\<close>

theorem encode_decode_inverse:
  "attempt (encode e w0 inst) (decode e inst0) = Inr inst \<and>
   attempt (decode e inst0 w) (encode e w0) = Inr w \<and>
   (\<exists>v. encode e w0 inst = Inr v \<and> host_bytes e v = inst_bytes inst)"
proof -
  have "decode e inst0 w = Inr (bytes_inst (host_bytes e w))"
    using decode_host_word [of "host_bytes e w" e inst0] by simp
  then show ?thesis
    by (simp add: encode_host_word decode_host_word inst_bytes_bytes_inst)
qed

end
