(* ===== verification/ISA.thy ===== *)
theory ISA
  imports Instruction
begin

text \<open>
  \<open>simpleworld/cpu/isa.cpp\<close>: the tables of the instruction set.  An instruction is found
  by its code in an array of 256 pointers and by its name in a map; registers and
  interrupts have a map in each direction.  The type variable \<open>'f\<close> is the type of the
  function pointer \<open>Operation\<close>.
\<close>

section \<open>Data\<close>

text \<open>What the CPU does after an operation: \<open>enum Update\<close>.\<close>

datatype update = UpdateNone | UpdatePC | UpdateInterrupt | UpdateStop

record 'f instruction_info =
  inst_code :: uint8
  inst_name :: string
  inst_nregs :: uint8
  inst_has_inmediate :: bool
  inst_func :: 'f

record interrupt_info =
  intr_code :: uint8
  intr_name :: string
  intr_thrown_by_inst :: bool

record 'f isa =
  instructions :: "uint8 \<Rightarrow> 'f instruction_info option"
  instruction_names :: "string \<rightharpoonup> uint8"
  registers_map :: "uint8 \<rightharpoonup> string"
  register_names :: "string \<rightharpoonup> uint8"
  interrupts_map :: "uint8 \<rightharpoonup> interrupt_info"
  interrupt_names :: "string \<rightharpoonup> uint8"

definition isa_empty :: "'f isa" where
  "isa_empty = \<lparr>instructions = (\<lambda>_. None), instruction_names = Map.empty,
     registers_map = Map.empty, register_names = Map.empty,
     interrupts_map = Map.empty, interrupt_names = Map.empty\<rparr>"

section \<open>Look-ups\<close>

definition instruction_codes :: "'f isa \<Rightarrow> uint8 list" where
  "instruction_codes isa = filter (\<lambda>i. instructions isa i \<noteq> None) all_bytes"

definition register_codes :: "'f isa \<Rightarrow> uint8 list" where
  "register_codes isa = filter (\<lambda>i. registers_map isa i \<noteq> None) all_bytes"

definition interrupt_codes :: "'f isa \<Rightarrow> uint8 list" where
  "interrupt_codes isa = filter (\<lambda>i. interrupts_map isa i \<noteq> None) all_bytes"

definition get_instruction_info :: "'f isa \<Rightarrow> uint8 \<Rightarrow> exn + 'f instruction_info" where
  "get_instruction_info isa code =
     (case instructions isa code of None \<Rightarrow> Inl CodeError | Some info \<Rightarrow> Inr info)"

definition get_instruction_code :: "'f isa \<Rightarrow> string \<Rightarrow> exn + uint8" where
  "get_instruction_code isa name =
     (case instruction_names isa name of None \<Rightarrow> Inl CodeError | Some code \<Rightarrow> Inr code)"

definition get_register_name :: "'f isa \<Rightarrow> uint8 \<Rightarrow> exn + string" where
  "get_register_name isa code =
     (case registers_map isa code of None \<Rightarrow> Inl CodeError | Some name \<Rightarrow> Inr name)"

definition get_register_code :: "'f isa \<Rightarrow> string \<Rightarrow> exn + uint8" where
  "get_register_code isa name =
     (case register_names isa name of None \<Rightarrow> Inl CodeError | Some code \<Rightarrow> Inr code)"

definition get_interrupt_info :: "'f isa \<Rightarrow> uint8 \<Rightarrow> exn + interrupt_info" where
  "get_interrupt_info isa code =
     (case interrupts_map isa code of None \<Rightarrow> Inl CodeError | Some info \<Rightarrow> Inr info)"

definition get_interrupt_code :: "'f isa \<Rightarrow> string \<Rightarrow> exn + uint8" where
  "get_interrupt_code isa name =
     (case interrupt_names isa name of None \<Rightarrow> Inl CodeError | Some code \<Rightarrow> Inr code)"

section \<open>Updates\<close>

definition add_instruction :: "'f isa \<Rightarrow> 'f instruction_info \<Rightarrow> exn + 'f isa" where
  "add_instruction this instr =
     (case instructions this (inst_code instr) of
        Some _ \<Rightarrow> Inl CodeError
      | None \<Rightarrow> Inr (this\<lparr>
          instructions := (instructions this)(inst_code instr := Some instr),
          instruction_names := map_insert (instruction_names this) (inst_name instr) (inst_code instr)\<rparr>))"

definition add_instruction' ::
    "'f isa \<Rightarrow> uint8 \<Rightarrow> string \<Rightarrow> uint8 \<Rightarrow> bool \<Rightarrow> 'f \<Rightarrow> exn + 'f isa" where
  "add_instruction' this code name nregs has_inmediate func =
     add_instruction this \<lparr>inst_code = code, inst_name = name, inst_nregs = nregs,
       inst_has_inmediate = has_inmediate, inst_func = func\<rparr>"

definition remove_instruction :: "'f isa \<Rightarrow> uint8 \<Rightarrow> exn + 'f isa" where
  "remove_instruction this code =
     (case instructions this code of
        None \<Rightarrow> Inl CodeError
      | Some instr \<Rightarrow> Inr (this\<lparr>
          instruction_names := (instruction_names this)(inst_name instr := None),
          instructions := (instructions this)(code := None)\<rparr>))"

definition add_register :: "'f isa \<Rightarrow> uint8 \<Rightarrow> string \<Rightarrow> exn + 'f isa" where
  "add_register this code name =
     (case registers_map this code of
        Some _ \<Rightarrow> Inl CodeError
      | None \<Rightarrow> Inr (this\<lparr>
          registers_map := map_insert (registers_map this) code name,
          register_names := map_insert (register_names this) name code\<rparr>))"

definition remove_register :: "'f isa \<Rightarrow> uint8 \<Rightarrow> exn + 'f isa" where
  "remove_register this code =
     (case registers_map this code of
        None \<Rightarrow> Inl CodeError
      | Some name \<Rightarrow> Inr (this\<lparr>
          register_names := (register_names this)(name := None),
          registers_map := (registers_map this)(code := None)\<rparr>))"

definition add_interrupt :: "'f isa \<Rightarrow> interrupt_info \<Rightarrow> exn + 'f isa" where
  "add_interrupt this intr =
     (case interrupts_map this (intr_code intr) of
        Some _ \<Rightarrow> Inl CodeError
      | None \<Rightarrow> Inr (this\<lparr>
          interrupts_map := map_insert (interrupts_map this) (intr_code intr) intr,
          interrupt_names := map_insert (interrupt_names this) (intr_name intr) (intr_code intr)\<rparr>))"

definition add_interrupt' :: "'f isa \<Rightarrow> uint8 \<Rightarrow> string \<Rightarrow> bool \<Rightarrow> exn + 'f isa" where
  "add_interrupt' this code name thrown_by_inst =
     add_interrupt this \<lparr>intr_code = code, intr_name = name, intr_thrown_by_inst = thrown_by_inst\<rparr>"

definition remove_interrupt :: "'f isa \<Rightarrow> uint8 \<Rightarrow> exn + 'f isa" where
  "remove_interrupt this code =
     (case interrupts_map this code of
        None \<Rightarrow> Inl CodeError
      | Some intr \<Rightarrow> Inr (this\<lparr>
          interrupt_names := (interrupt_names this)(intr_name intr := None),
          interrupts_map := (interrupts_map this)(code := None)\<rparr>))"

section \<open>The contract of a table\<close>

text \<open>
  The three tables share a contract: an entry is added under a free code only, its name is
  entered unless the name is taken, and removing an entry removes both.  \<open>consistent\<close> says
  that the two directions are inverse to each other.
\<close>

locale code_table =
  fixes by_code :: "'t \<Rightarrow> uint8 \<Rightarrow> 'i option"
    and by_name :: "'t \<Rightarrow> string \<Rightarrow> uint8 option"
    and name_of :: "'i \<Rightarrow> string"
    and add :: "'t \<Rightarrow> uint8 \<Rightarrow> 'i \<Rightarrow> exn + 't"
    and remove :: "'t \<Rightarrow> uint8 \<Rightarrow> exn + 't"
    and valid :: "uint8 \<Rightarrow> 'i \<Rightarrow> bool"
  assumes add_free: "by_code t c = None \<Longrightarrow> valid c i \<Longrightarrow>
      \<exists>t'. add t c i = Inr t' \<and> by_code t' = (by_code t)(c \<mapsto> i) \<and>
        by_name t' = map_insert (by_name t) (name_of i) c"
    and add_used: "by_code t c = Some j \<Longrightarrow> valid c i \<Longrightarrow> add t c i = Inl CodeError"
    and remove_used: "by_code t c = Some i \<Longrightarrow>
      \<exists>t'. remove t c = Inr t' \<and> by_code t' = (by_code t)(c := None) \<and>
        by_name t' = (by_name t)(name_of i := None)"
    and remove_free: "by_code t c = None \<Longrightarrow> remove t c = Inl CodeError"
begin

definition consistent :: "'t \<Rightarrow> bool" where
  "consistent t \<longleftrightarrow>
     (\<forall>c i. by_code t c = Some i \<longrightarrow> by_name t (name_of i) = Some c) \<and>
     (\<forall>n c. by_name t n = Some c \<longrightarrow> (\<exists>i. by_code t c = Some i \<and> name_of i = n))"

lemma code_of_name: "consistent t \<Longrightarrow> by_code t c = Some i \<Longrightarrow> by_name t (name_of i) = Some c"
  by (simp add: consistent_def)

lemma name_of_code:
  "consistent t \<Longrightarrow> by_name t n = Some c \<Longrightarrow> \<exists>i. by_code t c = Some i \<and> name_of i = n"
  by (simp add: consistent_def)

lemma names_distinct:
  "consistent t \<Longrightarrow> by_code t c = Some i \<Longrightarrow> by_code t d = Some j \<Longrightarrow>
    name_of i = name_of j \<Longrightarrow> c = d"
  by (metis code_of_name option.inject)

lemma add_consistent:
  assumes "consistent t" and "by_code t c = None" and "by_name t (name_of i) = None" and "valid c i"
  obtains t' where "add t c i = Inr t'" "consistent t'"
    "by_code t' = (by_code t)(c \<mapsto> i)" "by_name t' = (by_name t)(name_of i \<mapsto> c)"
proof -
  obtain t' where t': "add t c i = Inr t'" "by_code t' = (by_code t)(c \<mapsto> i)"
    "by_name t' = (by_name t)(name_of i \<mapsto> c)"
    using add_free [OF assms(2,4)] assms(3) by auto
  moreover have "consistent t'"
    unfolding consistent_def
  proof (intro conjI allI impI)
    fix d j
    assume "by_code t' d = Some j"
    with t'(2) show "by_name t' (name_of j) = Some d"
      using code_of_name [OF assms(1)] assms(3) t'(3) by (fastforce split: if_splits)
  next
    fix n d
    assume "by_name t' n = Some d"
    with t'(3) show "\<exists>j. by_code t' d = Some j \<and> name_of j = n"
      using name_of_code [OF assms(1), of n d] assms(2) t'(2) by (auto split: if_splits)
  qed
  ultimately show thesis by (blast intro: that)
qed

lemma remove_consistent:
  assumes "consistent t" and "by_code t c = Some i"
  obtains t' where "remove t c = Inr t'" "consistent t'"
    "by_code t' = (by_code t)(c := None)" "by_name t' = (by_name t)(name_of i := None)"
proof -
  obtain t' where t': "remove t c = Inr t'" "by_code t' = (by_code t)(c := None)"
    "by_name t' = (by_name t)(name_of i := None)"
    using remove_used [OF assms(2)] by auto
  moreover have "consistent t'"
    unfolding consistent_def
  proof (intro conjI allI impI)
    fix d j
    assume "by_code t' d = Some j"
    with t'(2) have d: "d \<noteq> c" "by_code t d = Some j"
      by (auto split: if_splits)
    with assms names_distinct have "name_of j \<noteq> name_of i"
      by blast
    with d t'(3) show "by_name t' (name_of j) = Some d"
      using code_of_name [OF assms(1)] by simp
  next
    fix n d
    assume "by_name t' n = Some d"
    with t'(3) have n: "n \<noteq> name_of i" "by_name t n = Some d"
      by (auto split: if_splits)
    then obtain j where "by_code t d = Some j" "name_of j = n"
      using name_of_code [OF assms(1)] by blast
    with n assms(2) t'(2) show "\<exists>j. by_code t' d = Some j \<and> name_of j = n"
      by auto
  qed
  ultimately show thesis by (blast intro: that)
qed

text \<open>
  A second entry with a name in use is accepted, and removing it takes the name away from
  the first entry: the name table is only right while names are distinct.
\<close>

lemma duplicate_name_lost:
  assumes "consistent t" and "by_code t c = Some i" and "by_code t d = None"
    and "valid d j" and "name_of j = name_of i"
  shows "\<exists>t1 t2. add t d j = Inr t1 \<and> remove t1 d = Inr t2 \<and>
    by_code t2 c = Some i \<and> by_name t2 (name_of i) = None"
proof -
  obtain t1 where t1: "add t d j = Inr t1" "by_code t1 = (by_code t)(d \<mapsto> j)"
    "by_name t1 = map_insert (by_name t) (name_of j) d"
    using add_free [OF assms(3,4)] by auto
  obtain t2 where t2: "remove t1 d = Inr t2" "by_code t2 = (by_code t1)(d := None)"
    "by_name t2 = (by_name t1)(name_of j := None)"
    using remove_used [of t1 d j] t1 by auto
  from assms(2,3) have "c \<noteq> d" by auto
  with t1 t2 assms show ?thesis by auto
qed

text \<open>Adding a list of entries with distinct codes and distinct names never fails.\<close>

lemma add_list:
  assumes "consistent t" and "distinct (map fst xs)" and "distinct (map (name_of \<circ> snd) xs)"
    and "\<And>c i. (c, i) \<in> set xs \<Longrightarrow> valid c i \<and> by_code t c = None \<and> by_name t (name_of i) = None"
  shows "\<exists>t'. fold_attempt (\<lambda>t (c, i). add t c i) t xs = Inr t' \<and> consistent t' \<and>
    by_code t' = by_code t ++ map_of xs \<and>
    by_name t' = by_name t ++ map_of (map (\<lambda>(c, i). (name_of i, c)) xs)"
  using assms
proof (induction xs arbitrary: t)
  case (Cons x xs)
  obtain c i where x: "x = (c, i)" by fastforce
  with Cons.prems(4) have free: "valid c i" "by_code t c = None" "by_name t (name_of i) = None"
    by auto
  obtain t1 where t1: "add t c i = Inr t1" "consistent t1"
    "by_code t1 = (by_code t)(c \<mapsto> i)" "by_name t1 = (by_name t)(name_of i \<mapsto> c)"
    using add_consistent [OF Cons.prems(1) free(2,3,1)] .
  have "\<exists>t'. fold_attempt (\<lambda>t (c, i). add t c i) t1 xs = Inr t' \<and> consistent t' \<and>
      by_code t' = by_code t1 ++ map_of xs \<and>
      by_name t' = by_name t1 ++ map_of (map (\<lambda>(c, i). (name_of i, c)) xs)"
  proof (rule Cons.IH [OF t1(2)])
    fix d j
    assume "(d, j) \<in> set xs"
    with Cons.prems(2-4) x have "valid d j" "by_code t d = None" "by_name t (name_of j) = None"
      "d \<noteq> c" "name_of j \<noteq> name_of i"
      by (auto simp: image_iff)
    with t1 show "valid d j \<and> by_code t1 d = None \<and> by_name t1 (name_of j) = None"
      by simp
  qed (use Cons.prems in auto)
  moreover have "by_code t1 ++ map_of xs = by_code t ++ map_of (x # xs)"
    using Cons.prems(2) t1(3) x
    by (auto simp: fun_eq_iff map_add_def map_of_eq_None_iff image_iff split: option.splits)
  moreover have "by_name t1 ++ map_of (map (\<lambda>(c, i). (name_of i, c)) xs) =
      by_name t ++ map_of (map (\<lambda>(c, i). (name_of i, c)) (x # xs))"
  proof -
    have "map_of (map (\<lambda>(c, i). (name_of i, c)) xs) (name_of i) = None"
      unfolding map_of_eq_None_iff
      using Cons.prems(3) x by (auto simp: image_iff split: prod.splits)
    then show ?thesis
      using t1(4) x
      by (auto simp: fun_eq_iff map_add_def split: option.splits)
  qed
  ultimately have "\<exists>t'. fold_attempt (\<lambda>t (c, i). add t c i) t1 xs = Inr t' \<and> consistent t' \<and>
      by_code t' = by_code t ++ map_of (x # xs) \<and>
      by_name t' = by_name t ++ map_of (map (\<lambda>(c, i). (name_of i, c)) (x # xs))"
    by (simp only:)
  moreover have "fold_attempt (\<lambda>t (c, i). add t c i) t (x # xs) =
      fold_attempt (\<lambda>t (c, i). add t c i) t1 xs"
    by (simp add: x t1(1))
  ultimately show ?case
    by (simp only:)
qed simp

end

interpretation itab: code_table instructions instruction_names inst_name
    "\<lambda>t c i. add_instruction t i" remove_instruction "\<lambda>c i. inst_code i = c"
  by unfold_locales (auto simp: add_instruction_def remove_instruction_def)

interpretation rtab: code_table registers_map register_names "\<lambda>n. n"
    add_register remove_register "\<lambda>c n. True"
  by unfold_locales (auto simp: add_register_def remove_register_def)

interpretation xtab: code_table interrupts_map interrupt_names intr_name
    "\<lambda>t c i. add_interrupt t i" remove_interrupt "\<lambda>c i. intr_code i = c"
  by unfold_locales (auto simp: add_interrupt_def remove_interrupt_def)

end
