(* ===== verification/Memory.thy ===== *)
theory Memory
  imports Bytes
begin

text \<open>
  \<open>simpleworld/cpu/memory.cpp\<close>: a zero-initialised byte array read and written in words,
  half words and quarter words that are kept in big-endian order, with the bounds check of
  every access; and \<open>simpleworld/cpu/memory_file.cpp\<close>, which loads and saves such an array.
  The interface the CPU relies on is the locale \<open>word_store\<close>.
\<close>

section \<open>The class Memory\<close>

record memory =
  mem_size :: address
  mem_bytes :: "uint8 list"

text \<open>The class invariant: \<open>mem_size\<close> is the number of bytes allocated.\<close>

definition wf_memory :: "memory \<Rightarrow> bool" where
  "wf_memory m \<longleftrightarrow> length (mem_bytes m) = unat (mem_size m)"

definition empty_memory :: memory where
  "empty_memory = \<lparr>mem_size = 0, mem_bytes = []\<rparr>"

definition memory_resize :: "memory \<Rightarrow> address \<Rightarrow> memory" where
  "memory_resize m sz =
     (let limit = unat (min (mem_size m) sz)
      in \<lparr>mem_size = sz,
          mem_bytes = take limit (mem_bytes m) @ replicate (unat sz - limit) 0\<rparr>)"

definition memory_new :: "address \<Rightarrow> memory" where
  "memory_new sz = memory_resize empty_memory sz"

definition memory_from_data :: "uint8 list \<Rightarrow> address \<Rightarrow> memory" where
  "memory_from_data data sz =
     \<comment> \<open>\<open>data\<close> holds at least \<open>sz\<close> bytes\<close>
     (let m = memory_resize empty_memory sz
      in m\<lparr>mem_bytes := blit (mem_bytes m) 0 (take (unat sz) data)\<rparr>)"

definition memory_copy :: "memory \<Rightarrow> memory" where
  "memory_copy m =
     (let n = memory_resize empty_memory (mem_size m)
      in n\<lparr>mem_bytes := blit (mem_bytes n) 0 (take (unat (mem_size n)) (mem_bytes m))\<rparr>)"

definition memory_assign :: "memory \<Rightarrow> memory \<Rightarrow> memory" where
  "memory_assign this m =
     (let n = memory_resize this (mem_size m)
      in n\<lparr>mem_bytes := blit (mem_bytes n) 0 (take (unat (mem_size n)) (mem_bytes m))\<rparr>)"

text \<open>
  The bounds check is written once for the three widths.  \<open>sizeof\<close> has type \<open>size_t\<close>, which
  is wider than \<open>Address\<close>, so the sum in the check does not wrap.
\<close>

definition out_of_range :: "memory \<Rightarrow> address \<Rightarrow> nat \<Rightarrow> bool" where
  "out_of_range m address sizeof \<longleftrightarrow>
     address > mem_size m \<or> unat address + sizeof > unat (mem_size m)"

definition get_word :: "endian \<Rightarrow> memory \<Rightarrow> address \<Rightarrow> bool \<Rightarrow> exn + cpu_word" where
  "get_word e m address system_endian =
     (if out_of_range m address 4 then Inl (MemoryError address)
      else let w = host_word e (chunk (mem_bytes m) (unat address) 4)
           in case e of
                BigEndian \<Rightarrow> Inr w
              | LittleEndian \<Rightarrow> Inr (if system_endian then change_byte_order w else w))"

definition get_halfword :: "endian \<Rightarrow> memory \<Rightarrow> address \<Rightarrow> bool \<Rightarrow> exn + half_word" where
  "get_halfword e m address system_endian =
     (if out_of_range m address 2 then Inl (MemoryError address)
      else let w = host_half e (chunk (mem_bytes m) (unat address) 2)
           in case e of
                BigEndian \<Rightarrow> Inr w
              | LittleEndian \<Rightarrow> Inr (if system_endian then change_byte_order_h w else w))"

definition get_quarterword :: "memory \<Rightarrow> address \<Rightarrow> exn + quarter_word" where
  "get_quarterword m address =
     (if out_of_range m address 1 then Inl (MemoryError address)
      else Inr (mem_bytes m ! unat address))"

definition set_word :: "endian \<Rightarrow> memory \<Rightarrow> address \<Rightarrow> cpu_word \<Rightarrow> bool \<Rightarrow> exn + memory" where
  "set_word e m address value system_endian =
     (if out_of_range m address 4 then Inl (MemoryError address)
      else let w = (case e of
                BigEndian \<Rightarrow> value
              | LittleEndian \<Rightarrow> if system_endian then change_byte_order value else value)
           in Inr (m\<lparr>mem_bytes := blit (mem_bytes m) (unat address) (host_bytes e w)\<rparr>))"

definition set_halfword :: "endian \<Rightarrow> memory \<Rightarrow> address \<Rightarrow> half_word \<Rightarrow> bool \<Rightarrow> exn + memory" where
  "set_halfword e m address value system_endian =
     (if out_of_range m address 2 then Inl (MemoryError address)
      else let w = (case e of
                BigEndian \<Rightarrow> value
              | LittleEndian \<Rightarrow> if system_endian then change_byte_order_h value else value)
           in Inr (m\<lparr>mem_bytes := blit (mem_bytes m) (unat address) (host_bytes_h e w)\<rparr>))"

definition set_quarterword :: "memory \<Rightarrow> address \<Rightarrow> quarter_word \<Rightarrow> exn + memory" where
  "set_quarterword m address value =
     (if out_of_range m address 1 then Inl (MemoryError address)
      else Inr (m\<lparr>mem_bytes := (mem_bytes m)[unat address := value]\<rparr>))"

section \<open>The interface of a bounds-checked store\<close>

text \<open>
  What a client of a memory relies on, for accesses of a fixed width: an access succeeds
  exactly when it lies inside the store, a failed access reports its address, a store keeps
  the size and the invariant, and a load sees the last store to its place and no store to a
  disjoint place.
\<close>

locale word_store =
  fixes width :: nat
    and inv :: "'m \<Rightarrow> bool"
    and size_of :: "'m \<Rightarrow> nat"
    and get :: "'m \<Rightarrow> address \<Rightarrow> exn + 'v"
    and set :: "'m \<Rightarrow> address \<Rightarrow> 'v \<Rightarrow> exn + 'm"
  assumes size_bound: "inv m \<Longrightarrow> size_of m < 2 ^ 32"
    and get_in: "inv m \<Longrightarrow> unat a + width \<le> size_of m \<Longrightarrow> \<exists>v. get m a = Inr v"
    and get_out: "inv m \<Longrightarrow> \<not> unat a + width \<le> size_of m \<Longrightarrow> get m a = Inl (MemoryError a)"
    and set_in: "inv m \<Longrightarrow> unat a + width \<le> size_of m \<Longrightarrow>
      \<exists>m'. set m a v = Inr m' \<and> inv m' \<and> size_of m' = size_of m"
    and set_out: "inv m \<Longrightarrow> \<not> unat a + width \<le> size_of m \<Longrightarrow> set m a v = Inl (MemoryError a)"
    and get_set_same: "inv m \<Longrightarrow> set m a v = Inr m' \<Longrightarrow> get m' a = Inr v"
    and get_set_other: "inv m \<Longrightarrow> set m a v = Inr m' \<Longrightarrow>
      unat b + width \<le> unat a \<or> unat a + width \<le> unat b \<Longrightarrow> get m' b = get m b"
begin

lemma set_InrD:
  assumes "inv m" and "set m a v = Inr m'"
  shows "inv m' \<and> size_of m' = size_of m \<and> unat a + width \<le> size_of m"
  using assms set_in [of m a v] set_out [of m a v]
  by (cases "unat a + width \<le> size_of m") auto

lemma set_Inr_iff: "inv m \<Longrightarrow> (\<exists>m'. set m a v = Inr m') \<longleftrightarrow> unat a + width \<le> size_of m"
  using set_InrD set_in by blast

lemma get_Inr_iff: "inv m \<Longrightarrow> (\<exists>v. get m a = Inr v) \<longleftrightarrow> unat a + width \<le> size_of m"
  by (metis get_in get_out sum.distinct(1))

text \<open>Stores to ascending addresses, as a stack or an array is filled.\<close>

fun put_all :: "'m \<Rightarrow> address \<Rightarrow> 'v list \<Rightarrow> exn + 'm" where
  "put_all m a [] = Inr m"
| "put_all m a (v # vs) =
     (case set m a v of Inl e \<Rightarrow> Inl e | Inr m' \<Rightarrow> put_all m' (a + of_nat width) vs)"

lemma put_all_keeps:
  "inv m \<Longrightarrow> put_all m a vs = Inr m' \<Longrightarrow> inv m' \<and> size_of m' = size_of m"
proof (induction vs arbitrary: m a)
  case (Cons v vs)
  then obtain n where n: "set m a v = Inr n" and rest: "put_all n (a + of_nat width) vs = Inr m'"
    by (auto split: sum.splits)
  with Cons.prems(1) have "inv n" and "size_of n = size_of m"
    by (auto dest: set_InrD)
  with Cons.IH rest show ?case by auto
qed simp

lemma next_address:
  fixes a :: address
  assumes "inv m" and "unat a + width \<le> size_of m"
  shows "unat (a + of_nat width) = unat a + width"
  using assms size_bound [of m] by (intro unat_add_le) simp

lemma put_all_total:
  assumes "inv m" and "unat a + width * length vs \<le> size_of m"
  shows "\<exists>m'. put_all m a vs = Inr m'"
  using assms
proof (induction vs arbitrary: m a)
  case (Cons v vs)
  then have in_range: "unat a + width \<le> size_of m"
    by simp
  with Cons.prems(1) obtain n where n: "set m a v = Inr n" "inv n" "size_of n = size_of m"
    using set_in by blast
  have "unat (a + of_nat width) + width * length vs \<le> size_of n"
    using Cons.prems in_range n by (simp add: next_address)
  with Cons.IH [OF n(2)] n(1) show ?case by auto
qed simp

text \<open>Stores above an address leave what lies below it alone.\<close>

lemma put_all_below:
  assumes "inv m" and "put_all m a vs = Inr m'" and "unat b + width \<le> unat a"
  shows "get m' b = get m b"
  using assms
proof (induction vs arbitrary: m a)
  case (Cons v vs)
  then obtain n where n: "set m a v = Inr n" and rest: "put_all n (a + of_nat width) vs = Inr m'"
    by (auto split: sum.splits)
  from Cons.prems(1) n have inv: "inv n" "unat a + width \<le> size_of m"
    by (auto dest: set_InrD)
  have "unat b + width \<le> unat (a + of_nat width)"
    using Cons.prems inv by (simp add: next_address)
  with Cons.IH [OF inv(1) rest] have "get m' b = get n b" .
  also have "\<dots> = get m b"
    using get_set_other [OF Cons.prems(1) n] Cons.prems(3) by blast
  finally show ?case .
qed simp

text \<open>What was put is read back, element by element.\<close>

lemma get_put_all:
  assumes "inv m" and "put_all m a vs = Inr m'" and "i < length vs"
  shows "get m' (a + of_nat (width * i)) = Inr (vs ! i)"
  using assms
proof (induction vs arbitrary: m a i)
  case (Cons v vs)
  then obtain n where n: "set m a v = Inr n" and rest: "put_all n (a + of_nat width) vs = Inr m'"
    by (auto split: sum.splits)
  from Cons.prems(1) n have inv: "inv n" "unat a + width \<le> size_of m"
    by (auto dest: set_InrD)
  show ?case
  proof (cases i)
    case 0
    have "get m' a = get n a"
      using put_all_below [OF inv(1) rest, of a] Cons.prems(1) inv(2) by (simp add: next_address)
    with n Cons.prems(1) 0 show ?thesis
      by (simp add: get_set_same)
  next
    case (Suc j)
    have "get m' (a + of_nat width + of_nat (width * j)) = Inr (vs ! j)"
      using Cons.IH [OF inv(1) rest] Cons.prems(3) Suc by simp
    then show ?thesis
      using Suc by (simp add: algebra_simps)
  qed
qed simp

end

section \<open>Memory provides the interface\<close>

lemma in_range_iff: "\<not> out_of_range m a n \<longleftrightarrow> unat a + n \<le> unat (mem_size m)"
  by (auto simp: out_of_range_def word_less_nat_alt)

lemma out_of_range_iff: "out_of_range m a n \<longleftrightarrow> \<not> unat a + n \<le> unat (mem_size m)"
  using in_range_iff by blast

text \<open>The accesses with \<open>system_endian\<close> set do not depend on the byte order of the host.\<close>

lemma get_word_system:
  assumes "wf_memory m"
  shows "get_word e m a True =
    (if unat a + 4 \<le> unat (mem_size m) then Inr (be_word (chunk (mem_bytes m) (unat a) 4))
     else Inl (MemoryError a))"
  using assms
  by (cases e) (auto simp: get_word_def out_of_range_iff wf_memory_def Let_def host_BE)

lemma get_word_raw:
  "get_word e m a False =
    (if unat a + 4 \<le> unat (mem_size m) then Inr (host_word e (chunk (mem_bytes m) (unat a) 4))
     else Inl (MemoryError a))"
  by (cases e) (auto simp: get_word_def out_of_range_iff Let_def)

lemma get_halfword_system:
  assumes "wf_memory m"
  shows "get_halfword e m a True =
    (if unat a + 2 \<le> unat (mem_size m) then Inr (be_half (chunk (mem_bytes m) (unat a) 2))
     else Inl (MemoryError a))"
  using assms
  by (cases e) (auto simp: get_halfword_def out_of_range_iff wf_memory_def Let_def host_BE)

lemma set_word_system:
  "set_word e m a v True =
    (if unat a + 4 \<le> unat (mem_size m)
     then Inr (m\<lparr>mem_bytes := blit (mem_bytes m) (unat a) (be_bytes v)\<rparr>)
     else Inl (MemoryError a))"
  by (cases e) (auto simp: set_word_def out_of_range_iff Let_def host_BE)

lemma set_word_raw:
  "set_word e m a v False =
    (if unat a + 4 \<le> unat (mem_size m)
     then Inr (m\<lparr>mem_bytes := blit (mem_bytes m) (unat a) (host_bytes e v)\<rparr>)
     else Inl (MemoryError a))"
  by (cases e) (auto simp: set_word_def out_of_range_iff Let_def)

lemma set_halfword_system:
  "set_halfword e m a v True =
    (if unat a + 2 \<le> unat (mem_size m)
     then Inr (m\<lparr>mem_bytes := blit (mem_bytes m) (unat a) (be_bytes_h v)\<rparr>)
     else Inl (MemoryError a))"
  by (cases e) (auto simp: set_halfword_def out_of_range_iff Let_def host_BE)

lemmas memory_access = get_word_system get_word_raw get_halfword_system
  set_word_system set_word_raw set_halfword_system

lemma wf_memory_blit [simp]:
  "wf_memory m \<Longrightarrow> unat a + length bs \<le> unat (mem_size m) \<Longrightarrow>
    wf_memory (m\<lparr>mem_bytes := blit (mem_bytes m) (unat a) bs\<rparr>)"
  by (simp add: wf_memory_def)

lemma unat_size_bound [simp]: "unat (mem_size m) < 4294967296"
  using unsigned_less [of "mem_size m"] by simp

interpretation mw: word_store 4 wf_memory "\<lambda>m. unat (mem_size m)"
    "\<lambda>m a. get_word e m a True" "\<lambda>m a v. set_word e m a v True"
  for e
  by unfold_locales
    (auto simp: memory_access chunk_blit_other wf_memory_def split: if_splits)

interpretation mh: word_store 2 wf_memory "\<lambda>m. unat (mem_size m)"
    "\<lambda>m a. get_halfword e m a True" "\<lambda>m a v. set_halfword e m a v True"
  for e
  by unfold_locales
    (auto simp: memory_access chunk_blit_other wf_memory_def split: if_splits)

interpretation mq: word_store 1 wf_memory "\<lambda>m. unat (mem_size m)" get_quarterword set_quarterword
  by unfold_locales
    (auto simp: get_quarterword_def set_quarterword_def out_of_range_iff wf_memory_def
      nth_list_update split: if_splits)

interpretation mw_raw: word_store 4 wf_memory "\<lambda>m. unat (mem_size m)"
    "\<lambda>m a. get_word e m a False" "\<lambda>m a v. set_word e m a v False"
  for e
  by unfold_locales
    (auto simp: memory_access chunk_blit_other wf_memory_def split: if_splits)

section \<open>Allocation and copying\<close>

lemma memory_resize_size [simp]: "mem_size (memory_resize m sz) = sz"
  by (simp add: memory_resize_def Let_def)

lemma unat_min_le: "unat (min a b) = min (unat a) (unat (b :: 'a::len word))"
  by (simp add: min_def word_le_nat_alt)

lemma wf_memory_resize [simp]: "wf_memory m \<Longrightarrow> wf_memory (memory_resize m sz)"
  by (simp add: wf_memory_def memory_resize_def Let_def unat_min_le)

lemma memory_resize_bytes:
  assumes "wf_memory m" and "k < unat sz"
  shows "mem_bytes (memory_resize m sz) ! k =
    (if k < unat (mem_size m) then mem_bytes m ! k else 0)"
  using assms
  by (auto simp: wf_memory_def memory_resize_def Let_def unat_min_le nth_append)

lemma wf_empty_memory [simp]: "wf_memory empty_memory"
  by (simp add: wf_memory_def empty_memory_def)

lemma wf_memory_new [simp]: "wf_memory (memory_new sz)"
  by (simp add: memory_new_def)

lemma memory_new_size [simp]: "mem_size (memory_new sz) = sz"
  by (simp add: memory_new_def)

lemma memory_new_bytes: "mem_bytes (memory_new sz) = replicate (unat sz) 0"
  by (simp add: memory_new_def memory_resize_def empty_memory_def Let_def)

lemma memory_copy_id: "wf_memory m \<Longrightarrow> memory_copy m = m"
  by (cases m) (simp add: memory_copy_def wf_memory_def Let_def blit_def memory_resize_def
      empty_memory_def)

lemma memory_assign_eq: "wf_memory m \<Longrightarrow> wf_memory this \<Longrightarrow> memory_assign this m = m"
  by (cases m) (simp add: memory_assign_def wf_memory_def Let_def blit_def memory_resize_def
      unat_min_le)

lemma memory_from_data_bytes:
  "unat sz \<le> length data \<Longrightarrow>
    memory_from_data data sz = \<lparr>mem_size = sz, mem_bytes = take (unat sz) data\<rparr>"
  by (simp add: memory_from_data_def memory_resize_def empty_memory_def Let_def blit_def)

lemma wf_memory_set_word: "wf_memory m \<Longrightarrow> set_word e m a v b = Inr m' \<Longrightarrow> wf_memory m'"
  by (cases b) (auto dest: mw.set_InrD mw_raw.set_InrD)

lemma wf_memory_set_halfword: "wf_memory m \<Longrightarrow> set_halfword e m a v True = Inr m' \<Longrightarrow> wf_memory m'"
  by (auto dest: mh.set_InrD)

lemma wf_memory_set_quarterword: "wf_memory m \<Longrightarrow> set_quarterword m a v = Inr m' \<Longrightarrow> wf_memory m'"
  by (auto dest: mq.set_InrD)

section \<open>The class MemoryFile\<close>

text \<open>
  The files are the argument \<open>fs\<close> (\<open>None\<close>: the file cannot be opened).  The stream reads
  and writes whole words in the byte order of the host, and the words are moved with
  \<open>system_endian\<close> off on a little-endian host.
\<close>

function load_words :: "endian \<Rightarrow> uint8 list \<Rightarrow> nat \<Rightarrow> (memory, unit) prog" where
  "load_words e bs i =
     (if length bs < 4 then ret ()
      else andthen (updating (\<lambda>m. set_word e m (of_nat (i * 4)) (host_word e (take 4 bs))
                                 (e = BigEndian)))
             (\<lambda>_. load_words e (drop 4 bs) (i + 1)))"
  by pat_completeness auto
termination
  by (relation "measure (\<lambda>(e, bs, i). length bs)") auto

declare load_words.simps [simp del]

definition load_file :: "endian \<Rightarrow> (string \<rightharpoonup> uint8 list) \<Rightarrow> string \<Rightarrow> (memory, unit) prog" where
  "load_file e fs filename =
     (case fs filename of
        None \<Rightarrow> throw IOError
      | Some contents \<Rightarrow>
          if length contents mod 4 \<noteq> 0 then throw IOError
          else andthen (updating (\<lambda>m. Inr (memory_resize m (of_nat (length contents)))))
                 (\<lambda>_. load_words e contents 0))"

text \<open>
  The output file is the state; \<open>write_ok i\<close> says whether the stream is still good after the
  word at \<open>i\<close> was written.
\<close>

function save_words ::
    "endian \<Rightarrow> memory \<Rightarrow> (nat \<Rightarrow> bool) \<Rightarrow> nat \<Rightarrow> (uint8 list, unit) prog" where
  "save_words e m write_ok i =
     (if i < unat (mem_size m)
      then case get_word e m (of_nat i) (e = BigEndian) of
             Inl x \<Rightarrow> throw x
           | Inr instruction \<Rightarrow>
               andthen (updating (\<lambda>out. Inr (out @ host_bytes e instruction)))
                 (\<lambda>_. if write_ok i then save_words e m write_ok (i + 4) else throw IOError)
      else ret ())"
  by pat_completeness auto
termination
  by (relation "measure (\<lambda>(e, m, ok, i). unat (mem_size m) - i)") auto

declare save_words.simps [simp del]

definition save_file ::
    "endian \<Rightarrow> (string \<Rightarrow> bool) \<Rightarrow> (nat \<Rightarrow> bool) \<Rightarrow> memory \<Rightarrow> string \<Rightarrow>
      (string \<rightharpoonup> uint8 list, unit) prog" where
  "save_file e writable write_ok m filename =
     (if writable filename
      then (\<lambda>fs. case save_words e m write_ok 0 [] of
                  (r, out) \<Rightarrow> (r, fs(filename \<mapsto> out)))
      else throw IOError)"

text \<open>Moving a word in the order of the host moves its four bytes unchanged.\<close>

lemma get_word_host:
  "get_word e m a (e = BigEndian) =
    (if unat a + 4 \<le> unat (mem_size m) then Inr (host_word e (chunk (mem_bytes m) (unat a) 4))
     else Inl (MemoryError a))"
  by (cases e) (simp_all add: get_word_raw, simp add: get_word_def out_of_range_iff)

lemma set_word_host:
  "set_word e m a v (e = BigEndian) =
    (if unat a + 4 \<le> unat (mem_size m)
     then Inr (m\<lparr>mem_bytes := blit (mem_bytes m) (unat a) (host_bytes e v)\<rparr>)
     else Inl (MemoryError a))"
  by (cases e) (simp_all add: set_word_raw, simp add: set_word_def out_of_range_iff)

lemma unat_of_nat_address: "n < 4294967296 \<Longrightarrow> unat (of_nat n :: address) = n"
  by (simp add: unsigned_of_nat take_bit_nat_eq_self_iff)

lemma chunk_append_drop: "i + n \<le> length xs \<Longrightarrow> chunk xs i n @ drop (i + n) xs = drop i xs"
  by (metis add.commute append_take_drop_id chunk_def drop_drop)

lemma save_words_ok:
  assumes "wf_memory m" and "unat (mem_size m) mod 4 = 0" and "i mod 4 = 0"
    and "\<And>i. write_ok i"
  shows "save_words e m write_ok i out = (Inr (), out @ drop i (mem_bytes m))"
  using assms
proof (induction e m write_ok i arbitrary: out rule: save_words.induct)
  case (1 e m write_ok i)
  show ?case
  proof (cases "i < unat (mem_size m)")
    case True
    with "1.prems" have fits: "i + 4 \<le> unat (mem_size m)"
      by presburger
    have addr: "unat (of_nat i :: address) = i"
      by (rule unat_of_nat_address) (use True unat_size_bound [of m] in linarith)
    have "save_words e m write_ok (i + 4) (out @ chunk (mem_bytes m) i 4) =
        (Inr (), (out @ chunk (mem_bytes m) i 4) @ drop (i + 4) (mem_bytes m))"
      by (rule "1.IH") (use True fits addr "1.prems" in
          \<open>auto simp: get_word_host\<close>)
    with True fits addr "1.prems"(1-3) "1.prems"(4) [of i] show ?thesis
      by (simp add: save_words.simps [of e m write_ok i] get_word_host wf_memory_def
          chunk_append_drop)
  next
    case False
    with "1.prems"(1) show ?thesis
      by (simp add: save_words.simps [of e m write_ok i] wf_memory_def)
  qed
qed

lemma load_words_ok:
  assumes "wf_memory m" and "length bs mod 4 = 0"
    and "i * 4 + length bs \<le> unat (mem_size m)"
  shows "load_words e bs i m =
    (Inr (), m\<lparr>mem_bytes := blit (mem_bytes m) (i * 4) bs\<rparr>)"
  using assms
proof (induction e bs i arbitrary: m rule: load_words.induct)
  case (1 e bs i)
  show ?case
  proof (cases "length bs < 4")
    case True
    with "1.prems"(2) have "bs = []"
      by auto
    then show ?thesis
      by (simp add: load_words.simps [of e "[]" i] blit_def)
  next
    case False
    let ?m = "m\<lparr>mem_bytes := blit (mem_bytes m) (i * 4) (take 4 bs)\<rparr>"
    have addr: "unat (of_nat (i * 4) :: address) = i * 4"
      by (rule unat_of_nat_address)
        (use "1.prems"(3) unat_size_bound [of m] False in linarith)
    have step: "set_word e m (of_nat (i * 4)) (host_word e (take 4 bs)) (e = BigEndian) = Inr ?m"
      using "1.prems"(3) False addr by (simp add: set_word_host del: of_nat_mult)
    have "wf_memory ?m"
      using "1.prems" False by (simp add: wf_memory_def)
    then have "load_words e (drop 4 bs) (i + 1) ?m =
        (Inr (), ?m\<lparr>mem_bytes := blit (mem_bytes ?m) ((i + 1) * 4) (drop 4 bs)\<rparr>)"
      by (intro "1.IH") (use False "1.prems" in \<open>auto simp: mod_if [of "length bs"]\<close>)
    moreover have "blit (mem_bytes ?m) ((i + 1) * 4) (drop 4 bs) = blit (mem_bytes m) (i * 4) bs"
      using "1.prems" False
      by (intro nth_equalityI) (auto simp: nth_blit wf_memory_def)
    ultimately show ?thesis
      using False step by (simp add: load_words.simps [of e bs i] del: of_nat_mult)
  qed
qed

lemma load_file_contents:
  assumes "wf_memory m" and "fs f = Some bs" and "length bs mod 4 = 0" and "length bs < 2 ^ 32"
  shows "load_file e fs f m = (Inr (), \<lparr>mem_size = of_nat (length bs), mem_bytes = bs\<rparr>)"
proof -
  let ?m = "memory_resize m (of_nat (length bs))"
  have len: "unat (of_nat (length bs) :: address) = length bs"
    by (rule unat_of_nat_address) (use assms(4) in simp)
  have "load_words e bs 0 ?m = (Inr (), ?m\<lparr>mem_bytes := blit (mem_bytes ?m) (0 * 4) bs\<rparr>)"
    by (rule load_words_ok) (use assms len in \<open>simp_all\<close>)
  moreover have "length (mem_bytes ?m) = length bs"
    using wf_memory_resize [OF assms(1)] len unfolding wf_memory_def by simp
  then have "?m\<lparr>mem_bytes := blit (mem_bytes ?m) (0 * 4) bs\<rparr> =
      \<lparr>mem_size = of_nat (length bs), mem_bytes = bs\<rparr>"
    by (cases ?m) (use memory_resize_size [of m "of_nat (length bs)"] in \<open>auto simp: blit_def\<close>)
  ultimately show ?thesis
    using assms by (simp add: load_file_def)
qed

lemma save_file_contents:
  assumes "wf_memory m" and "unat (mem_size m) mod 4 = 0" and "writable f"
    and "\<And>i. write_ok i"
  shows "save_file e writable write_ok m f fs = (Inr (), fs(f \<mapsto> mem_bytes m))"
  using assms by (simp add: save_file_def save_words_ok)

section \<open>Properties\<close>

text \<open>
  C27: a word stored on one host and loaded on any other is the same word, every disjoint word
  is unchanged, and the store keeps the size and the representation of the memory.
\<close>

theorem stored_word_is_loaded:
  assumes "wf_memory m" and "set_word e m a v True = Inr m'"
  shows "get_word e' m' a True = Inr v \<and> wf_memory m' \<and> mem_size m' = mem_size m \<and>
    (\<forall>b. unat b + 4 \<le> unat a \<or> unat a + 4 \<le> unat b \<longrightarrow>
       get_word e' m' b True = get_word e' m b True)"
proof -
  have "set_word e' m a v True = Inr m'"
    using assms(2) by (simp add: set_word_system)
  with mw.get_set_same [OF assms(1)] mw.get_set_other [OF assms(1)] mw.set_InrD [OF assms(1)]
  show ?thesis
    by (metis word_unat_eq_iff)
qed

theorem stored_word_is_loaded_witness:
  "\<exists>m'. set_word LittleEndian (memory_new 8) 4 7 True = Inr m' \<and>
     get_word BigEndian m' 4 True = Inr 7 \<and>
     get_word BigEndian m' 0 True = get_word BigEndian (memory_new 8) 0 True"
proof -
  obtain m' where "set_word LittleEndian (memory_new 8) 4 7 True = Inr m'"
    by (simp add: set_word_system)
  with stored_word_is_loaded [of "memory_new 8" LittleEndian 4 7 m' BigEndian] show ?thesis
    by simp
qed

text \<open>
  An access at any of the three widths succeeds exactly when all of its bytes lie inside
  the memory; a failing access throws the \<open>MemoryError\<close> of its address and changes nothing.
\<close>

theorem access_in_bounds:
  assumes "wf_memory m"
  shows "(case get_word e m a b of Inl x \<Rightarrow> \<not> unat a + 4 \<le> unat (mem_size m) \<and> x = MemoryError a
      | Inr _ \<Rightarrow> unat a + 4 \<le> unat (mem_size m)) \<and>
    (case get_halfword e m a b of Inl x \<Rightarrow> \<not> unat a + 2 \<le> unat (mem_size m) \<and> x = MemoryError a
      | Inr _ \<Rightarrow> unat a + 2 \<le> unat (mem_size m)) \<and>
    (case get_quarterword m a of Inl x \<Rightarrow> \<not> unat a + 1 \<le> unat (mem_size m) \<and> x = MemoryError a
      | Inr _ \<Rightarrow> unat a + 1 \<le> unat (mem_size m)) \<and>
    (case set_word e m a w b of Inl x \<Rightarrow> \<not> unat a + 4 \<le> unat (mem_size m) \<and> x = MemoryError a
      | Inr m' \<Rightarrow> unat a + 4 \<le> unat (mem_size m) \<and> wf_memory m') \<and>
    (case set_halfword e m a h b of Inl x \<Rightarrow> \<not> unat a + 2 \<le> unat (mem_size m) \<and> x = MemoryError a
      | Inr m' \<Rightarrow> unat a + 2 \<le> unat (mem_size m) \<and> wf_memory m') \<and>
    (case set_quarterword m a q of Inl x \<Rightarrow> \<not> unat a + 1 \<le> unat (mem_size m) \<and> x = MemoryError a
      | Inr m' \<Rightarrow> unat a + 1 \<le> unat (mem_size m) \<and> wf_memory m')"
  using assms
  by (cases e; simp add: get_word_def get_halfword_def get_quarterword_def set_word_def
      set_halfword_def set_quarterword_def out_of_range_iff Let_def wf_memory_def)

theorem access_in_bounds_witness:
  "case get_word BigEndian (memory_new 8) 5 True of Inl x \<Rightarrow> x = MemoryError 5 | Inr _ \<Rightarrow> False"
  using access_in_bounds [where m = "memory_new 8" and e = BigEndian and a = 5 and b = True,
    OF wf_memory_new, THEN conjunct1]
  by (simp split: sum.splits)

text \<open>
  Saving a memory to a file and loading that file, on the same or another host, yields
  the memory again, provided its size is a whole number of words and the file system works.
\<close>

theorem save_load_roundtrip:
  assumes "wf_memory m" and "unat (mem_size m) mod 4 = 0" and "writable f"
    and "\<forall>i. write_ok i" and "wf_memory m0"
  shows "\<exists>fs'. save_file e writable write_ok m f fs = (Inr (), fs') \<and>
    load_file e' fs' f m0 = (Inr (), m)"
proof (intro exI conjI)
  show "save_file e writable write_ok m f fs = (Inr (), fs(f \<mapsto> mem_bytes m))"
    using assms by (intro save_file_contents) simp_all
  have len: "length (mem_bytes m) = unat (mem_size m)"
    using assms(1) by (simp add: wf_memory_def)
  have "load_file e' (fs(f \<mapsto> mem_bytes m)) f m0 =
      (Inr (), \<lparr>mem_size = of_nat (length (mem_bytes m)), mem_bytes = mem_bytes m\<rparr>)"
    by (rule load_file_contents) (use assms len unat_size_bound [of m] in simp_all)
  then show "load_file e' (fs(f \<mapsto> mem_bytes m)) f m0 = (Inr (), m)"
    using len by simp
qed

theorem save_load_roundtrip_witness:
  "\<exists>fs'. save_file LittleEndian (\<lambda>_. True) (\<lambda>_. True) (memory_new 8) ''a'' Map.empty = (Inr (), fs') \<and>
    load_file BigEndian fs' ''a'' (memory_new 0) = (Inr (), memory_new 8)"
  by (rule save_load_roundtrip) simp_all

end
