(* ===== verification/CPU.thy ===== *)
theory CPU
  imports ISA Memory
begin

text \<open>
  \<open>simpleworld/cpu/cpu.cpp\<close>: the register file with its windows, memory access, the
  dispatch of interrupts, and the instruction cycle.  The table of operations is an
  argument (\<open>isa_\<close> in the class); the virtual method \<open>interrupt\<close> and the byte order of the
  host are the fields of \<open>cpu_class\<close>, so that a derived class can override the method.
\<close>

section \<open>State\<close>

record cpu_state =
  cpu_registers :: memory
  cpu_memory :: memory
  cpu_running :: bool

record 'z cpu_class =
  host :: endian
  vinterrupt :: "uint8 \<Rightarrow> cpu_word \<Rightarrow> cpu_word \<Rightarrow> ('z cpu_state_scheme, unit) prog"

type_synonym 'z operation =
  "'z cpu_class \<Rightarrow> instruction \<Rightarrow> ('z cpu_state_scheme, update) prog"

type_synonym 'z cpu_isa = "'z operation isa"

section \<open>The constants of isa.hpp\<close>

abbreviation GLOBAL_REGISTERS :: nat where "GLOBAL_REGISTERS \<equiv> 8"
abbreviation REGISTERS_PER_WINDOW :: nat where "REGISTERS_PER_WINDOW \<equiv> 8"
abbreviation REGISTER_WINDOWS :: nat where "REGISTER_WINDOWS \<equiv> 16"

definition TOTAL_REGISTERS :: nat where
  "TOTAL_REGISTERS = GLOBAL_REGISTERS + REGISTERS_PER_WINDOW * REGISTER_WINDOWS"

abbreviation REGISTER_WC :: uint8 where "REGISTER_WC \<equiv> 0"
abbreviation REGISTER_PC :: uint8 where "REGISTER_PC \<equiv> 1"
abbreviation REGISTER_SP :: uint8 where "REGISTER_SP \<equiv> 2"
abbreviation REGISTER_IP :: uint8 where "REGISTER_IP \<equiv> 3"
abbreviation REGISTER_G0 :: uint8 where "REGISTER_G0 \<equiv> 4"
abbreviation REGISTER_G1 :: uint8 where "REGISTER_G1 \<equiv> 5"
abbreviation REGISTER_G2 :: uint8 where "REGISTER_G2 \<equiv> 6"
abbreviation REGISTER_G3 :: uint8 where "REGISTER_G3 \<equiv> 7"
abbreviation REGISTER_LR :: uint8 where "REGISTER_LR \<equiv> 8"
abbreviation REGISTER_FP :: uint8 where "REGISTER_FP \<equiv> 9"

abbreviation INTERRUPT_TIMER :: uint8 where "INTERRUPT_TIMER \<equiv> 0"
abbreviation INTERRUPT_SOFTWARE :: uint8 where "INTERRUPT_SOFTWARE \<equiv> 1"
abbreviation INTERRUPT_INSTRUCTION :: uint8 where "INTERRUPT_INSTRUCTION \<equiv> 2"
abbreviation INTERRUPT_MEMORY :: uint8 where "INTERRUPT_MEMORY \<equiv> 3"
abbreviation INTERRUPT_DIVISION :: uint8 where "INTERRUPT_DIVISION \<equiv> 4"

text \<open>The macro \<open>ADDRESS(n)\<close> of \<open>cpu.hpp\<close>: the address of the n-th word.\<close>

definition ADDRESS :: "uint8 \<Rightarrow> address" where
  "ADDRESS n = ucast n * 4"

section \<open>Construction\<close>

definition cpu_new :: "memory \<Rightarrow> memory \<Rightarrow> cpu_state" where
  "cpu_new registers mem =
     (let min_size = of_nat (TOTAL_REGISTERS * 4) :: address
      in \<lparr>cpu_registers = (if mem_size registers < min_size
                           then memory_resize registers min_size else registers),
          cpu_memory = mem, cpu_running = True\<rparr>)"

section \<open>Registers and memory\<close>

text \<open>Access to a physical register and to the memory object.\<close>

definition read_register :: "endian \<Rightarrow> uint8 \<Rightarrow> bool \<Rightarrow> ('z cpu_state_scheme, cpu_word) prog" where
  "read_register e reg system_endian =
     reading (\<lambda>c. get_word e (cpu_registers c) (ADDRESS reg) system_endian)"

definition write_register ::
    "endian \<Rightarrow> uint8 \<Rightarrow> cpu_word \<Rightarrow> bool \<Rightarrow> ('z cpu_state_scheme, unit) prog" where
  "write_register e reg w system_endian =
     updating (\<lambda>c. attempt (set_word e (cpu_registers c) (ADDRESS reg) w system_endian)
                     (\<lambda>m. Inr (c\<lparr>cpu_registers := m\<rparr>)))"

text \<open>
  The register window: the codes of the local registers are shifted by the window counter,
  which saturates at the last window; \<open>reg\<close> is a \<open>Uint8\<close>, so the sum is taken modulo 256.
\<close>

definition window_register :: "cpu_word \<Rightarrow> uint8 \<Rightarrow> uint8" where
  "window_register wc reg =
     (let window = (if wc \<ge> of_nat REGISTER_WINDOWS then of_nat (REGISTER_WINDOWS - 1) else wc)
      in reg + ucast (window * of_nat REGISTERS_PER_WINDOW))"

definition select_register :: "endian \<Rightarrow> uint8 \<Rightarrow> ('z cpu_state_scheme, uint8) prog" where
  "select_register e reg =
     (if reg \<ge> of_nat GLOBAL_REGISTERS
      then andthen (read_register e REGISTER_WC True) (\<lambda>wc. ret (window_register wc reg))
      else ret reg)"

definition get_reg :: "endian \<Rightarrow> uint8 \<Rightarrow> bool \<Rightarrow> ('z cpu_state_scheme, cpu_word) prog" where
  "get_reg e reg system_endian =
     andthen (select_register e reg) (\<lambda>reg. read_register e reg system_endian)"

definition set_reg ::
    "endian \<Rightarrow> uint8 \<Rightarrow> cpu_word \<Rightarrow> bool \<Rightarrow> ('z cpu_state_scheme, unit) prog" where
  "set_reg e reg w system_endian =
     andthen (select_register e reg) (\<lambda>reg. write_register e reg w system_endian)"

definition get_mem :: "endian \<Rightarrow> address \<Rightarrow> bool \<Rightarrow> ('z cpu_state_scheme, cpu_word) prog" where
  "get_mem e addr system_endian = reading (\<lambda>c. get_word e (cpu_memory c) addr system_endian)"

definition get_halfmem :: "endian \<Rightarrow> address \<Rightarrow> bool \<Rightarrow> ('z cpu_state_scheme, half_word) prog" where
  "get_halfmem e addr system_endian =
     reading (\<lambda>c. get_halfword e (cpu_memory c) addr system_endian)"

definition get_quartermem :: "address \<Rightarrow> ('z cpu_state_scheme, quarter_word) prog" where
  "get_quartermem addr = reading (\<lambda>c. get_quarterword (cpu_memory c) addr)"

definition set_mem ::
    "endian \<Rightarrow> address \<Rightarrow> cpu_word \<Rightarrow> bool \<Rightarrow> ('z cpu_state_scheme, unit) prog" where
  "set_mem e addr w system_endian =
     updating (\<lambda>c. attempt (set_word e (cpu_memory c) addr w system_endian)
                     (\<lambda>m. Inr (c\<lparr>cpu_memory := m\<rparr>)))"

definition set_halfmem ::
    "endian \<Rightarrow> address \<Rightarrow> half_word \<Rightarrow> bool \<Rightarrow> ('z cpu_state_scheme, unit) prog" where
  "set_halfmem e addr w system_endian =
     updating (\<lambda>c. attempt (set_halfword e (cpu_memory c) addr w system_endian)
                     (\<lambda>m. Inr (c\<lparr>cpu_memory := m\<rparr>)))"

definition set_quartermem :: "address \<Rightarrow> quarter_word \<Rightarrow> ('z cpu_state_scheme, unit) prog" where
  "set_quartermem addr w =
     updating (\<lambda>c. attempt (set_quarterword (cpu_memory c) addr w)
                     (\<lambda>m. Inr (c\<lparr>cpu_memory := m\<rparr>)))"

section \<open>Interrupts\<close>

definition interrupt_enabled :: "endian \<Rightarrow> uint8 \<Rightarrow> ('z cpu_state_scheme, bool) prog" where
  "interrupt_enabled e code =
     andthen (read_register e REGISTER_IP True) (\<lambda>ip.
     if ip = 0 then ret False
     else andthen (get_mem e (ip + ADDRESS code) True) (\<lambda>handler. ret (handler \<noteq> 0)))"

text \<open>Add the size of a word to the program counter.\<close>

definition advance_pc :: "endian \<Rightarrow> ('z cpu_state_scheme, unit) prog" where
  "advance_pc e =
     andthen (read_register e REGISTER_PC True) (\<lambda>pc. write_register e REGISTER_PC (pc + 4) True)"

text \<open>
  \<open>memory_->set_word(sp, registers_->get_word(ADDRESS(r))); sp += sizeof(Word)\<close> for each
  register of a list; the same for registers reached through the window.
\<close>

definition save_globals :: "endian \<Rightarrow> uint8 list \<Rightarrow> address \<Rightarrow> ('z cpu_state_scheme, address) prog" where
  "save_globals e regs sp =
     for_each regs (\<lambda>r sp. andthen (read_register e r True) (\<lambda>w.
                            andthen (set_mem e sp w True) (\<lambda>_. ret (sp + 4)))) sp"

definition save_locals :: "endian \<Rightarrow> uint8 list \<Rightarrow> address \<Rightarrow> ('z cpu_state_scheme, address) prog" where
  "save_locals e regs sp =
     for_each regs (\<lambda>r sp. andthen (get_reg e r True) (\<lambda>w.
                            andthen (set_mem e sp w True) (\<lambda>_. ret (sp + 4)))) sp"

definition local_registers :: "uint8 list" where
  "local_registers = [8, 9, 10, 11, 12, 13, 14, 15]"

definition cpu_interrupt ::
    "endian \<Rightarrow> 'z cpu_isa \<Rightarrow> uint8 \<Rightarrow> cpu_word \<Rightarrow> cpu_word \<Rightarrow> ('z cpu_state_scheme, unit) prog" where
  "cpu_interrupt e isa code g1 g2 =
     andthen (reading (\<lambda>_. get_interrupt_info isa code)) (\<lambda>info.
     andthen (if intr_thrown_by_inst info then advance_pc e else ret ()) (\<lambda>_.
     andthen (interrupt_enabled e code) (\<lambda>enabled.
     if \<not> enabled then ret ()
     else
       andthen (read_register e REGISTER_IP True) (\<lambda>ip.
       andthen (get_mem e (ip + ADDRESS code) True) (\<lambda>handler.
       andthen (read_register e REGISTER_SP True) (\<lambda>sp.
       andthen (save_globals e [REGISTER_IP, REGISTER_G0, REGISTER_G1, REGISTER_G2, REGISTER_G3] sp) (\<lambda>sp.
       andthen (write_register e REGISTER_SP sp True) (\<lambda>_.
       andthen (read_register e REGISTER_WC True) (\<lambda>wc.
       andthen (if wc \<ge> of_nat (REGISTER_WINDOWS - 1) then save_locals e local_registers sp else ret sp) (\<lambda>sp.
       andthen (write_register e REGISTER_SP sp True) (\<lambda>_.
       andthen (write_register e REGISTER_WC (wc + 1) True) (\<lambda>_.
       andthen (read_register e REGISTER_PC True) (\<lambda>pc.
       andthen (set_reg e REGISTER_LR pc True) (\<lambda>_.
       andthen (read_register e REGISTER_SP True) (\<lambda>sp.
       andthen (set_reg e REGISTER_FP sp True) (\<lambda>_.
       andthen (write_register e REGISTER_G0 (ucast code) True) (\<lambda>_.
       andthen (write_register e REGISTER_G1 g1 True) (\<lambda>_.
       andthen (write_register e REGISTER_G2 g2 True) (\<lambda>_.
       write_register e REGISTER_PC handler True)))))))))))))))))))"

text \<open>The class of a plain CPU, whose \<open>interrupt\<close> is the one above.\<close>

definition plain_cpu :: "endian \<Rightarrow> 'z cpu_isa \<Rightarrow> 'z cpu_class" where
  "plain_cpu e isa = \<lparr>host = e, vinterrupt = cpu_interrupt e isa\<rparr>"

definition timer_interrupt :: "'z cpu_class \<Rightarrow> ('z cpu_state_scheme, unit) prog" where
  "timer_interrupt cls = vinterrupt cls INTERRUPT_TIMER 0 0"

section \<open>The instruction cycle\<close>

text \<open>
  \<open>fetch_instruction_\<close> reads the word at the pc unconverted and decodes it; the union field
  of the fresh \<open>Instruction\<close> object is uninitialised, \<open>inst0\<close> stands for its content.
\<close>

definition fetch_instruction :: "endian \<Rightarrow> instruction \<Rightarrow> ('z cpu_state_scheme, instruction) prog" where
  "fetch_instruction e inst0 =
     andthen (read_register e REGISTER_PC True) (\<lambda>pc.
     andthen (get_mem e pc False) (\<lambda>w.
     reading (\<lambda>_. decode e inst0 w)))"

definition uninitialised :: instruction where
  "uninitialised = \<lparr>i_code = 0, i_first = 0, i_second = 0, i_data = 0\<rparr>"

definition memory_fault :: "'z cpu_class \<Rightarrow> address \<Rightarrow> ('z cpu_state_scheme, unit) prog" where
  "memory_fault cls a =
     andthen (read_register (host cls) REGISTER_PC True) (\<lambda>pc.
     vinterrupt cls INTERRUPT_MEMORY pc a)"

definition code_fault :: "'z cpu_class \<Rightarrow> instruction \<Rightarrow> ('z cpu_state_scheme, unit) prog" where
  "code_fault cls inst =
     andthen (read_register (host cls) REGISTER_PC True) (\<lambda>pc.
     vinterrupt cls INTERRUPT_INSTRUCTION pc (ucast (i_code inst)))"

definition execute_instruction ::
    "'z cpu_class \<Rightarrow> 'z cpu_isa \<Rightarrow> instruction \<Rightarrow> ('z cpu_state_scheme, unit) prog" where
  "execute_instruction cls isa inst =
     andthen (reading (\<lambda>_. get_instruction_info isa (i_code inst))) (\<lambda>info.
     andthen (inst_func info cls inst) (\<lambda>u.
     case u of
       UpdatePC \<Rightarrow> advance_pc (host cls)
     | UpdateInterrupt \<Rightarrow> ret ()
     | UpdateStop \<Rightarrow> updating (\<lambda>c. Inr (c\<lparr>cpu_running := False\<rparr>))
     | UpdateNone \<Rightarrow> ret ()))"

text \<open>
  The two \<open>catch\<close> clauses of \<open>next\<close> belong to one \<open>try\<close>: an exception thrown inside one of
  them is caught by neither.  Before the fetch has finished only a \<open>MemoryError\<close> can be
  thrown, which is why the fetch can be given its own copy of that clause.
\<close>

definition cpu_next :: "'z cpu_class \<Rightarrow> 'z cpu_isa \<Rightarrow> ('z cpu_state_scheme, unit) prog" where
  "cpu_next cls isa =
     andthen (reading (\<lambda>c. Inr (cpu_running c))) (\<lambda>running.
     if \<not> running then throw CPUException
     else
       andthen
         (try_catch
            (andthen (fetch_instruction (host cls) uninitialised) (\<lambda>inst. ret (Some inst)))
            (\<lambda>x. case x of
                    MemoryError a \<Rightarrow> Some (andthen (memory_fault cls a) (\<lambda>_. ret None))
                  | _ \<Rightarrow> None))
         (\<lambda>fetched. case fetched of
             None \<Rightarrow> ret ()
           | Some inst \<Rightarrow>
               try_catch (execute_instruction cls isa inst)
                 (\<lambda>x. case x of
                         CodeError \<Rightarrow> Some (code_fault cls inst)
                       | MemoryError a \<Rightarrow> Some (memory_fault cls a)
                       | _ \<Rightarrow> None)))"

text \<open>
  \<open>execute(cycles)\<close>: the counter is a \<open>Uint16\<close>, the result is returned as a \<open>Uint8\<close>.  The
  virtual method \<open>next\<close> is an argument.
\<close>

fun execute_loop :: "('z cpu_state_scheme, unit) prog \<Rightarrow> nat \<Rightarrow> ('z cpu_state_scheme, nat) prog" where
  "execute_loop nxt 0 = ret 0"
| "execute_loop nxt (Suc cycles) =
     andthen (reading (\<lambda>c. Inr (cpu_running c))) (\<lambda>running.
     if running then andthen nxt (\<lambda>_. execute_loop nxt cycles) else ret (Suc cycles))"

definition execute_cycles ::
    "('z cpu_state_scheme, unit) prog \<Rightarrow> uint16 \<Rightarrow> ('z cpu_state_scheme, uint8) prog" where
  "execute_cycles nxt cycles =
     andthen (execute_loop nxt (unat cycles)) (\<lambda>n. ret (of_nat n))"

text \<open>\<open>execute()\<close> may run for ever: \<open>None\<close> is a run that does not return.\<close>

partial_function (option) execute_all ::
    "('z cpu_state_scheme, unit) prog \<Rightarrow> 'z cpu_state_scheme \<Rightarrow>
      ((exn + unit) \<times> 'z cpu_state_scheme) option" where
  "execute_all nxt c =
     (if cpu_running c
      then case nxt c of (Inl x, c') \<Rightarrow> Some (Inl x, c') | (Inr _, c') \<Rightarrow> execute_all nxt c'
      else Some (Inr (), c))"

end
