(* ===== verification/CPU_Facts.thy ===== *)
theory CPU_Facts
  imports CPU
begin

text \<open>
  The view of a CPU that the proofs about operations work with: physical registers
  (\<open>preg\<close>), registers seen through the window (\<open>reg\<close>), words of memory (\<open>mword\<close>); the
  invariant \<open>wf_cpu\<close>; and rewrite rules that run the accessors of \<open>CPU\<close> on that view.
\<close>

section \<open>The view\<close>

definition preg :: "'z cpu_state_scheme \<Rightarrow> nat \<Rightarrow> cpu_word" where
  "preg c k = be_word (chunk (mem_bytes (cpu_registers c)) (4 * k) 4)"

definition set_preg :: "'z cpu_state_scheme \<Rightarrow> nat \<Rightarrow> cpu_word \<Rightarrow> 'z cpu_state_scheme" where
  "set_preg c k w = c\<lparr>cpu_registers := (cpu_registers c)
     \<lparr>mem_bytes := blit (mem_bytes (cpu_registers c)) (4 * k) (be_bytes w)\<rparr>\<rparr>"

definition reg_index :: "'z cpu_state_scheme \<Rightarrow> uint8 \<Rightarrow> nat" where
  "reg_index c r = (if unat r < 8 then unat r else unat r + 8 * min 15 (unat (preg c 0)))"

definition reg :: "'z cpu_state_scheme \<Rightarrow> uint8 \<Rightarrow> cpu_word" where
  "reg c r = preg c (reg_index c r)"

definition put_reg :: "'z cpu_state_scheme \<Rightarrow> uint8 \<Rightarrow> cpu_word \<Rightarrow> 'z cpu_state_scheme" where
  "put_reg c r w = set_preg c (reg_index c r) w"

definition wf_cpu :: "'z cpu_state_scheme \<Rightarrow> bool" where
  "wf_cpu c \<longleftrightarrow> wf_memory (cpu_registers c) \<and> wf_memory (cpu_memory c) \<and>
     544 \<le> unat (mem_size (cpu_registers c))"

definition msize :: "'z cpu_state_scheme \<Rightarrow> nat" where
  "msize c = unat (mem_size (cpu_memory c))"

lemma msize_bound: "msize c < 4294967296"
  unfolding msize_def by (rule unat_size_bound)

lemma wf_cpu_new: "wf_memory r \<Longrightarrow> wf_memory m \<Longrightarrow> wf_cpu (cpu_new r m)"
  by (simp add: wf_cpu_def cpu_new_def TOTAL_REGISTERS_def Let_def word_less_nat_alt)

section \<open>Laws of the view\<close>

lemma preg_set_preg:
  assumes "wf_cpu c" and "k < 136" and "j < 136"
  shows "preg (set_preg c k w) j = (if j = k then w else preg c j)"
proof -
  have len: "544 \<le> length (mem_bytes (cpu_registers c))"
    using assms(1) by (simp add: wf_cpu_def wf_memory_def)
  show ?thesis
  proof (cases "j = k")
    case True
    with len assms show ?thesis
      by (simp add: preg_def set_preg_def)
  next
    case False
    then have "4 * j + 4 \<le> 4 * k \<or> 4 * k + 4 \<le> 4 * j"
      by arith
    with False len assms show ?thesis
      by (simp add: preg_def set_preg_def chunk_blit_other)
  qed
qed

lemma set_preg_sel [simp]:
  "cpu_memory (set_preg c k w) = cpu_memory c"
  "cpu_running (set_preg c k w) = cpu_running c"
  "msize (set_preg c k w) = msize c"
  "mem_size (cpu_registers (set_preg c k w)) = mem_size (cpu_registers c)"
  "cpu_state.more (set_preg c k w) = cpu_state.more c"
  by (simp_all add: set_preg_def msize_def)

lemma wf_set_preg [simp]: "wf_cpu c \<Longrightarrow> k < 136 \<Longrightarrow> wf_cpu (set_preg c k w)"
  by (simp add: wf_cpu_def set_preg_def wf_memory_def)

lemma preg_memory_update [simp]:
  "preg (c\<lparr>cpu_memory := m\<rparr>) k = preg c k"
  "preg (c\<lparr>cpu_running := b\<rparr>) k = preg c k"
  by (simp_all add: preg_def)

lemma set_preg_memory_update:
  "set_preg (c\<lparr>cpu_memory := m\<rparr>) k w = (set_preg c k w)\<lparr>cpu_memory := m\<rparr>"
  by (simp add: set_preg_def)

lemma wf_memory_update [simp]:
  "wf_cpu c \<Longrightarrow> wf_memory m \<Longrightarrow> wf_cpu (c\<lparr>cpu_memory := m\<rparr>)"
  "wf_cpu (c\<lparr>cpu_running := b\<rparr>) = wf_cpu c"
  by (simp_all add: wf_cpu_def)

lemma reg_index_low [simp]: "unat r < 8 \<Longrightarrow> reg_index c r = unat r"
  by (simp add: reg_index_def)

lemma reg_index_bound [simp]: "unat r < 16 \<Longrightarrow> reg_index c r < 136"
  by (auto simp: reg_index_def)

lemma reg_index_cong: "preg c 0 = preg d 0 \<Longrightarrow> reg_index c r = reg_index d r"
  by (simp add: reg_index_def)

lemma reg_index_inject:
  "unat r < 16 \<Longrightarrow> unat s < 16 \<Longrightarrow> reg_index c r = reg_index c s \<longleftrightarrow> r = s"
  by (auto simp: reg_index_def word_unat_eq_iff)

lemma reg_index_eq_0: "reg_index c r = 0 \<longleftrightarrow> r = 0"
  by (auto simp: reg_index_def word_unat_eq_iff)

text \<open>Except through the window counter itself, a write changes one register only.\<close>

lemma reg_put_reg:
  assumes "wf_cpu c" and "unat r < 16" and "unat s < 16" and "r \<noteq> 0 \<or> unat s < 8"
  shows "reg (put_reg c r w) s = (if r = s then w else reg c s)"
proof (cases "r = 0")
  case True
  with assms show ?thesis
    by (auto simp: reg_def put_reg_def preg_set_preg word_unat_eq_iff)
next
  case False
  then have "preg (put_reg c r w) 0 = preg c 0"
    using assms(1,2) by (simp add: put_reg_def preg_set_preg reg_index_eq_0)
  then have "reg_index (put_reg c r w) s = reg_index c s"
    by (rule reg_index_cong)
  with assms False show ?thesis
    by (auto simp: reg_def put_reg_def preg_set_preg reg_index_inject)
qed

lemma put_reg_sel [simp]:
  "cpu_memory (put_reg c r w) = cpu_memory c"
  "cpu_running (put_reg c r w) = cpu_running c"
  "msize (put_reg c r w) = msize c"
  "mem_size (cpu_registers (put_reg c r w)) = mem_size (cpu_registers c)"
  "cpu_state.more (put_reg c r w) = cpu_state.more c"
  by (simp_all add: put_reg_def)

lemma wf_put_reg [simp]: "wf_cpu c \<Longrightarrow> unat r < 16 \<Longrightarrow> wf_cpu (put_reg c r w)"
  by (simp add: put_reg_def)

lemma reg_memory_update [simp]:
  "reg (c\<lparr>cpu_memory := m\<rparr>) r = reg c r"
  "reg (c\<lparr>cpu_running := b\<rparr>) r = reg c r"
  by (simp_all add: reg_def reg_index_def)

lemma unat_4word [simp]: "unat (w :: 4 word) < 16"
  using unsigned_less [of w] by simp

lemma unat_ucast_4word_eq: "unat (ucast (w :: 4 word) :: uint8) = unat w"
proof -
  have "unat w < 256"
    using unat_4word [of w] by linarith
  then show ?thesis
    by (simp add: unsigned_ucast_eq take_bit_nat_eq_self_iff)
qed

lemma unat_ucast_4word [simp]: "unat (ucast (w :: 4 word) :: uint8) < 16"
  by (simp add: unat_ucast_4word_eq)

section \<open>Running the accessors\<close>

lemma unat_ADDRESS: "unat (ADDRESS r) = 4 * unat r"
proof -
  have "unat r < 256"
    using unsigned_less [of r] by simp
  moreover from this have "unat (ucast r :: address) = unat r"
    by (simp add: unsigned_ucast_eq take_bit_nat_eq_self_iff)
  ultimately show ?thesis
    by (simp add: ADDRESS_def unat_word_ariths)
qed

lemma read_register_run:
  assumes "wf_cpu c" and "unat r < 136"
  shows "read_register e r True c = (Inr (preg c (unat r)), c)"
  using assms
  by (simp add: read_register_def get_word_system wf_cpu_def unat_ADDRESS preg_def)

lemma write_register_run:
  assumes "wf_cpu c" and "unat r < 136"
  shows "write_register e r w True c = (Inr (), set_preg c (unat r) w)"
  using assms
  by (simp add: write_register_def set_word_system wf_cpu_def unat_ADDRESS set_preg_def)

lemma unat_window_register:
  assumes "8 \<le> unat r" and "unat r < 16"
  shows "unat (window_register wc r) = unat r + 8 * min 15 (unat wc)"
proof -
  define w :: cpu_word where "w = (if wc \<ge> 16 then 15 else wc)"
  have w: "unat w = min 15 (unat wc)"
    by (auto simp: w_def word_le_nat_alt)
  then have le: "unat w \<le> 15"
    by simp
  then have "unat (w * 8) = 8 * unat w"
    by (simp add: unat_word_ariths)
  with le have "unat (ucast (w * 8) :: uint8) = 8 * unat w"
    by (simp add: unsigned_ucast_eq take_bit_nat_eq_self_iff)
  with assms le have "unat (r + ucast (w * 8)) = unat r + 8 * unat w"
    by (simp add: unat_word_ariths)
  moreover have "window_register wc r = r + ucast (w * 8)"
    by (simp add: window_register_def w_def)
  ultimately show ?thesis
    using w by simp
qed

lemma select_register_run:
  assumes "wf_cpu c" and "unat r < 16"
  shows "\<exists>k. select_register e r c = (Inr k, c) \<and> unat k = reg_index c r"
proof (cases "unat r < 8")
  case True
  then have "\<not> r \<ge> 8"
    by (simp add: word_le_nat_alt)
  with True show ?thesis
    by (simp add: select_register_def)
next
  case False
  then have "r \<ge> 8"
    by (simp add: word_le_nat_alt)
  with assms False show ?thesis
    by (simp add: select_register_def read_register_run unat_window_register reg_index_def)
qed

lemma get_reg_run [simp]:
  assumes "wf_cpu c" and "unat r < 16"
  shows "get_reg e r True c = (Inr (reg c r), c)"
proof -
  obtain k where "select_register e r c = (Inr k, c)" "unat k = reg_index c r"
    using select_register_run [OF assms] by blast
  with assms show ?thesis
    by (simp add: get_reg_def read_register_run reg_def)
qed

lemma set_reg_run [simp]:
  assumes "wf_cpu c" and "unat r < 16"
  shows "set_reg e r w True c = (Inr (), put_reg c r w)"
proof -
  obtain k where "select_register e r c = (Inr k, c)" "unat k = reg_index c r"
    using select_register_run [OF assms] by blast
  with assms show ?thesis
    by (simp add: set_reg_def write_register_run put_reg_def)
qed

lemma reg_low: "unat r < 8 \<Longrightarrow> preg c (unat r) = reg c r"
  by (simp add: reg_def)

lemma put_reg_low: "unat r < 8 \<Longrightarrow> set_preg c (unat r) w = put_reg c r w"
  by (simp add: put_reg_def)

text \<open>The global registers are reached without the window.\<close>

lemma read_global_run [simp]:
  "wf_cpu c \<Longrightarrow> unat r < 8 \<Longrightarrow> read_register e r True c = (Inr (reg c r), c)"
  by (simp add: read_register_run reg_low)

lemma write_global_run [simp]:
  "wf_cpu c \<Longrightarrow> unat r < 8 \<Longrightarrow> write_register e r w True c = (Inr (), put_reg c r w)"
  by (simp add: write_register_run put_reg_low)

definition mword :: "'z cpu_state_scheme \<Rightarrow> address \<Rightarrow> cpu_word" where
  "mword c a = be_word (chunk (mem_bytes (cpu_memory c)) (unat a) 4)"

lemma get_mem_run:
  assumes "wf_cpu c"
  shows "get_mem e a True c =
    (if unat a + 4 \<le> msize c then Inr (mword c a) else Inl (MemoryError a), c)"
  using assms by (simp add: get_mem_def get_word_system wf_cpu_def msize_def mword_def)

lemma get_mem_raw_run:
  "get_mem e a False c =
    (if unat a + 4 \<le> msize c
     then Inr (host_word e (chunk (mem_bytes (cpu_memory c)) (unat a) 4))
     else Inl (MemoryError a), c)"
  by (simp add: get_mem_def get_word_raw msize_def)

definition put_mword :: "'z cpu_state_scheme \<Rightarrow> address \<Rightarrow> cpu_word \<Rightarrow> 'z cpu_state_scheme" where
  "put_mword c a w = c\<lparr>cpu_memory := (cpu_memory c)
     \<lparr>mem_bytes := blit (mem_bytes (cpu_memory c)) (unat a) (be_bytes w)\<rparr>\<rparr>"

lemma set_mem_run:
  "set_mem e a w True c =
    (if unat a + 4 \<le> msize c then (Inr (), put_mword c a w) else (Inl (MemoryError a), c))"
  by (simp add: set_mem_def set_word_system msize_def put_mword_def)

lemma put_mword_sel [simp]:
  "cpu_registers (put_mword c a w) = cpu_registers c"
  "cpu_running (put_mword c a w) = cpu_running c"
  "msize (put_mword c a w) = msize c"
  "reg (put_mword c a w) r = reg c r"
  "preg (put_mword c a w) k = preg c k"
  "cpu_state.more (put_mword c a w) = cpu_state.more c"
  by (simp_all add: put_mword_def msize_def)

lemma wf_put_mword [simp]:
  "wf_cpu c \<Longrightarrow> unat a + 4 \<le> msize c \<Longrightarrow> wf_cpu (put_mword c a w)"
  by (simp add: wf_cpu_def put_mword_def msize_def)

lemma mword_put_mword_same:
  "wf_cpu c \<Longrightarrow> unat a + 4 \<le> msize c \<Longrightarrow> mword (put_mword c a w) a = w"
  by (simp add: mword_def put_mword_def wf_cpu_def wf_memory_def msize_def)

lemma mword_put_mword_other:
  "wf_cpu c \<Longrightarrow> unat a + 4 \<le> msize c \<Longrightarrow> unat b + 4 \<le> msize c \<Longrightarrow>
    unat a + 4 \<le> unat b \<or> unat b + 4 \<le> unat a \<Longrightarrow> mword (put_mword c a w) b = mword c b"
  by (auto simp: mword_def put_mword_def wf_cpu_def wf_memory_def msize_def chunk_blit_other)

lemma mword_put_reg [simp]: "mword (put_reg c r w) a = mword c a"
  by (simp add: mword_def)

lemma mword_set_preg [simp]: "mword (set_preg c k w) a = mword c a"
  by (simp add: mword_def)

section \<open>Several registers at once\<close>

fun put_regs :: "'z cpu_state_scheme \<Rightarrow> (uint8 \<times> cpu_word) list \<Rightarrow> 'z cpu_state_scheme" where
  "put_regs c [] = c"
| "put_regs c ((r, w) # rws) = put_regs (put_reg c r w) rws"

definition visible :: "uint8 list \<Rightarrow> bool" where
  "visible rs \<longleftrightarrow> (\<forall>r\<in>set rs. unat r < 16 \<and> r \<noteq> 0)"

lemma visible_simps [simp]:
  "visible []" "visible (r # rs) \<longleftrightarrow> unat r < 16 \<and> r \<noteq> 0 \<and> visible rs"
  by (auto simp: visible_def)

lemma put_regs_sel [simp]:
  "cpu_memory (put_regs c rws) = cpu_memory c"
  "cpu_running (put_regs c rws) = cpu_running c"
  "msize (put_regs c rws) = msize c"
  "mword (put_regs c rws) a = mword c a"
  "mem_size (cpu_registers (put_regs c rws)) = mem_size (cpu_registers c)"
  "cpu_state.more (put_regs c rws) = cpu_state.more c"
  by (induction c rws rule: put_regs.induct) simp_all

lemma wf_put_regs [simp]: "wf_cpu c \<Longrightarrow> visible (map fst rws) \<Longrightarrow> wf_cpu (put_regs c rws)"
  by (induction c rws rule: put_regs.induct) simp_all

lemma reg_put_regs:
  assumes "wf_cpu c" and "visible (map fst rws)" and "distinct (map fst rws)" and "unat s < 16"
  shows "reg (put_regs c rws) s = (case map_of rws s of Some w \<Rightarrow> w | None \<Rightarrow> reg c s)"
  using assms
proof (induction c rws rule: put_regs.induct)
  case (2 c r w rws)
  then have IH: "reg (put_regs (put_reg c r w) rws) s =
      (case map_of rws s of Some w \<Rightarrow> w | None \<Rightarrow> reg (put_reg c r w) s)"
    by simp
  show ?case
  proof (cases "s = r")
    case True
    with "2.prems"(3) have "map_of rws s = None"
      by (auto simp: map_of_eq_None_iff)
    with IH True "2.prems" show ?thesis
      by (simp add: reg_put_reg)
  next
    case False
    with IH "2.prems" show ?thesis
      by (auto simp: reg_put_reg split: option.split)
  qed
qed simp

lemma write_regs_run:
  "wf_cpu c \<Longrightarrow> visible (map fst rws) \<Longrightarrow>
    for_each rws (\<lambda>(r, w) (_ :: unit). set_reg e r w True) () c = (Inr (), put_regs c rws)"
  by (induction c rws rule: put_regs.induct) simp_all

section \<open>The invariant\<close>

text \<open>
  \<open>sized n k c\<close>: the byte arrays of \<open>c\<close> match their sizes, the register file can hold every
  window, and the two sizes are \<open>n\<close> and \<open>k\<close>; no access of the CPU changes any of this.
\<close>

definition fits ::
    "(address \<Rightarrow> address \<Rightarrow> 'z \<Rightarrow> bool) \<Rightarrow> 'z cpu_state_scheme \<Rightarrow> bool" where
  "fits R c \<longleftrightarrow> wf_cpu c \<and> R (mem_size (cpu_registers c)) (mem_size (cpu_memory c)) (cpu_state.more c)"

abbreviation sized :: "address \<Rightarrow> address \<Rightarrow> 'z cpu_state_scheme \<Rightarrow> bool" where
  "sized n k \<equiv> fits (\<lambda>a b _. a = n \<and> b = k)"

lemmas sized_def = fits_def

lemma sized_wf: "sized n k c \<Longrightarrow> wf_cpu c"
  by (simp add: sized_def)

lemma sized_refl: "wf_cpu c \<Longrightarrow> sized (mem_size (cpu_registers c)) (mem_size (cpu_memory c)) c"
  by (simp add: sized_def)

lemma attempt_set: "attempt r (\<lambda>m. Inr (f m)) = Inr s' \<longleftrightarrow> (\<exists>m. r = Inr m \<and> s' = f m)"
  by (cases r) auto

lemma set_word_keeps:
  "wf_memory m \<Longrightarrow> set_word e m a v b = Inr m' \<Longrightarrow> wf_memory m' \<and> mem_size m' = mem_size m"
  using wf_memory_set_word [of m e a v b m']
  by (cases b) (auto simp: memory_access split: if_splits)

lemma set_halfword_keeps:
  "wf_memory m \<Longrightarrow> set_halfword e m a v b = Inr m' \<Longrightarrow> wf_memory m' \<and> mem_size m' = mem_size m"
  by (auto simp: set_halfword_def Let_def out_of_range_iff split: if_splits endian.splits)

lemma set_quarterword_keeps:
  "wf_memory m \<Longrightarrow> set_quarterword m a v = Inr m' \<Longrightarrow> wf_memory m' \<and> mem_size m' = mem_size m"
  by (auto simp: set_quarterword_def wf_memory_def split: if_splits)

lemma sized_read_register [pres_intros]: "keeps X (fits R) (read_register e r b)"
  unfolding read_register_def by (rule keeps_reading)

lemma sized_write_register [pres_intros]: "keeps X (fits R) (write_register e r w b)"
  unfolding write_register_def
  by (rule keeps_updating) (auto simp: attempt_set sized_def wf_cpu_def dest: set_word_keeps)

lemma sized_select_register [pres_intros]: "keeps X (fits R) (select_register e r)"
  unfolding select_register_def by (intro pres_intros)

lemma sized_get_reg [pres_intros]: "keeps X (fits R) (get_reg e r b)"
  unfolding get_reg_def by (intro pres_intros)

lemma sized_set_reg [pres_intros]: "keeps X (fits R) (set_reg e r w b)"
  unfolding set_reg_def by (intro pres_intros)

lemma sized_get_mem [pres_intros]:
  "keeps X (fits R) (get_mem e a b)"
  "keeps X (fits R) (get_halfmem e a b)"
  "keeps X (fits R) (get_quartermem a)"
  unfolding get_mem_def get_halfmem_def get_quartermem_def by (rule keeps_reading)+

lemma sized_set_mem [pres_intros]: "keeps X (fits R) (set_mem e a w b)"
  unfolding set_mem_def
  by (rule keeps_updating) (auto simp: attempt_set sized_def wf_cpu_def dest: set_word_keeps)

lemma sized_set_halfmem [pres_intros]: "keeps X (fits R) (set_halfmem e a h b)"
  unfolding set_halfmem_def
  by (rule keeps_updating) (auto simp: attempt_set sized_def wf_cpu_def dest: set_halfword_keeps)

lemma sized_set_quartermem [pres_intros]: "keeps X (fits R) (set_quartermem a q)"
  unfolding set_quartermem_def
  by (rule keeps_updating)
    (auto simp: attempt_set sized_def wf_cpu_def dest: set_quarterword_keeps)

lemma sized_stop [pres_intros]:
  "keeps X (fits R) (updating (\<lambda>c. Inr (c\<lparr>cpu_running := b\<rparr>)))"
  by (rule keeps_updating) (auto simp: sized_def)

lemma sized_save [pres_intros]:
  "keeps X (fits R) (save_globals e regs sp)"
  "keeps X (fits R) (save_locals e regs sp)"
  unfolding save_globals_def save_locals_def by (intro pres_intros)+

lemma sized_advance_pc [pres_intros]: "keeps X (fits R) (advance_pc e)"
  unfolding advance_pc_def by (intro pres_intros)

lemma sized_interrupt_enabled [pres_intros]: "keeps X (fits R) (interrupt_enabled e code)"
  unfolding interrupt_enabled_def by (intro pres_intros)

lemma sized_cpu_interrupt [pres_intros]: "keeps X (fits R) (cpu_interrupt e isa code g1 g2)"
  unfolding cpu_interrupt_def by (intro pres_intros)

lemma sized_fetch [pres_intros]: "keeps X (fits R) (fetch_instruction e i)"
  unfolding fetch_instruction_def by (intro pres_intros)

section \<open>The machine\<close>

text \<open>
  What the instruction cycle needs from the class and the table of operations to keep an
  invariant: the invariant is kept by the accessors the cycle itself uses, by the virtual
  interrupt, and by every operation in the table.
\<close>

lemma execute_all_preserves:
  assumes "preserves P nxt" and "execute_all nxt c = Some rc" and "P c"
  shows "P (snd rc)"
proof -
  have "preserves P nxt \<longrightarrow> P c \<longrightarrow> P (snd rc)"
  proof (rule execute_all.raw_induct [OF _ assms(2)], intro impI)
    fix exec and nxt :: "('a cpu_state_scheme, unit) prog" and c rc
    assume IH: "\<And>nxt c rc. exec nxt c = Some rc \<Longrightarrow> preserves P nxt \<longrightarrow> P c \<longrightarrow> P (snd rc)"
      and run: "(if cpu_running c
        then case nxt c of (Inl x, c') \<Rightarrow> Some (Inl x, c') | (Inr _, c') \<Rightarrow> exec nxt c'
        else Some (Inr (), c)) = Some rc"
      and nxt: "preserves P nxt" and c: "P c"
    obtain x d where step: "nxt c = (x, d)"
      by fastforce
    have "P d"
      by (rule preservesD [OF nxt c step])
    show "P (snd rc)"
      using run c \<open>P d\<close> nxt
      by (cases x) (auto simp: step dest: IH [rule_format] split: if_splits)
  qed
  with assms show ?thesis by blast
qed

locale cpu_machine =
  fixes cls :: "'z cpu_class"
    and isa :: "'z cpu_isa"
    and X :: "exn \<Rightarrow> 'z cpu_state_scheme \<Rightarrow> bool"
    and inv :: "'z cpu_state_scheme \<Rightarrow> bool"
  assumes caught: "\<not> X CodeError s" "\<not> X (MemoryError a) s"
    and keeps_register: "keeps X inv (write_register (host cls) r w True)"
    and keeps_running: "keeps X inv (updating (\<lambda>c. Inr (c\<lparr>cpu_running := b\<rparr>)))"
    and keeps_interrupt: "keeps X inv (vinterrupt cls code g1 g2)"
    and keeps_operation:
      "instructions isa c = Some info \<Longrightarrow> keeps X inv (inst_func info cls inst)"
begin

lemma keeps_read: "keeps X inv (read_register (host cls) r b)"
  unfolding read_register_def by (rule keeps_reading)

lemma keeps_advance: "keeps X inv (advance_pc (host cls))"
  unfolding advance_pc_def by (intro pres_intros keeps_read keeps_register)

lemma keeps_fault:
  "keeps X inv (memory_fault cls a)" "keeps X inv (code_fault cls inst)"
  unfolding memory_fault_def code_fault_def by (intro pres_intros keeps_read keeps_interrupt)+

lemma keeps_fetch: "keeps X inv (fetch_instruction (host cls) i)"
  unfolding fetch_instruction_def get_mem_def by (intro pres_intros keeps_read)

lemma keeps_execute_instruction: "keeps X inv (execute_instruction cls isa inst)"
proof (cases "instructions isa (i_code inst)")
  case None
  then show ?thesis
    by (simp add: keeps_def execute_instruction_def get_instruction_info_def)
next
  case (Some info)
  have "keeps X inv (andthen (inst_func info cls inst) (\<lambda>u. case u of
      UpdatePC \<Rightarrow> advance_pc (host cls) | UpdateInterrupt \<Rightarrow> ret ()
    | UpdateStop \<Rightarrow> updating (\<lambda>c. Inr (c\<lparr>cpu_running := False\<rparr>)) | UpdateNone \<Rightarrow> ret ()))"
    using Some
    by (intro pres_intros keeps_operation)
      (auto split: update.split intro: pres_intros keeps_advance keeps_running)
  with Some show ?thesis
    by (simp add: execute_instruction_def get_instruction_info_def keeps_def)
qed

theorem keeps_next: "keeps X inv (cpu_next cls isa)"
  unfolding cpu_next_def
  by (intro pres_intros keeps_try_catch keeps_fetch)
    (auto split: option.splits exn.splits
      intro!: pres_intros keeps_try_catch keeps_execute_instruction keeps_fault simp: caught)

lemma keeps_loop: "keeps X inv (execute_loop (cpu_next cls isa) k)"
proof (induction k)
  case 0
  show ?case
    unfolding execute_loop.simps by (rule keeps_ret)
next
  case (Suc k)
  then show ?case
    unfolding execute_loop.simps by (intro pres_intros keeps_next)
qed

lemma keeps_execute_cycles: "keeps X inv (execute_cycles (cpu_next cls isa) n)"
  unfolding execute_cycles_def by (intro pres_intros keeps_loop)

lemma keeps_execute_all:
  "execute_all (cpu_next cls isa) c = Some (r, c') \<Longrightarrow> (\<And>x c. \<not> X x c) \<Longrightarrow> inv c \<Longrightarrow> inv c'"
proof -
  assume run: "execute_all (cpu_next cls isa) c = Some (r, c')" and all: "\<And>x c. \<not> X x c" and "inv c"
  have "X = (\<lambda>_ _. False)"
    using all by (simp add: fun_eq_iff)
  with keeps_next have "preserves inv (cpu_next cls isa)"
    by simp
  from execute_all_preserves [OF this run \<open>inv c\<close>] show "inv c'"
    by simp
qed

end

section \<open>A concrete CPU\<close>

text \<open>A CPU as the constructor leaves it, with 1 KiB of memory: every register and word is 0.\<close>

definition fresh_cpu :: cpu_state where
  "fresh_cpu = cpu_new (memory_new 0) (memory_new 1024)"

lemma wf_fresh_cpu [simp]: "wf_cpu fresh_cpu"
  by (simp add: fresh_cpu_def wf_cpu_new)

lemma msize_fresh_cpu [simp]: "msize fresh_cpu = 1024"
  by (simp add: fresh_cpu_def msize_def cpu_new_def Let_def)

lemma running_fresh_cpu [simp]: "cpu_running fresh_cpu"
  by (simp add: fresh_cpu_def cpu_new_def Let_def)

lemma be_word_zero: "i + 4 \<le> n \<Longrightarrow> be_word (chunk (replicate n 0) i 4) = 0"
  by (simp add: be_word_def nth_chunk)

lemma fresh_registers: "mem_bytes (cpu_registers fresh_cpu) = replicate 544 0"
  by (simp add: fresh_cpu_def cpu_new_def Let_def TOTAL_REGISTERS_def memory_resize_def
      memory_new_bytes word_less_nat_alt)

lemma reg_fresh_cpu [simp]: "unat r < 16 \<Longrightarrow> reg fresh_cpu r = 0"
proof -
  assume "unat r < 16"
  then have "reg_index fresh_cpu r < 136"
    by simp
  then show ?thesis
    by (simp add: reg_def preg_def fresh_registers be_word_zero)
qed

lemma fresh_memory: "mem_bytes (cpu_memory fresh_cpu) = replicate 1024 0"
  by (simp add: fresh_cpu_def cpu_new_def Let_def memory_new_bytes)

lemma mword_fresh_cpu [simp]: "unat a + 4 \<le> 1024 \<Longrightarrow> mword fresh_cpu a = 0"
  by (simp add: mword_def fresh_memory be_word_zero)

end
