(* ===== verification/Execution.thy ===== *)
theory Execution
  imports CPU_Facts
begin

text \<open>
  The two loops of \<open>cpu.cpp\<close> that run a CPU, \<open>execute(cycles)\<close> and \<open>execute()\<close>, against a
  step relation for the virtual method \<open>next\<close>.
\<close>

section \<open>The step relation\<close>

text \<open>\<open>steps nxt c i d\<close>: \<open>i\<close> cycles without an exception lead from \<open>c\<close> to \<open>d\<close>.\<close>

inductive steps ::
    "('z cpu_state_scheme, unit) prog \<Rightarrow> 'z cpu_state_scheme \<Rightarrow> nat \<Rightarrow> 'z cpu_state_scheme \<Rightarrow> bool"
  for nxt where
  steps_none: "steps nxt c 0 c"
| steps_one: "cpu_running c \<Longrightarrow> nxt c = (Inr u, d) \<Longrightarrow> steps nxt d i f \<Longrightarrow> steps nxt c (Suc i) f"

inductive_cases steps_SucE: "steps nxt c (Suc i) d"
inductive_simps steps_0 [simp]: "steps nxt c 0 d"

lemma steps_preserve: "steps nxt c i d \<Longrightarrow> preserves P nxt \<Longrightarrow> P c \<Longrightarrow> P d"
  by (induction rule: steps.induct) (auto dest: preservesD)

lemma steps_unique: "steps nxt c i d \<Longrightarrow> steps nxt c i f \<Longrightarrow> d = f"
proof (induction arbitrary: f rule: steps.induct)
  case (steps_one c u d i g)
  from steps_one.prems show ?case
    by (rule steps_SucE) (use steps_one.hyps steps_one.IH in auto)
qed simp

section \<open>execute(cycles)\<close>

lemma execute_loop_steps:
  "execute_loop nxt n c = (Inr r, d) \<longleftrightarrow>
    r \<le> n \<and> steps nxt c (n - r) d \<and> (r \<noteq> 0 \<longrightarrow> \<not> cpu_running d)"
proof (induction n arbitrary: c)
  case 0
  then show ?case by auto
next
  case (Suc n)
  show ?case
  proof (cases "cpu_running c")
    case False
    have "steps nxt c (Suc n - r) d \<longleftrightarrow> Suc n - r = 0 \<and> d = c" if "r \<le> Suc n"
      using False by (auto elim: steps.cases)
    with False show ?thesis by auto
  next
    case True
    obtain x f where f: "nxt c = (x, f)"
      by fastforce
    have zero: "Suc n = r \<Longrightarrow> steps nxt c 0 d \<Longrightarrow> cpu_running d"
      using True by simp
    show ?thesis
    proof (cases x)
      case (Inl e)
      have "\<not> steps nxt c (Suc i) d" for i
        using f Inl by (auto elim: steps_SucE)
      with True f Inl zero show ?thesis
        by (cases "Suc n - r") (auto simp: Suc_diff_le)
    next
      case (Inr u)
      have "steps nxt c (Suc i) d \<longleftrightarrow> steps nxt f i d" for i
        using True f Inr by (auto elim!: steps_SucE intro: steps_one)
      with True f Inr Suc.IH zero show ?thesis
        by (cases "r \<le> n") (auto simp: Suc_diff_le le_Suc_eq)
    qed
  qed
qed

section \<open>execute()\<close>

lemma execute_all_stopped: "\<not> cpu_running c \<Longrightarrow> execute_all nxt c = Some (Inr (), c)"
  by (simp add: execute_all.simps)

lemma steps_execute_all:
  "steps nxt c i d \<Longrightarrow> \<not> cpu_running d \<Longrightarrow> execute_all nxt c = Some (Inr (), d)"
proof (induction rule: steps.induct)
  case (steps_one c u d i f)
  then show ?case
    by (simp add: execute_all.simps [of nxt c])
qed (rule execute_all_stopped)

lemma execute_all_steps:
  assumes "execute_all nxt c = Some rc" and "fst rc = Inr ()"
  shows "\<exists>i. steps nxt c i (snd rc) \<and> \<not> cpu_running (snd rc)"
proof -
  have "fst rc = Inr () \<longrightarrow> (\<exists>i. steps nxt c i (snd rc) \<and> \<not> cpu_running (snd rc))"
  proof (rule execute_all.raw_induct [OF _ assms(1)], intro impI)
    fix exec and nxt :: "('a cpu_state_scheme, unit) prog" and c rc
    assume IH: "\<And>nxt c rc. exec nxt c = Some rc \<Longrightarrow>
        fst rc = Inr () \<longrightarrow> (\<exists>i. steps nxt c i (snd rc) \<and> \<not> cpu_running (snd rc))"
      and run: "(if cpu_running c
        then case nxt c of (Inl x, c') \<Rightarrow> Some (Inl x, c') | (Inr _, c') \<Rightarrow> exec nxt c'
        else Some (Inr (), c)) = Some rc"
      and ok: "fst rc = Inr ()"
    show "\<exists>i. steps nxt c i (snd rc) \<and> \<not> cpu_running (snd rc)"
    proof (cases "cpu_running c")
      case False
      with run show ?thesis
        by (auto intro!: exI [of _ 0])
    next
      case True
      obtain x d where x: "nxt c = (x, d)"
        by fastforce
      with run ok True obtain u where d: "nxt c = (Inr u, d)" "exec nxt d = Some rc"
        by (cases x) auto
      with IH ok obtain i where "steps nxt d i (snd rc)" "\<not> cpu_running (snd rc)"
        by blast
      with True d(1) show ?thesis
        by (blast intro: steps_one)
    qed
  qed
  with assms(2) show ?thesis by blast
qed

section \<open>Properties\<close>

text \<open>
  C28: \<open>execute(cycles)\<close> returns normally exactly when some number \<open>i\<close> of cycles, at most
  \<open>cycles\<close>, runs without an exception and either all cycles were used or the CPU has
  stopped; the result is the number of cycles left, cut to eight bits.
\<close>

theorem execute_cycles_correct:
  "execute_cycles nxt cycles c = (Inr r, d) \<longleftrightarrow>
    (\<exists>i \<le> unat cycles. steps nxt c i d \<and> (i < unat cycles \<longrightarrow> \<not> cpu_running d) \<and>
       r = of_nat (unat cycles - i))"
proof -
  have "execute_cycles nxt cycles c = (Inr r, d) \<longleftrightarrow>
      (\<exists>n. execute_loop nxt (unat cycles) c = (Inr n, d) \<and> r = of_nat n)"
    by (auto simp: execute_cycles_def split: prod.split sum.split)
  also have "\<dots> \<longleftrightarrow> (\<exists>i \<le> unat cycles. steps nxt c i d \<and>
      (i < unat cycles \<longrightarrow> \<not> cpu_running d) \<and> r = of_nat (unat cycles - i))"
  proof
    assume "\<exists>n. execute_loop nxt (unat cycles) c = (Inr n, d) \<and> r = of_nat n"
    then obtain n where "n \<le> unat cycles" "steps nxt c (unat cycles - n) d"
      "n \<noteq> 0 \<longrightarrow> \<not> cpu_running d" "r = of_nat n"
      by (auto simp: execute_loop_steps)
    then show "\<exists>i \<le> unat cycles. steps nxt c i d \<and>
        (i < unat cycles \<longrightarrow> \<not> cpu_running d) \<and> r = of_nat (unat cycles - i)"
      by (intro exI [of _ "unat cycles - n"]) auto
  next
    assume "\<exists>i \<le> unat cycles. steps nxt c i d \<and>
        (i < unat cycles \<longrightarrow> \<not> cpu_running d) \<and> r = of_nat (unat cycles - i)"
    then obtain i where "i \<le> unat cycles" "steps nxt c i d"
      "i < unat cycles \<longrightarrow> \<not> cpu_running d" "r = of_nat (unat cycles - i)"
      by blast
    then show "\<exists>n. execute_loop nxt (unat cycles) c = (Inr n, d) \<and> r = of_nat n"
      by (intro exI [of _ "unat cycles - i"]) (auto simp: execute_loop_steps)
  qed
  finally show ?thesis .
qed

text \<open>A CPU that is stopped with 256 cycles to go: the caller sees no cycle left.\<close>

theorem execute_cycles_correct_witness:
  "execute_cycles (cpu_next (plain_cpu LittleEndian isa_empty) isa_empty) 256 (fresh_cpu\<lparr>cpu_running := False\<rparr>) =
    (Inr 0, fresh_cpu\<lparr>cpu_running := False\<rparr>)"
  unfolding execute_cycles_correct by (intro exI [of _ 0]) simp

text \<open>
  C29: \<open>execute()\<close> returns normally in a state exactly when that state is reached by running
  cycles without an exception and is the first stopped one: the loop ends if and only if the
  CPU stops.
\<close>

theorem execute_all_correct:
  "execute_all nxt c = Some (Inr (), d) \<longleftrightarrow> (\<exists>i. steps nxt c i d \<and> \<not> cpu_running d)"
  using execute_all_steps [of nxt c "(Inr (), d)"] steps_execute_all [of nxt c _ d] by auto

end
