(* ===== verification/Ops_Move.thy ===== *)
theory Ops_Move
  imports CPU_Facts
begin

text \<open>
  \<open>simpleworld/cpu/operations_management.cpp\<close> and \<open>simpleworld/cpu/operations_move.cpp\<close>:
  stop and restart, moves between registers, loads, stores and the stack.
\<close>

section \<open>Operands\<close>

text \<open>
  \<open>inst.first\<close> and \<open>inst.second\<close> are 4-bit fields; where \<open>inst.data\<close> names a register it is
  converted to the \<open>Uint8\<close> that \<open>get_reg\<close> takes.
\<close>

abbreviation first :: "instruction \<Rightarrow> uint8" where "first inst \<equiv> ucast (i_first inst)"
abbreviation second :: "instruction \<Rightarrow> uint8" where "second inst \<equiv> ucast (i_second inst)"
abbreviation third :: "instruction \<Rightarrow> uint8" where "third inst \<equiv> ucast (i_data inst)"
abbreviation inmediate :: "instruction \<Rightarrow> cpu_word" where "inmediate inst \<equiv> ucast (i_data inst)"

abbreviation getr :: "'z cpu_class \<Rightarrow> uint8 \<Rightarrow> ('z cpu_state_scheme, cpu_word) prog" where
  "getr cls r \<equiv> get_reg (host cls) r True"
abbreviation setr :: "'z cpu_class \<Rightarrow> uint8 \<Rightarrow> cpu_word \<Rightarrow> ('z cpu_state_scheme, unit) prog" where
  "setr cls r w \<equiv> set_reg (host cls) r w True"
abbreviation getm :: "'z cpu_class \<Rightarrow> address \<Rightarrow> ('z cpu_state_scheme, cpu_word) prog" where
  "getm cls a \<equiv> get_mem (host cls) a True"
abbreviation setm :: "'z cpu_class \<Rightarrow> address \<Rightarrow> cpu_word \<Rightarrow> ('z cpu_state_scheme, unit) prog" where
  "setm cls a w \<equiv> set_mem (host cls) a w True"
abbreviation getmh :: "'z cpu_class \<Rightarrow> address \<Rightarrow> ('z cpu_state_scheme, half_word) prog" where
  "getmh cls a \<equiv> get_halfmem (host cls) a True"
abbreviation setmh :: "'z cpu_class \<Rightarrow> address \<Rightarrow> half_word \<Rightarrow> ('z cpu_state_scheme, unit) prog" where
  "setmh cls a w \<equiv> set_halfmem (host cls) a w True"

section \<open>Management\<close>

definition stop :: "'z operation" where
  "stop cls inst = ret UpdateStop"

definition restart :: "'z operation" where
  "restart cls inst =
     andthen (for_each (map of_nat [0..<16]) (\<lambda>i _. setr cls i 0) ()) (\<lambda>_. ret UpdateNone)"

section \<open>Moves\<close>

definition move :: "'z operation" where
  "move cls inst =
     andthen (getr cls (second inst)) (\<lambda>x.
     andthen (setr cls (first inst) x) (\<lambda>_. ret UpdatePC))"

definition swap :: "'z operation" where
  "swap cls inst =
     andthen (getr cls (second inst)) (\<lambda>x.
     andthen (setr cls (first inst) (push_bit 16 x OR drop_bit 16 x)) (\<lambda>_. ret UpdatePC))"

section \<open>Loads\<close>

definition load :: "'z operation" where
  "load cls inst =
     andthen (getr cls REGISTER_PC) (\<lambda>pc.
     andthen (getm cls (pc + i_offset inst)) (\<lambda>w.
     andthen (setr cls (first inst) w) (\<lambda>_. ret UpdatePC)))"

definition loadrr :: "'z operation" where
  "loadrr cls inst =
     andthen (getr cls (second inst)) (\<lambda>x.
     andthen (getr cls (third inst)) (\<lambda>y.
     andthen (getm cls (x + y)) (\<lambda>w.
     andthen (setr cls (first inst) w) (\<lambda>_. ret UpdatePC))))"

definition loadri :: "'z operation" where
  "loadri cls inst =
     andthen (getr cls (second inst)) (\<lambda>x.
     andthen (getm cls (x + i_offset inst)) (\<lambda>w.
     andthen (setr cls (first inst) w) (\<lambda>_. ret UpdatePC)))"

definition loadh :: "'z operation" where
  "loadh cls inst =
     andthen (getr cls REGISTER_PC) (\<lambda>pc.
     andthen (getmh cls (pc + i_offset inst)) (\<lambda>w.
     andthen (setr cls (first inst) (ucast w)) (\<lambda>_. ret UpdatePC)))"

definition loadhrr :: "'z operation" where
  "loadhrr cls inst =
     andthen (getr cls (second inst)) (\<lambda>x.
     andthen (getr cls (third inst)) (\<lambda>y.
     andthen (getmh cls (x + y)) (\<lambda>w.
     andthen (setr cls (first inst) (ucast w)) (\<lambda>_. ret UpdatePC))))"

definition loadhri :: "'z operation" where
  "loadhri cls inst =
     andthen (getr cls (second inst)) (\<lambda>x.
     andthen (getmh cls (x + i_offset inst)) (\<lambda>w.
     andthen (setr cls (first inst) (ucast w)) (\<lambda>_. ret UpdatePC)))"

definition loadq :: "'z operation" where
  "loadq cls inst =
     andthen (getr cls REGISTER_PC) (\<lambda>pc.
     andthen (get_quartermem (pc + i_offset inst)) (\<lambda>w.
     andthen (setr cls (first inst) (ucast w)) (\<lambda>_. ret UpdatePC)))"

definition loadqrr :: "'z operation" where
  "loadqrr cls inst =
     andthen (getr cls (second inst)) (\<lambda>x.
     andthen (getr cls (third inst)) (\<lambda>y.
     andthen (get_quartermem (x + y)) (\<lambda>w.
     andthen (setr cls (first inst) (ucast w)) (\<lambda>_. ret UpdatePC))))"

definition loadqri :: "'z operation" where
  "loadqri cls inst =
     andthen (getr cls (second inst)) (\<lambda>x.
     andthen (get_quartermem (x + i_offset inst)) (\<lambda>w.
     andthen (setr cls (first inst) (ucast w)) (\<lambda>_. ret UpdatePC)))"

definition loadi :: "'z operation" where
  "loadi cls inst = andthen (setr cls (first inst) (inmediate inst)) (\<lambda>_. ret UpdatePC)"

text \<open>\<open>inst.data << 16\<close> is computed on a promoted \<open>int\<close>; its conversion to \<open>Word\<close> is modular.\<close>

definition loadhi :: "'z operation" where
  "loadhi cls inst =
     andthen (getr cls (first inst)) (\<lambda>x.
     andthen (setr cls (first inst) ((x AND 0x0000ffff) OR push_bit 16 (inmediate inst)))
       (\<lambda>_. ret UpdatePC))"

definition loada :: "'z operation" where
  "loada cls inst =
     andthen (getr cls REGISTER_PC) (\<lambda>pc.
     andthen (setr cls (first inst) (pc + i_offset inst)) (\<lambda>_. ret UpdatePC))"

section \<open>Stores\<close>

definition store :: "'z operation" where
  "store cls inst =
     andthen (getr cls REGISTER_PC) (\<lambda>pc.
     andthen (getr cls (first inst)) (\<lambda>w.
     andthen (setm cls (pc + i_offset inst) w) (\<lambda>_. ret UpdatePC)))"

definition storerr :: "'z operation" where
  "storerr cls inst =
     andthen (getr cls (first inst)) (\<lambda>x.
     andthen (getr cls (third inst)) (\<lambda>y.
     andthen (getr cls (second inst)) (\<lambda>w.
     andthen (setm cls (x + y) w) (\<lambda>_. ret UpdatePC))))"

definition storeri :: "'z operation" where
  "storeri cls inst =
     andthen (getr cls (first inst)) (\<lambda>x.
     andthen (getr cls (second inst)) (\<lambda>w.
     andthen (setm cls (x + i_offset inst) w) (\<lambda>_. ret UpdatePC)))"

definition storeh :: "'z operation" where
  "storeh cls inst =
     andthen (getr cls REGISTER_PC) (\<lambda>pc.
     andthen (getr cls (first inst)) (\<lambda>w.
     andthen (setmh cls (pc + i_offset inst) (ucast w)) (\<lambda>_. ret UpdatePC)))"

definition storehrr :: "'z operation" where
  "storehrr cls inst =
     andthen (getr cls (first inst)) (\<lambda>x.
     andthen (getr cls (third inst)) (\<lambda>y.
     andthen (getr cls (second inst)) (\<lambda>w.
     andthen (setmh cls (x + y) (ucast w)) (\<lambda>_. ret UpdatePC))))"

definition storehri :: "'z operation" where
  "storehri cls inst =
     andthen (getr cls (first inst)) (\<lambda>x.
     andthen (getr cls (second inst)) (\<lambda>w.
     andthen (setmh cls (x + i_offset inst) (ucast w)) (\<lambda>_. ret UpdatePC)))"

definition storeq :: "'z operation" where
  "storeq cls inst =
     andthen (getr cls REGISTER_PC) (\<lambda>pc.
     andthen (getr cls (first inst)) (\<lambda>w.
     andthen (set_quartermem (pc + i_offset inst) (ucast w)) (\<lambda>_. ret UpdatePC)))"

definition storeqrr :: "'z operation" where
  "storeqrr cls inst =
     andthen (getr cls (first inst)) (\<lambda>x.
     andthen (getr cls (third inst)) (\<lambda>y.
     andthen (getr cls (second inst)) (\<lambda>w.
     andthen (set_quartermem (x + y) (ucast w)) (\<lambda>_. ret UpdatePC))))"

definition storeqri :: "'z operation" where
  "storeqri cls inst =
     andthen (getr cls (first inst)) (\<lambda>x.
     andthen (getr cls (second inst)) (\<lambda>w.
     andthen (set_quartermem (x + i_offset inst) (ucast w)) (\<lambda>_. ret UpdatePC)))"

section \<open>The stack\<close>

definition push :: "'z operation" where
  "push cls inst =
     andthen (getr cls REGISTER_SP) (\<lambda>sp.
     andthen (getr cls (first inst)) (\<lambda>w.
     andthen (setm cls sp w) (\<lambda>_.
     andthen (getr cls REGISTER_SP) (\<lambda>sp.
     andthen (setr cls REGISTER_SP (sp + 4)) (\<lambda>_. ret UpdatePC)))))"

definition pop :: "'z operation" where
  "pop cls inst =
     andthen (getr cls REGISTER_SP) (\<lambda>sp.
     andthen (setr cls REGISTER_SP (sp - 4)) (\<lambda>_.
     andthen (getr cls REGISTER_SP) (\<lambda>sp.
     andthen (getm cls sp) (\<lambda>w.
     andthen (setr cls (first inst) w) (\<lambda>_. ret UpdatePC)))))"

lemmas move_ops = stop_def restart_def move_def swap_def load_def loadrr_def loadri_def loadh_def
  loadhrr_def loadhri_def loadq_def loadqrr_def loadqri_def loadi_def loadhi_def loada_def
  store_def storerr_def storeri_def storeh_def storehrr_def storehri_def storeq_def
  storeqrr_def storeqri_def push_def pop_def

lemma sized_move_ops [pres_intros]:
  "keeps X (fits R) (stop cls inst)" "keeps X (fits R) (restart cls inst)"
  "keeps X (fits R) (move cls inst)" "keeps X (fits R) (swap cls inst)"
  "keeps X (fits R) (load cls inst)" "keeps X (fits R) (loadrr cls inst)"
  "keeps X (fits R) (loadri cls inst)" "keeps X (fits R) (loadh cls inst)"
  "keeps X (fits R) (loadhrr cls inst)" "keeps X (fits R) (loadhri cls inst)"
  "keeps X (fits R) (loadq cls inst)" "keeps X (fits R) (loadqrr cls inst)"
  "keeps X (fits R) (loadqri cls inst)" "keeps X (fits R) (loadi cls inst)"
  "keeps X (fits R) (loadhi cls inst)" "keeps X (fits R) (loada cls inst)"
  "keeps X (fits R) (store cls inst)" "keeps X (fits R) (storerr cls inst)"
  "keeps X (fits R) (storeri cls inst)" "keeps X (fits R) (storeh cls inst)"
  "keeps X (fits R) (storehrr cls inst)" "keeps X (fits R) (storehri cls inst)"
  "keeps X (fits R) (storeq cls inst)" "keeps X (fits R) (storeqrr cls inst)"
  "keeps X (fits R) (storeqri cls inst)" "keeps X (fits R) (push cls inst)"
  "keeps X (fits R) (pop cls inst)"
  unfolding move_ops by (intro pres_intros)+

section \<open>What the operations do\<close>

lemma getm_run: "get_mem e a True c = (get_word e (cpu_memory c) a True, c)"
  by (simp add: get_mem_def)

lemma getmh_run: "get_halfmem e a True c = (get_halfword e (cpu_memory c) a True, c)"
  by (simp add: get_halfmem_def)

lemma getmq_run: "get_quartermem a c = (get_quarterword (cpu_memory c) a, c)"
  by (simp add: get_quartermem_def)

lemma setm_run:
  "set_mem e a w True c = (case set_word e (cpu_memory c) a w True of
     Inl x \<Rightarrow> (Inl x, c) | Inr m \<Rightarrow> (Inr (), c\<lparr>cpu_memory := m\<rparr>))"
  by (simp add: set_mem_def attempt_def split: sum.split)

lemma setmh_run:
  "set_halfmem e a w True c = (case set_halfword e (cpu_memory c) a w True of
     Inl x \<Rightarrow> (Inl x, c) | Inr m \<Rightarrow> (Inr (), c\<lparr>cpu_memory := m\<rparr>))"
  by (simp add: set_halfmem_def attempt_def split: sum.split)

lemma setmq_run:
  "set_quartermem a w c = (case set_quarterword (cpu_memory c) a w of
     Inl x \<Rightarrow> (Inl x, c) | Inr m \<Rightarrow> (Inr (), c\<lparr>cpu_memory := m\<rparr>))"
  by (simp add: set_quartermem_def attempt_def split: sum.split)

lemmas mem_runs = getm_run getmh_run getmq_run setm_run setmh_run setmq_run

lemma wf_cpuD: "wf_cpu c \<Longrightarrow> wf_memory (cpu_memory c)"
  by (simp add: wf_cpu_def)

lemma restart_run:
  assumes "wf_cpu c"
  shows "restart cls inst c =
    (Inr UpdateNone, put_regs (put_reg c 0 0) (map (\<lambda>r. (of_nat r, 0)) [1..<16]))"
proof -
  have "[0..<16] = 0 # [1..<16]"
    by (simp add: upt_conv_Cons)
  moreover have "for_each (map of_nat [1..<16]) (\<lambda>i (_ :: unit). setr cls i 0) () (put_reg c 0 0) =
      for_each (map (\<lambda>r. (of_nat r, 0)) [1..<16])
        (\<lambda>(r, w) (_ :: unit). setr cls r w) () (put_reg c 0 0)"
    by (simp only: for_each_map prod.case)
  moreover have "visible (map fst (map (\<lambda>r. (of_nat r :: uint8, 0 :: cpu_word)) [1..<16]))"
    by (simp add: upt_rec)
  ultimately show ?thesis
    using assms by (simp add: restart_def write_regs_run)
qed

lemma load_reg_run:
  assumes "wf_cpu c"
  shows "load cls inst c = (case get_word (host cls) (cpu_memory c) (reg c REGISTER_PC + i_offset inst) True of
      Inl x \<Rightarrow> (Inl x, c) | Inr w \<Rightarrow> (Inr UpdatePC, put_reg c (first inst) w))"
  using assms by (simp add: load_def mem_runs split: sum.split)

lemma push_run:
  assumes "wf_cpu c" and "unat (reg c REGISTER_SP) + 4 \<le> msize c"
  shows "push cls inst c = (Inr UpdatePC,
    put_reg (put_mword c (reg c REGISTER_SP) (reg c (first inst)))
      REGISTER_SP (reg c REGISTER_SP + 4))"
  using assms by (simp add: push_def set_mem_run)

lemma push_fault:
  assumes "wf_cpu c" and "\<not> unat (reg c REGISTER_SP) + 4 \<le> msize c"
  shows "push cls inst c = (Inl (MemoryError (reg c REGISTER_SP)), c)"
  using assms by (simp add: push_def set_mem_run)

lemma pop_run:
  assumes "wf_cpu c" and "unat (reg c REGISTER_SP - 4) + 4 \<le> msize c"
  shows "pop cls inst c = (Inr UpdatePC,
    put_reg (put_reg c REGISTER_SP (reg c REGISTER_SP - 4))
      (first inst) (mword c (reg c REGISTER_SP - 4)))"
  using assms by (simp add: pop_def get_mem_run reg_put_reg)

lemma pop_fault:
  assumes "wf_cpu c" and "\<not> unat (reg c REGISTER_SP - 4) + 4 \<le> msize c"
  shows "pop cls inst c = (Inl (MemoryError (reg c REGISTER_SP - 4)),
    put_reg c REGISTER_SP (reg c REGISTER_SP - 4))"
  using assms by (simp add: pop_def get_mem_run reg_put_reg)

lemma halves_back: "push_bit 16 (drop_bit 16 x) OR drop_bit 16 (push_bit 16 x) = (x :: cpu_word)"
  by (rule bit_word_eqI) (auto simp: bit_simps)

lemma loadhi_halves:
  fixes h l :: uint16
  shows "(ucast l AND 0x0000ffff) OR push_bit 16 (ucast h :: cpu_word) = word_cat h l"
proof -
  have m: "(0x0000ffff :: cpu_word) = mask 16"
    by (simp add: mask_eq_exp_minus_1)
  show ?thesis
    unfolding m by (rule bit_word_eqI) (auto simp: bit_simps bit_word_cat_iff bit_high)
qed

section \<open>Properties\<close>

text \<open>
  \<open>push\<close> of one register followed by \<open>pop\<close> into another moves the value and leaves every
  other register and the stack pointer as they were, when the stack has room for the word.
\<close>

theorem push_pop:
  assumes "wf_cpu c" and "unat (reg c REGISTER_SP) + 4 \<le> msize c"
    and "first j \<noteq> REGISTER_WC" and "first j \<noteq> REGISTER_SP"
  shows "\<exists>d f. push cls i c = (Inr UpdatePC, d) \<and> pop cls j d = (Inr UpdatePC, f) \<and>
    reg f (first j) = reg c (first i) \<and>
    (\<forall>r. unat r < 16 \<and> r \<noteq> first j \<longrightarrow> reg f r = reg c r)"
proof (intro exI conjI allI impI)
  let ?sp = "reg c REGISTER_SP"
  let ?d = "put_reg (put_mword c ?sp (reg c (first i))) REGISTER_SP (?sp + 4)"
  let ?f = "put_reg (put_reg ?d REGISTER_SP ?sp) (first j) (reg c (first i))"
  show "push cls i c = (Inr UpdatePC, ?d)"
    using assms by (simp add: push_run)
  have d: "wf_cpu ?d" "reg ?d REGISTER_SP = ?sp + 4" "mword ?d ?sp = reg c (first i)"
    "msize ?d = msize c"
    using assms by (simp_all add: reg_put_reg mword_put_mword_same)
  then show "pop cls j ?d = (Inr UpdatePC, ?f)"
    using assms by (simp add: pop_run)
  show "reg ?f (first j) = reg c (first i)"
    using assms by (simp add: reg_put_reg)
  fix r :: uint8
  assume "unat r < 16 \<and> r \<noteq> first j"
  with assms show "reg ?f r = reg c r"
    by (auto simp: reg_put_reg)
qed

definition inst_first :: "4 word \<Rightarrow> instruction" where
  "inst_first r = \<lparr>i_code = 0, i_first = r, i_second = 0, i_data = 0\<rparr>"

theorem push_pop_witness:
  "\<exists>d f. push (plain_cpu LittleEndian isa_empty) (inst_first 10) (put_reg fresh_cpu 10 42) = (Inr UpdatePC, d) \<and>
    pop (plain_cpu LittleEndian isa_empty) (inst_first 11) d = (Inr UpdatePC, f) \<and> reg f 11 = 42"
  using push_pop [of "put_reg fresh_cpu 10 42" "inst_first 11" "plain_cpu LittleEndian isa_empty" "inst_first 10"]
  by (auto simp: inst_first_def reg_put_reg)

text \<open>
  What a store instruction writes, the load instruction with the same base register and
  offset reads back: the whole word, the low half zero-extended, or the low byte
  zero-extended; the registers in between are untouched by the store.
\<close>

theorem store_then_load:
  assumes wf: "wf_cpu c" and base: "second j = first i" "i_data j = i_data i"
    and room: "unat (reg c (first i) + i_offset i) + 4 \<le> msize c"
  shows "(\<exists>d. storeri cls i c = (Inr UpdatePC, d) \<and> (\<forall>r. reg d r = reg c r) \<and>
      loadri cls j d = (Inr UpdatePC, put_reg d (first j) (reg c (second i)))) \<and>
    (\<exists>d. storehri cls i c = (Inr UpdatePC, d) \<and> (\<forall>r. reg d r = reg c r) \<and>
      loadhri cls j d = (Inr UpdatePC, put_reg d (first j) (ucast (ucast (reg c (second i)) :: half_word)))) \<and>
    (\<exists>d. storeqri cls i c = (Inr UpdatePC, d) \<and> (\<forall>r. reg d r = reg c r) \<and>
      loadqri cls j d = (Inr UpdatePC, put_reg d (first j) (ucast (ucast (reg c (second i)) :: quarter_word))))"
proof (intro conjI)
  let ?a = "reg c (first i) + i_offset i" and ?w = "reg c (second i)"
  have offset: "i_offset j = i_offset i"
    using base(2) by (simp add: i_offset_def)
  have wfm: "wf_memory (cpu_memory c)"
    using wf by (rule wf_cpuD)
  obtain m where m: "set_word (host cls) (cpu_memory c) ?a ?w True = Inr m" "wf_memory m"
    using mw.set_in [OF wfm, of ?a "host cls" ?w] room by (auto simp: msize_def)
  show "\<exists>d. storeri cls i c = (Inr UpdatePC, d) \<and> (\<forall>r. reg d r = reg c r) \<and>
      loadri cls j d = (Inr UpdatePC, put_reg d (first j) ?w)"
    using wf m mw.get_set_same [OF wfm m(1)]
    by (simp add: storeri_def loadri_def mem_runs base offset)
  obtain n where n: "set_halfword (host cls) (cpu_memory c) ?a (ucast ?w) True = Inr n" "wf_memory n"
    using mh.set_in [OF wfm, of ?a "host cls" "ucast ?w"] room by (auto simp: msize_def)
  show "\<exists>d. storehri cls i c = (Inr UpdatePC, d) \<and> (\<forall>r. reg d r = reg c r) \<and>
      loadhri cls j d = (Inr UpdatePC, put_reg d (first j) (ucast (ucast ?w :: half_word)))"
    using wf n mh.get_set_same [OF wfm n(1)]
    by (simp add: storehri_def loadhri_def mem_runs base offset)
  obtain q where q: "set_quarterword (cpu_memory c) ?a (ucast ?w) = Inr q" "wf_memory q"
    using mq.set_in [OF wfm, of ?a "ucast ?w"] room by (auto simp: msize_def)
  show "\<exists>d. storeqri cls i c = (Inr UpdatePC, d) \<and> (\<forall>r. reg d r = reg c r) \<and>
      loadqri cls j d = (Inr UpdatePC, put_reg d (first j) (ucast (ucast ?w :: quarter_word)))"
    using wf q mq.get_set_same [OF wfm q(1)]
    by (simp add: storeqri_def loadqri_def mem_runs base offset)
qed

theorem store_then_load_witness:
  "\<exists>d. storeri (plain_cpu BigEndian isa_empty) (inst_first 10) (put_reg fresh_cpu 10 64) = (Inr UpdatePC, d) \<and>
     (\<forall>r. reg d r = reg (put_reg fresh_cpu 10 64) r) \<and>
     loadri (plain_cpu BigEndian isa_empty) \<lparr>i_code = 0, i_first = 11, i_second = 10, i_data = 0\<rparr> d =
       (Inr UpdatePC, put_reg d 11 0)"
  using store_then_load [of "put_reg fresh_cpu 10 64"
      "\<lparr>i_code = 0, i_first = 11, i_second = 10, i_data = 0\<rparr>" "inst_first 10"
      "plain_cpu BigEndian isa_empty", THEN conjunct1]
  by (simp add: inst_first_def reg_put_reg i_offset_def)

text \<open>
  \<open>loadi\<close> and \<open>loadhi\<close> together build any 32-bit constant from its two halves, whatever
  the register held before; either instruction touches that register only.
\<close>

theorem load_constant:
  assumes "wf_cpu c" and "first i \<noteq> REGISTER_WC" and "i_first j = i_first i"
  shows "\<exists>d f. loadi cls i c = (Inr UpdatePC, d) \<and> loadhi cls j d = (Inr UpdatePC, f) \<and>
    reg f (first i) = word_cat (i_data j) (i_data i) \<and>
    (\<forall>r. unat r < 16 \<and> r \<noteq> first i \<longrightarrow> reg f r = reg c r) \<and> cpu_memory f = cpu_memory c"
proof (intro exI conjI allI impI)
  let ?d = "put_reg c (first i) (inmediate i)"
  let ?f = "put_reg ?d (first i) (word_cat (i_data j) (i_data i))"
  show "loadi cls i c = (Inr UpdatePC, ?d)"
    using assms by (simp add: loadi_def)
  show "loadhi cls j ?d = (Inr UpdatePC, ?f)"
    using assms by (simp add: loadhi_def reg_put_reg loadhi_halves)
  show "reg ?f (first i) = word_cat (i_data j) (i_data i)"
    using assms by (simp add: reg_put_reg)
  fix r :: uint8
  assume "unat r < 16 \<and> r \<noteq> first i"
  with assms show "reg ?f r = reg c r"
    by (auto simp: reg_put_reg)
qed simp

theorem load_constant_witness:
  "\<exists>d f. loadi (plain_cpu LittleEndian isa_empty) \<lparr>i_code = 0, i_first = 10, i_second = 0, i_data = 0x5678\<rparr> fresh_cpu =
      (Inr UpdatePC, d) \<and>
    loadhi (plain_cpu LittleEndian isa_empty) \<lparr>i_code = 0, i_first = 10, i_second = 0, i_data = 0x1234\<rparr> d =
      (Inr UpdatePC, f) \<and> reg f 10 = 0x12345678"
proof -
  have cat: "(word_cat (0x1234 :: uint16) (0x5678 :: uint16) :: cpu_word) = 0x12345678"
    by (simp add: word_cat_eq push_bit_eq_mult)
  show ?thesis
    using load_constant [of fresh_cpu "\<lparr>i_code = 0, i_first = 10, i_second = 0, i_data = 0x5678\<rparr>"
        "\<lparr>i_code = 0, i_first = 10, i_second = 0, i_data = 0x1234\<rparr>" "plain_cpu LittleEndian isa_empty"]
    by (auto simp: cat)
qed

text \<open>
  Swapping the halves of a register twice restores it, and \<open>restart\<close> leaves every visible
  register 0 (so execution continues at address 0 in window 0) and the memory as it was.
\<close>

theorem swap_and_restart:
  assumes "wf_cpu c"
  shows "(first i \<noteq> REGISTER_WC \<and> i_second i = i_first i \<longrightarrow>
      (\<exists>d f. swap cls i c = (Inr UpdatePC, d) \<and> swap cls i d = (Inr UpdatePC, f) \<and>
         (\<forall>r. unat r < 16 \<longrightarrow> reg f r = reg c r))) \<and>
    (\<exists>d. restart cls j c = (Inr UpdateNone, d) \<and> (\<forall>r. unat r < 16 \<longrightarrow> reg d r = 0) \<and>
       cpu_memory d = cpu_memory c)"
proof (intro conjI impI)
  assume i: "first i \<noteq> REGISTER_WC \<and> i_second i = i_first i"
  let ?x = "reg c (first i)"
  let ?d = "put_reg c (first i) (push_bit 16 ?x OR drop_bit 16 ?x)"
  have "swap cls i c = (Inr UpdatePC, ?d)" "swap cls i ?d = (Inr UpdatePC, put_reg ?d (first i) ?x)"
    using assms i by (simp_all add: swap_def reg_put_reg halves_back)
  moreover have "reg (put_reg ?d (first i) ?x) r = reg c r" if "unat r < 16" for r
    using assms i that by (auto simp: reg_put_reg)
  ultimately show "\<exists>d f. swap cls i c = (Inr UpdatePC, d) \<and> swap cls i d = (Inr UpdatePC, f) \<and>
      (\<forall>r. unat r < 16 \<longrightarrow> reg f r = reg c r)"
    by blast
next
  let ?rws = "map (\<lambda>r. (of_nat r :: uint8, 0 :: cpu_word)) [1..<16]"
  let ?d = "put_regs (put_reg c 0 0) ?rws"
  have vis: "visible (map fst ?rws)" "distinct (map fst ?rws)"
    by (simp_all add: upt_rec)
  have "reg ?d r = 0" if "unat r < 16" for r
  proof (cases "r = 0")
    case True
    then have "map_of ?rws r = None"
      by (simp add: upt_rec)
    with True assms vis show ?thesis
      by (simp add: reg_put_regs reg_put_reg)
  next
    case False
    with that have "unat r \<in> set [1..<16]"
      by (auto simp: word_unat_eq_iff)
    then have "(r, 0) \<in> set ?rws"
      by (auto simp: image_iff intro!: bexI [of _ "unat r"])
    with vis(2) have "map_of ?rws r = Some 0"
      by (simp only: map_of_eq_Some_iff)
    with that assms vis show ?thesis
      by (simp add: reg_put_regs)
  qed
  then show "\<exists>d. restart cls j c = (Inr UpdateNone, d) \<and> (\<forall>r. unat r < 16 \<longrightarrow> reg d r = 0) \<and>
      cpu_memory d = cpu_memory c"
    using assms by (simp add: restart_run)
qed

theorem swap_and_restart_witness:
  "\<exists>d. restart (plain_cpu LittleEndian isa_empty) (inst_first 0) (put_reg fresh_cpu 10 42) = (Inr UpdateNone, d) \<and>
    reg d 10 = 0"
  using swap_and_restart [of "put_reg fresh_cpu 10 42" "inst_first 0" "plain_cpu LittleEndian isa_empty"
      "inst_first 0", THEN conjunct2] by auto

end
