(* ===== verification/Ops_Arith.thy ===== *)
theory Ops_Arith
  imports Ops_Move
begin

text \<open>
  \<open>simpleworld/cpu/operations_arithmetic.cpp\<close>, \<open>operations_logic.cpp\<close>,
  \<open>operations_shift.cpp\<close> and \<open>operations_sign.cpp\<close>.  Where the C++ expression is undefined (a
  shift by 32 or more, an overflow of a signed product) the operation throws
  \<open>UndefinedBehaviour\<close>.
\<close>

section \<open>Arithmetic\<close>

definition add :: "'z operation" where
  "add cls inst =
     andthen (getr cls (second inst)) (\<lambda>x.
     andthen (getr cls (third inst)) (\<lambda>y.
     andthen (setr cls (first inst) (x + y)) (\<lambda>_. ret UpdatePC)))"

definition addi :: "'z operation" where
  "addi cls inst =
     andthen (getr cls (second inst)) (\<lambda>x.
     andthen (setr cls (first inst) (x + inmediate inst)) (\<lambda>_. ret UpdatePC))"

definition sub :: "'z operation" where
  "sub cls inst =
     andthen (getr cls (second inst)) (\<lambda>x.
     andthen (getr cls (third inst)) (\<lambda>y.
     andthen (setr cls (first inst) (x - y)) (\<lambda>_. ret UpdatePC)))"

definition subi :: "'z operation" where
  "subi cls inst =
     andthen (getr cls (second inst)) (\<lambda>x.
     andthen (setr cls (first inst) (x - inmediate inst)) (\<lambda>_. ret UpdatePC))"

text \<open>\<open>result & LOWBITS_64BITS\<close>, converted to a \<open>Word\<close>.\<close>

definition low_word :: "uint64 \<Rightarrow> cpu_word" where
  "low_word result = ucast (result AND 0x00000000ffffffff)"

text \<open>The product of two words is a word; only then it is widened to 64 bits.\<close>

definition mult :: "'z operation" where
  "mult cls inst =
     andthen (getr cls (second inst)) (\<lambda>x.
     andthen (getr cls (third inst)) (\<lambda>y.
     andthen (setr cls (first inst) (low_word (ucast (x * y)))) (\<lambda>_. ret UpdatePC)))"

definition multi :: "'z operation" where
  "multi cls inst =
     andthen (getr cls (second inst)) (\<lambda>x.
     andthen (setr cls (first inst) (low_word (ucast (x * inmediate inst)))) (\<lambda>_. ret UpdatePC))"

text \<open>
  The product of two \<open>Sint32\<close> is an \<open>int\<close>: \<open>None\<close> where it overflows.  \<open>high_sword\<close> is
  \<open>static_cast<Sint32>(result >> 32)\<close>.
\<close>

definition smult32 :: "int \<Rightarrow> int \<Rightarrow> int option" where
  "smult32 a b = (if - (2 ^ 31) \<le> a * b \<and> a * b < 2 ^ 31 then Some (a * b) else None)"

definition high_sword :: "int \<Rightarrow> cpu_word" where
  "high_sword result = word_of_int (result div 2 ^ 32)"

definition multh :: "'z operation" where
  "multh cls inst =
     andthen (getr cls (second inst)) (\<lambda>x.
     andthen (getr cls (third inst)) (\<lambda>y.
     case smult32 (sint x) (sint y) of
       None \<Rightarrow> throw UndefinedBehaviour
     | Some result \<Rightarrow>
         andthen (setr cls (first inst) (high_sword result)) (\<lambda>_. ret UpdatePC)))"

definition multhi :: "'z operation" where
  "multhi cls inst =
     andthen (getr cls (second inst)) (\<lambda>x.
     case smult32 (sint x) (uint (i_data inst)) of
       None \<Rightarrow> throw UndefinedBehaviour
     | Some result \<Rightarrow>
         andthen (setr cls (first inst) (high_sword result)) (\<lambda>_. ret UpdatePC))"

definition high_uword :: "uint64 \<Rightarrow> cpu_word" where
  "high_uword result = ucast (drop_bit 32 result)"

definition multhu :: "'z operation" where
  "multhu cls inst =
     andthen (getr cls (second inst)) (\<lambda>x.
     andthen (getr cls (third inst)) (\<lambda>y.
     andthen (setr cls (first inst) (high_uword (ucast x * ucast y))) (\<lambda>_. ret UpdatePC)))"

definition multhui :: "'z operation" where
  "multhui cls inst =
     andthen (getr cls (second inst)) (\<lambda>x.
     andthen (setr cls (first inst) (high_uword (ucast x * ucast (i_data inst)))) (\<lambda>_. ret UpdatePC))"

definition div_op :: "'z operation" where
  "div_op cls inst =
     andthen (getr cls (second inst)) (\<lambda>dividend.
     andthen (getr cls (third inst)) (\<lambda>divisor.
     if divisor = 0
     then andthen (getr cls REGISTER_PC) (\<lambda>pc.
          andthen (vinterrupt cls INTERRUPT_DIVISION pc dividend) (\<lambda>_. ret UpdateInterrupt))
     else andthen (setr cls (first inst) (dividend div divisor)) (\<lambda>_. ret UpdatePC)))"

definition divi :: "'z operation" where
  "divi cls inst =
     andthen (getr cls (second inst)) (\<lambda>dividend.
     let divisor = inmediate inst
     in if divisor = 0
        then andthen (getr cls REGISTER_PC) (\<lambda>pc.
             andthen (vinterrupt cls INTERRUPT_DIVISION pc dividend) (\<lambda>_. ret UpdateInterrupt))
        else andthen (setr cls (first inst) (dividend div divisor)) (\<lambda>_. ret UpdatePC))"

definition mod_op :: "'z operation" where
  "mod_op cls inst =
     andthen (getr cls (second inst)) (\<lambda>dividend.
     andthen (getr cls (third inst)) (\<lambda>divisor.
     if divisor = 0
     then andthen (getr cls REGISTER_PC) (\<lambda>pc.
          andthen (vinterrupt cls INTERRUPT_DIVISION pc dividend) (\<lambda>_. ret UpdateInterrupt))
     else andthen (setr cls (first inst) (dividend mod divisor)) (\<lambda>_. ret UpdatePC)))"

definition modi :: "'z operation" where
  "modi cls inst =
     andthen (getr cls (second inst)) (\<lambda>dividend.
     let divisor = inmediate inst
     in if divisor = 0
        then andthen (getr cls REGISTER_PC) (\<lambda>pc.
             andthen (vinterrupt cls INTERRUPT_DIVISION pc dividend) (\<lambda>_. ret UpdateInterrupt))
        else andthen (setr cls (first inst) (dividend mod divisor)) (\<lambda>_. ret UpdatePC))"

section \<open>Logic\<close>

definition lnot :: "'z operation" where
  "lnot cls inst =
     andthen (getr cls (second inst)) (\<lambda>x.
     andthen (setr cls (first inst) (NOT x)) (\<lambda>_. ret UpdatePC))"

definition lor :: "'z operation" where
  "lor cls inst =
     andthen (getr cls (second inst)) (\<lambda>x.
     andthen (getr cls (third inst)) (\<lambda>y.
     andthen (setr cls (first inst) (x OR y)) (\<lambda>_. ret UpdatePC)))"

definition lori :: "'z operation" where
  "lori cls inst =
     andthen (getr cls (second inst)) (\<lambda>x.
     andthen (setr cls (first inst) (x OR inmediate inst)) (\<lambda>_. ret UpdatePC))"

definition land :: "'z operation" where
  "land cls inst =
     andthen (getr cls (second inst)) (\<lambda>x.
     andthen (getr cls (third inst)) (\<lambda>y.
     andthen (setr cls (first inst) (x AND y)) (\<lambda>_. ret UpdatePC)))"

definition landi :: "'z operation" where
  "landi cls inst =
     andthen (getr cls (second inst)) (\<lambda>x.
     andthen (setr cls (first inst) (x AND inmediate inst)) (\<lambda>_. ret UpdatePC))"

definition lxor :: "'z operation" where
  "lxor cls inst =
     andthen (getr cls (second inst)) (\<lambda>x.
     andthen (getr cls (third inst)) (\<lambda>y.
     andthen (setr cls (first inst) (x XOR y)) (\<lambda>_. ret UpdatePC)))"

definition lxori :: "'z operation" where
  "lxori cls inst =
     andthen (getr cls (second inst)) (\<lambda>x.
     andthen (setr cls (first inst) (x XOR inmediate inst)) (\<lambda>_. ret UpdatePC))"

section \<open>Shifts\<close>

text \<open>
  A shift of a 32-bit operand is undefined unless the amount is below 32.  \<open>set_shifted\<close>
  stores the value of an expression all of whose shifts are defined.
\<close>

definition shl32 :: "cpu_word \<Rightarrow> nat \<Rightarrow> cpu_word option" where
  "shl32 x n = (if n < 32 then Some (push_bit n x) else None)"

definition shr32 :: "cpu_word \<Rightarrow> nat \<Rightarrow> cpu_word option" where
  "shr32 x n = (if n < 32 then Some (drop_bit n x) else None)"

definition or_defined :: "cpu_word option \<Rightarrow> cpu_word option \<Rightarrow> cpu_word option" where
  "or_defined a b =
     (case a of None \<Rightarrow> None | Some u \<Rightarrow> (case b of None \<Rightarrow> None | Some v \<Rightarrow> Some (u OR v)))"

definition set_shifted ::
    "'z cpu_class \<Rightarrow> uint8 \<Rightarrow> cpu_word option \<Rightarrow> ('z cpu_state_scheme, update) prog" where
  "set_shifted cls r result =
     (case result of
        None \<Rightarrow> throw UndefinedBehaviour
      | Some w \<Rightarrow> andthen (setr cls r w) (\<lambda>_. ret UpdatePC))"

text \<open>The expressions of the right-hand sides, for an amount \<open>n\<close>.\<close>

definition sra_value :: "cpu_word \<Rightarrow> nat \<Rightarrow> cpu_word option" where
  "sra_value x n = or_defined (shr32 x n) (Some (x AND 0x80000000))"

definition rl_value :: "cpu_word \<Rightarrow> nat \<Rightarrow> cpu_word option" where
  "rl_value x n = or_defined (shl32 x n) (shr32 x (32 - n mod 32))"

definition rr_value :: "cpu_word \<Rightarrow> nat \<Rightarrow> cpu_word option" where
  "rr_value x n = or_defined (shr32 x n) (shl32 x (32 - n mod 32))"

definition sll :: "'z operation" where
  "sll cls inst =
     andthen (getr cls (second inst)) (\<lambda>x.
     andthen (getr cls (third inst)) (\<lambda>y.
     set_shifted cls (first inst) (shl32 x (unat y))))"

definition slli :: "'z operation" where
  "slli cls inst =
     andthen (getr cls (second inst)) (\<lambda>x.
     set_shifted cls (first inst) (shl32 x (unat (i_data inst))))"

definition srl :: "'z operation" where
  "srl cls inst =
     andthen (getr cls (second inst)) (\<lambda>x.
     andthen (getr cls (third inst)) (\<lambda>y.
     set_shifted cls (first inst) (shr32 x (unat y))))"

definition srli :: "'z operation" where
  "srli cls inst =
     andthen (getr cls (second inst)) (\<lambda>x.
     set_shifted cls (first inst) (shr32 x (unat (i_data inst))))"

definition sra :: "'z operation" where
  "sra cls inst =
     andthen (getr cls (second inst)) (\<lambda>x.
     andthen (getr cls (third inst)) (\<lambda>y.
     set_shifted cls (first inst) (sra_value x (unat y))))"

definition srai :: "'z operation" where
  "srai cls inst =
     andthen (getr cls (second inst)) (\<lambda>x.
     set_shifted cls (first inst) (sra_value x (unat (i_data inst))))"

definition rl :: "'z operation" where
  "rl cls inst =
     andthen (getr cls (second inst)) (\<lambda>x.
     andthen (getr cls (third inst)) (\<lambda>y.
     set_shifted cls (first inst) (rl_value x (unat y))))"

definition rli :: "'z operation" where
  "rli cls inst =
     andthen (getr cls (second inst)) (\<lambda>x.
     set_shifted cls (first inst) (rl_value x (unat (i_data inst))))"

definition rr :: "'z operation" where
  "rr cls inst =
     andthen (getr cls (second inst)) (\<lambda>x.
     andthen (getr cls (third inst)) (\<lambda>y.
     set_shifted cls (first inst) (rr_value x (unat y))))"

definition rri :: "'z operation" where
  "rri cls inst =
     andthen (getr cls (second inst)) (\<lambda>x.
     set_shifted cls (first inst) (rr_value x (unat (i_data inst))))"

section \<open>Sign extension\<close>

text \<open>\<open>set_byte\<close> at each of a list of byte positions.\<close>

definition set_bytes :: "endian \<Rightarrow> cpu_word \<Rightarrow> uint8 list \<Rightarrow> quarter_word \<Rightarrow> exn + cpu_word" where
  "set_bytes e word bytes value = fold_attempt (\<lambda>w i. set_byte e w i value) word bytes"

definition signh_bytes :: "endian \<Rightarrow> uint8 list" where
  "signh_bytes e = (case e of BigEndian \<Rightarrow> [0, 1] | LittleEndian \<Rightarrow> [2, 3])"

definition signq_bytes :: "endian \<Rightarrow> uint8 list" where
  "signq_bytes e = (case e of BigEndian \<Rightarrow> [0, 1, 2] | LittleEndian \<Rightarrow> [1, 2, 3])"

definition signh :: "'z operation" where
  "signh cls inst =
     andthen (getr cls (second inst)) (\<lambda>word.
     andthen (reading (\<lambda>_. set_bytes (host cls) word (signh_bytes (host cls))
                             (if word AND 0x8000 \<noteq> 0 then 0xff else 0))) (\<lambda>word.
     andthen (setr cls (first inst) word) (\<lambda>_. ret UpdatePC)))"

definition signq :: "'z operation" where
  "signq cls inst =
     andthen (getr cls (second inst)) (\<lambda>word.
     andthen (reading (\<lambda>_. set_bytes (host cls) word (signq_bytes (host cls))
                             (if word AND 0x0080 \<noteq> 0 then 0xff else 0))) (\<lambda>word.
     andthen (setr cls (first inst) word) (\<lambda>_. ret UpdatePC)))"

lemmas arith_ops = add_def addi_def sub_def subi_def mult_def multi_def multh_def multhi_def multhu_def multhui_def lnot_def lor_def lori_def land_def landi_def lxor_def lxori_def sll_def slli_def srl_def srli_def sra_def srai_def rl_def rli_def rr_def rri_def signh_def signq_def

lemma sized_set_shifted [pres_intros]: "keeps X (fits R) (set_shifted cls r v)"
  unfolding set_shifted_def by (cases v) (auto intro: pres_intros)

lemma sized_arith_ops [pres_intros]:
  "keeps X (fits R) (add cls inst)" "keeps X (fits R) (addi cls inst)"
  "keeps X (fits R) (sub cls inst)" "keeps X (fits R) (subi cls inst)"
  "keeps X (fits R) (mult cls inst)" "keeps X (fits R) (multi cls inst)"
  "keeps X (fits R) (multh cls inst)" "keeps X (fits R) (multhi cls inst)"
  "keeps X (fits R) (multhu cls inst)" "keeps X (fits R) (multhui cls inst)"
  "keeps X (fits R) (lnot cls inst)" "keeps X (fits R) (lor cls inst)"
  "keeps X (fits R) (lori cls inst)" "keeps X (fits R) (land cls inst)"
  "keeps X (fits R) (landi cls inst)" "keeps X (fits R) (lxor cls inst)"
  "keeps X (fits R) (lxori cls inst)" "keeps X (fits R) (sll cls inst)"
  "keeps X (fits R) (slli cls inst)" "keeps X (fits R) (srl cls inst)"
  "keeps X (fits R) (srli cls inst)" "keeps X (fits R) (sra cls inst)"
  "keeps X (fits R) (srai cls inst)" "keeps X (fits R) (rl cls inst)"
  "keeps X (fits R) (rli cls inst)" "keeps X (fits R) (rr cls inst)"
  "keeps X (fits R) (rri cls inst)" "keeps X (fits R) (signh cls inst)"
  "keeps X (fits R) (signq cls inst)"
  unfolding arith_ops
  by (intro pres_intros; auto split: option.split intro!: pres_intros)+

lemma sized_division_ops [pres_intros]:
  assumes "\<And>code g1 g2. keeps X (fits R) (vinterrupt cls code g1 g2)"
  shows
    "keeps X (fits R) (div_op cls inst)" "keeps X (fits R) (divi cls inst)"
    "keeps X (fits R) (mod_op cls inst)" "keeps X (fits R) (modi cls inst)"
  unfolding div_op_def divi_def mod_op_def modi_def Let_def
  by (intro pres_intros assms)+

section \<open>Values of the expressions\<close>

lemma rl_value_rotl: "rl_value x n = (if 0 < n \<and> n < 32 then Some (word_rotl n x) else None)"
proof (cases "0 < n \<and> n < 32")
  case True
  have "push_bit n x OR drop_bit (32 - n) x = word_rotl n x"
  proof (rule bit_word_eqI)
    fix k
    assume k: "k < LENGTH(32)"
    then have "(k + (LENGTH(32) - n mod LENGTH(32))) mod LENGTH(32) =
        (if k < n then k + (32 - n) else k - n)"
      using True by (auto simp: mod_if)
    with True k show "bit (push_bit n x OR drop_bit (32 - n) x) k \<longleftrightarrow> bit (word_rotl n x) k"
      by (auto simp: bit_word_rotl_iff bit_or_iff bit_push_bit_iff bit_drop_bit_eq bit_high
          add.commute)
  qed
  with True show ?thesis
    by (simp add: rl_value_def or_defined_def shl32_def shr32_def)
qed (auto simp: rl_value_def or_defined_def shl32_def shr32_def)

lemma rr_value_rotr: "rr_value x n = (if 0 < n \<and> n < 32 then Some (word_rotr n x) else None)"
proof (cases "0 < n \<and> n < 32")
  case True
  have "drop_bit n x OR push_bit (32 - n) x = word_rotr n x"
  proof (rule bit_word_eqI)
    fix k
    assume k: "k < LENGTH(32)"
    then have "(k + n) mod LENGTH(32) = (if k + n < 32 then n + k else k - (32 - n))"
      using True by (auto simp: mod_if)
    with True k show "bit (drop_bit n x OR push_bit (32 - n) x) k \<longleftrightarrow> bit (word_rotr n x) k"
      by (auto simp: bit_word_rotr_iff bit_or_iff bit_push_bit_iff bit_drop_bit_eq bit_high)
  qed
  with True show ?thesis
    by (simp add: rr_value_def or_defined_def shl32_def shr32_def)
qed (auto simp: rr_value_def or_defined_def shl32_def shr32_def)

lemma sra_value_defined:
  "sra_value x n = (if n < 32 then Some (drop_bit n x OR (x AND 0x80000000)) else None)"
  by (simp add: sra_value_def or_defined_def shr32_def)

lemma bit_sign_mask: "bit (x AND 0x80000000 :: cpu_word) m \<longleftrightarrow> m = 31 \<and> bit x 31"
proof -
  have mask: "(0x80000000 :: cpu_word) = push_bit 31 1"
    by (simp add: push_bit_eq_mult)
  have "bit (push_bit 31 1 :: cpu_word) m \<longleftrightarrow> m = 31"
    by (simp only: bit_push_bit_iff bit_1_iff) auto
  then show ?thesis
    unfolding mask by (auto simp only: bit_and_iff)
qed

lemma sra_arithmetic:
  assumes "n < 32"
  shows "sra_value x n = Some (signed_drop_bit n x) \<longleftrightarrow> \<not> bit x 31 \<or> n \<le> 1"
proof -
  have eq: "drop_bit n x OR (x AND 0x80000000) = signed_drop_bit n x" if "\<not> bit x 31 \<or> n \<le> 1"
  proof (rule bit_word_eqI)
    fix m
    assume "m < LENGTH(32)"
    then have "m = 31 \<or> m < 31" by auto
    moreover have "n = 0 \<or> n = 1 \<or> 1 < n" by auto
    ultimately show "bit (drop_bit n x OR (x AND 0x80000000)) m \<longleftrightarrow> bit (signed_drop_bit n x) m"
      using that assms
      by (auto simp: bit_or_iff bit_sign_mask bit_drop_bit_eq bit_signed_drop_bit_iff bit_high)
  qed
  have ne: "drop_bit n x OR (x AND 0x80000000) \<noteq> signed_drop_bit n x" if "bit x 31" "1 < n"
  proof
    assume "drop_bit n x OR (x AND 0x80000000) = signed_drop_bit n x"
    then have "bit (drop_bit n x OR (x AND 0x80000000)) 30 \<longleftrightarrow> bit (signed_drop_bit n x) 30"
      by simp
    then show False
      using that assms by (cases "32 - n \<le> 30") (auto simp: bit_or_iff bit_sign_mask bit_drop_bit_eq bit_signed_drop_bit_iff bit_high)
  qed
  show ?thesis
    using assms eq ne by (cases "n \<le> 1") (auto simp: sra_value_defined)
qed

lemma low_word_product: "low_word (ucast (w :: cpu_word)) = w"
proof -
  have mask: "(0x00000000ffffffff :: uint64) = mask 32"
    by (simp add: mask_eq_exp_minus_1)
  show ?thesis
    unfolding low_word_def mask by (rule bit_word_eqI) (auto simp: bit_simps)
qed

lemma high_uword_product:
  "2 ^ 32 * uint (high_uword (ucast x * ucast y)) + uint (x * y) = uint x * uint (y :: cpu_word)"
proof -
  let ?p = "ucast x * ucast y :: uint64"
  have b: "uint x < 2 ^ 32" "uint y < 2 ^ 32" "0 \<le> uint x" "0 \<le> uint y"
    using unsigned_less [of x, where ?'a = int] unsigned_less [of y, where ?'a = int] by simp_all
  then have le: "uint x * uint y \<le> (2 ^ 32 - 1) * (2 ^ 32 - 1)"
    by (intro mult_mono) simp_all
  have high: "0 \<le> uint x * uint y div 2 ^ 32" "uint x * uint y div 2 ^ 32 < 2 ^ 32"
    using zdiv_mono1 [OF le, of "2 ^ 32"] b by (simp_all add: pos_imp_zdiv_nonneg_iff)
  note le
  moreover have "take_bit 64 (uint x) = uint x" "take_bit 64 (uint y) = uint y"
    using b by (simp_all add: take_bit_int_eq_self_iff)
  ultimately have p: "uint ?p = uint x * uint y"
    using b by (simp add: uint_word_ariths unsigned_ucast_eq)
  have "uint (x * y) = (uint x * uint y) mod 2 ^ 32"
    by (simp add: uint_word_ariths)
  moreover have "uint (high_uword ?p) = (uint x * uint y) div 2 ^ 32"
    using p b high
    by (simp add: high_uword_def unsigned_ucast_eq drop_bit_eq_div uint_div take_bit_int_eq_self_iff)
  ultimately show ?thesis by simp
qed

lemma smult32_high: "smult32 a b = Some p \<Longrightarrow> high_sword p = (if p < 0 then - 1 else 0)"
proof -
  assume "smult32 a b = Some p"
  then have "- (2 ^ 31) \<le> p" "p < 2 ^ 31"
    by (auto simp: smult32_def split: if_splits)
  then have "p div 2 ^ 32 = (if p < 0 then - 1 else 0)"
    by auto
  then show ?thesis
    by (simp add: high_sword_def)
qed


lemma set_bytes_host:
  "length bs = 4 \<Longrightarrow> \<forall>i\<in>set is. i \<le> 3 \<Longrightarrow>
    set_bytes e (host_word e bs) is v = Inr (host_word e (fold (\<lambda>i bs. bs[unat i := v]) is bs))"
  unfolding set_bytes_def by (induction "is" arbitrary: bs) (auto simp: set_byte_host_word)

lemma host_word_of_be: "host_word e (host_order e bs) = be_word bs"
  by (simp add: host_word_def)

lemma word_sign_bits:
  "(x :: cpu_word) AND 0x8000 \<noteq> 0 \<longleftrightarrow> bit x 15" "x AND 0x0080 \<noteq> 0 \<longleftrightarrow> bit x 7"
proof -
  have "x AND push_bit n 1 \<noteq> 0 \<longleftrightarrow> bit x n" if "n < 32" for n
    using that by (simp add: bit_iff_and_push_bit_not_eq_0)
  from this [of 15] this [of 7]
  show "x AND 0x8000 \<noteq> 0 \<longleftrightarrow> bit x 15" "x AND 0x0080 \<noteq> 0 \<longleftrightarrow> bit x 7"
    by (simp_all add: push_bit_eq_mult)
qed

lemma be_bytes_sign:
  "be_bytes (scast (ucast x :: uint16)) = (let s = (if bit x 15 then 0xff else 0)
     in [s, s, ucast (drop_bit 8 x), ucast x])"
  "be_bytes (scast (ucast x :: uint8)) = (let s = (if bit x 7 then 0xff else 0)
     in [s, s, s, ucast x])"
proof -
  have ff: "(0xff :: uint8) = - 1"
    by simp
  show "be_bytes (scast (ucast x :: uint16)) = (let s = (if bit x 15 then 0xff else 0)
     in [s, s, ucast (drop_bit 8 x), ucast x])"
    unfolding ff be_bytes_def Let_def
    by (auto intro!: bit_word_eqI simp: bit_simps bit_high)
  show "be_bytes (scast (ucast x :: uint8)) = (let s = (if bit x 7 then 0xff else 0)
     in [s, s, s, ucast x])"
    unfolding ff be_bytes_def Let_def
    by (auto intro!: bit_word_eqI simp: bit_simps bit_high)
qed

lemma bytes_below [simp]: "\<forall>i\<in>set (signh_bytes e). i \<le> 3" "\<forall>i\<in>set (signq_bytes e). i \<le> 3"
  by (cases e; simp add: signh_bytes_def signq_bytes_def word_le_nat_alt)+

lemma host_word_be_bytes: "w = host_word e (host_order e (be_bytes w))"
  by (simp add: host_word_def)

lemma signh_value:
  "set_bytes e x (signh_bytes e) (if x AND 0x8000 \<noteq> 0 then 0xff else 0) =
    Inr (scast (ucast x :: uint16))"
proof -
  let ?v = "if bit x 15 then 0xff else 0 :: uint8"
  obtain a b c d where x: "be_bytes x = [a, b, c, d]"
    using length_4D [of "be_bytes x"] by auto
  then have cd: "c = ucast (drop_bit 8 x)" "d = ucast x"
    by (simp_all add: be_bytes_def)
  have "set_bytes e (host_word e (host_order e (be_bytes x))) (signh_bytes e) ?v =
      Inr (host_word e (host_order e [?v, ?v, c, d]))"
    by (subst set_bytes_host) (cases e; simp add: x signh_bytes_def)+
  moreover have "[?v, ?v, c, d] = be_bytes (scast (ucast x :: uint16))"
    by (simp add: be_bytes_sign cd Let_def)
  ultimately show ?thesis
    by (simp add: word_sign_bits flip: host_word_be_bytes)
qed

lemma signq_value:
  "set_bytes e x (signq_bytes e) (if x AND 0x0080 \<noteq> 0 then 0xff else 0) =
    Inr (scast (ucast x :: uint8))"
proof -
  let ?v = "if bit x 7 then 0xff else 0 :: uint8"
  obtain a b c d where x: "be_bytes x = [a, b, c, d]"
    using length_4D [of "be_bytes x"] by auto
  then have d: "d = ucast x"
    by (simp add: be_bytes_def)
  have "set_bytes e (host_word e (host_order e (be_bytes x))) (signq_bytes e) ?v =
      Inr (host_word e (host_order e [?v, ?v, ?v, d]))"
    by (subst set_bytes_host) (cases e; simp add: x signq_bytes_def)+
  moreover have "[?v, ?v, ?v, d] = be_bytes (scast (ucast x :: uint8))"
    by (simp add: be_bytes_sign d Let_def)
  ultimately show ?thesis
    by (simp add: word_sign_bits flip: host_word_be_bytes)
qed

section \<open>Properties\<close>

text \<open>
  \<open>mult\<close> and \<open>multhu\<close> of the same operands are the low and the high word of their full
  64-bit unsigned product.
\<close>

theorem full_product:
  assumes "wf_cpu c" and "unat (third i) < 16" and "second j = second i" and "third j = third i"
  shows "\<exists>lo hi. mult cls i c = (Inr UpdatePC, put_reg c (first i) lo) \<and>
    multhu cls j c = (Inr UpdatePC, put_reg c (first j) hi) \<and>
    2 ^ 32 * uint hi + uint lo = uint (reg c (second i)) * uint (reg c (third i))"
proof (intro exI conjI)
  let ?x = "reg c (second i)" and ?y = "reg c (third i)"
  show "mult cls i c = (Inr UpdatePC, put_reg c (first i) (?x * ?y))"
    using assms by (simp add: mult_def low_word_product)
  show "multhu cls j c = (Inr UpdatePC, put_reg c (first j) (high_uword (ucast ?x * ucast ?y)))"
    using assms by (simp add: multhu_def)
qed (rule high_uword_product)

definition inst_regs :: "4 word \<Rightarrow> 4 word \<Rightarrow> uint16 \<Rightarrow> instruction" where
  "inst_regs r s d = \<lparr>i_code = 0, i_first = r, i_second = s, i_data = d\<rparr>"

lemma inst_regs_sel [simp]:
  "i_first (inst_regs r s d) = r" "i_second (inst_regs r s d) = s" "i_data (inst_regs r s d) = d"
  by (simp_all add: inst_regs_def)

theorem full_product_witness:
  "\<exists>lo hi. mult (plain_cpu BigEndian isa_empty) (inst_regs 12 10 11)
      (put_reg (put_reg fresh_cpu 10 0x10000) 11 0x30000) = (Inr UpdatePC,
        put_reg (put_reg (put_reg fresh_cpu 10 0x10000) 11 0x30000) 12 lo) \<and>
     multhu (plain_cpu BigEndian isa_empty) (inst_regs 13 10 11)
      (put_reg (put_reg fresh_cpu 10 0x10000) 11 0x30000) = (Inr UpdatePC,
        put_reg (put_reg (put_reg fresh_cpu 10 0x10000) 11 0x30000) 13 hi) \<and>
     2 ^ 32 * uint hi + uint lo = 0x300000000"
  using full_product [of "put_reg (put_reg fresh_cpu 10 0x10000) 11 0x30000" "inst_regs 12 10 11"
      "inst_regs 13 10 11" "plain_cpu BigEndian isa_empty"]
  by (simp add: reg_put_reg)

text \<open>
  C31: \<open>multh\<close> multiplies as 32-bit integers: where the signed product fits into 32 bits the
  result is only its sign, 0 or all ones, and where it does not the C++ evaluation is
  undefined; no operands give the high word of a larger product.
\<close>

theorem multh_is_sign_only:
  assumes "wf_cpu c" and "unat (third i) < 16"
  shows "multh cls i c =
    (let p = sint (reg c (second i)) * sint (reg c (third i))
     in if - (2 ^ 31) \<le> p \<and> p < 2 ^ 31
        then (Inr UpdatePC, put_reg c (first i) (if p < 0 then - 1 else 0))
        else (Inl UndefinedBehaviour, c))"
proof -
  let ?p = "sint (reg c (second i)) * sint (reg c (third i))"
  show ?thesis
  proof (cases "- (2 ^ 31) \<le> ?p \<and> ?p < 2 ^ 31")
    case True
    then have p: "smult32 (sint (reg c (second i))) (sint (reg c (third i))) = Some ?p"
      by (simp add: smult32_def)
    note high = smult32_high [OF p]
    show ?thesis
      using assms True by (simp only: Let_def if_True) (simp add: multh_def p high)
  next
    case False
    then have "smult32 (sint (reg c (second i))) (sint (reg c (third i))) = None"
      by (auto simp: smult32_def)
    then show ?thesis
      using assms False by (simp only: Let_def if_False) (simp add: multh_def)
  qed
qed

theorem multh_is_sign_only_witness:
  "multh (plain_cpu LittleEndian isa_empty) (inst_regs 12 10 11)
      (put_reg (put_reg fresh_cpu 10 0x10000) 11 0x30000) =
    (Inl UndefinedBehaviour, put_reg (put_reg fresh_cpu 10 0x10000) 11 0x30000)"
  by (subst multh_is_sign_only) (simp_all add: reg_put_reg Let_def)

text \<open>
  Division and remainder are Euclidean division of the unsigned values; a zero divisor
  raises the division interrupt with the program counter and the dividend, and leaves the
  target register to the handler.
\<close>

theorem division_correct:
  assumes "wf_cpu c" and "unat (third i) < 16"
  shows "(reg c (third i) \<noteq> 0 \<longrightarrow>
      (\<exists>q r. div_op cls i c = (Inr UpdatePC, put_reg c (first i) q) \<and>
         mod_op cls i c = (Inr UpdatePC, put_reg c (first i) r) \<and>
         uint (reg c (second i)) = uint (reg c (third i)) * uint q + uint r \<and>
         uint r < uint (reg c (third i)))) \<and>
    (reg c (third i) = 0 \<longrightarrow>
      div_op cls i c = mod_op cls i c \<and>
      div_op cls i c = andthen
        (vinterrupt cls INTERRUPT_DIVISION (reg c REGISTER_PC) (reg c (second i)))
        (\<lambda>_. ret UpdateInterrupt) c)"
proof (intro conjI impI)
  let ?x = "reg c (second i)" and ?y = "reg c (third i)"
  assume y: "?y \<noteq> 0"
  have "div_op cls i c = (Inr UpdatePC, put_reg c (first i) (?x div ?y))"
    "mod_op cls i c = (Inr UpdatePC, put_reg c (first i) (?x mod ?y))"
    using assms y by (simp_all add: div_op_def mod_op_def)
  moreover have "uint ?x = uint ?y * uint (?x div ?y) + uint (?x mod ?y)"
    by (simp add: uint_div uint_mod)
  moreover have "0 < ?y"
    using y by (simp add: word_gt_0)
  then have "uint (?x mod ?y) < uint ?y"
    using word_mod_less_divisor [of ?y ?x] by (simp only: word_less_def)
  ultimately show "\<exists>q r. div_op cls i c = (Inr UpdatePC, put_reg c (first i) q) \<and>
      mod_op cls i c = (Inr UpdatePC, put_reg c (first i) r) \<and>
      uint ?x = uint ?y * uint q + uint r \<and> uint r < uint ?y"
    by blast
qed (use assms in \<open>simp_all add: div_op_def mod_op_def\<close>)


theorem division_correct_witness:
  "(\<exists>q r. div_op (plain_cpu LittleEndian isa_empty) (inst_regs 12 10 11)
        (put_reg (put_reg fresh_cpu 10 17) 11 5) =
      (Inr UpdatePC, put_reg (put_reg (put_reg fresh_cpu 10 17) 11 5) 12 q) \<and>
      17 = 5 * uint q + uint (r :: cpu_word) \<and> uint r < 5)"
  using division_correct [of "put_reg (put_reg fresh_cpu 10 17) 11 5" "inst_regs 12 10 11"
      "plain_cpu LittleEndian isa_empty", THEN conjunct1]
  by (auto simp: reg_put_reg)

text \<open>
  C32: the shifts by an immediate: \<open>slli\<close> and \<open>srli\<close> shift and fill with zeros; \<open>rli\<close> and
  \<open>rri\<close> rotate by amounts from 1 to 31; every other amount makes the C++ expression undefined,
  for the rotations also the amount 0.
\<close>

theorem shifts_and_rotations:
  fixes i :: instruction and c :: "'z cpu_state_scheme"
  assumes "wf_cpu c"
  defines "n \<equiv> unat (i_data i)" and "x \<equiv> reg c (second i)"
  shows "(n < 32 \<longrightarrow>
      slli cls i c = (Inr UpdatePC, put_reg c (first i) (push_bit n x)) \<and>
      srli cls i c = (Inr UpdatePC, put_reg c (first i) (drop_bit n x))) \<and>
    (0 < n \<and> n < 32 \<longrightarrow>
      rli cls i c = (Inr UpdatePC, put_reg c (first i) (word_rotl n x)) \<and>
      rri cls i c = (Inr UpdatePC, put_reg c (first i) (word_rotr n x))) \<and>
    (n = 0 \<or> 32 \<le> n \<longrightarrow>
      rli cls i c = (Inl UndefinedBehaviour, c) \<and> rri cls i c = (Inl UndefinedBehaviour, c)) \<and>
    (32 \<le> n \<longrightarrow>
      slli cls i c = (Inl UndefinedBehaviour, c) \<and> srli cls i c = (Inl UndefinedBehaviour, c))"
  using assms(1) unfolding n_def x_def
  by (auto simp: slli_def srli_def rli_def rri_def set_shifted_def shl32_def shr32_def
      rl_value_rotl rr_value_rotr)

theorem shifts_and_rotations_witness:
  "rli (plain_cpu LittleEndian isa_empty) (inst_regs 12 10 4) (put_reg fresh_cpu 10 0x80000001) =
    (Inr UpdatePC, put_reg (put_reg fresh_cpu 10 0x80000001) 12 (word_rotl 4 0x80000001))"
  using shifts_and_rotations [of "put_reg fresh_cpu 10 0x80000001" "inst_regs 12 10 4"
      "plain_cpu LittleEndian isa_empty"]
  by (simp add: reg_put_reg)

text \<open>
  C33: \<open>srai\<close> is the arithmetic shift only for non-negative operands and for the amounts 0 and
  1; for a negative operand and a larger amount the vacated bits below the sign are 0.
\<close>

theorem srai_is_arithmetic_iff:
  assumes "wf_cpu c" and "unat (i_data i) < 32"
  shows "\<exists>w. srai cls i c = (Inr UpdatePC, put_reg c (first i) w) \<and>
    (w = signed_drop_bit (unat (i_data i)) (reg c (second i)) \<longleftrightarrow>
      0 \<le> sint (reg c (second i)) \<or> unat (i_data i) \<le> 1)"
proof -
  let ?x = "reg c (second i)" and ?n = "unat (i_data i)"
  have sign: "bit ?x 31 \<longleftrightarrow> sint ?x < 0"
    using bit_last_iff [of ?x] by simp
  show ?thesis
    using assms sra_arithmetic [of ?n ?x] sign
    by (intro exI [of _ "drop_bit ?n ?x OR (?x AND 0x80000000)"])
      (auto simp: srai_def set_shifted_def sra_value_defined)
qed

theorem srai_is_arithmetic_iff_witness:
  "\<exists>w. srai (plain_cpu LittleEndian isa_empty) (inst_regs 12 10 4) (put_reg fresh_cpu 10 0x80000000) =
      (Inr UpdatePC, put_reg (put_reg fresh_cpu 10 0x80000000) 12 w) \<and>
    w \<noteq> signed_drop_bit 4 0x80000000"
  using srai_is_arithmetic_iff [of "put_reg fresh_cpu 10 0x80000000" "inst_regs 12 10 4"
      "plain_cpu LittleEndian isa_empty"]
  by (auto simp: reg_put_reg)

text \<open>
  \<open>signh\<close> and \<open>signq\<close> are the sign extensions of the low half and of the low byte of the
  register, on little-endian and on big-endian hosts alike.
\<close>

theorem sign_extensions:
  assumes "wf_cpu c"
  shows "signh cls i c = (Inr UpdatePC,
      put_reg c (first i) (word_of_int (sint (ucast (reg c (second i)) :: half_word)))) \<and>
    signq cls i c = (Inr UpdatePC,
      put_reg c (first i) (word_of_int (sint (ucast (reg c (second i)) :: quarter_word))))"
  using assms by (simp add: signh_def signq_def signh_value signq_value)

theorem sign_extensions_witness:
  "signh (plain_cpu BigEndian isa_empty) (inst_regs 12 10 0) (put_reg fresh_cpu 10 0x1234fffe) =
    (Inr UpdatePC, put_reg (put_reg fresh_cpu 10 0x1234fffe) 12 (- 2))"
  using sign_extensions [of "put_reg fresh_cpu 10 0x1234fffe" "plain_cpu BigEndian isa_empty"
      "inst_regs 12 10 0"]
  by (simp add: reg_put_reg)

end
