(* ===== verification/Ops_Branch.thy ===== *)
theory Ops_Branch
  imports Ops_Move
begin

text \<open>
  \<open>simpleworld/cpu/operations_branch.cpp\<close>: every branch reads the word at its target first,
  so a target outside the memory throws whether or not the branch is taken.
\<close>

definition b_op :: "'z operation" where
  "b_op cls inst =
     andthen (getr cls REGISTER_PC) (\<lambda>pc.
     let address = pc + i_offset inst
     in andthen (getm cls address) (\<lambda>_.
        andthen (setr cls REGISTER_PC address) (\<lambda>_. ret UpdateNone)))"

definition bz :: "'z operation" where
  "bz cls inst =
     andthen (getr cls REGISTER_PC) (\<lambda>pc.
     let address = pc + i_offset inst
     in andthen (getm cls address) (\<lambda>_.
        andthen (getr cls (first inst)) (\<lambda>x.
        if x = 0
        then andthen (setr cls REGISTER_PC address) (\<lambda>_. ret UpdateNone)
        else ret UpdatePC)))"

definition bnz :: "'z operation" where
  "bnz cls inst =
     andthen (getr cls REGISTER_PC) (\<lambda>pc.
     let address = pc + i_offset inst
     in andthen (getm cls address) (\<lambda>_.
        andthen (getr cls (first inst)) (\<lambda>x.
        if x \<noteq> 0
        then andthen (setr cls REGISTER_PC address) (\<lambda>_. ret UpdateNone)
        else ret UpdatePC)))"

definition beq :: "'z operation" where
  "beq cls inst =
     andthen (getr cls REGISTER_PC) (\<lambda>pc.
     let address = pc + i_offset inst
     in andthen (getm cls address) (\<lambda>_.
        andthen (getr cls (first inst)) (\<lambda>x.
        andthen (getr cls (second inst)) (\<lambda>y.
        if x = y
        then andthen (setr cls REGISTER_PC address) (\<lambda>_. ret UpdateNone)
        else ret UpdatePC))))"

definition bne :: "'z operation" where
  "bne cls inst =
     andthen (getr cls REGISTER_PC) (\<lambda>pc.
     let address = pc + i_offset inst
     in andthen (getm cls address) (\<lambda>_.
        andthen (getr cls (first inst)) (\<lambda>x.
        andthen (getr cls (second inst)) (\<lambda>y.
        if x \<noteq> y
        then andthen (setr cls REGISTER_PC address) (\<lambda>_. ret UpdateNone)
        else ret UpdatePC))))"

definition blt :: "'z operation" where
  "blt cls inst =
     andthen (getr cls REGISTER_PC) (\<lambda>pc.
     let address = pc + i_offset inst
     in andthen (getm cls address) (\<lambda>_.
        andthen (getr cls (first inst)) (\<lambda>x.
        andthen (getr cls (second inst)) (\<lambda>y.
        if sint x < sint y
        then andthen (setr cls REGISTER_PC address) (\<lambda>_. ret UpdateNone)
        else ret UpdatePC))))"

definition bltu :: "'z operation" where
  "bltu cls inst =
     andthen (getr cls REGISTER_PC) (\<lambda>pc.
     let address = pc + i_offset inst
     in andthen (getm cls address) (\<lambda>_.
        andthen (getr cls (first inst)) (\<lambda>x.
        andthen (getr cls (second inst)) (\<lambda>y.
        if x < y
        then andthen (setr cls REGISTER_PC address) (\<lambda>_. ret UpdateNone)
        else ret UpdatePC))))"

definition bgt :: "'z operation" where
  "bgt cls inst =
     andthen (getr cls REGISTER_PC) (\<lambda>pc.
     let address = pc + i_offset inst
     in andthen (getm cls address) (\<lambda>_.
        andthen (getr cls (first inst)) (\<lambda>x.
        andthen (getr cls (second inst)) (\<lambda>y.
        if sint x > sint y
        then andthen (setr cls REGISTER_PC address) (\<lambda>_. ret UpdateNone)
        else ret UpdatePC))))"

definition bgtu :: "'z operation" where
  "bgtu cls inst =
     andthen (getr cls REGISTER_PC) (\<lambda>pc.
     let address = pc + i_offset inst
     in andthen (getm cls address) (\<lambda>_.
        andthen (getr cls (first inst)) (\<lambda>x.
        andthen (getr cls (second inst)) (\<lambda>y.
        if x > y
        then andthen (setr cls REGISTER_PC address) (\<lambda>_. ret UpdateNone)
        else ret UpdatePC))))"

definition ble :: "'z operation" where
  "ble cls inst =
     andthen (getr cls REGISTER_PC) (\<lambda>pc.
     let address = pc + i_offset inst
     in andthen (getm cls address) (\<lambda>_.
        andthen (getr cls (first inst)) (\<lambda>x.
        andthen (getr cls (second inst)) (\<lambda>y.
        if sint x \<le> sint y
        then andthen (setr cls REGISTER_PC address) (\<lambda>_. ret UpdateNone)
        else ret UpdatePC))))"

definition bleu :: "'z operation" where
  "bleu cls inst =
     andthen (getr cls REGISTER_PC) (\<lambda>pc.
     let address = pc + i_offset inst
     in andthen (getm cls address) (\<lambda>_.
        andthen (getr cls (first inst)) (\<lambda>x.
        andthen (getr cls (second inst)) (\<lambda>y.
        if x \<le> y
        then andthen (setr cls REGISTER_PC address) (\<lambda>_. ret UpdateNone)
        else ret UpdatePC))))"

definition bge :: "'z operation" where
  "bge cls inst =
     andthen (getr cls REGISTER_PC) (\<lambda>pc.
     let address = pc + i_offset inst
     in andthen (getm cls address) (\<lambda>_.
        andthen (getr cls (first inst)) (\<lambda>x.
        andthen (getr cls (second inst)) (\<lambda>y.
        if sint x \<ge> sint y
        then andthen (setr cls REGISTER_PC address) (\<lambda>_. ret UpdateNone)
        else ret UpdatePC))))"

definition bgeu :: "'z operation" where
  "bgeu cls inst =
     andthen (getr cls REGISTER_PC) (\<lambda>pc.
     let address = pc + i_offset inst
     in andthen (getm cls address) (\<lambda>_.
        andthen (getr cls (first inst)) (\<lambda>x.
        andthen (getr cls (second inst)) (\<lambda>y.
        if x \<ge> y
        then andthen (setr cls REGISTER_PC address) (\<lambda>_. ret UpdateNone)
        else ret UpdatePC))))"

lemmas branch_ops = b_op_def bz_def bnz_def beq_def bne_def blt_def bltu_def bgt_def bgtu_def ble_def bleu_def bge_def bgeu_def

lemma sized_branch_ops [pres_intros]:
  "keeps X (fits R) (b_op cls inst)" "keeps X (fits R) (bz cls inst)"
  "keeps X (fits R) (bnz cls inst)" "keeps X (fits R) (beq cls inst)"
  "keeps X (fits R) (bne cls inst)" "keeps X (fits R) (blt cls inst)"
  "keeps X (fits R) (bltu cls inst)" "keeps X (fits R) (bgt cls inst)"
  "keeps X (fits R) (bgtu cls inst)" "keeps X (fits R) (ble cls inst)"
  "keeps X (fits R) (bleu cls inst)" "keeps X (fits R) (bge cls inst)"
  "keeps X (fits R) (bgeu cls inst)"
  unfolding branch_ops Let_def by (intro pres_intros)+

section \<open>Properties\<close>

text \<open>
  What a branch does: a target outside the memory throws before the condition is looked at;
  otherwise the program counter becomes the target, or the cycle advances it.
\<close>

definition branch_outcome ::
    "instruction \<Rightarrow> 'z cpu_state_scheme \<Rightarrow> bool \<Rightarrow> (exn + update) \<times> 'z cpu_state_scheme" where
  "branch_outcome i c taken =
     (let target = reg c REGISTER_PC + i_offset i
      in if \<not> unat target + 4 \<le> msize c then (Inl (MemoryError target), c)
         else if taken then (Inr UpdateNone, put_reg c REGISTER_PC target)
         else (Inr UpdatePC, c))"

text \<open>
  C30: every branch has this outcome, with the condition its name says: equality, and the four
  orders on the signed and on the unsigned values of the two registers.
\<close>

theorem branches_correct:
  fixes c :: "'z cpu_state_scheme" and i :: instruction
  assumes "wf_cpu c"
  defines "x \<equiv> reg c (first i)" and "y \<equiv> reg c (second i)"
  shows "b_op cls i c = branch_outcome i c True \<and>
    bz cls i c = branch_outcome i c (uint x = 0) \<and>
    bnz cls i c = branch_outcome i c (uint x \<noteq> 0) \<and>
    beq cls i c = branch_outcome i c (uint x = uint y) \<and>
    bne cls i c = branch_outcome i c (uint x \<noteq> uint y) \<and>
    blt cls i c = branch_outcome i c (sint x < sint y) \<and>
    bge cls i c = branch_outcome i c (\<not> sint x < sint y) \<and>
    bgt cls i c = branch_outcome i c (sint y < sint x) \<and>
    ble cls i c = branch_outcome i c (\<not> sint y < sint x) \<and>
    bltu cls i c = branch_outcome i c (uint x < uint y) \<and>
    bgeu cls i c = branch_outcome i c (\<not> uint x < uint y) \<and>
    bgtu cls i c = branch_outcome i c (uint y < uint x) \<and>
    bleu cls i c = branch_outcome i c (\<not> uint y < uint x)"
  using assms(1)
  by (intro conjI; simp add: branch_ops branch_outcome_def Let_def get_mem_run x_def y_def
      word_less_def word_le_def word_uint_eq_iff not_less)

theorem branches_correct_witness:
  "blt (plain_cpu LittleEndian isa_empty) \<lparr>i_code = 0, i_first = 10, i_second = 11, i_data = 64\<rparr>
      (put_reg fresh_cpu 10 (- 1)) =
    (Inr UpdateNone, put_reg (put_reg fresh_cpu 10 (- 1)) 1 64) \<and>
   bltu (plain_cpu LittleEndian isa_empty) \<lparr>i_code = 0, i_first = 10, i_second = 11, i_data = 64\<rparr>
      (put_reg fresh_cpu 10 (- 1)) = (Inr UpdatePC, put_reg fresh_cpu 10 (- 1))"
  using branches_correct [of "put_reg fresh_cpu 10 (- 1)" "plain_cpu LittleEndian isa_empty"
      "\<lparr>i_code = 0, i_first = 10, i_second = 11, i_data = 64\<rparr>"]
  by (simp add: branch_outcome_def i_offset_def reg_put_reg)

end
