(* ===== verification/Ops_Function.thy ===== *)
theory Ops_Function
  imports Ops_Move
begin

text \<open>
  \<open>simpleworld/cpu/operations_function.cpp\<close>: calls, software interrupts and their returns.
  The register window moves with the window counter; from the sixteenth level on the local
  registers are spilled to the stack.
\<close>

section \<open>The helpers\<close>

definition push_locals :: "'z cpu_class \<Rightarrow> ('z cpu_state_scheme, unit) prog" where
  "push_locals cls =
     andthen (getr cls REGISTER_SP) (\<lambda>sp.
     andthen (save_locals (host cls) local_registers sp) (\<lambda>sp.
     setr cls REGISTER_SP sp))"

text \<open>\<open>sp -= sizeof(Word); cpu.set_reg(r, cpu.get_mem(sp))\<close> for each register of a list.\<close>

definition restore :: "'z cpu_class \<Rightarrow> uint8 list \<Rightarrow> address \<Rightarrow> ('z cpu_state_scheme, address) prog" where
  "restore cls regs sp =
     for_each regs (\<lambda>r sp. andthen (getm cls (sp - 4)) (\<lambda>w.
                            andthen (setr cls r w) (\<lambda>_. ret (sp - 4)))) sp"

definition pop_locals :: "'z cpu_class \<Rightarrow> ('z cpu_state_scheme, unit) prog" where
  "pop_locals cls =
     andthen (getr cls REGISTER_SP) (\<lambda>sp.
     andthen (restore cls (rev local_registers) sp) (\<lambda>sp.
     setr cls REGISTER_SP sp))"

definition pop_globals :: "'z cpu_class \<Rightarrow> ('z cpu_state_scheme, unit) prog" where
  "pop_globals cls =
     andthen (getr cls REGISTER_SP) (\<lambda>sp.
     andthen (restore cls [REGISTER_G3, REGISTER_G2, REGISTER_G1, REGISTER_G0, REGISTER_IP] sp) (\<lambda>sp.
     setr cls REGISTER_SP sp))"

definition increase_window :: "'z cpu_class \<Rightarrow> ('z cpu_state_scheme, unit) prog" where
  "increase_window cls =
     andthen (getr cls REGISTER_WC) (\<lambda>wc.
     andthen (if wc \<ge> of_nat (REGISTER_WINDOWS - 1) then push_locals cls else ret ()) (\<lambda>_.
     setr cls REGISTER_WC (wc + 1)))"

definition decrease_window :: "'z cpu_class \<Rightarrow> ('z cpu_state_scheme, unit) prog" where
  "decrease_window cls =
     andthen (getr cls REGISTER_WC) (\<lambda>wc0.
     let wc = wc0 - 1
     in andthen (setr cls REGISTER_WC wc) (\<lambda>_.
        if wc \<ge> of_nat (REGISTER_WINDOWS - 1) then pop_locals cls else ret ()))"

section \<open>The operations\<close>

definition call :: "'z operation" where
  "call cls inst =
     andthen (getr cls REGISTER_PC) (\<lambda>pc.
     let address = pc + i_offset inst
     in andthen (getm cls address) (\<lambda>_.
        andthen (increase_window cls) (\<lambda>_.
        andthen (getr cls REGISTER_PC) (\<lambda>pc.
        andthen (setr cls REGISTER_LR pc) (\<lambda>_.
        andthen (getr cls REGISTER_SP) (\<lambda>sp.
        andthen (setr cls REGISTER_FP sp) (\<lambda>_.
        andthen (setr cls REGISTER_PC address) (\<lambda>_. ret UpdateNone))))))))"

definition callr :: "'z operation" where
  "callr cls inst =
     andthen (getr cls (first inst)) (\<lambda>address.
     andthen (getm cls address) (\<lambda>_.
     andthen (increase_window cls) (\<lambda>_.
     andthen (getr cls REGISTER_PC) (\<lambda>pc.
     andthen (setr cls REGISTER_LR pc) (\<lambda>_.
     andthen (getr cls REGISTER_SP) (\<lambda>sp.
     andthen (setr cls REGISTER_FP sp) (\<lambda>_.
     andthen (setr cls REGISTER_PC address) (\<lambda>_. ret UpdateNone))))))))"

definition interrupt :: "'z operation" where
  "interrupt cls inst =
     andthen (vinterrupt cls INTERRUPT_SOFTWARE (inmediate inst) 0) (\<lambda>_. ret UpdateInterrupt)"

definition ret_op :: "'z operation" where
  "ret_op cls inst =
     andthen (getr cls REGISTER_LR) (\<lambda>lr.
     andthen (setr cls REGISTER_PC lr) (\<lambda>_.
     andthen (getr cls REGISTER_FP) (\<lambda>fp.
     andthen (setr cls REGISTER_SP fp) (\<lambda>_.
     andthen (decrease_window cls) (\<lambda>_. ret UpdatePC)))))"

definition reti :: "'z operation" where
  "reti cls inst =
     andthen (getr cls REGISTER_LR) (\<lambda>lr.
     andthen (setr cls REGISTER_PC lr) (\<lambda>_.
     andthen (getr cls REGISTER_FP) (\<lambda>fp.
     andthen (setr cls REGISTER_SP fp) (\<lambda>_.
     andthen (decrease_window cls) (\<lambda>_.
     andthen (pop_globals cls) (\<lambda>_. ret UpdateNone))))))"

section \<open>The invariant\<close>

lemma sized_frame_ops [pres_intros]:
  "keeps X (fits R) (push_locals cls)" "keeps X (fits R) (pop_locals cls)"
  "keeps X (fits R) (pop_globals cls)"
  unfolding push_locals_def pop_locals_def pop_globals_def restore_def by (intro pres_intros)+

lemma sized_window_ops [pres_intros]:
  "keeps X (fits R) (increase_window cls)" "keeps X (fits R) (decrease_window cls)"
  unfolding increase_window_def decrease_window_def by (intro pres_intros)+

lemma sized_function_ops [pres_intros]:
  "keeps X (fits R) (call cls inst)" "keeps X (fits R) (callr cls inst)"
  "keeps X (fits R) (ret_op cls inst)" "keeps X (fits R) (reti cls inst)"
  unfolding call_def callr_def ret_op_def reti_def by (intro pres_intros)+

lemma sized_interrupt [pres_intros]:
  "(\<And>code g1 g2. keeps X (fits R) (vinterrupt cls code g1 g2)) \<Longrightarrow>
    keeps X (fits R) (interrupt cls inst)"
  unfolding interrupt_def by (intro pres_intros)

section \<open>Saving and restoring a list of registers\<close>

text \<open>
  Saving is \<open>put_all\<close> of the store interface, so what the frame holds afterwards is a fact
  of that interface.
\<close>

lemma wf_put_all:
  "wf_cpu c \<Longrightarrow> mw.put_all e (cpu_memory c) sp ws = Inr m \<Longrightarrow>
    wf_cpu (c\<lparr>cpu_memory := m\<rparr>) \<and> msize (c\<lparr>cpu_memory := m\<rparr>) = msize c"
  using mw.put_all_keeps [of "cpu_memory c" e sp ws m]
  by (simp add: wf_cpuD msize_def)

lemma save_run:
  assumes "wf_cpu c" and "\<forall>r\<in>set regs. unat r < 16"
    and "mw.put_all e (cpu_memory c) sp (map (reg c) regs) = Inr m"
  shows "for_each regs (\<lambda>r sp. andthen (get_reg e r True) (\<lambda>w.
      andthen (set_mem e sp w True) (\<lambda>_. ret (sp + 4)))) sp c =
    (Inr (sp + 4 * of_nat (length regs)), c\<lparr>cpu_memory := m\<rparr>)"
  using assms
proof (induction regs arbitrary: c sp)
  case (Cons r regs)
  then obtain n where n: "set_word e (cpu_memory c) sp (reg c r) True = Inr n"
    and rest: "mw.put_all e n (sp + 4) (map (reg c) regs) = Inr m"
    by (auto split: sum.splits)
  let ?d = "c\<lparr>cpu_memory := n\<rparr>"
  have wf: "wf_cpu ?d"
    using Cons.prems(1) n wf_memory_set_word wf_cpuD by fastforce
  have "map (reg ?d) regs = map (reg c) regs"
    by simp
  with Cons.IH [OF wf] rest Cons.prems(2) Cons.prems(1) n show ?case
    by (simp add: setm_run algebra_simps)
qed simp

lemma save_locals_run:
  "wf_cpu c \<Longrightarrow> \<forall>r\<in>set regs. unat r < 16 \<Longrightarrow>
    mw.put_all e (cpu_memory c) sp (map (reg c) regs) = Inr m \<Longrightarrow>
    save_locals e regs sp c = (Inr (sp + 4 * of_nat (length regs)), c\<lparr>cpu_memory := m\<rparr>)"
  unfolding save_locals_def by (rule save_run)

lemma save_globals_run:
  fixes c :: "'z cpu_state_scheme"
  assumes "wf_cpu c" and "\<forall>r\<in>set regs. unat r < 8"
    and "mw.put_all e (cpu_memory c) sp (map (reg c) regs) = Inr m"
  shows "save_globals e regs sp c =
    (Inr (sp + 4 * of_nat (length regs)), c\<lparr>cpu_memory := m\<rparr>)"
proof -
  have "(save_globals e regs sp :: ('z cpu_state_scheme, address) prog) = save_locals e regs sp"
    unfolding save_globals_def save_locals_def
  proof (rule for_each_cong)
    fix r
    assume "r \<in> set regs"
    with assms(2) have "\<not> r \<ge> 8"
      by (simp add: word_le_nat_alt not_le)
    then have "(get_reg e r True :: ('z cpu_state_scheme, cpu_word) prog) = read_register e r True"
      by (simp add: get_reg_def select_register_def andthen_ret_left)
    then show "(\<lambda>sp. andthen (read_register e r True) (\<lambda>w. andthen (set_mem e sp w True) (\<lambda>_. ret (sp + 4)))) =
        ((\<lambda>sp. andthen (get_reg e r True) (\<lambda>w. andthen (set_mem e sp w True) (\<lambda>_. ret (sp + 4))))
          :: address \<Rightarrow> ('z cpu_state_scheme, address) prog)"
      by simp
  qed
  moreover have "\<forall>r\<in>set regs. unat r < 16"
    using assms(2) by force
  ultimately show ?thesis
    using assms by (simp add: save_locals_run)
qed

text \<open>Restoring reads the frame from its top downwards.\<close>

definition holds_frame :: "'z cpu_state_scheme \<Rightarrow> address \<Rightarrow> cpu_word list \<Rightarrow> bool" where
  "holds_frame c a ws \<longleftrightarrow> (\<forall>i<length ws. unat (a + 4 * of_nat i) + 4 \<le> msize c \<and>
     mword c (a + 4 * of_nat i) = ws ! i)"

lemma restore_run:
  assumes "wf_cpu c" and "visible regs" and "length ws = length regs"
    and "holds_frame c (sp - 4 * of_nat (length regs)) (rev ws)"
  shows "restore cls regs sp c =
    (Inr (sp - 4 * of_nat (length regs)), put_regs c (zip regs ws))"
  using assms
proof (induction regs arbitrary: c sp ws)
  case (Cons r regs)
  then obtain w ws' where ws: "ws = w # ws'" and len: "length ws' = length regs"
    by (cases ws) auto
  have top: "unat (sp - 4) + 4 \<le> msize c" "mword c (sp - 4) = w"
    using Cons.prems(4) len
    by (simp_all add: holds_frame_def ws algebra_simps nth_append)
      (drule spec [where x = "length regs"], simp)+
  have rest: "holds_frame (put_reg c r w) (sp - 4 - 4 * of_nat (length regs)) (rev ws')"
    using Cons.prems(4) len
    by (auto simp: holds_frame_def ws algebra_simps nth_append)
  have "restore cls regs (sp - 4) (put_reg c r w) =
      (Inr (sp - 4 - 4 * of_nat (length regs)), put_regs (put_reg c r w) (zip regs ws'))"
    by (rule Cons.IH [OF _ _ len rest]) (use Cons.prems in simp_all)
  with Cons.prems top show ?case
    by (simp add: restore_def get_mem_run ws algebra_simps)
qed (simp add: restore_def)

section \<open>Moving the window\<close>

lemma length_local_registers [simp]: "length local_registers = 8"
  by (simp add: local_registers_def)

lemma set_local_registers: "r \<in> set local_registers \<longleftrightarrow> 8 \<le> unat r \<and> unat r < 16"
proof -
  have "r \<in> set local_registers \<longleftrightarrow> unat r \<in> {8, 9, 10, 11, 12, 13, 14, 15}"
    by (simp add: local_registers_def word_unat_eq_iff)
  also have "\<dots> \<longleftrightarrow> 8 \<le> unat r \<and> unat r < 16"
    by auto
  finally show ?thesis .
qed

lemma visible_local_registers [simp]: "visible local_registers" "visible (rev local_registers)"
  by (simp_all add: local_registers_def)

lemma distinct_local_registers [simp]: "distinct local_registers"
  by (simp add: local_registers_def)

lemma get_word_mword:
  "wf_cpu c \<Longrightarrow> get_word e (cpu_memory c) a True = Inr w \<longleftrightarrow> unat a + 4 \<le> msize c \<and> mword c a = w"
  by (simp add: get_word_system wf_cpuD msize_def mword_def)

lemma put_all_frame:
  assumes "wf_cpu c" and "mw.put_all e (cpu_memory c) a ws = Inr m"
  shows "holds_frame (c\<lparr>cpu_memory := m\<rparr>) a ws"
  unfolding holds_frame_def
proof (intro allI impI)
  fix i
  assume "i < length ws"
  then have "get_word e m (a + of_nat (4 * i)) True = Inr (ws ! i)"
    using mw.get_put_all wf_cpuD [OF assms(1)] assms(2) by blast
  with get_word_mword [of "c\<lparr>cpu_memory := m\<rparr>" e "a + 4 * of_nat i" "ws ! i"] wf_put_all [OF assms]
  show "unat (a + 4 * of_nat i) + 4 \<le> msize (c\<lparr>cpu_memory := m\<rparr>) \<and>
      mword (c\<lparr>cpu_memory := m\<rparr>) (a + 4 * of_nat i) = ws ! i"
    by simp
qed

lemma put_all_exists:
  assumes "wf_cpu c" and "unat a + 4 * length ws \<le> msize c"
  shows "\<exists>m. mw.put_all e (cpu_memory c) a ws = Inr m"
  by (rule mw.put_all_total) (use assms in \<open>auto simp: wf_cpuD msize_def\<close>)

text \<open>
  What a frame keeps of the caller \<open>c\<close>: its local registers are in its window, or, when all
  windows are in use, on the stack.
\<close>

definition caller_saved :: "'z cpu_state_scheme \<Rightarrow> 'z cpu_state_scheme \<Rightarrow> address \<Rightarrow> bool" where
  "caller_saved c d sp \<longleftrightarrow>
     (if unat (reg c REGISTER_WC) < 15
      then \<forall>r. 8 \<le> unat r \<and> unat r < 16 \<longrightarrow> preg d (reg_index c r) = reg c r
      else holds_frame d sp (map (reg c) local_registers))"

lemma holds_frame_put_reg [simp]: "holds_frame (put_reg d r w) a ws = holds_frame d a ws"
  by (simp add: holds_frame_def)

text \<open>Writes to the registers of the callee do not reach the locals of the caller.\<close>

lemma caller_saved_put_reg:
  assumes "caller_saved c d sp" and "wf_cpu d" and "unat s < 16"
    and "reg d REGISTER_WC = reg c REGISTER_WC + 1"
  shows "caller_saved c (put_reg d s w) sp"
proof (cases "unat (reg c REGISTER_WC) < 15")
  case True
  then have "unat (preg d 0) = unat (reg c REGISTER_WC) + 1"
    using assms(4) unat_add_le [of "reg c REGISTER_WC" 1] by (simp add: reg_def)
  with True have "reg_index c r \<noteq> reg_index d s" if "8 \<le> unat r" "unat r < 16" for r
    using that assms(3) by (auto simp: reg_index_def reg_def split: if_splits)
  with True assms show ?thesis
    by (auto simp: caller_saved_def put_reg_def preg_set_preg)
qed (use assms in \<open>simp add: caller_saved_def\<close>)

lemma saved_window:
  assumes "wf_cpu c" and "unat (reg c REGISTER_WC) < 15"
  shows "caller_saved c (put_reg c REGISTER_WC w) sp"
  using assms by (auto simp: caller_saved_def put_reg_def preg_set_preg reg_def reg_index_eq_0)

text \<open>The top of the stack after the window was increased.\<close>

definition frame_top :: "'z cpu_state_scheme \<Rightarrow> address \<Rightarrow> address" where
  "frame_top c sp = (if unat (reg c REGISTER_WC) < 15 then sp else sp + 32)"

lemma wc_full: "15 \<le> (wc :: cpu_word) \<longleftrightarrow> \<not> unat wc < 15"
  by (simp add: word_le_nat_alt not_less)

lemma push_locals_run:
  assumes "wf_cpu c" and "unat (reg c REGISTER_SP) + 32 \<le> msize c"
  shows "\<exists>m. push_locals cls c =
      (Inr (), put_reg (c\<lparr>cpu_memory := m\<rparr>) REGISTER_SP (reg c REGISTER_SP + 32)) \<and>
    wf_cpu (c\<lparr>cpu_memory := m\<rparr>) \<and> msize (c\<lparr>cpu_memory := m\<rparr>) = msize c \<and>
    holds_frame (c\<lparr>cpu_memory := m\<rparr>) (reg c REGISTER_SP) (map (reg c) local_registers)"
proof -
  obtain m where m: "mw.put_all (host cls) (cpu_memory c) (reg c REGISTER_SP)
      (map (reg c) local_registers) = Inr m"
    using put_all_exists [of c "reg c REGISTER_SP" "map (reg c) local_registers"] assms by auto
  then have "push_locals cls c =
      (Inr (), put_reg (c\<lparr>cpu_memory := m\<rparr>) REGISTER_SP (reg c REGISTER_SP + 32))"
    using assms(1) wf_put_all [OF assms(1) m]
    by (simp add: push_locals_def save_locals_run set_local_registers)
  with wf_put_all [OF assms(1) m] put_all_frame [OF assms(1) m] show ?thesis
    by blast
qed

definition window_up :: "'z cpu_state_scheme \<Rightarrow> address \<Rightarrow> 'z cpu_state_scheme \<Rightarrow> bool" where
  "window_up c sp d \<longleftrightarrow> wf_cpu d \<and> msize d = msize c \<and> cpu_running d = cpu_running c \<and>
     reg d REGISTER_WC = reg c REGISTER_WC + 1 \<and> reg d REGISTER_SP = frame_top c sp \<and>
     caller_saved c d sp \<and>
     (\<forall>r. unat r < 8 \<and> r \<noteq> REGISTER_WC \<and> r \<noteq> REGISTER_SP \<longrightarrow> reg d r = reg c r)"

lemma increase_window_run:
  assumes "wf_cpu c"
    and "unat (reg c REGISTER_WC) < 15 \<or> unat (reg c REGISTER_SP) + 32 \<le> msize c"
  shows "\<exists>d. increase_window cls c = (Inr (), d) \<and> window_up c (reg c REGISTER_SP) d"
proof (cases "unat (reg c REGISTER_WC) < 15")
  case True
  with assms(1) have "increase_window cls c = (Inr (), put_reg c REGISTER_WC (reg c REGISTER_WC + 1))"
    by (simp add: increase_window_def wc_full)
  moreover have "window_up c (reg c REGISTER_SP) (put_reg c REGISTER_WC (reg c REGISTER_WC + 1))"
    using True assms(1) by (simp add: window_up_def frame_top_def saved_window reg_put_reg)
  ultimately show ?thesis by blast
next
  case False
  with assms obtain m where m: "push_locals cls c =
      (Inr (), put_reg (c\<lparr>cpu_memory := m\<rparr>) REGISTER_SP (reg c REGISTER_SP + 32))"
    "wf_cpu (c\<lparr>cpu_memory := m\<rparr>)" "msize (c\<lparr>cpu_memory := m\<rparr>) = msize c"
    "holds_frame (c\<lparr>cpu_memory := m\<rparr>) (reg c REGISTER_SP) (map (reg c) local_registers)"
    using push_locals_run by blast
  let ?d = "put_reg (put_reg (c\<lparr>cpu_memory := m\<rparr>) REGISTER_SP (reg c REGISTER_SP + 32))
    REGISTER_WC (reg c REGISTER_WC + 1)"
  have "increase_window cls c = (Inr (), ?d)"
    using False m assms(1) by (simp add: increase_window_def wc_full)
  moreover have "window_up c (reg c REGISTER_SP) ?d"
    using False m assms(1)
    by (simp add: window_up_def frame_top_def caller_saved_def reg_put_reg)
  ultimately show ?thesis by blast
qed

text \<open>Restoring a list of registers from a frame that holds the values \<open>f r\<close>.\<close>

lemma restore_map_run:
  assumes "wf_cpu d" and "visible regs" and "distinct regs"
    and "holds_frame d (sp - 4 * of_nat (length regs)) (rev (map f regs))"
  shows "\<exists>g. restore cls regs sp d = (Inr (sp - 4 * of_nat (length regs)), g) \<and> wf_cpu g \<and>
    cpu_memory g = cpu_memory d \<and> cpu_running g = cpu_running d \<and>
    (\<forall>r. unat r < 16 \<longrightarrow> reg g r = (if r \<in> set regs then f r else reg d r))"
proof (intro exI conjI allI impI)
  show "restore cls regs sp d =
      (Inr (sp - 4 * of_nat (length regs)), put_regs d (zip regs (map f regs)))"
    using assms by (simp add: restore_run)
  show "wf_cpu (put_regs d (zip regs (map f regs)))"
    using assms by simp
  fix r :: uint8
  assume "unat r < 16"
  with assms show "reg (put_regs d (zip regs (map f regs))) r = (if r \<in> set regs then f r else reg d r)"
    by (simp add: reg_put_regs map_of_zip_map)
qed simp_all

definition window_down :: "'z cpu_state_scheme \<Rightarrow> address \<Rightarrow> 'z cpu_state_scheme \<Rightarrow>
    'z cpu_state_scheme \<Rightarrow> bool" where
  "window_down c sp d f \<longleftrightarrow> wf_cpu f \<and> cpu_memory f = cpu_memory d \<and> cpu_running f = cpu_running d \<and>
     reg f REGISTER_WC = reg c REGISTER_WC \<and> reg f REGISTER_SP = sp \<and>
     (\<forall>r. 8 \<le> unat r \<and> unat r < 16 \<longrightarrow> reg f r = reg c r) \<and>
     (\<forall>r. unat r < 8 \<and> r \<noteq> REGISTER_WC \<and> r \<noteq> REGISTER_SP \<longrightarrow> reg f r = reg d r)"

lemma caller_window:
  assumes "wf_cpu d" and "unat (reg c REGISTER_WC) < 15" and "caller_saved c d sp"
    and "8 \<le> unat r" and "unat r < 16"
  shows "reg (put_reg d REGISTER_WC (reg c REGISTER_WC)) r = reg c r"
proof -
  let ?f = "put_reg d REGISTER_WC (reg c REGISTER_WC)"
  have "preg ?f 0 = preg c 0"
    using assms(1) by (simp add: put_reg_def preg_set_preg reg_def)
  then have "reg_index ?f r = reg_index c r"
    by (rule reg_index_cong)
  moreover have "reg_index c r \<noteq> 0" and "reg_index c r < 136"
    using assms(4,5) by (simp_all add: reg_index_def)
  ultimately have "preg ?f (reg_index ?f r) = preg d (reg_index c r)"
    using assms(1) by (simp add: put_reg_def preg_set_preg)
  then have "reg ?f r = preg d (reg_index c r)"
    by (simp only: reg_def)
  with assms show ?thesis
    by (simp add: caller_saved_def)
qed

lemma pop_locals_run:
  assumes "wf_cpu d" and "reg d REGISTER_SP = sp + 32"
    and "holds_frame d sp (map (reg c) local_registers)"
  shows "\<exists>g. pop_locals cls d = (Inr (), put_reg g REGISTER_SP sp) \<and> wf_cpu g \<and>
    cpu_memory g = cpu_memory d \<and> cpu_running g = cpu_running d \<and>
    (\<forall>r. unat r < 16 \<longrightarrow> reg g r = (if 8 \<le> unat r then reg c r else reg d r))"
proof -
  obtain g where g: "restore cls (rev local_registers) (sp + 32) d = (Inr sp, g)" "wf_cpu g"
    "cpu_memory g = cpu_memory d" "cpu_running g = cpu_running d"
    "\<forall>r. unat r < 16 \<longrightarrow> reg g r = (if r \<in> set local_registers then reg c r else reg d r)"
    using restore_map_run [of d "rev local_registers" "sp + 32" "reg c" cls] assms
    by (auto simp: rev_map)
  moreover have "pop_locals cls d = (Inr (), put_reg g REGISTER_SP sp)"
    using g assms(1,2) by (simp add: pop_locals_def)
  ultimately show ?thesis
    by (auto simp: set_local_registers)
qed

lemma decrease_window_run:
  assumes "wf_cpu d" and "reg d REGISTER_WC = reg c REGISTER_WC + 1"
    and "reg d REGISTER_SP = frame_top c sp" and "caller_saved c d sp"
  shows "\<exists>f. decrease_window cls d = (Inr (), f) \<and> window_down c sp d f"
proof (cases "unat (reg c REGISTER_WC) < 15")
  case True
  let ?f = "put_reg d REGISTER_WC (reg c REGISTER_WC)"
  have "decrease_window cls d = (Inr (), ?f)"
    using True assms by (simp add: decrease_window_def wc_full Let_def)
  moreover have "window_down c sp d ?f"
    using True assms caller_window [OF assms(1) True assms(4)]
    by (simp add: window_down_def frame_top_def reg_put_reg)
  ultimately show ?thesis by blast
next
  case False
  let ?d = "put_reg d REGISTER_WC (reg c REGISTER_WC)"
  have "holds_frame ?d sp (map (reg c) local_registers)" "reg ?d REGISTER_SP = sp + 32"
    using False assms by (simp_all add: caller_saved_def frame_top_def reg_put_reg)
  then obtain g where g: "pop_locals cls ?d = (Inr (), put_reg g REGISTER_SP sp)" "wf_cpu g"
    "cpu_memory g = cpu_memory d" "cpu_running g = cpu_running d"
    "\<forall>r. unat r < 16 \<longrightarrow> reg g r = (if 8 \<le> unat r then reg c r else reg ?d r)"
    using pop_locals_run [of ?d sp c cls] assms(1) by auto
  have "decrease_window cls d = (Inr (), put_reg g REGISTER_SP sp)"
    using False assms g(1) by (simp add: decrease_window_def wc_full Let_def)
  moreover have "window_down c sp d (put_reg g REGISTER_SP sp)"
    using g assms(1) by (auto simp: window_down_def reg_put_reg)
  ultimately show ?thesis by blast
qed

section \<open>Calls\<close>

text \<open>
  \<open>in_callee c sp d\<close>: in \<open>d\<close> the frame that a call or an interrupt at \<open>c\<close> opened is intact:
  the window counter, the link register and the frame pointer are those the call set, and
  the locals of \<open>c\<close> are saved.  The callee may have changed anything else.
\<close>

definition in_callee :: "'z cpu_state_scheme \<Rightarrow> cpu_word \<Rightarrow> address \<Rightarrow> 'z cpu_state_scheme \<Rightarrow> bool" where
  "in_callee c pc sp d \<longleftrightarrow> wf_cpu d \<and> reg d REGISTER_WC = reg c REGISTER_WC + 1 \<and>
     reg d REGISTER_LR = pc \<and> reg d REGISTER_FP = frame_top c sp \<and> caller_saved c d sp"

lemma enter_frame:
  assumes "window_up c sp d"
  shows "in_callee c pc sp (put_reg (put_reg d REGISTER_LR pc) REGISTER_FP (frame_top c sp))"
  using assms
  by (simp add: in_callee_def window_up_def reg_put_reg caller_saved_put_reg)

lemma in_callee_put_reg:
  assumes "in_callee c pc sp d" and "unat r < 16"
    and "r \<noteq> REGISTER_WC" and "r \<noteq> REGISTER_LR" and "r \<noteq> REGISTER_FP"
  shows "in_callee c pc sp (put_reg d r w)"
  using assms by (simp add: in_callee_def reg_put_reg caller_saved_put_reg)

lemma call_run:
  assumes wf: "wf_cpu c" and target: "a = reg c REGISTER_PC + i_offset inst" "unat a + 4 \<le> msize c"
    and room: "unat (reg c REGISTER_WC) < 15 \<or> unat (reg c REGISTER_SP) + 32 \<le> msize c"
  shows "\<exists>d. call cls inst c = (Inr UpdateNone, d) \<and>
    in_callee c (reg c REGISTER_PC) (reg c REGISTER_SP) d \<and> reg d REGISTER_PC = a \<and>
    msize d = msize c \<and>
    reg d REGISTER_SP = frame_top c (reg c REGISTER_SP) \<and>
    (\<forall>r. 3 \<le> unat r \<and> unat r < 8 \<longrightarrow> reg d r = reg c r)"
proof -
  obtain d where d: "increase_window cls c = (Inr (), d)" "window_up c (reg c REGISTER_SP) d"
    using increase_window_run [OF wf room] by blast
  then have wfd: "wf_cpu d"
    by (simp add: window_up_def)
  let ?pc = "reg c REGISTER_PC" and ?sp = "reg c REGISTER_SP"
  let ?f = "put_reg (put_reg d REGISTER_LR ?pc) REGISTER_FP (frame_top c ?sp)"
  have "call cls inst c = (Inr UpdateNone, put_reg ?f REGISTER_PC a)"
    using wf wfd target d by (simp add: call_def get_mem_run Let_def window_up_def reg_put_reg)
  moreover have "in_callee c ?pc ?sp (put_reg ?f REGISTER_PC a)"
    by (rule in_callee_put_reg [OF enter_frame [OF d(2)]]) simp_all
  moreover have "reg (put_reg ?f REGISTER_PC a) r = reg c r" if "3 \<le> unat r" "unat r < 8" for r
    using that d(2) wfd by (auto simp: window_up_def reg_put_reg)
  ultimately show ?thesis
    using d(2) wfd by (auto simp: window_up_def reg_put_reg)
qed

lemma callr_run:
  assumes wf: "wf_cpu c" and target: "a = reg c (first inst)" "unat a + 4 \<le> msize c"
    and room: "unat (reg c REGISTER_WC) < 15 \<or> unat (reg c REGISTER_SP) + 32 \<le> msize c"
  shows "\<exists>d. callr cls inst c = (Inr UpdateNone, d) \<and>
    in_callee c (reg c REGISTER_PC) (reg c REGISTER_SP) d \<and> reg d REGISTER_PC = a"
proof -
  obtain d where d: "increase_window cls c = (Inr (), d)" "window_up c (reg c REGISTER_SP) d"
    using increase_window_run [OF wf room] by blast
  then have wfd: "wf_cpu d"
    by (simp add: window_up_def)
  let ?pc = "reg c REGISTER_PC" and ?sp = "reg c REGISTER_SP"
  let ?f = "put_reg (put_reg d REGISTER_LR ?pc) REGISTER_FP (frame_top c ?sp)"
  have "callr cls inst c = (Inr UpdateNone, put_reg ?f REGISTER_PC a)"
    using wf wfd target d by (simp add: callr_def get_mem_run window_up_def reg_put_reg)
  moreover have "in_callee c ?pc ?sp (put_reg ?f REGISTER_PC a)"
    by (rule in_callee_put_reg [OF enter_frame [OF d(2)]]) simp_all
  ultimately show ?thesis
    using wfd by (auto simp: reg_put_reg)
qed

section \<open>Returns\<close>

lemma leave_frame:
  assumes "in_callee c pc sp d"
  shows "\<exists>f. decrease_window cls
        (put_reg (put_reg d REGISTER_PC pc) REGISTER_SP (frame_top c sp)) = (Inr (), f) \<and>
      window_down c sp (put_reg (put_reg d REGISTER_PC pc) REGISTER_SP (frame_top c sp)) f \<and>
      reg f REGISTER_PC = pc"
proof -
  let ?d = "put_reg (put_reg d REGISTER_PC pc) REGISTER_SP (frame_top c sp)"
  have d: "in_callee c pc sp ?d"
    using in_callee_put_reg [OF in_callee_put_reg [OF assms]] by simp
  moreover have "reg ?d REGISTER_SP = frame_top c sp" "reg ?d REGISTER_PC = pc"
    using assms by (simp_all add: in_callee_def reg_put_reg)
  ultimately show ?thesis
    using decrease_window_run [of ?d c sp cls]
    by (auto simp: in_callee_def window_down_def)
qed

lemma ret_run:
  assumes "in_callee c pc sp d"
  shows "\<exists>f. ret_op cls inst d = (Inr UpdatePC, f) \<and> wf_cpu f \<and> cpu_memory f = cpu_memory d \<and>
    reg f REGISTER_PC = pc \<and> reg f REGISTER_SP = sp \<and> reg f REGISTER_WC = reg c REGISTER_WC \<and>
    (\<forall>r. 8 \<le> unat r \<and> unat r < 16 \<longrightarrow> reg f r = reg c r) \<and>
    (\<forall>r. 3 \<le> unat r \<and> unat r < 8 \<longrightarrow> reg f r = reg d r)"
proof -
  let ?d = "put_reg (put_reg d REGISTER_PC pc) REGISTER_SP (frame_top c sp)"
  obtain f where f: "decrease_window cls ?d = (Inr (), f)" "window_down c sp ?d f"
    "reg f REGISTER_PC = pc"
    using leave_frame [OF assms] by blast
  have d: "wf_cpu d" "reg d REGISTER_LR = pc" "reg d REGISTER_FP = frame_top c sp"
    using assms by (simp_all add: in_callee_def)
  have "ret_op cls inst d = (Inr UpdatePC, f)"
    using d f(1) by (simp add: ret_op_def reg_put_reg)
  moreover have "reg f r = reg d r" if "3 \<le> unat r" "unat r < 8" for r
  proof -
    have "r \<noteq> REGISTER_WC" "r \<noteq> REGISTER_PC" "r \<noteq> REGISTER_SP"
      using that(1) by auto
    with that f(2) d show ?thesis
      by (simp add: window_down_def reg_put_reg)
  qed
  ultimately show ?thesis
    using f by (auto simp: window_down_def)
qed

text \<open>What an interrupt keeps besides: the globals below the frame on the stack.\<close>

definition saved_globals :: "uint8 list" where
  "saved_globals = [REGISTER_IP, REGISTER_G0, REGISTER_G1, REGISTER_G2, REGISTER_G3]"

lemma pop_globals_run:
  assumes "wf_cpu d" and "reg d REGISTER_SP = sp + 20"
    and "holds_frame d sp (map f saved_globals)"
  shows "\<exists>g. pop_globals cls d = (Inr (), put_reg g REGISTER_SP sp) \<and> wf_cpu g \<and>
    cpu_memory g = cpu_memory d \<and> cpu_running g = cpu_running d \<and>
    (\<forall>r. unat r < 16 \<longrightarrow> reg g r = (if r \<in> set saved_globals then f r else reg d r))"
proof -
  have "[REGISTER_G3, REGISTER_G2, REGISTER_G1, REGISTER_G0, REGISTER_IP] = rev saved_globals"
    by (simp add: saved_globals_def)
  moreover obtain g where "restore cls (rev saved_globals) (sp + 20) d = (Inr sp, g)" "wf_cpu g"
    "cpu_memory g = cpu_memory d" "cpu_running g = cpu_running d"
    "\<forall>r. unat r < 16 \<longrightarrow> reg g r = (if r \<in> set saved_globals then f r else reg d r)"
    using restore_map_run [of d "rev saved_globals" "sp + 20" f cls] assms
    by (auto simp: saved_globals_def)
  ultimately show ?thesis
    using assms(1,2) by (auto simp: pop_globals_def)
qed

lemma set_saved_globals: "r \<in> set saved_globals \<longleftrightarrow> 3 \<le> unat r \<and> unat r < 8"
proof -
  have "r \<in> set saved_globals \<longleftrightarrow> unat r \<in> {3, 4, 5, 6, 7}"
    by (simp add: saved_globals_def word_unat_eq_iff)
  also have "\<dots> \<longleftrightarrow> 3 \<le> unat r \<and> unat r < 8"
    by auto
  finally show ?thesis .
qed

lemma reti_run:
  assumes callee: "in_callee c pc (sp + 20) d"
    and globals: "holds_frame d sp (map (reg c) saved_globals)"
  shows "\<exists>f. reti cls inst d = (Inr UpdateNone, f) \<and> wf_cpu f \<and> cpu_memory f = cpu_memory d \<and>
    reg f REGISTER_PC = pc \<and> reg f REGISTER_SP = sp \<and> reg f REGISTER_WC = reg c REGISTER_WC \<and>
    (\<forall>r. 3 \<le> unat r \<and> unat r < 16 \<longrightarrow> reg f r = reg c r)"
proof -
  let ?d = "put_reg (put_reg d REGISTER_PC pc) REGISTER_SP (frame_top c (sp + 20))"
  obtain f where f: "decrease_window cls ?d = (Inr (), f)" "window_down c (sp + 20) ?d f"
    "reg f REGISTER_PC = pc"
    using leave_frame [OF callee] by blast
  have d: "wf_cpu d" "reg d REGISTER_LR = pc" "reg d REGISTER_FP = frame_top c (sp + 20)"
    using callee by (simp_all add: in_callee_def)
  have wff: "wf_cpu f" "reg f REGISTER_SP = sp + 20" "cpu_memory f = cpu_memory d"
    using f(2) by (simp_all add: window_down_def)
  then have "holds_frame f sp (map (reg c) saved_globals)"
    using globals by (simp add: holds_frame_def msize_def mword_def)
  then obtain g where g: "pop_globals cls f = (Inr (), put_reg g REGISTER_SP sp)" "wf_cpu g"
    "cpu_memory g = cpu_memory f"
    "\<forall>r. unat r < 16 \<longrightarrow> reg g r = (if r \<in> set saved_globals then reg c r else reg f r)"
    using pop_globals_run [of f sp "reg c" cls] wff by blast
  have "reti cls inst d = (Inr UpdateNone, put_reg g REGISTER_SP sp)"
    using d f(1) g(1) by (simp add: reti_def reg_put_reg)
  moreover have "reg (put_reg g REGISTER_SP sp) r = reg c r" if "3 \<le> unat r" "unat r < 16" for r
    using that g f(2) by (auto simp: window_down_def reg_put_reg set_saved_globals)
  moreover have "reg (put_reg g REGISTER_SP sp) REGISTER_PC = pc"
    "reg (put_reg g REGISTER_SP sp) REGISTER_WC = reg c REGISTER_WC"
    using g f by (auto simp: window_down_def reg_put_reg set_saved_globals)
  ultimately show ?thesis
    using g wff(3) by (auto simp: reg_put_reg)
qed

section \<open>Properties\<close>

text \<open>
  C7: a call enters its target in a new window, at any depth of nesting and also when the
  window counter is past the last window; and from every state in which the callee has left
  the frame intact (\<open>in_callee\<close>), \<open>ret\<close> brings back the program counter of the call, the stack
  pointer, the window and all local registers of the caller, and touches neither the memory
  nor the other globals.
\<close>

theorem call_return:
  assumes "wf_cpu c" and "unat (reg c REGISTER_PC + i_offset i) + 4 \<le> msize c"
    and "unat (reg c REGISTER_WC) < 15 \<or> unat (reg c REGISTER_SP) + 32 \<le> msize c"
  shows "\<exists>d. call cls i c = (Inr UpdateNone, d) \<and>
    reg d REGISTER_PC = reg c REGISTER_PC + i_offset i \<and>
    in_callee c (reg c REGISTER_PC) (reg c REGISTER_SP) d \<and>
    (\<forall>r. 3 \<le> unat r \<and> unat r < 8 \<longrightarrow> reg d r = reg c r) \<and>
    (\<forall>k. in_callee c (reg c REGISTER_PC) (reg c REGISTER_SP) k \<longrightarrow>
      (\<exists>f. ret_op cls j k = (Inr UpdatePC, f) \<and> wf_cpu f \<and> cpu_memory f = cpu_memory k \<and>
        (\<forall>r. unat r < 16 \<longrightarrow>
          reg f r = (if 3 \<le> unat r \<and> unat r < 8 then reg k r else reg c r))))"
proof -
  obtain d where d: "call cls i c = (Inr UpdateNone, d)"
    "in_callee c (reg c REGISTER_PC) (reg c REGISTER_SP) d"
    "reg d REGISTER_PC = reg c REGISTER_PC + i_offset i"
    "\<forall>r. 3 \<le> unat r \<and> unat r < 8 \<longrightarrow> reg d r = reg c r"
    using call_run [OF assms(1) refl assms(2,3)] by blast
  have "\<exists>f. ret_op cls j k = (Inr UpdatePC, f) \<and> wf_cpu f \<and> cpu_memory f = cpu_memory k \<and>
      (\<forall>r. unat r < 16 \<longrightarrow> reg f r = (if 3 \<le> unat r \<and> unat r < 8 then reg k r else reg c r))"
    if k: "in_callee c (reg c REGISTER_PC) (reg c REGISTER_SP) k" for k
  proof -
    obtain f where f: "ret_op cls j k = (Inr UpdatePC, f)" "wf_cpu f" "cpu_memory f = cpu_memory k"
      "reg f REGISTER_PC = reg c REGISTER_PC" "reg f REGISTER_SP = reg c REGISTER_SP"
      "reg f REGISTER_WC = reg c REGISTER_WC"
      "\<forall>r. 8 \<le> unat r \<and> unat r < 16 \<longrightarrow> reg f r = reg c r"
      "\<forall>r. 3 \<le> unat r \<and> unat r < 8 \<longrightarrow> reg f r = reg k r"
      using ret_run [OF k] by blast
    have "reg f r = reg c r" if "unat r < 3" for r
    proof -
      have "r = REGISTER_WC \<or> r = REGISTER_PC \<or> r = REGISTER_SP"
        using that by (auto simp: word_unat_eq_iff)
      with f show ?thesis by auto
    qed
    with f show ?thesis
      by (metis not_less)
  qed
  with d show ?thesis by blast
qed

theorem call_return_witness:
  "\<exists>d f. call (plain_cpu LittleEndian isa_empty) \<lparr>i_code = 0, i_first = 0, i_second = 0, i_data = 64\<rparr>
      (put_reg fresh_cpu 10 42) = (Inr UpdateNone, d) \<and> reg d REGISTER_PC = 64 \<and>
    ret_op (plain_cpu LittleEndian isa_empty) \<lparr>i_code = 0, i_first = 0, i_second = 0, i_data = 0\<rparr>
      d = (Inr UpdatePC, f) \<and> reg f 10 = 42"
proof -
  have offset: "i_offset \<lparr>i_code = 0, i_first = 0, i_second = 0, i_data = 64\<rparr> = 64"
    by (simp add: i_offset_def)
  show ?thesis
    using call_return [of "put_reg fresh_cpu 10 42"
        "\<lparr>i_code = 0, i_first = 0, i_second = 0, i_data = 64\<rparr>" "plain_cpu LittleEndian isa_empty"
        "\<lparr>i_code = 0, i_first = 0, i_second = 0, i_data = 0\<rparr>"]
    by (auto simp: offset reg_put_reg)
qed

end
