(* ===== verification/Interrupts.thy ===== *)
theory Interrupts
  imports Ops_Function
begin

text \<open>
  How the dispatch of an interrupt (\<open>CPU::interrupt\<close>) and \<open>reti\<close> fit together: the frame the
  dispatch lays out on the stack is the one \<open>reti\<close> unwinds.
\<close>

section \<open>Dispatch\<close>

text \<open>The state once the program counter was advanced for an interrupt an instruction threw.\<close>

definition after_inst :: "interrupt_info \<Rightarrow> 'z cpu_state_scheme \<Rightarrow> 'z cpu_state_scheme" where
  "after_inst info c =
     (if intr_thrown_by_inst info then put_reg c REGISTER_PC (reg c REGISTER_PC + 4) else c)"

lemma advance_run:
  "wf_cpu c \<Longrightarrow> (if intr_thrown_by_inst info then advance_pc e else ret ()) c = (Inr (), after_inst info c)"
  by (simp add: after_inst_def advance_pc_def)

lemma after_inst_sel [simp]:
  "cpu_memory (after_inst info c) = cpu_memory c"
  "cpu_running (after_inst info c) = cpu_running c"
  "msize (after_inst info c) = msize c"
  "mword (after_inst info c) a = mword c a"
  "wf_cpu c \<Longrightarrow> wf_cpu (after_inst info c)"
  by (simp_all add: after_inst_def)

lemma reg_after_inst:
  "wf_cpu c \<Longrightarrow> unat r < 16 \<Longrightarrow> r \<noteq> REGISTER_PC \<Longrightarrow> reg (after_inst info c) r = reg c r"
  by (simp add: after_inst_def reg_put_reg)

text \<open>The vector entry of an interrupt: zero where the interrupt is not handled.\<close>

definition handler_of :: "'z cpu_state_scheme \<Rightarrow> uint8 \<Rightarrow> cpu_word" where
  "handler_of c code = mword c (reg c REGISTER_IP + ADDRESS code)"

definition vector_ok :: "'z cpu_state_scheme \<Rightarrow> uint8 \<Rightarrow> bool" where
  "vector_ok c code \<longleftrightarrow> unat (reg c REGISTER_IP + ADDRESS code) + 4 \<le> msize c"

lemma interrupt_enabled_run:
  assumes "wf_cpu c"
  shows "interrupt_enabled e code c =
    (if reg c REGISTER_IP = 0 then Inr False
     else if vector_ok c code then Inr (handler_of c code \<noteq> 0)
     else Inl (MemoryError (reg c REGISTER_IP + ADDRESS code)), c)"
  using assms by (simp add: interrupt_enabled_def get_mem_run vector_ok_def handler_of_def)

text \<open>An interrupt that is not enabled only moves the program counter.\<close>

lemma interrupt_ignored:
  assumes "wf_cpu c" and "get_interrupt_info isa code = Inr info"
    and "reg c REGISTER_IP = 0 \<or> (vector_ok c code \<and> handler_of c code = 0)"
  shows "cpu_interrupt e isa code g1 g2 c = (Inr (), after_inst info c)"
proof -
  let ?c = "after_inst info c"
  have "interrupt_enabled e code ?c = (Inr False, ?c)"
    using assms(1,3)
    by (auto simp: interrupt_enabled_run vector_ok_def handler_of_def reg_after_inst)
  with assms(1,2) show ?thesis
    by (simp add: cpu_interrupt_def advance_run)
qed

text \<open>Where an interrupt vector lies outside the memory, the dispatch throws.\<close>

lemma interrupt_vector_fault:
  assumes "wf_cpu c" and "get_interrupt_info isa code = Inr info"
    and "reg c REGISTER_IP \<noteq> 0" and "\<not> vector_ok c code"
  shows "cpu_interrupt e isa code g1 g2 c =
    (Inl (MemoryError (reg c REGISTER_IP + ADDRESS code)), after_inst info c)"
proof -
  let ?c = "after_inst info c"
  have "interrupt_enabled e code ?c =
      (Inl (MemoryError (reg c REGISTER_IP + ADDRESS code)), ?c)"
    using assms(1,3,4) by (simp add: interrupt_enabled_run vector_ok_def reg_after_inst)
  with assms(1,2) show ?thesis
    by (simp add: cpu_interrupt_def advance_run)
qed

text \<open>The room the frame of an interrupt takes on the stack.\<close>

definition interrupt_room :: "'z cpu_state_scheme \<Rightarrow> bool" where
  "interrupt_room c \<longleftrightarrow>
     unat (reg c REGISTER_SP) + 20 + (if unat (reg c REGISTER_WC) < 15 then 0 else 32) \<le> msize c"

lemma holds_frame_memory: "cpu_memory d = cpu_memory c \<Longrightarrow> holds_frame d a ws = holds_frame c a ws"
  by (simp add: holds_frame_def msize_def mword_def)

text \<open>The memory after the globals (\<open>m\<close>) and, with all windows in use, the locals (\<open>n\<close>) were saved.\<close>

definition interrupt_memory :: "endian \<Rightarrow> 'z cpu_state_scheme \<Rightarrow> memory \<Rightarrow> memory \<Rightarrow> bool" where
  "interrupt_memory e c m n \<longleftrightarrow>
     mw.put_all e (cpu_memory c) (reg c REGISTER_SP) (map (reg c) saved_globals) = Inr m \<and>
     (if unat (reg c REGISTER_WC) < 15 then n = m
      else mw.put_all e m (reg c REGISTER_SP + 20) (map (reg c) local_registers) = Inr n) \<and>
     wf_memory m \<and> wf_memory n \<and> mem_size m = mem_size (cpu_memory c) \<and>
     mem_size n = mem_size (cpu_memory c) \<and>
     holds_frame (c\<lparr>cpu_memory := n\<rparr>) (reg c REGISTER_SP) (map (reg c) saved_globals) \<and>
     (\<not> unat (reg c REGISTER_WC) < 15 \<longrightarrow>
       holds_frame (c\<lparr>cpu_memory := n\<rparr>) (reg c REGISTER_SP + 20) (map (reg c) local_registers))"

lemma length_saved_globals [simp]: "length saved_globals = 5"
  by (simp add: saved_globals_def)

lemma unat_address_bound: "unat (a :: address) < 4294967296"
  using unsigned_less [of a] by simp

lemma put_all_size:
  "wf_memory k \<Longrightarrow> mw.put_all e k a ws = Inr m \<Longrightarrow> wf_memory m \<and> mem_size m = mem_size k"
  using mw.put_all_keeps [of k e a ws m] by (simp add: word_unat_eq_iff)

lemma frame_below:
  assumes wf: "wf_cpu c" and frame: "holds_frame c a gs"
    and n: "mw.put_all e (cpu_memory c) b ws = Inr n"
    and below: "unat a + 4 * length gs \<le> unat b"
  shows "holds_frame (c\<lparr>cpu_memory := n\<rparr>) a gs"
  unfolding holds_frame_def
proof (intro allI impI)
  fix i
  assume i: "i < length gs"
  have "unat a + 4 * i < 2 ^ LENGTH(32)"
    using i below unat_address_bound [of b] by simp
  then have addr: "unat (a + 4 * of_nat i) = unat a + 4 * i"
    using unat_add_le [of a "4 * i"] by simp
  have "get_word e n (a + 4 * of_nat i) True = get_word e (cpu_memory c) (a + 4 * of_nat i) True"
    by (rule mw.put_all_below [OF wf_cpuD [OF wf] n]) (use i addr below in simp)
  with frame i get_word_mword [OF wf, of e "a + 4 * of_nat i" "gs ! i"]
    get_word_mword [of "c\<lparr>cpu_memory := n\<rparr>" e "a + 4 * of_nat i" "gs ! i"] wf_put_all [OF wf n]
  show "unat (a + 4 * of_nat i) + 4 \<le> msize (c\<lparr>cpu_memory := n\<rparr>) \<and>
      mword (c\<lparr>cpu_memory := n\<rparr>) (a + 4 * of_nat i) = gs ! i"
    by (simp add: holds_frame_def)
qed

lemma interrupt_memory_exists:
  assumes wf: "wf_cpu c" and room: "interrupt_room c"
  shows "\<exists>m n. interrupt_memory e c m n"
proof -
  let ?sp = "reg c REGISTER_SP"
  let ?g = "map (reg c) saved_globals" and ?l = "map (reg c) local_registers"
  have sp: "unat (?sp + 20) = unat ?sp + 20"
    using room msize_bound [of c] unat_add_le [of ?sp 20]
    by (simp add: interrupt_room_def split: if_splits)
  obtain m where m: "mw.put_all e (cpu_memory c) ?sp ?g = Inr m"
    using put_all_exists [OF wf, of ?sp ?g e] room
    by (auto simp: interrupt_room_def split: if_splits)
  note keep_m = put_all_size [OF wf_cpuD [OF wf] m]
  have wfm: "wf_cpu (c\<lparr>cpu_memory := m\<rparr>)"
    using wf keep_m by simp
  have frame: "holds_frame (c\<lparr>cpu_memory := m\<rparr>) ?sp ?g"
    by (rule put_all_frame [OF wf m])
  show ?thesis
  proof (cases "unat (reg c REGISTER_WC) < 15")
    case True
    with m keep_m frame show ?thesis
      by (auto simp: interrupt_memory_def)
  next
    case False
    obtain n where n: "mw.put_all e m (?sp + 20) ?l = Inr n"
      using put_all_exists [OF wfm, of "?sp + 20" ?l e] room False sp keep_m
      by (auto simp: interrupt_room_def msize_def)
    note keep_n = put_all_size [OF conjunct1 [OF keep_m] n]
    have "holds_frame (c\<lparr>cpu_memory := n\<rparr>) (?sp + 20) ?l"
      using put_all_frame [OF wfm, of e "?sp + 20" ?l n] n by simp
    moreover have "holds_frame (c\<lparr>cpu_memory := n\<rparr>) ?sp ?g"
      using frame_below [OF wfm frame, of e "?sp + 20" ?l n] n sp by simp
    ultimately show ?thesis
      using m n keep_m keep_n False by (auto simp: interrupt_memory_def)
  qed
qed

lemma in_callee_after_inst:
  assumes "wf_cpu c"
  shows "in_callee (after_inst info c) = in_callee c"
proof -
  have same: "reg (after_inst info c) r = reg c r" if "unat r < 16" "r \<noteq> REGISTER_PC" for r
    using that assms by (simp add: reg_after_inst)
  then have maps: "map (reg (after_inst info c)) local_registers = map (reg c) local_registers"
    by (simp add: local_registers_def)
  have loc: "reg (after_inst info c) r = reg c r" if "8 \<le> unat r" "unat r < 16" for r
    by (rule same) (use that in auto)
  have "preg (after_inst info c) 0 = preg c 0"
    using same [of 0] by (simp add: reg_def)
  then have index: "reg_index (after_inst info c) r = reg_index c r" for r
    by (rule reg_index_cong)
  have "in_callee (after_inst info c) pc sp d = in_callee c pc sp d" for pc sp d
    unfolding in_callee_def caller_saved_def frame_top_def maps
    by (auto simp: same loc index)
  then show ?thesis by blast
qed

text \<open>The last part of the dispatch, from the state in which the window has been increased.\<close>

definition enter_handler ::
    "endian \<Rightarrow> uint8 \<Rightarrow> cpu_word \<Rightarrow> cpu_word \<Rightarrow> cpu_word \<Rightarrow> ('z cpu_state_scheme, unit) prog" where
  "enter_handler e code g1 g2 handler =
     andthen (read_register e REGISTER_PC True) (\<lambda>pc.
     andthen (set_reg e REGISTER_LR pc True) (\<lambda>_.
     andthen (read_register e REGISTER_SP True) (\<lambda>sp.
     andthen (set_reg e REGISTER_FP sp True) (\<lambda>_.
     andthen (write_register e REGISTER_G0 (ucast code) True) (\<lambda>_.
     andthen (write_register e REGISTER_G1 g1 True) (\<lambda>_.
     andthen (write_register e REGISTER_G2 g2 True) (\<lambda>_.
     write_register e REGISTER_PC handler True)))))))"

lemmas cpu_interrupt_split =
  cpu_interrupt_def [folded enter_handler_def saved_globals_def]

lemma enter_handler_run:
  assumes "wf_cpu d"
  shows "enter_handler e code g1 g2 handler d =
    (Inr (), put_reg (put_reg (put_reg (put_reg
      (put_reg (put_reg d REGISTER_LR (reg d REGISTER_PC)) REGISTER_FP (reg d REGISTER_SP))
      REGISTER_G0 (ucast code)) REGISTER_G1 g1) REGISTER_G2 g2) REGISTER_PC handler)"
  using assms by (simp add: enter_handler_def reg_put_reg)

lemma enter_handler_frame:
  assumes up: "window_up c sp d"
  shows "\<exists>f. enter_handler e code g1 g2 handler d = (Inr (), f) \<and>
    in_callee c (reg c REGISTER_PC) sp f \<and> cpu_memory f = cpu_memory d \<and>
    reg f REGISTER_PC = handler \<and> reg f REGISTER_SP = frame_top c sp \<and>
    reg f REGISTER_IP = reg c REGISTER_IP \<and>
    reg f REGISTER_G0 = ucast code \<and> reg f REGISTER_G1 = g1 \<and> reg f REGISTER_G2 = g2"
proof -
  have d: "wf_cpu d" "reg d REGISTER_PC = reg c REGISTER_PC" "reg d REGISTER_SP = frame_top c sp"
    "reg d REGISTER_IP = reg c REGISTER_IP"
    using up by (simp_all add: window_up_def)
  let ?f = "put_reg (put_reg d REGISTER_LR (reg c REGISTER_PC)) REGISTER_FP (frame_top c sp)"
  have "in_callee c (reg c REGISTER_PC) sp (put_reg (put_reg (put_reg (put_reg ?f
      REGISTER_G0 (ucast code)) REGISTER_G1 g1) REGISTER_G2 g2) REGISTER_PC handler)"
    by (intro in_callee_put_reg enter_frame [OF up]) simp_all
  with d show ?thesis
    by (simp add: enter_handler_run reg_put_reg)
qed

text \<open>
  An interrupt that is handled opens a frame: the handler starts in a callee of the
  interrupted program, with the code and the two words of information in \<open>g0\<close> to \<open>g2\<close> and
  the globals of the program on the stack.
\<close>

lemma interrupt_taken:
  assumes wf: "wf_cpu c" and info: "get_interrupt_info isa code = Inr info"
    and enabled: "reg c REGISTER_IP \<noteq> 0" "vector_ok c code" "handler_of c code \<noteq> 0"
    and room: "interrupt_room c"
  shows "\<exists>d. cpu_interrupt e isa code g1 g2 c = (Inr (), d) \<and>
    in_callee c (reg (after_inst info c) REGISTER_PC) (reg c REGISTER_SP + 20) d \<and>
    holds_frame d (reg c REGISTER_SP) (map (reg c) saved_globals) \<and>
    msize d = msize c \<and>
    reg d REGISTER_PC = handler_of c code \<and> reg d REGISTER_SP = frame_top c (reg c REGISTER_SP + 20) \<and>
    reg d REGISTER_IP = reg c REGISTER_IP \<and>
    reg d REGISTER_G0 = ucast code \<and> reg d REGISTER_G1 = g1 \<and> reg d REGISTER_G2 = g2"
proof -
  let ?c = "after_inst info c" and ?sp = "reg c REGISTER_SP" and ?wc = "reg c REGISTER_WC"
  let ?pc = "reg (after_inst info c) REGISTER_PC" and ?top = "frame_top c (reg c REGISTER_SP + 20)"
  have wf': "wf_cpu ?c"
    using wf by simp
  have same: "reg ?c r = reg c r" if "unat r < 16" "r \<noteq> REGISTER_PC" for r
    using that wf by (simp add: reg_after_inst)
  have maps: "map (reg ?c) saved_globals = map (reg c) saved_globals"
    by (simp add: saved_globals_def same)
  obtain m n where mn: "interrupt_memory e c m n"
    using interrupt_memory_exists [OF wf room] by blast
  let ?d1 = "put_reg (?c\<lparr>cpu_memory := m\<rparr>) REGISTER_SP (?sp + 20)"
  let ?d2 = "put_reg (?d1\<lparr>cpu_memory := n\<rparr>) REGISTER_SP ?top"
  let ?d3 = "put_reg ?d2 REGISTER_WC (?wc + 1)"
  have wfm: "wf_cpu (?c\<lparr>cpu_memory := m\<rparr>)" and wfd1: "wf_cpu ?d1" and wfd2: "wf_cpu ?d2"
    and wfd3: "wf_cpu ?d3"
    using mn wf' by (simp_all add: interrupt_memory_def)
  have globals: "save_globals e saved_globals ?sp ?c = (Inr (?sp + 20), ?c\<lparr>cpu_memory := m\<rparr>)"
    using save_globals_run [OF wf', of saved_globals e ?sp m] mn
    by (simp add: interrupt_memory_def maps set_saved_globals)
  have locals: "(if of_nat (REGISTER_WINDOWS - 1) \<le> ?wc
      then save_locals e local_registers (?sp + 20) else ret (?sp + 20)) ?d1 =
      (Inr ?top, ?d1\<lparr>cpu_memory := n\<rparr>)"
  proof (cases "unat ?wc < 15")
    case True
    with mn show ?thesis
      by (simp add: frame_top_def wc_full interrupt_memory_def)
  next
    case False
    have "map (reg ?d1) local_registers = map (reg c) local_registers"
      using wfm by (simp add: local_registers_def reg_put_reg same)
    with save_locals_run [OF wfd1, of local_registers e "?sp + 20" n] False mn show ?thesis
      by (simp add: frame_top_def wc_full interrupt_memory_def set_local_registers)
  qed
  have wfn: "wf_memory n" and msz: "msize ?d3 = msize ?c"
    using mn by (simp_all add: interrupt_memory_def msize_def)
  have saved: "caller_saved ?c ?d3 (?sp + 20)"
  proof (cases "unat ?wc < 15")
    case True
    have "preg ?d3 k = preg ?c k" if "8 \<le> k" "k < 136" for k
      using that wfm wfn by (simp add: put_reg_def preg_set_preg)
    moreover have "8 \<le> reg_index ?c r \<and> reg_index ?c r < 136" if "8 \<le> unat r" "unat r < 16" for r
      using that by (auto simp: reg_index_def)
    ultimately have "preg ?d3 (reg_index ?c r) = reg ?c r" if "8 \<le> unat r" "unat r < 16" for r
      using that unfolding reg_def by blast
    moreover have "unat (reg ?c REGISTER_WC) < 15"
      using True by (simp add: same)
    ultimately show ?thesis
      unfolding caller_saved_def by simp
  next
    case False
    have maps: "map (reg ?c) local_registers = map (reg c) local_registers"
      by (simp add: local_registers_def same)
    have "holds_frame ?d3 (?sp + 20) (map (reg ?c) local_registers)"
      unfolding maps using False mn holds_frame_memory
        [of ?d3 "c\<lparr>cpu_memory := n\<rparr>" "?sp + 20" "map (reg c) local_registers"]
      by (simp add: interrupt_memory_def)
    moreover have "\<not> unat (reg ?c REGISTER_WC) < 15"
      using False by (simp add: same)
    ultimately show ?thesis
      unfolding caller_saved_def by simp
  qed
  have top: "frame_top ?c (?sp + 20) = ?top"
    by (simp add: frame_top_def same)
  have up: "window_up ?c (?sp + 20) ?d3"
    using wfm wfn saved msz by (simp add: window_up_def reg_put_reg same top)
  have run: "cpu_interrupt e isa code g1 g2 c = enter_handler e code g1 g2 (handler_of c code) ?d3"
  proof -
    have on: "interrupt_enabled e code ?c = (Inr True, ?c)"
      using enabled wf by (simp add: interrupt_enabled_run vector_ok_def handler_of_def same)
    have vec: "get_mem e (reg c REGISTER_IP + ADDRESS code) True ?c = (Inr (handler_of c code), ?c)"
      using enabled wf by (simp add: get_mem_run vector_ok_def handler_of_def)
    show ?thesis
      using wf wf' wfm wfn wfd1 wfd2 globals locals
      by (simp add: cpu_interrupt_split info advance_run on vec same reg_put_reg
          del: set_reg_run)
  qed
  obtain f where f: "enter_handler e code g1 g2 (handler_of c code) ?d3 = (Inr (), f)"
    "in_callee ?c ?pc (?sp + 20) f" "cpu_memory f = n"
    "reg f REGISTER_PC = handler_of c code" "reg f REGISTER_SP = ?top"
    "reg f REGISTER_IP = reg c REGISTER_IP"
    "reg f REGISTER_G0 = ucast code" "reg f REGISTER_G1 = g1" "reg f REGISTER_G2 = g2"
    using enter_handler_frame [OF up, of e code g1 g2 "handler_of c code"] top same by auto
  have "holds_frame f ?sp (map (reg c) saved_globals)"
    using mn f(3) holds_frame_memory [of f "c\<lparr>cpu_memory := n\<rparr>"]
    by (simp add: interrupt_memory_def)
  moreover have "msize f = msize c"
    using mn f(3) by (simp add: interrupt_memory_def msize_def)
  ultimately show ?thesis
    using f run by (simp add: in_callee_after_inst [OF wf])
qed

section \<open>Properties\<close>

text \<open>
  C8: an interrupt that is handled enters its handler with the code and the information in
  \<open>g0\<close>, \<open>g1\<close>, \<open>g2\<close>; and from every state in which the handler has left the two frames intact,
  \<open>reti\<close> makes the interrupt transparent: all sixteen visible registers are back, but for the
  program counter, which has moved past the instruction exactly when the interrupt is one
  that instructions throw.
\<close>

theorem interrupt_return:
  assumes "wf_cpu c" and "get_interrupt_info isa code = Inr info"
    and "reg c REGISTER_IP \<noteq> 0" and "vector_ok c code" and "handler_of c code \<noteq> 0"
    and "interrupt_room c"
  shows "\<exists>d. cpu_interrupt e isa code g1 g2 c = (Inr (), d) \<and>
    reg d REGISTER_PC = handler_of c code \<and>
    reg d REGISTER_G0 = ucast code \<and> reg d REGISTER_G1 = g1 \<and> reg d REGISTER_G2 = g2 \<and>
    in_callee c (reg (after_inst info c) REGISTER_PC) (reg c REGISTER_SP + 20) d \<and>
    holds_frame d (reg c REGISTER_SP) (map (reg c) saved_globals) \<and>
    (\<forall>k. in_callee c (reg (after_inst info c) REGISTER_PC) (reg c REGISTER_SP + 20) k \<and>
        holds_frame k (reg c REGISTER_SP) (map (reg c) saved_globals) \<longrightarrow>
      (\<exists>f. reti cls j k = (Inr UpdateNone, f) \<and> wf_cpu f \<and> cpu_memory f = cpu_memory k \<and>
        (\<forall>r. unat r < 16 \<longrightarrow> reg f r =
          (if r = REGISTER_PC \<and> intr_thrown_by_inst info then reg c r + 4 else reg c r))))"
proof -
  obtain d where d: "cpu_interrupt e isa code g1 g2 c = (Inr (), d)"
    "reg d REGISTER_PC = handler_of c code"
    "reg d REGISTER_G0 = ucast code" "reg d REGISTER_G1 = g1" "reg d REGISTER_G2 = g2"
    "in_callee c (reg (after_inst info c) REGISTER_PC) (reg c REGISTER_SP + 20) d"
    "holds_frame d (reg c REGISTER_SP) (map (reg c) saved_globals)"
    using interrupt_taken [OF assms] by blast
  have "\<exists>f. reti cls j k = (Inr UpdateNone, f) \<and> wf_cpu f \<and> cpu_memory f = cpu_memory k \<and>
      (\<forall>r. unat r < 16 \<longrightarrow> reg f r =
        (if r = REGISTER_PC \<and> intr_thrown_by_inst info then reg c r + 4 else reg c r))"
    if k: "in_callee c (reg (after_inst info c) REGISTER_PC) (reg c REGISTER_SP + 20) k"
      "holds_frame k (reg c REGISTER_SP) (map (reg c) saved_globals)" for k
  proof -
    obtain f where f: "reti cls j k = (Inr UpdateNone, f)" "wf_cpu f" "cpu_memory f = cpu_memory k"
      "reg f REGISTER_PC = reg (after_inst info c) REGISTER_PC"
      "reg f REGISTER_SP = reg c REGISTER_SP" "reg f REGISTER_WC = reg c REGISTER_WC"
      "\<forall>r. 3 \<le> unat r \<and> unat r < 16 \<longrightarrow> reg f r = reg c r"
      using reti_run [OF k] by blast
    have "reg (after_inst info c) REGISTER_PC =
        (if intr_thrown_by_inst info then reg c REGISTER_PC + 4 else reg c REGISTER_PC)"
      using assms(1) by (simp add: after_inst_def reg_put_reg)
    moreover have "3 \<le> unat r \<or> r = REGISTER_WC \<or> r = REGISTER_PC \<or> r = REGISTER_SP" for r :: uint8
      by (auto simp: word_unat_eq_iff)
    ultimately have "reg f r =
        (if r = REGISTER_PC \<and> intr_thrown_by_inst info then reg c r + 4 else reg c r)"
      if "unat r < 16" for r
      using f that by (metis (full_types) numeral_le_one_iff unat_1 semiring_norm(70))
    with f show ?thesis by blast
  qed
  with d show ?thesis by blast
qed

text \<open>A table with one interrupt, and a CPU with a handler for it at address 64.\<close>

definition one_interrupt :: "'z cpu_isa" where
  "one_interrupt = isa_empty\<lparr>interrupts_map :=
     [1 \<mapsto> \<lparr>intr_code = 1, intr_name = ''SoftwareInterrupt'', intr_thrown_by_inst = True\<rparr>]\<rparr>"

definition handling_cpu :: cpu_state where
  "handling_cpu = put_reg (put_mword fresh_cpu 104 64) REGISTER_IP 100"

lemma handling_cpu_facts [simp]:
  "wf_cpu handling_cpu" "msize handling_cpu = 1024" "reg handling_cpu REGISTER_IP = 100"
  "reg handling_cpu REGISTER_SP = 0" "reg handling_cpu REGISTER_WC = 0"
  "mword handling_cpu 104 = 64"
  by (simp_all add: handling_cpu_def reg_put_reg mword_put_mword_same)

theorem interrupt_return_witness:
  "\<exists>d f. cpu_interrupt LittleEndian one_interrupt 1 7 9 handling_cpu = (Inr (), d) \<and>
    reg d REGISTER_PC = 64 \<and> reg d REGISTER_G1 = 7 \<and>
    reti (plain_cpu LittleEndian one_interrupt) \<lparr>i_code = 0, i_first = 0, i_second = 0, i_data = 0\<rparr>
      d = (Inr UpdateNone, f) \<and> reg f REGISTER_PC = reg handling_cpu REGISTER_PC + 4"
proof -
  let ?info = "\<lparr>intr_code = 1, intr_name = ''SoftwareInterrupt'', intr_thrown_by_inst = True\<rparr>"
  have info: "get_interrupt_info one_interrupt 1 = Inr ?info"
    by (simp add: get_interrupt_info_def one_interrupt_def)
  have vec: "vector_ok handling_cpu 1" "handler_of handling_cpu 1 = 64" "interrupt_room handling_cpu"
    by (simp_all add: vector_ok_def handler_of_def ADDRESS_def interrupt_room_def)
  show ?thesis
    using interrupt_return [OF handling_cpu_facts(1) info _ vec(1) _ vec(3), of LittleEndian 7 9
        "plain_cpu LittleEndian one_interrupt" "\<lparr>i_code = 0, i_first = 0, i_second = 0, i_data = 0\<rparr>"]
      vec(2) by auto
qed

end
