(* ===== verification/ISA_Table.thy ===== *)
theory ISA_Table
  imports Ops_Arith Ops_Branch Interrupts
begin

text \<open>
  The constructor \<open>ISA::ISA()\<close> of \<open>simpleworld/cpu/isa.cpp\<close>: the registers, interrupts and
  instructions of the base CPU, entered in the order of the source; and what follows for a
  CPU that runs on this table.
\<close>

abbreviation REGISTER_R0 :: uint8 where "REGISTER_R0 \<equiv> 10"
abbreviation REGISTER_R1 :: uint8 where "REGISTER_R1 \<equiv> 11"
abbreviation REGISTER_R2 :: uint8 where "REGISTER_R2 \<equiv> 12"
abbreviation REGISTER_R3 :: uint8 where "REGISTER_R3 \<equiv> 13"
abbreviation REGISTER_R4 :: uint8 where "REGISTER_R4 \<equiv> 14"
abbreviation REGISTER_R5 :: uint8 where "REGISTER_R5 \<equiv> 15"

section \<open>The entries\<close>

definition base_registers :: "(uint8 \<times> string) list" where
  "base_registers = [
   (REGISTER_PC, ''pc''),
   (REGISTER_WC, ''wc''),
   (REGISTER_SP, ''sp''),
   (REGISTER_IP, ''ip''),
   (REGISTER_G0, ''g0''),
   (REGISTER_G1, ''g1''),
   (REGISTER_G2, ''g2''),
   (REGISTER_G3, ''g3''),
   (REGISTER_LR, ''lr''),
   (REGISTER_FP, ''fp''),
   (REGISTER_R0, ''r0''),
   (REGISTER_R1, ''r1''),
   (REGISTER_R2, ''r2''),
   (REGISTER_R3, ''r3''),
   (REGISTER_R4, ''r4''),
   (REGISTER_R5, ''r5'')]"

definition base_interrupts :: "(uint8 \<times> interrupt_info) list" where
  "base_interrupts = map (\<lambda>(code, name, thrown).
     (code, \<lparr>intr_code = code, intr_name = name, intr_thrown_by_inst = thrown\<rparr>)) [
   (INTERRUPT_TIMER, ''TimerInterrupt'', False),
   (INTERRUPT_SOFTWARE, ''SoftwareInterrupt'', True),
   (INTERRUPT_INSTRUCTION, ''InvalidInstruction'', True),
   (INTERRUPT_MEMORY, ''InvalidMemoryLocation'', True),
   (INTERRUPT_DIVISION, ''DivisionByZero'', True)]"

definition base_entries :: "(uint8 \<times> string \<times> uint8 \<times> bool \<times> 'z operation) list" where
  "base_entries = [
   (0x00, ''stop'', 0, False, stop),
   (0x01, ''restart'', 0, False, restart),
   (0x10, ''move'', 2, False, move),
   (0x12, ''swap'', 2, False, swap),
   (0x18, ''push'', 1, False, push),
   (0x1a, ''pop'', 1, False, pop),
   (0x20, ''load'', 1, True, load),
   (0x22, ''loadrr'', 3, False, loadrr),
   (0x23, ''loadri'', 2, True, loadri),
   (0x24, ''loadh'', 1, True, loadh),
   (0x26, ''loadhrr'', 3, False, loadhrr),
   (0x27, ''loadhri'', 2, True, loadhri),
   (0x28, ''loadq'', 1, True, loadq),
   (0x2a, ''loadqrr'', 3, False, loadqrr),
   (0x2b, ''loadqri'', 2, True, loadqri),
   (0x2c, ''loadi'', 1, True, loadi),
   (0x2d, ''loadhi'', 1, True, loadhi),
   (0x2e, ''loada'', 1, True, loada),
   (0x30, ''store'', 1, True, store),
   (0x32, ''storerr'', 3, False, storerr),
   (0x33, ''storeri'', 2, True, storeri),
   (0x34, ''storeh'', 1, True, storeh),
   (0x36, ''storehrr'', 3, False, storehrr),
   (0x37, ''storehri'', 2, True, storehri),
   (0x38, ''storeq'', 1, True, storeq),
   (0x3a, ''storeqrr'', 3, False, storeqrr),
   (0x3b, ''storeqri'', 2, True, storeqri),
   (0x40, ''b'', 0, True, b_op),
   (0x42, ''bz'', 1, True, bz),
   (0x43, ''bnz'', 1, True, bnz),
   (0x44, ''beq'', 2, True, beq),
   (0x45, ''bne'', 2, True, bne),
   (0x46, ''blt'', 2, True, blt),
   (0x47, ''bltu'', 2, True, bltu),
   (0x48, ''bgt'', 2, True, bgt),
   (0x49, ''bgtu'', 2, True, bgtu),
   (0x4a, ''ble'', 2, True, ble),
   (0x4b, ''bleu'', 2, True, bleu),
   (0x4c, ''bge'', 2, True, bge),
   (0x4d, ''bgeu'', 2, True, bgeu),
   (0x50, ''call'', 0, True, call),
   (0x51, ''callr'', 1, False, callr),
   (0x52, ''int'', 0, True, interrupt),
   (0x54, ''ret'', 0, False, ret_op),
   (0x55, ''reti'', 0, False, reti),
   (0x60, ''add'', 3, False, add),
   (0x61, ''addi'', 2, True, addi),
   (0x62, ''sub'', 3, False, sub),
   (0x63, ''subi'', 2, True, subi),
   (0x64, ''mult'', 3, False, mult),
   (0x65, ''multi'', 2, True, multi),
   (0x66, ''multh'', 3, False, multh),
   (0x67, ''multhi'', 2, True, multhi),
   (0x68, ''multhu'', 3, False, multhu),
   (0x69, ''multhui'', 2, True, multhui),
   (0x6a, ''div'', 3, False, div_op),
   (0x6b, ''divi'', 2, True, divi),
   (0x6c, ''mod'', 3, False, mod_op),
   (0x6d, ''modi'', 2, True, modi),
   (0x70, ''signh'', 2, False, signh),
   (0x71, ''signq'', 2, False, signq),
   (0x80, ''not'', 2, False, lnot),
   (0x88, ''or'', 3, False, lor),
   (0x89, ''ori'', 2, True, lori),
   (0x8a, ''and'', 3, False, land),
   (0x8b, ''andi'', 2, True, landi),
   (0x8c, ''xor'', 3, False, lxor),
   (0x8d, ''xori'', 2, True, lxori),
   (0x90, ''sll'', 3, False, sll),
   (0x91, ''slli'', 2, True, slli),
   (0x92, ''srl'', 3, False, srl),
   (0x93, ''srli'', 2, True, srli),
   (0x94, ''sra'', 3, False, sra),
   (0x95, ''srai'', 2, True, srai),
   (0x96, ''rl'', 3, False, rl),
   (0x97, ''rli'', 2, True, rli),
   (0x98, ''rr'', 3, False, rr),
   (0x99, ''rri'', 2, True, rri)]"

definition base_instructions :: "(uint8 \<times> 'z operation instruction_info) list" where
  "base_instructions = map (\<lambda>(code, name, nregs, has_inmediate, func).
     (code, \<lparr>inst_code = code, inst_name = name, inst_nregs = nregs,
        inst_has_inmediate = has_inmediate, inst_func = func\<rparr>)) base_entries"

section \<open>The constructor\<close>

definition isa_new :: "exn + 'z cpu_isa" where
  "isa_new =
     attempt (fold_attempt (\<lambda>t (code, name). add_register t code name) isa_empty base_registers) (\<lambda>t.
     attempt (fold_attempt (\<lambda>t (code, info). add_interrupt t info) t base_interrupts) (\<lambda>t.
     fold_attempt (\<lambda>t (code, info). add_instruction t info) t base_instructions))"

text \<open>The object the constructor yields.\<close>

definition base_isa :: "'z cpu_isa" where
  "base_isa = (case isa_new of Inl _ \<Rightarrow> isa_empty | Inr t \<Rightarrow> t)"

section \<open>The constructor succeeds\<close>

lemma fold_attempt_keeps:
  assumes "\<And>t x t'. f t x = Inr t' \<Longrightarrow> g t' = g t" and "fold_attempt f t xs = Inr t'"
  shows "g t' = g t"
  using assms(2)
proof (induction xs arbitrary: t)
  case (Cons x xs)
  then obtain u where "f t x = Inr u" "fold_attempt f u xs = Inr t'"
    by (auto simp: attempt_eq_Inr)
  with Cons.IH assms(1) show ?case by metis
qed simp

lemma add_register_keeps:
  "add_register t c n = Inr t' \<Longrightarrow>
    instructions t' = instructions t \<and> instruction_names t' = instruction_names t \<and>
    interrupts_map t' = interrupts_map t \<and> interrupt_names t' = interrupt_names t"
  by (auto simp: add_register_def split: option.splits)

lemma add_interrupt_keeps:
  "add_interrupt t x = Inr t' \<Longrightarrow>
    instructions t' = instructions t \<and> instruction_names t' = instruction_names t \<and>
    registers_map t' = registers_map t \<and> register_names t' = register_names t"
  by (auto simp: add_interrupt_def split: option.splits)

lemma add_instruction_keeps:
  "add_instruction t x = Inr t' \<Longrightarrow>
    interrupts_map t' = interrupts_map t \<and> interrupt_names t' = interrupt_names t \<and>
    registers_map t' = registers_map t \<and> register_names t' = register_names t"
  by (auto simp: add_instruction_def split: option.splits)

lemma base_distinct:
  "distinct (map fst base_registers)" "distinct (map snd base_registers)"
  "distinct (map fst base_interrupts)" "distinct (map (intr_name \<circ> snd) base_interrupts)"
  by (simp_all add: base_registers_def base_interrupts_def)

lemma base_entries_distinct:
  "distinct (map fst (base_entries :: (uint8 \<times> string \<times> uint8 \<times> bool \<times> 'z operation) list))"
  "distinct (map (fst \<circ> snd) (base_entries :: (uint8 \<times> string \<times> uint8 \<times> bool \<times> 'z operation) list))"
  by (simp_all add: base_entries_def)

lemma base_instructions_distinct:
  "distinct (map fst (base_instructions :: (uint8 \<times> 'z operation instruction_info) list))"
  "distinct (map (inst_name \<circ> snd) (base_instructions :: (uint8 \<times> 'z operation instruction_info) list))"
proof -
  have "map fst (base_instructions :: (uint8 \<times> 'z operation instruction_info) list) =
      map fst (base_entries :: (uint8 \<times> string \<times> uint8 \<times> bool \<times> 'z operation) list)"
    by (simp add: base_instructions_def case_prod_beta)
  then show "distinct (map fst (base_instructions :: (uint8 \<times> 'z operation instruction_info) list))"
    by (simp only: base_entries_distinct)
  have "map (inst_name \<circ> snd) (base_instructions :: (uint8 \<times> 'z operation instruction_info) list) =
      map (fst \<circ> snd) (base_entries :: (uint8 \<times> string \<times> uint8 \<times> bool \<times> 'z operation) list)"
    by (simp add: base_instructions_def case_prod_beta)
  then show "distinct (map (inst_name \<circ> snd) (base_instructions :: (uint8 \<times> 'z operation instruction_info) list))"
    by (simp only: base_entries_distinct)
qed

lemma base_codes_agree:
  "(c, i) \<in> set base_instructions \<Longrightarrow> inst_code i = c"
  "(c, x) \<in> set base_interrupts \<Longrightarrow> intr_code x = c"
  by (auto simp: base_instructions_def base_interrupts_def)

lemma isa_empty_sel [simp]:
  "instructions isa_empty c = None" "instruction_names isa_empty n = None"
  "registers_map isa_empty c = None" "register_names isa_empty n = None"
  "interrupts_map isa_empty c = None" "interrupt_names isa_empty n = None"
  by (simp_all add: isa_empty_def)

lemma isa_empty_maps [simp]:
  "instructions isa_empty ++ m = m" "registers_map isa_empty ++ r = r"
  "interrupts_map isa_empty ++ x = x"
  by (simp_all add: isa_empty_def fun_eq_iff map_add_def split: option.split)

lemma isa_empty_consistent [simp]:
  "itab.consistent isa_empty" "rtab.consistent isa_empty" "xtab.consistent isa_empty"
  by (simp_all add: itab.consistent_def rtab.consistent_def xtab.consistent_def)

lemma consistent_cong:
  "instructions t = instructions u \<Longrightarrow> instruction_names t = instruction_names u \<Longrightarrow>
    itab.consistent t = itab.consistent u"
  "registers_map t = registers_map u \<Longrightarrow> register_names t = register_names u \<Longrightarrow>
    rtab.consistent t = rtab.consistent u"
  "interrupts_map t = interrupts_map u \<Longrightarrow> interrupt_names t = interrupt_names u \<Longrightarrow>
    xtab.consistent t = xtab.consistent u"
  by (simp_all add: itab.consistent_def rtab.consistent_def xtab.consistent_def)

lemma isa_new_table:
  "\<exists>t :: 'z cpu_isa. isa_new = Inr t \<and> itab.consistent t \<and> rtab.consistent t \<and> xtab.consistent t \<and>
    instructions t = map_of base_instructions \<and> registers_map t = map_of base_registers \<and>
    interrupts_map t = map_of base_interrupts"
proof -
  let ?e = "isa_empty :: 'z cpu_isa"
  obtain r :: "'z cpu_isa" where
    r: "fold_attempt (\<lambda>t (c, n). add_register t c n) isa_empty base_registers = Inr r"
      "rtab.consistent r" "registers_map r = map_of base_registers"
    using rtab.add_list [of isa_empty base_registers]
    by (auto simp: base_distinct [unfolded comp_def] comp_def)
  have kr: "(instructions r, instruction_names r, interrupts_map r, interrupt_names r) =
      (instructions ?e, instruction_names ?e, interrupts_map ?e, interrupt_names ?e)"
    by (rule fold_attempt_keeps [OF _ r(1), of "\<lambda>t. (instructions t, instruction_names t,
        interrupts_map t, interrupt_names t)"]) (auto dest: add_register_keeps)
  then have "xtab.consistent r"
    using consistent_cong(3) [of r ?e] by simp
  then obtain x where
    x: "fold_attempt (\<lambda>t (c, i). add_interrupt t i) r base_interrupts = Inr x"
      "xtab.consistent x" "interrupts_map x = map_of base_interrupts"
    using xtab.add_list [of r base_interrupts] kr
    by (auto simp: base_distinct base_codes_agree)
  have kx: "(instructions x, instruction_names x, registers_map x, register_names x) =
      (instructions r, instruction_names r, registers_map r, register_names r)"
    by (rule fold_attempt_keeps [OF _ x(1), of "\<lambda>t. (instructions t, instruction_names t,
        registers_map t, register_names t)"]) (auto dest: add_interrupt_keeps)
  then have "itab.consistent x"
    using kr consistent_cong(1) [of x ?e] by simp
  then obtain t where
    t: "fold_attempt (\<lambda>t (c, i). add_instruction t i) x base_instructions = Inr t"
      "itab.consistent t" "instructions t = map_of base_instructions"
    using itab.add_list [of x base_instructions] kr kx
    by (auto simp: base_instructions_distinct base_codes_agree)
  have kt: "(interrupts_map t, interrupt_names t, registers_map t, register_names t) =
      (interrupts_map x, interrupt_names x, registers_map x, register_names x)"
    by (rule fold_attempt_keeps [OF _ t(1), of "\<lambda>t. (interrupts_map t, interrupt_names t,
        registers_map t, register_names t)"]) (auto dest: add_instruction_keeps)
  have "rtab.consistent t" "xtab.consistent t"
    using kt kx r(2) x(2) consistent_cong(2) [of t r] consistent_cong(3) [of t x] by simp_all
  with r x t kt kx show ?thesis
    by (auto simp: isa_new_def)
qed

lemma base_isa_facts:
  "isa_new = Inr (base_isa :: 'z cpu_isa)" "itab.consistent (base_isa :: 'z cpu_isa)"
  "rtab.consistent (base_isa :: 'z cpu_isa)" "xtab.consistent (base_isa :: 'z cpu_isa)"
  "instructions (base_isa :: 'z cpu_isa) = map_of base_instructions"
  "registers_map (base_isa :: 'z cpu_isa) = map_of base_registers"
  "interrupts_map (base_isa :: 'z cpu_isa) = map_of base_interrupts"
proof -
  obtain t :: "'z cpu_isa" where t: "isa_new = Inr t" "itab.consistent t" "rtab.consistent t"
    "xtab.consistent t" "instructions t = map_of base_instructions"
    "registers_map t = map_of base_registers" "interrupts_map t = map_of base_interrupts"
    using isa_new_table by blast
  have "t = base_isa"
    unfolding base_isa_def t(1) by simp
  with t show "isa_new = Inr (base_isa :: 'z cpu_isa)" "itab.consistent (base_isa :: 'z cpu_isa)"
    "rtab.consistent (base_isa :: 'z cpu_isa)" "xtab.consistent (base_isa :: 'z cpu_isa)"
    "instructions (base_isa :: 'z cpu_isa) = map_of base_instructions"
    "registers_map (base_isa :: 'z cpu_isa) = map_of base_registers"
    "interrupts_map (base_isa :: 'z cpu_isa) = map_of base_interrupts"
    by simp_all
qed

lemma distinct_all_bytes: "distinct all_bytes"
proof (rule card_distinct)
  show "card (set all_bytes) = length all_bytes"
    unfolding set_all_bytes by (simp add: all_bytes_def card_word)
qed

lemma length_map_of_codes:
  assumes "distinct (map fst xs)"
  shows "length (filter (\<lambda>i. map_of xs i \<noteq> None) all_bytes) = length xs"
proof -
  have "length (filter (\<lambda>i. map_of xs i \<noteq> None) all_bytes) =
      card (set (filter (\<lambda>i. map_of xs i \<noteq> None) all_bytes))"
    by (rule distinct_card [symmetric]) (simp add: distinct_all_bytes)
  also have "set (filter (\<lambda>i. map_of xs i \<noteq> None) all_bytes) = set (map fst xs)"
    by (auto simp: map_of_eq_None_iff)
  also have "card (set (map fst xs)) = length (map fst xs)"
    using assms by (rule distinct_card)
  finally show ?thesis by simp
qed

section \<open>The invariant of the base CPU\<close>

lemma base_operations_keep:
  assumes "\<And>code g1 g2. keeps X (fits R) (vinterrupt cls code g1 g2)"
    and "(c, info) \<in> set base_instructions"
  shows "keeps X (fits R) (inst_func info cls inst)"
proof -
  have "\<forall>(c, info)\<in>set base_instructions. keeps X (fits R) (inst_func info cls inst)"
    using assms(1)
    by (simp add: base_instructions_def base_entries_def sized_move_ops sized_branch_ops
        sized_function_ops sized_interrupt sized_arith_ops sized_division_ops)
  with assms(2) show ?thesis by blast
qed

interpretation base: cpu_machine "plain_cpu e base_isa" base_isa "\<lambda>_ _. False" "sized n k"
  for e n k
proof
  show "preserves (sized n k) (vinterrupt (plain_cpu e base_isa) code g1 g2)" for code g1 g2
    unfolding plain_cpu_def by (simp add: sized_cpu_interrupt)
  then show "preserves (sized n k) (inst_func info (plain_cpu e base_isa) inst)"
    if "instructions base_isa c = Some info" for c info inst
    by (rule base_operations_keep) (use that in \<open>auto simp: base_isa_facts dest: map_of_SomeD\<close>)
qed (simp_all add: sized_write_register sized_stop)

section \<open>Properties\<close>

lemma lookup_iffs:
  "get_instruction_info t c = Inr i \<longleftrightarrow> instructions t c = Some i"
  "get_instruction_code t n = Inr c \<longleftrightarrow> instruction_names t n = Some c"
  "get_register_name t c = Inr n \<longleftrightarrow> registers_map t c = Some n"
  "get_register_code t n = Inr c \<longleftrightarrow> register_names t n = Some c"
  "get_interrupt_info t c = Inr x \<longleftrightarrow> interrupts_map t c = Some x"
  "get_interrupt_code t n = Inr c \<longleftrightarrow> interrupt_names t n = Some c"
  by (simp_all add: get_instruction_info_def get_instruction_code_def get_register_name_def
      get_register_code_def get_interrupt_info_def get_interrupt_code_def split: option.splits)

text \<open>
  C19: the constructor of the instruction set never throws, and the tables it builds are
  consistent: for every name the table answers, the code leads back to an entry of that name,
  and every entry is found under its name, so that assembling and disassembling mnemonics,
  registers and interrupts are inverse to each other.
\<close>

theorem isa_tables_consistent:
  "\<exists>t :: 'z cpu_isa. isa_new = Inr t \<and>
    (\<forall>code info. get_instruction_info t code = Inr info \<longrightarrow>
       inst_code info = code \<and> get_instruction_code t (inst_name info) = Inr code) \<and>
    (\<forall>name code. get_instruction_code t name = Inr code \<longrightarrow>
       (\<exists>info. get_instruction_info t code = Inr info \<and> inst_name info = name)) \<and>
    (\<forall>code name. get_register_name t code = Inr name \<longleftrightarrow> get_register_code t name = Inr code) \<and>
    (\<forall>name code. get_interrupt_code t name = Inr code \<longleftrightarrow>
       (\<exists>info. get_interrupt_info t code = Inr info \<and> intr_name info = name)) \<and>
    length (instruction_codes t) = 78 \<and> length (register_codes t) = 16 \<and>
    length (interrupt_codes t) = 5"
proof -
  obtain t :: "'z cpu_isa" where t: "isa_new = Inr t" "itab.consistent t" "rtab.consistent t"
    "xtab.consistent t" "instructions t = map_of base_instructions"
    "registers_map t = map_of base_registers" "interrupts_map t = map_of base_interrupts"
    using isa_new_table by blast
  have "inst_code info = code" if "instructions t code = Some info" for code info
    using that t(5) by (auto dest: map_of_SomeD base_codes_agree)
  then have i: "\<forall>code info. get_instruction_info t code = Inr info \<longrightarrow>
      inst_code info = code \<and> get_instruction_code t (inst_name info) = Inr code"
    using itab.code_of_name [OF t(2)] unfolding lookup_iffs by blast
  have n: "\<forall>name code. get_instruction_code t name = Inr code \<longrightarrow>
      (\<exists>info. get_instruction_info t code = Inr info \<and> inst_name info = name)"
    using itab.name_of_code [OF t(2)] unfolding lookup_iffs by blast
  have r: "\<forall>code name. get_register_name t code = Inr name \<longleftrightarrow> get_register_code t name = Inr code"
    using rtab.name_of_code [OF t(3)] rtab.code_of_name [OF t(3)] unfolding lookup_iffs by blast
  have x: "\<forall>name code. get_interrupt_code t name = Inr code \<longleftrightarrow>
      (\<exists>info. get_interrupt_info t code = Inr info \<and> intr_name info = name)"
    using xtab.name_of_code [OF t(4)] xtab.code_of_name [OF t(4)] unfolding lookup_iffs by blast
  have "length (instruction_codes t) = length (base_instructions :: (uint8 \<times> 'z operation instruction_info) list)"
    "length (register_codes t) = length base_registers"
    "length (interrupt_codes t) = length base_interrupts"
    unfolding instruction_codes_def register_codes_def interrupt_codes_def t(5-7)
    by (rule length_map_of_codes, rule base_distinct base_instructions_distinct)+
  then have "length (instruction_codes t) = 78" "length (register_codes t) = 16"
    "length (interrupt_codes t) = 5"
    by (simp_all add: base_instructions_def base_entries_def base_registers_def base_interrupts_def)
  with t(1) i n r x show ?thesis by blast
qed

text \<open>The table at work: the mnemonic of the call instruction.\<close>

theorem isa_tables_consistent_witness:
  "get_instruction_code (base_isa :: unit cpu_isa) ''call'' = Inr 0x50"
proof -
  obtain t :: "unit cpu_isa" where t: "isa_new = Inr t"
    "\<forall>code info. get_instruction_info t code = Inr info \<longrightarrow>
       inst_code info = code \<and> get_instruction_code t (inst_name info) = Inr code"
    using isa_tables_consistent by blast
  have "t = base_isa"
    unfolding base_isa_def t(1) by simp
  moreover have "\<exists>info. get_instruction_info (base_isa :: unit cpu_isa) 0x50 = Inr info \<and>
      inst_name info = ''call''"
    by (simp add: get_instruction_info_def base_isa_facts base_instructions_def base_entries_def)
  ultimately show ?thesis
    using t(2) by metis
qed

end
