(* ===== verification/CPU_Errors.thy ===== *)
theory CPU_Errors
  imports ISA_Table
begin

text \<open>
  Which exceptions leave the operations and the instruction cycle of the base CPU.
\<close>

fun fault :: "exn \<Rightarrow> bool" where
  "fault (MemoryError _) = True"
| "fault UndefinedBehaviour = True"
| "fault _ = False"

section \<open>The accessors\<close>

lemma memory_faults:
  "get_word e m a b = Inl x \<Longrightarrow> fault x" "get_halfword e m a b = Inl x \<Longrightarrow> fault x"
  "get_quarterword m a = Inl x \<Longrightarrow> fault x" "set_word e m a w b = Inl x \<Longrightarrow> fault x"
  "set_halfword e m a h b = Inl x \<Longrightarrow> fault x" "set_quarterword m a q = Inl x \<Longrightarrow> fault x"
  by (auto simp: get_word_def get_halfword_def get_quarterword_def set_word_def set_halfword_def
      set_quarterword_def Let_def split: if_splits endian.splits)

lemma attempt_Inl_iff: "attempt r (\<lambda>m. Inr (f m)) = Inl x \<longleftrightarrow> r = Inl x"
  by (cases r) auto

lemma raises_registers [raise_intros]:
  "raises_only fault (read_register e r b)" "raises_only fault (write_register e r w b)"
  unfolding read_register_def write_register_def
  by (rule raises_reading raises_updating; auto simp: attempt_Inl_iff dest: memory_faults)+

lemma raises_select_register [raise_intros]: "raises_only fault (select_register e r)"
  unfolding select_register_def by (intro raise_intros)

lemma raises_reg [raise_intros]:
  "raises_only fault (get_reg e r b)" "raises_only fault (set_reg e r w b)"
  unfolding get_reg_def set_reg_def by (intro raise_intros)+

lemma raises_mem [raise_intros]:
  "raises_only fault (get_mem e a b)" "raises_only fault (get_halfmem e a b)"
  "raises_only fault (get_quartermem a)" "raises_only fault (set_mem e a w b)"
  "raises_only fault (set_halfmem e a h b)" "raises_only fault (set_quartermem a q)"
  unfolding get_mem_def get_halfmem_def get_quartermem_def set_mem_def set_halfmem_def
    set_quartermem_def
  by (rule raises_reading raises_updating; auto simp: attempt_Inl_iff dest: memory_faults)+

lemma raises_helpers [raise_intros]:
  "raises_only fault (save_globals e regs sp)" "raises_only fault (save_locals e regs sp)"
  "raises_only fault (advance_pc e)" "raises_only fault (interrupt_enabled e code)"
  unfolding save_globals_def save_locals_def advance_pc_def interrupt_enabled_def
  by (intro raise_intros)+

lemma raises_cpu_interrupt:
  assumes "get_interrupt_info isa code = Inr info"
  shows "raises_only fault (cpu_interrupt e isa code g1 g2)"
  unfolding cpu_interrupt_def by (intro raise_intros raises_reading) (simp add: assms)

section \<open>The operations\<close>

lemma raises_move_ops [raise_intros]:
  "raises_only fault (stop cls inst)" "raises_only fault (restart cls inst)"
  "raises_only fault (move cls inst)" "raises_only fault (swap cls inst)"
  "raises_only fault (load cls inst)" "raises_only fault (loadrr cls inst)"
  "raises_only fault (loadri cls inst)" "raises_only fault (loadh cls inst)"
  "raises_only fault (loadhrr cls inst)" "raises_only fault (loadhri cls inst)"
  "raises_only fault (loadq cls inst)" "raises_only fault (loadqrr cls inst)"
  "raises_only fault (loadqri cls inst)" "raises_only fault (loadi cls inst)"
  "raises_only fault (loadhi cls inst)" "raises_only fault (loada cls inst)"
  "raises_only fault (store cls inst)" "raises_only fault (storerr cls inst)"
  "raises_only fault (storeri cls inst)" "raises_only fault (storeh cls inst)"
  "raises_only fault (storehrr cls inst)" "raises_only fault (storehri cls inst)"
  "raises_only fault (storeq cls inst)" "raises_only fault (storeqrr cls inst)"
  "raises_only fault (storeqri cls inst)" "raises_only fault (push cls inst)"
  "raises_only fault (pop cls inst)"
  unfolding move_ops by (intro raise_intros)+

lemma raises_branch_ops [raise_intros]:
  "raises_only fault (b_op cls inst)" "raises_only fault (bz cls inst)"
  "raises_only fault (bnz cls inst)" "raises_only fault (beq cls inst)"
  "raises_only fault (bne cls inst)" "raises_only fault (blt cls inst)"
  "raises_only fault (bltu cls inst)" "raises_only fault (bgt cls inst)"
  "raises_only fault (bgtu cls inst)" "raises_only fault (ble cls inst)"
  "raises_only fault (bleu cls inst)" "raises_only fault (bge cls inst)"
  "raises_only fault (bgeu cls inst)"
  unfolding branch_ops by (intro raise_intros)+

lemma raises_frames [raise_intros]:
  "raises_only fault (push_locals cls)" "raises_only fault (pop_locals cls)"
  "raises_only fault (pop_globals cls)"
  unfolding push_locals_def pop_locals_def pop_globals_def restore_def by (intro raise_intros)+

lemma raises_windows [raise_intros]:
  "raises_only fault (increase_window cls)" "raises_only fault (decrease_window cls)"
  unfolding increase_window_def decrease_window_def by (intro raise_intros)+

lemma raises_function_ops [raise_intros]:
  "raises_only fault (call cls inst)" "raises_only fault (callr cls inst)"
  "raises_only fault (ret_op cls inst)" "raises_only fault (reti cls inst)"
  unfolding call_def callr_def ret_op_def reti_def by (intro raise_intros)+

lemma raises_set_shifted [raise_intros]: "raises_only fault (set_shifted cls r v)"
  unfolding set_shifted_def by (cases v) (auto intro: raise_intros raises_throw)

lemma raises_signs [raise_intros]:
  "raises_only fault (signh cls inst)" "raises_only fault (signq cls inst)"
  unfolding signh_def signq_def
  by (intro raise_intros raises_reading; simp add: signh_value signq_value)+

lemma raises_arith_ops [raise_intros]:
  "raises_only fault (add cls inst)" "raises_only fault (addi cls inst)"
  "raises_only fault (sub cls inst)" "raises_only fault (subi cls inst)"
  "raises_only fault (mult cls inst)" "raises_only fault (multi cls inst)"
  "raises_only fault (multh cls inst)" "raises_only fault (multhi cls inst)"
  "raises_only fault (multhu cls inst)" "raises_only fault (multhui cls inst)"
  "raises_only fault (lnot cls inst)" "raises_only fault (lor cls inst)"
  "raises_only fault (lori cls inst)" "raises_only fault (land cls inst)"
  "raises_only fault (landi cls inst)" "raises_only fault (lxor cls inst)"
  "raises_only fault (lxori cls inst)" "raises_only fault (sll cls inst)"
  "raises_only fault (slli cls inst)" "raises_only fault (srl cls inst)"
  "raises_only fault (srli cls inst)" "raises_only fault (sra cls inst)"
  "raises_only fault (srai cls inst)" "raises_only fault (rl cls inst)"
  "raises_only fault (rli cls inst)" "raises_only fault (rr cls inst)"
  "raises_only fault (rri cls inst)"
  unfolding arith_ops
  by (intro raise_intros; auto split: option.split intro!: raise_intros raises_throw)+

lemma raises_interrupting_ops:
  assumes "\<And>g1 g2. raises_only fault (vinterrupt cls INTERRUPT_DIVISION g1 g2)"
    and "\<And>g1 g2. raises_only fault (vinterrupt cls INTERRUPT_SOFTWARE g1 g2)"
  shows "raises_only fault (div_op cls inst)" "raises_only fault (divi cls inst)"
    "raises_only fault (mod_op cls inst)" "raises_only fault (modi cls inst)"
    "raises_only fault (interrupt cls inst)"
  unfolding div_op_def divi_def mod_op_def modi_def interrupt_def Let_def
  by (intro raise_intros assms)+

section \<open>The instruction cycle\<close>

lemma base_operations_raise:
  assumes "\<And>g1 g2. raises_only fault (vinterrupt cls INTERRUPT_DIVISION g1 g2)"
    and "\<And>g1 g2. raises_only fault (vinterrupt cls INTERRUPT_SOFTWARE g1 g2)"
    and "(c, info) \<in> set base_instructions"
  shows "raises_only fault (inst_func info cls inst)"
proof -
  have "\<forall>(c, info)\<in>set base_instructions. raises_only fault (inst_func info cls inst)"
    using assms(1,2)
    by (simp add: base_instructions_def base_entries_def raises_move_ops raises_branch_ops
        raises_function_ops raises_interrupting_ops raises_arith_ops raises_signs)
  with assms(3) show ?thesis by blast
qed

lemma base_interrupt_exists:
  "code < 5 \<Longrightarrow> \<exists>info. get_interrupt_info (base_isa :: 'z cpu_isa) code = Inr info"
proof -
  assume "code < 5"
  then have "unat code \<in> {0, 1, 2, 3, 4}"
    by (auto simp: word_less_nat_alt)
  then have "code \<in> {0, 1, 2, 3, 4}"
    by (auto simp: word_unat_eq_iff)
  then show ?thesis
    by (auto simp: get_interrupt_info_def base_isa_facts base_interrupts_def)
qed

lemma base_interrupt_raises:
  "code < 5 \<Longrightarrow> raises_only fault (vinterrupt (plain_cpu e base_isa) code g1 g2)"
  using base_interrupt_exists [of code] raises_cpu_interrupt
  by (fastforce simp: plain_cpu_def)

lemma raises_fetch: "raises_only fault (fetch_instruction e i)"
proof -
  have "\<exists>inst. decode e i w = Inr inst" for w
    using decode_host_word [of "host_bytes e w" e i] by simp
  then show ?thesis
    unfolding fetch_instruction_def
    by (intro raise_intros raises_reading) (metis sum.distinct(1))
qed

lemma raises_faults:
  "raises_only fault (memory_fault (plain_cpu e base_isa) a)"
  "raises_only fault (code_fault (plain_cpu e base_isa) inst)"
  unfolding memory_fault_def code_fault_def
  by (intro raise_intros base_interrupt_raises; simp)+

lemma raises_execute_instruction:
  "raises_only (\<lambda>x. fault x \<or> x = CodeError) (execute_instruction (plain_cpu e base_isa) (base_isa :: 'z cpu_isa) inst)"
  unfolding raises_only_def
proof (intro allI impI)
  fix s x s'
  let ?isa = "base_isa :: 'z cpu_isa"
  let ?cls = "plain_cpu e ?isa"
  assume run: "execute_instruction ?cls ?isa inst s = (Inl x, s')"
  show "fault x \<or> x = CodeError"
  proof (cases "instructions ?isa (i_code inst)")
    case None
    with run show ?thesis
      by (auto simp: execute_instruction_def get_instruction_info_def)
  next
    case (Some info)
    then have "(i_code inst, info) \<in> set base_instructions"
      by (simp add: base_isa_facts map_of_SomeD)
    then have "raises_only fault (inst_func info ?cls inst)"
      by (rule base_operations_raise [rotated 2]) (rule base_interrupt_raises, simp)+
    then have "raises_only fault (andthen (inst_func info ?cls inst) (\<lambda>u. case u of
        UpdatePC \<Rightarrow> advance_pc (host ?cls) | UpdateInterrupt \<Rightarrow> ret ()
      | UpdateStop \<Rightarrow> updating (\<lambda>c. Inr (c\<lparr>cpu_running := False\<rparr>)) | UpdateNone \<Rightarrow> ret ()))"
      by (intro raises_andthen)
        (auto split: update.split intro: raise_intros raises_updating)
    moreover have "execute_instruction ?cls ?isa inst s =
        andthen (inst_func info ?cls inst) (\<lambda>u. case u of
        UpdatePC \<Rightarrow> advance_pc (host ?cls) | UpdateInterrupt \<Rightarrow> ret ()
      | UpdateStop \<Rightarrow> updating (\<lambda>c. Inr (c\<lparr>cpu_running := False\<rparr>)) | UpdateNone \<Rightarrow> ret ()) s"
      by (simp add: execute_instruction_def get_instruction_info_def Some)
    ultimately show ?thesis
      using run by (metis raises_onlyD)
  qed
qed

lemma raises_next:
  fixes c :: "'z cpu_state_scheme"
  assumes "cpu_running c" and "cpu_next (plain_cpu e base_isa) base_isa c = (Inl x, d)"
  shows "fault x"
proof -
  let ?isa = "base_isa :: 'z cpu_isa"
  let ?cls = "plain_cpu e ?isa"
  let ?fetch = "try_catch
      (andthen (fetch_instruction (host ?cls) uninitialised) (\<lambda>inst. ret (Some inst)))
      (\<lambda>x. case x of MemoryError a \<Rightarrow> Some (andthen (memory_fault ?cls a) (\<lambda>_. ret None)) | _ \<Rightarrow> None)"
  let ?run = "\<lambda>inst. try_catch (execute_instruction ?cls ?isa inst)
      (\<lambda>x. case x of CodeError \<Rightarrow> Some (code_fault ?cls inst)
         | MemoryError a \<Rightarrow> Some (memory_fault ?cls a) | _ \<Rightarrow> None)"
  have fetch: "raises_only fault ?fetch"
    by (rule raises_try_catch [where F = fault])
      (auto intro: raise_intros raises_fetch raises_faults split: exn.splits)
  have run: "raises_only fault (?run inst)" for inst
    by (rule raises_try_catch [OF raises_execute_instruction])
      (auto intro: raise_intros raises_fetch raises_faults split: exn.splits)
  have all: "raises_only fault (andthen ?fetch
      (\<lambda>fetched. case fetched of None \<Rightarrow> ret () | Some inst \<Rightarrow> ?run inst))"
    by (intro raises_andthen fetch) (auto split: option.split intro: raise_intros run)
  have step: "cpu_next ?cls ?isa c = andthen ?fetch
      (\<lambda>fetched. case fetched of None \<Rightarrow> ret () | Some inst \<Rightarrow> ?run inst) c"
    unfolding cpu_next_def
    by (subst andthen_apply)
      (simp only: reading_apply assms(1) prod.case sum.case not_True_eq_False if_False)
  show ?thesis
    by (rule raises_onlyD [OF all]) (rule trans [OF step [symmetric] assms(2)])
qed

lemma next_stopped: "\<not> cpu_running c \<Longrightarrow> cpu_next cls isa c = (Inl CPUException, c)"
  by (simp add: cpu_next_def)

section \<open>One step of the cycle\<close>

lemma fetch_run:
  assumes "wf_cpu c" and "unat (reg c REGISTER_PC) + 4 \<le> msize c"
  shows "fetch_instruction e i0 c =
    (Inr (bytes_inst (chunk (mem_bytes (cpu_memory c)) (unat (reg c REGISTER_PC)) 4)), c)"
proof -
  have "length (chunk (mem_bytes (cpu_memory c)) (unat (reg c REGISTER_PC)) 4) = 4"
    using assms by (simp add: wf_cpu_def wf_memory_def msize_def)
  with assms show ?thesis
    by (simp add: fetch_instruction_def get_mem_raw_run decode_host_word)
qed

text \<open>The instruction at the program counter.\<close>

definition at_pc :: "'z cpu_state_scheme \<Rightarrow> instruction \<Rightarrow> bool" where
  "at_pc c i \<longleftrightarrow> unat (reg c REGISTER_PC) + 4 \<le> msize c \<and>
     chunk (mem_bytes (cpu_memory c)) (unat (reg c REGISTER_PC)) 4 = inst_bytes i"

lemma next_fetched:
  assumes "wf_cpu c" and "cpu_running c" and "at_pc c i"
  shows "cpu_next cls isa c = try_catch (execute_instruction cls isa i)
    (\<lambda>x. case x of CodeError \<Rightarrow> Some (code_fault cls i)
       | MemoryError a \<Rightarrow> Some (memory_fault cls a) | _ \<Rightarrow> None) c"
  using assms by (simp add: cpu_next_def fetch_run at_pc_def)

lemma next_unmapped:
  assumes "wf_cpu c" and "cpu_running c" and "\<not> unat (reg c REGISTER_PC) + 4 \<le> msize c"
  shows "cpu_next cls isa c = vinterrupt cls INTERRUPT_MEMORY (reg c REGISTER_PC) (reg c REGISTER_PC) c"
proof -
  have "fetch_instruction (host cls) uninitialised c = (Inl (MemoryError (reg c REGISTER_PC)), c)"
    using assms(1,3) by (simp add: fetch_instruction_def get_mem_raw_run)
  with assms show ?thesis
    by (simp add: cpu_next_def memory_fault_def split: prod.split sum.split)
qed

end
