(* ===== verification/Movement.thy ===== *)
theory Movement
  imports Prelude
begin

text \<open>
  \<open>simpleworld/types.hpp\<close> (positions and the enumerations of the world) and
  \<open>simpleworld/movement.cpp\<close> (turning, and moving on a torus).  The enumerations are C++
  \<open>enum\<close>s whose values may come from anywhere, so they are their 32-bit values.
\<close>

section \<open>Types of the world\<close>

type_synonym coord = uint16

record position =
  pos_x :: coord
  pos_y :: coord

type_synonym orientation = uint32

abbreviation OrientationNorth :: orientation where "OrientationNorth \<equiv> 0"
abbreviation OrientationEast :: orientation where "OrientationEast \<equiv> 1"
abbreviation OrientationSouth :: orientation where "OrientationSouth \<equiv> 2"
abbreviation OrientationWest :: orientation where "OrientationWest \<equiv> 3"

type_synonym turn_side = uint32

abbreviation TurnLeft :: turn_side where "TurnLeft \<equiv> 0"
abbreviation TurnRight :: turn_side where "TurnRight \<equiv> 1"

type_synonym movement = uint32

abbreviation MoveForward :: movement where "MoveForward \<equiv> 0"
abbreviation MoveBackward :: movement where "MoveBackward \<equiv> 1"

section \<open>Turning\<close>

definition valid_orientation :: "orientation \<Rightarrow> bool" where
  "valid_orientation orientation \<longleftrightarrow>
     \<not> (orientation \<noteq> OrientationNorth \<and> orientation \<noteq> OrientationEast \<and>
        orientation \<noteq> OrientationSouth \<and> orientation \<noteq> OrientationWest)"

definition turn :: "orientation \<Rightarrow> turn_side \<Rightarrow> exn + orientation" where
  "turn orientation side =
     (if \<not> valid_orientation orientation then Inl WorldError
      else if side \<noteq> TurnLeft \<and> side \<noteq> TurnRight then Inl WorldError
      else if side = TurnLeft then Inr (word_of_int (\<bar>sint orientation + 3\<bar> mod 4))
      else Inr (word_of_int (\<bar>sint orientation + 5\<bar> mod 4)))"

section \<open>Moving\<close>

definition opposite :: "movement \<Rightarrow> movement" where
  "opposite movement = (if movement = MoveForward then MoveBackward else MoveForward)"

text \<open>
  \<open>(coord + delta + limit) % limit\<close> on \<open>int\<close>s, converted back to a \<open>Coord\<close>; a division by zero has no
  meaning.
\<close>

definition wrap_coord :: "coord \<Rightarrow> int \<Rightarrow> coord \<Rightarrow> exn + coord" where
  "wrap_coord c delta limit =
     (if limit = 0 then Inl UndefinedBehaviour
      else Inr (word_of_int ((uint c + delta + uint limit) mod uint limit)))"

text \<open>The cases of the \<open>switch\<close> fall through: south is north, and west is east, backwards.\<close>

definition move_position ::
    "position \<Rightarrow> orientation \<Rightarrow> movement \<Rightarrow> position \<Rightarrow> exn + position" where
  "move_position position orientation movement limit =
     (if \<not> valid_orientation orientation then Inl WorldError
      else if movement \<noteq> MoveForward \<and> movement \<noteq> MoveBackward then Inl WorldError
      else if orientation = OrientationSouth \<or> orientation = OrientationNorth
      then let movement = (if orientation = OrientationSouth then opposite movement else movement)
           in attempt (wrap_coord (pos_x position) (if movement = MoveForward then - 1 else 1) (pos_x limit))
                (\<lambda>x. Inr (position\<lparr>pos_x := x\<rparr>))
      else let movement = (if orientation = OrientationWest then opposite movement else movement)
           in attempt (wrap_coord (pos_y position) (if movement = MoveForward then 1 else - 1) (pos_y limit))
                (\<lambda>y. Inr (position\<lparr>pos_y := y\<rparr>)))"

section \<open>Facts\<close>

lemma valid_orientation_iff: "valid_orientation ori \<longleftrightarrow> ori \<in> {0, 1, 2, 3}"
  by (auto simp: valid_orientation_def)

lemma turn_valid: "turn ori s = Inr r \<Longrightarrow> valid_orientation ori \<and> valid_orientation r"
  by (auto simp: turn_def valid_orientation_iff split: if_splits)

definition in_world :: "position \<Rightarrow> position \<Rightarrow> bool" where
  "in_world limit p \<longleftrightarrow> pos_x p < pos_x limit \<and> pos_y p < pos_y limit"

lemma in_world_pos: "in_world limit p \<Longrightarrow> pos_x limit \<noteq> 0 \<and> pos_y limit \<noteq> 0"
  by (auto simp: in_world_def)

lemma uint_of_mod:
  assumes "(m :: coord) \<noteq> 0"
  shows "uint (word_of_int (a mod uint m) :: coord) = a mod uint m"
proof -
  have "0 < uint m"
    using assms by (simp add: word_neq_0_conv word_less_def)
  then have "0 \<le> a mod uint m" "a mod uint m < uint m"
    by simp_all
  moreover have "uint m < 65536"
    using unsigned_less [of m, where ?'a = int] by simp
  ultimately show ?thesis
    by (simp add: unsigned_of_int take_bit_int_eq_self_iff)
qed

lemma wrap_coord_run:
  assumes "limit \<noteq> 0"
  shows "\<exists>c'. wrap_coord c d limit = Inr c' \<and> uint c' = (uint c + d) mod uint limit \<and> c' < limit"
proof -
  have "0 < uint limit"
    using assms by (simp add: word_neq_0_conv word_less_def)
  then show ?thesis
    using assms uint_of_mod [OF assms, of "uint c + d + uint limit"]
    by (simp add: wrap_coord_def word_less_def)
qed

lemma wrap_coord_back:
  assumes "c < limit" and "wrap_coord c d limit = Inr c'"
  shows "wrap_coord c' (- d) limit = Inr c"
proof -
  have limit: "limit \<noteq> 0"
    using assms(1) by auto
  obtain c'' where c'': "wrap_coord c' (- d) limit = Inr c''" "uint c'' = (uint c' - d) mod uint limit"
    using wrap_coord_run [OF limit, of c' "- d"] by auto
  have "uint c' = (uint c + d) mod uint limit"
    using wrap_coord_run [OF limit, of c d] assms(2) by auto
  then have "uint c'' = uint c mod uint limit"
    using c''(2) by (simp add: mod_diff_left_eq)
  also have "\<dots> = uint c"
    using assms(1) by (simp add: word_less_def)
  finally show ?thesis
    using c''(1) by (simp add: word_uint_eq_iff)
qed

definition north_south :: "orientation \<Rightarrow> movement \<Rightarrow> int" where
  "north_south ori m = (if (ori = OrientationNorth) = (m = MoveForward) then - 1 else 1)"

definition east_west :: "orientation \<Rightarrow> movement \<Rightarrow> int" where
  "east_west ori m = (if (ori = OrientationEast) = (m = MoveForward) then 1 else - 1)"

lemma opposite_steps [simp]:
  "m = MoveForward \<or> m = MoveBackward \<Longrightarrow> north_south ori (opposite m) = - north_south ori m"
  "m = MoveForward \<or> m = MoveBackward \<Longrightarrow> east_west ori (opposite m) = - east_west ori m"
  "opposite m = MoveForward \<or> opposite m = MoveBackward"
  by (auto simp: opposite_def north_south_def east_west_def)

lemma move_north_south:
  "ori = OrientationNorth \<or> ori = OrientationSouth \<Longrightarrow> m = MoveForward \<or> m = MoveBackward \<Longrightarrow>
    move_position p ori m limit =
      attempt (wrap_coord (pos_x p) (north_south ori m) (pos_x limit)) (\<lambda>x. Inr (p\<lparr>pos_x := x\<rparr>))"
  by (elim disjE; simp add: move_position_def valid_orientation_def opposite_def north_south_def)

lemma move_east_west:
  "ori = OrientationEast \<or> ori = OrientationWest \<Longrightarrow> m = MoveForward \<or> m = MoveBackward \<Longrightarrow>
    move_position p ori m limit =
      attempt (wrap_coord (pos_y p) (east_west ori m) (pos_y limit)) (\<lambda>y. Inr (p\<lparr>pos_y := y\<rparr>))"
  by (elim disjE; simp add: move_position_def valid_orientation_def opposite_def east_west_def)

section \<open>Properties\<close>

text \<open>
  Turning is a four-cycle: left and right are inverse to each other, four turns to the
  same side and two turns to the left followed by two to the right come back, two turns give
  the opposite orientation, and an invalid orientation or side throws a \<open>WorldError\<close>.
\<close>

theorem turn_four_cycle:
  "(valid_orientation ori \<longrightarrow>
     (\<exists>l r b. turn ori TurnLeft = Inr l \<and> turn ori TurnRight = Inr r \<and>
        turn l TurnRight = Inr ori \<and> turn r TurnLeft = Inr ori \<and>
        turn l TurnLeft = Inr b \<and> turn r TurnRight = Inr b \<and>
        {ori, l, r, b} = {OrientationNorth, OrientationEast, OrientationSouth, OrientationWest})) \<and>
   ((\<exists>x. turn ori s = Inl x) \<longleftrightarrow> \<not> valid_orientation ori \<or> s \<notin> {TurnLeft, TurnRight}) \<and>
   (\<forall>x. turn ori s = Inl x \<longrightarrow> x = WorldError)"
proof (intro conjI impI)
  assume "valid_orientation ori"
  then have "ori \<in> {0, 1, 2, 3}"
    by (simp add: valid_orientation_iff)
  then show "\<exists>l r b. turn ori TurnLeft = Inr l \<and> turn ori TurnRight = Inr r \<and>
      turn l TurnRight = Inr ori \<and> turn r TurnLeft = Inr ori \<and>
      turn l TurnLeft = Inr b \<and> turn r TurnRight = Inr b \<and>
      {ori, l, r, b} = {OrientationNorth, OrientationEast, OrientationSouth, OrientationWest}"
    by (auto simp: turn_def valid_orientation_iff)
qed (auto simp: turn_def valid_orientation_iff split: if_splits)

theorem turn_four_cycle_witness:
  "\<exists>l. turn OrientationNorth TurnLeft = Inr l \<and> turn l TurnRight = Inr OrientationNorth"
  using turn_four_cycle [of OrientationNorth TurnLeft] by (auto simp: valid_orientation_iff)

text \<open>
  From a position inside the world a step stays inside, changes exactly the coordinate of
  the axis by one on the torus, and the opposite step leads back.
\<close>

theorem move_on_torus:
  assumes "in_world limit p" and "valid_orientation ori" and "m = MoveForward \<or> m = MoveBackward"
  shows "\<exists>q. move_position p ori m limit = Inr q \<and> in_world limit q \<and>
    move_position q ori (opposite m) limit = Inr p \<and>
    (ori \<in> {OrientationNorth, OrientationSouth} \<longrightarrow> pos_y q = pos_y p \<and>
      uint (pos_x q) = (uint (pos_x p) + north_south ori m) mod uint (pos_x limit)) \<and>
    (ori \<in> {OrientationEast, OrientationWest} \<longrightarrow> pos_x q = pos_x p \<and>
      uint (pos_y q) = (uint (pos_y p) + east_west ori m) mod uint (pos_y limit))"
proof (cases "ori = OrientationNorth \<or> ori = OrientationSouth")
  case True
  obtain x where x: "wrap_coord (pos_x p) (north_south ori m) (pos_x limit) = Inr x"
    "uint x = (uint (pos_x p) + north_south ori m) mod uint (pos_x limit)" "x < pos_x limit"
    using wrap_coord_run in_world_pos [OF assms(1)] by blast
  have "wrap_coord x (- north_south ori m) (pos_x limit) = Inr (pos_x p)"
    by (rule wrap_coord_back [OF _ x(1)]) (use assms(1) in \<open>simp add: in_world_def\<close>)
  then have "move_position (p\<lparr>pos_x := x\<rparr>) ori (opposite m) limit = Inr p"
    using True assms(3) by (simp add: move_north_south)
  moreover have "move_position p ori m limit = Inr (p\<lparr>pos_x := x\<rparr>)"
    using True assms(3) x(1) by (simp add: move_north_south)
  ultimately show ?thesis
    using True x assms(1) by (intro exI [of _ "p\<lparr>pos_x := x\<rparr>"]) (auto simp: in_world_def)
next
  case False
  with assms(2) have ew: "ori = OrientationEast \<or> ori = OrientationWest"
    by (auto simp: valid_orientation_def)
  obtain y where y: "wrap_coord (pos_y p) (east_west ori m) (pos_y limit) = Inr y"
    "uint y = (uint (pos_y p) + east_west ori m) mod uint (pos_y limit)" "y < pos_y limit"
    using wrap_coord_run in_world_pos [OF assms(1)] by blast
  have "wrap_coord y (- east_west ori m) (pos_y limit) = Inr (pos_y p)"
    by (rule wrap_coord_back [OF _ y(1)]) (use assms(1) in \<open>simp add: in_world_def\<close>)
  then have "move_position (p\<lparr>pos_y := y\<rparr>) ori (opposite m) limit = Inr p"
    using ew assms(3) by (simp add: move_east_west)
  moreover have "move_position p ori m limit = Inr (p\<lparr>pos_y := y\<rparr>)"
    using ew assms(3) y(1) by (simp add: move_east_west)
  ultimately show ?thesis
    using ew y assms(1) by (intro exI [of _ "p\<lparr>pos_y := y\<rparr>"]) (auto simp: in_world_def)
qed

theorem move_on_torus_witness:
  "\<exists>q. move_position \<lparr>pos_x = 0, pos_y = 3\<rparr> OrientationNorth MoveForward \<lparr>pos_x = 5, pos_y = 5\<rparr> = Inr q \<and>
    uint (pos_x q) = 4 \<and> pos_y q = 3"
  using move_on_torus [of "\<lparr>pos_x = 5, pos_y = 5\<rparr>" "\<lparr>pos_x = 0, pos_y = 3\<rparr>" OrientationNorth MoveForward]
  by (auto simp: in_world_def valid_orientation_iff north_south_def)

end
