(* ===== verification/Random_Numbers.thy ===== *)
theory Random_Numbers
  imports Prelude
begin

text \<open>
  \<open>std::rand()\<close>: a stream of numbers up to \<open>rand_max\<close>; the state of the generator is the index of
  the next number.  \<open>n * (std::rand() / (RAND_MAX + 1.0))\<close>, truncated, is exact for the ranges of
  the program, at most 16 bits wide, where \<open>RAND_MAX + 1\<close> is a power of two below \<open>2^37\<close>.
\<close>

definition scaled :: "nat \<Rightarrow> nat \<Rightarrow> nat \<Rightarrow> nat" where
  "scaled rand_max n r = n * r div (rand_max + 1)"

text \<open>\<open>randint\<close> of \<open>mutation.cpp\<close>: an integer from \<open>lo\<close> up to \<open>hi\<close>, \<open>hi\<close> excluded.\<close>

definition randint :: "nat \<Rightarrow> (nat \<Rightarrow> nat) \<Rightarrow> nat \<Rightarrow> nat \<Rightarrow> (nat, nat) prog" where
  "randint rand_max rand lo hi = (\<lambda>i. (Inr (lo + scaled rand_max (hi - lo) (rand i)), i + 1))"

lemma scaled_less:
  assumes "r \<le> rand_max" and "0 < n"
  shows "scaled rand_max n r < n"
proof -
  have "n * r < n * (rand_max + 1)"
    unfolding mult_less_cancel1 using assms by simp
  then show ?thesis
    unfolding scaled_def by (rule less_mult_imp_div_less)
qed

lemma randint_range:
  assumes "\<forall>i. rand i \<le> rand_max" and "lo < hi"
  shows "\<exists>k. randint rand_max rand lo hi i = (Inr k, i + 1) \<and> lo \<le> k \<and> k < hi"
  using assms scaled_less [of "rand i" rand_max "hi - lo"] by (auto simp: randint_def)

end
