(* ===== verification/World.thy ===== *)
theory World
  imports Movement Random_Numbers
begin

text \<open>
  \<open>simpleworld/element.cpp\<close> and \<open>simpleworld/world.cpp\<close>: the grid of the world, with one
  optional element in every cell and a 16-bit counter of the elements.  An \<open>Element*\<close> is an
  option whose element carries the identity of the object it points to.
\<close>

section \<open>Elements\<close>

type_synonym element_type = uint32

abbreviation ElementNothing :: element_type where "ElementNothing \<equiv> 0"
abbreviation ElementEgg :: element_type where "ElementEgg \<equiv> 1"
abbreviation ElementBug :: element_type where "ElementBug \<equiv> 2"
abbreviation ElementFood :: element_type where "ElementFood \<equiv> 3"

record element =
  elem_id :: nat
  elem_type :: element_type
  elem_movable :: bool

definition element_new :: "nat \<Rightarrow> element_type \<Rightarrow> element" where
  "element_new ptr type = \<lparr>elem_id = ptr, elem_type = type, elem_movable = (type = ElementBug)\<rparr>"

section \<open>The grid\<close>

record world =
  w_size :: position
  w_elements :: uint16
  w_terrain :: "coord \<Rightarrow> coord \<Rightarrow> element option"

definition world_new :: "position \<Rightarrow> world" where
  "world_new dims = \<lparr>w_size = dims, w_elements = 0, w_terrain = (\<lambda>_ _. None)\<rparr>"

text \<open>The macros \<open>CHECK_OUTOFRANGE\<close>, \<open>CHECK_USED\<close> and \<open>CHECK_NOTUSED\<close>.\<close>

definition check_range :: "world \<Rightarrow> position \<Rightarrow> exn + unit" where
  "check_range w p =
     (if pos_x p \<ge> pos_x (w_size w) \<or> pos_y p \<ge> pos_y (w_size w) then Inl WorldError else Inr ())"

definition check_used :: "world \<Rightarrow> position \<Rightarrow> exn + unit" where
  "check_used w p = (if w_terrain w (pos_x p) (pos_y p) \<noteq> None then Inl WorldError else Inr ())"

definition check_notused :: "world \<Rightarrow> position \<Rightarrow> exn + unit" where
  "check_notused w p = (if w_terrain w (pos_x p) (pos_y p) = None then Inl WorldError else Inr ())"

definition put_cell :: "world \<Rightarrow> position \<Rightarrow> element option \<Rightarrow> world" where
  "put_cell w p e = w\<lparr>w_terrain := (w_terrain w)
     (pos_x p := (w_terrain w (pos_x p))(pos_y p := e))\<rparr>"

text \<open>
  The cells of a region, in the order of the two loops; an index outside the array has no
  meaning.
\<close>

definition region :: "position \<Rightarrow> position \<Rightarrow> (coord \<times> coord) list" where
  "region lo hi = List.product
     (map of_nat [unat (pos_x lo)..<unat (pos_x hi)])
     (map of_nat [unat (pos_y lo)..<unat (pos_y hi)])"

definition count_cells :: "world \<Rightarrow> (element \<Rightarrow> bool) \<Rightarrow> (coord \<times> coord) list \<Rightarrow> exn + uint16" where
  "count_cells w counted cells =
     fold_attempt (\<lambda>count (x, y).
         if x \<ge> pos_x (w_size w) \<or> y \<ge> pos_y (w_size w) then Inl UndefinedBehaviour
         else case w_terrain w x y of
                None \<Rightarrow> Inr count
              | Some e \<Rightarrow> Inr (if counted e then count + 1 else count)) 0 cells"

definition num_elements :: "world \<Rightarrow> position \<Rightarrow> position \<Rightarrow> exn + uint16" where
  "num_elements w lo hi = count_cells w (\<lambda>_. True) (region lo hi)"

definition num_elements_type ::
    "world \<Rightarrow> position \<Rightarrow> position \<Rightarrow> element_type \<Rightarrow> exn + uint16" where
  "num_elements_type w lo hi type =
     count_cells w (\<lambda>e. elem_type e = type) (region lo hi)"

section \<open>Updates and look-ups\<close>

definition world_add :: "world \<Rightarrow> element option \<Rightarrow> position \<Rightarrow> exn + world" where
  "world_add w e p =
     attempt (check_range w p) (\<lambda>_.
     attempt (check_used w p) (\<lambda>_.
     Inr (put_cell (if e \<noteq> None then w\<lparr>w_elements := w_elements w + 1\<rparr> else w) p e)))"

definition world_remove :: "world \<Rightarrow> position \<Rightarrow> exn + world" where
  "world_remove w p =
     attempt (check_range w p) (\<lambda>_.
     attempt (check_notused w p) (\<lambda>_.
     Inr (put_cell (w\<lparr>w_elements := w_elements w - 1\<rparr>) p None)))"

definition world_used :: "world \<Rightarrow> position \<Rightarrow> exn + bool" where
  "world_used w p =
     attempt (check_range w p) (\<lambda>_. Inr (w_terrain w (pos_x p) (pos_y p) \<noteq> None))"

definition world_get :: "world \<Rightarrow> position \<Rightarrow> exn + element" where
  "world_get w p =
     attempt (check_range w p) (\<lambda>_.
     attempt (check_notused w p) (\<lambda>_. Inr (the (w_terrain w (pos_x p) (pos_y p)))))"

definition world_move :: "world \<Rightarrow> position \<Rightarrow> position \<Rightarrow> exn + world" where
  "world_move w old new =
     attempt (check_range w old) (\<lambda>_.
     attempt (check_notused w old) (\<lambda>_.
     attempt (check_range w new) (\<lambda>_.
     attempt (check_used w new) (\<lambda>_.
     attempt (world_get w old) (\<lambda>element.
     if \<not> elem_movable element then Inl WorldError
     else Inr (put_cell (put_cell w old None) new (Some element)))))))"

section \<open>Random positions\<close>

text \<open>
  The coordinates are \<open>float(n) * (std::rand() / (RAND_MAX + 1.0))\<close>, truncated: \<open>scaled\<close>.
  A proposal outside the array, and so also one that does not fit a \<open>Coord\<close>, has no meaning.
\<close>

text \<open>\<open>a * b\<close> on \<open>int\<close>s made from 16-bit values.\<close>

definition int_product :: "uint16 \<Rightarrow> uint16 \<Rightarrow> exn + int" where
  "int_product a b =
     (if uint a * uint b < 2 ^ 31 then Inr (uint a * uint b) else Inl UndefinedBehaviour)"

partial_function (option) find_unused ::
    "nat \<Rightarrow> (nat \<Rightarrow> nat) \<Rightarrow> world \<Rightarrow> position \<Rightarrow> position \<Rightarrow> nat \<Rightarrow>
      ((exn + position) \<times> nat) option" where
  "find_unused rand_max rand w lo dims i =
     (let x = unat (pos_x lo) + scaled rand_max (unat (pos_x dims)) (rand i);
          y = unat (pos_y lo) + scaled rand_max (unat (pos_y dims)) (rand (i + 1))
      in if x \<ge> unat (pos_x (w_size w)) \<or> y \<ge> unat (pos_y (w_size w))
         then Some (Inl UndefinedBehaviour, i + 2)
         else if w_terrain w (of_nat x) (of_nat y) \<noteq> None
         then find_unused rand_max rand w lo dims (i + 2)
         else Some (Inr \<lparr>pos_x = of_nat x, pos_y = of_nat y\<rparr>, i + 2))"

definition unused_position ::
    "nat \<Rightarrow> (nat \<Rightarrow> nat) \<Rightarrow> world \<Rightarrow> nat \<Rightarrow> ((exn + position) \<times> nat) option" where
  "unused_position rand_max rand w i =
     (case int_product (pos_x (w_size w)) (pos_y (w_size w)) of
        Inl x \<Rightarrow> Some (Inl x, i)
      | Inr cells \<Rightarrow>
          if cells = uint (w_elements w) then Some (Inl WorldError, i)
          else find_unused rand_max rand w \<lparr>pos_x = 0, pos_y = 0\<rparr> (w_size w) i)"

definition unused_position_in ::
    "nat \<Rightarrow> (nat \<Rightarrow> nat) \<Rightarrow> world \<Rightarrow> position \<Rightarrow> position \<Rightarrow> nat \<Rightarrow> ((exn + position) \<times> nat) option" where
  "unused_position_in rand_max rand w lo hi i =
     (let dims = \<lparr>pos_x = pos_x hi - pos_x lo, pos_y = pos_y hi - pos_y lo\<rparr>
      in case int_product (pos_x dims) (pos_y dims) of
           Inl x \<Rightarrow> Some (Inl x, i)
         | Inr cells \<Rightarrow>
             (case num_elements w lo hi of
                Inl x \<Rightarrow> Some (Inl x, i)
              | Inr used \<Rightarrow>
                  if cells = uint used then Some (Inl WorldError, i)
                  else find_unused rand_max rand w lo dims i))"

definition random_orientation :: "nat \<Rightarrow> nat \<Rightarrow> orientation" where
  "random_orientation rand_max r = of_nat (scaled rand_max 4 r)"

section \<open>The invariant\<close>

definition used_cells :: "world \<Rightarrow> (coord \<times> coord) set" where
  "used_cells w = {(x, y). w_terrain w x y \<noteq> None}"

text \<open>Only cells of the grid are used, and the counter counts them (modulo \<open>2^16\<close>).\<close>

definition grid :: "world \<Rightarrow> (coord \<times> coord) set" where
  "grid w = {(x, y). x < pos_x (w_size w) \<and> y < pos_y (w_size w)}"

definition wf_world :: "world \<Rightarrow> bool" where
  "wf_world w \<longleftrightarrow>
     used_cells w \<subseteq> grid w \<and>
     w_elements w = of_nat (card (used_cells w))"

lemma finite_used_cells [simp]: "finite (used_cells w)"
  by (rule finite_subset [of _ UNIV]) auto

lemma terrain_put_cell [simp]:
  "w_terrain (put_cell w p e) x y = (if x = pos_x p \<and> y = pos_y p then e else w_terrain w x y)"
  "w_size (put_cell w p e) = w_size w" "w_elements (put_cell w p e) = w_elements w"
  by (auto simp: put_cell_def)

lemma used_put_cell [simp]:
  "used_cells (put_cell w p (Some e)) = insert (pos_x p, pos_y p) (used_cells w)"
  "used_cells (put_cell w p None) = used_cells w - {(pos_x p, pos_y p)}"
  by (auto simp: used_cells_def)

lemma used_cells_update [simp]:
  "used_cells (w\<lparr>w_elements := n\<rparr>) = used_cells w"
  by (simp add: used_cells_def)

lemma grid_sel [simp]:
  "grid (put_cell w p e) = grid w" "grid (w\<lparr>w_elements := n\<rparr>) = grid w"
  "(x, y) \<in> grid w \<longleftrightarrow> x < pos_x (w_size w) \<and> y < pos_y (w_size w)"
  by (simp_all add: grid_def)

lemma used_cells_iff: "(x, y) \<in> used_cells w \<longleftrightarrow> w_terrain w x y \<noteq> None"
  by (simp add: used_cells_def)

lemma wf_world_new: "wf_world (world_new dims)"
  by (simp add: wf_world_def world_new_def used_cells_def)

lemma world_add_run:
  "world_add w (Some e) p =
    (if pos_x p < pos_x (w_size w) \<and> pos_y p < pos_y (w_size w) \<and> w_terrain w (pos_x p) (pos_y p) = None
     then Inr (put_cell (w\<lparr>w_elements := w_elements w + 1\<rparr>) p (Some e)) else Inl WorldError)"
  by (auto simp: world_add_def check_range_def check_used_def not_le)

lemma world_remove_run:
  "world_remove w p =
    (if pos_x p < pos_x (w_size w) \<and> pos_y p < pos_y (w_size w) \<and> w_terrain w (pos_x p) (pos_y p) \<noteq> None
     then Inr (put_cell (w\<lparr>w_elements := w_elements w - 1\<rparr>) p None) else Inl WorldError)"
  by (auto simp: world_remove_def check_range_def check_notused_def not_le)

lemma world_get_run:
  "world_get w p =
    (if pos_x p < pos_x (w_size w) \<and> pos_y p < pos_y (w_size w)
     then case w_terrain w (pos_x p) (pos_y p) of None \<Rightarrow> Inl WorldError | Some e \<Rightarrow> Inr e
     else Inl WorldError)"
  by (auto simp: world_get_def check_range_def check_notused_def not_le split: option.split)

lemma world_move_run:
  "world_move w p q =
    (case world_get w p of
       Inl x \<Rightarrow> Inl x
     | Inr e \<Rightarrow>
         if pos_x q < pos_x (w_size w) \<and> pos_y q < pos_y (w_size w) \<and>
            w_terrain w (pos_x q) (pos_y q) = None \<and> elem_movable e
         then Inr (put_cell (put_cell w p None) q (Some e)) else Inl WorldError)"
  by (auto simp: world_move_def world_get_run check_range_def check_used_def check_notused_def not_le
      split: option.split)

lemma card_used_remove:
  assumes "w_terrain w x y \<noteq> None"
  shows "card (used_cells w) = Suc (card (used_cells w - {(x, y)}))"
  using assms by (intro card_Suc_Diff1 [symmetric]) (simp_all add: used_cells_iff)

lemma wf_world_add:
  assumes "wf_world w" and "world_add w (Some e) p = Inr w'"
  shows "wf_world w'"
proof -
  have "(pos_x p, pos_y p) \<notin> used_cells w"
    using assms(2) by (auto simp: world_add_run used_cells_iff split: if_splits)
  with assms show ?thesis
    by (auto simp: world_add_run wf_world_def card_insert_if simp del: used_cells_iff split: if_splits)
qed

lemma wf_world_remove:
  assumes "wf_world w" and "world_remove w p = Inr w'"
  shows "wf_world w'"
proof -
  have "w_terrain w (pos_x p) (pos_y p) \<noteq> None" and w': "w' = put_cell (w\<lparr>w_elements := w_elements w - 1\<rparr>) p None"
    using assms(2) by (auto simp: world_remove_run split: if_splits)
  then have "card (used_cells w) = Suc (card (used_cells w - {(pos_x p, pos_y p)}))"
    by (intro card_used_remove)
  with assms(1) show ?thesis
    by (auto simp: wf_world_def w' simp del: card_Diff_insert)
qed

lemma wf_world_move:
  assumes "wf_world w" and "world_move w p q = Inr w'"
  shows "wf_world w'"
proof -
  obtain e where e: "w_terrain w (pos_x p) (pos_y p) = Some e" "w_terrain w (pos_x q) (pos_y q) = None"
    "pos_x q < pos_x (w_size w)" "pos_y q < pos_y (w_size w)"
    and w': "w' = put_cell (put_cell w p None) q (Some e)"
    using assms(2) by (auto simp: world_move_run world_get_run split: if_splits option.splits)
  then have "card (used_cells w) = Suc (card (used_cells w - {(pos_x p, pos_y p)}))"
    by (intro card_used_remove) simp
  moreover have "(pos_x q, pos_y q) \<notin> used_cells w - {(pos_x p, pos_y p)}"
    using e by (simp add: used_cells_iff)
  then have "card (insert (pos_x q, pos_y q) (used_cells w - {(pos_x p, pos_y p)})) =
      Suc (card (used_cells w - {(pos_x p, pos_y p)}))"
    by (intro card_insert_disjoint) simp_all
  ultimately show ?thesis
    using assms(1) e(3,4) by (auto simp: wf_world_def w' simp del: card_Diff_insert)
qed

section \<open>Counting\<close>

lemma count_cells_run:
  assumes "\<forall>(x, y)\<in>set cells. x < pos_x (w_size w) \<and> y < pos_y (w_size w)"
  shows "count_cells w counted cells = Inr (of_nat (length (filter
    (\<lambda>(x, y). \<exists>e. w_terrain w x y = Some e \<and> counted e) cells)))"
proof -
  let ?step = "\<lambda>count (x, y).
         if x \<ge> pos_x (w_size w) \<or> y \<ge> pos_y (w_size w) then Inl UndefinedBehaviour
         else case w_terrain w x y of
                None \<Rightarrow> Inr count
              | Some e \<Rightarrow> Inr (if counted e then count + 1 else count)"
  have "fold_attempt ?step n cells = Inr (n + of_nat (length (filter
      (\<lambda>(x, y). \<exists>e. w_terrain w x y = Some e \<and> counted e) cells)))" for n :: uint16
    using assms
    by (induction cells arbitrary: n) (auto simp: not_le [symmetric] split: option.split)
  then show ?thesis
    by (simp add: count_cells_def)
qed

lemma set_of_nat_coords:
  "set (map of_nat [unat a..<unat b]) = {x :: coord. a \<le> x \<and> x < b}"
proof -
  have "x \<in> of_nat ` {unat a..<unat b} \<longleftrightarrow> a \<le> x \<and> x < b" for x :: coord
  proof
    assume "x \<in> of_nat ` {unat a..<unat b}"
    then obtain k where k: "x = of_nat k" "unat a \<le> k" "k < unat b" by auto
    moreover have "unat b < 65536"
      using unsigned_less [of b] by simp
    ultimately have "unat x = k"
      by (simp add: unsigned_of_nat take_bit_nat_eq_self_iff)
    with k show "a \<le> x \<and> x < b"
      by (simp add: word_le_nat_alt word_less_nat_alt)
  next
    assume "a \<le> x \<and> x < b"
    then show "x \<in> of_nat ` {unat a..<unat b}"
      by (intro image_eqI [of _ _ "unat x"]) (auto simp: word_le_nat_alt word_less_nat_alt)
  qed
  then show ?thesis by auto
qed

lemma unat_of_nat_coord: "i < 65536 \<Longrightarrow> unat (of_nat i :: coord) = i"
  by (simp add: unsigned_of_nat take_bit_nat_eq_self_iff)

lemma distinct_of_nat_coords: "distinct (map of_nat [unat (a :: coord)..<unat (b :: coord)] :: coord list)"
proof -
  have bound: "unat b < 65536"
    using unsigned_less [of b] by simp
  have "inj_on (of_nat :: nat \<Rightarrow> coord) {unat a..<unat b}"
  proof (rule inj_on_inverseI [where g = unat])
    fix i
    assume "i \<in> {unat a..<unat b}"
    with bound show "unat (of_nat i :: coord) = i"
      by (intro unat_of_nat_coord) simp
  qed
  then show ?thesis
    by (simp add: distinct_map)
qed

lemma set_region:
  "set (region lo hi) = {(x, y). pos_x lo \<le> x \<and> x < pos_x hi \<and> pos_y lo \<le> y \<and> y < pos_y hi}"
  unfolding region_def set_product set_of_nat_coords by auto

lemma distinct_region: "distinct (region lo hi)"
  unfolding region_def by (intro distinct_product distinct_of_nat_coords)

definition used_in :: "world \<Rightarrow> position \<Rightarrow> position \<Rightarrow> (coord \<times> coord) set" where
  "used_in w lo hi = {(x, y). w_terrain w x y \<noteq> None \<and>
     pos_x lo \<le> x \<and> x < pos_x hi \<and> pos_y lo \<le> y \<and> y < pos_y hi}"

lemma count_region:
  assumes "pos_x hi \<le> pos_x (w_size w)" and "pos_y hi \<le> pos_y (w_size w)"
  shows "count_cells w counted (region lo hi) = Inr (of_nat (card
    {(x, y) \<in> used_in w lo hi. counted (the (w_terrain w x y))}))"
proof -
  let ?P = "\<lambda>(x, y). \<exists>e. w_terrain w x y = Some e \<and> counted e"
  have "set (filter ?P (region lo hi)) = {(x, y) \<in> used_in w lo hi. counted (the (w_terrain w x y))}"
    by (auto simp: set_region used_in_def)
  moreover have "length (filter ?P (region lo hi)) = card (set (filter ?P (region lo hi)))"
    by (rule distinct_card [symmetric]) (simp add: distinct_region)
  moreover have "\<forall>(x, y)\<in>set (region lo hi). x < pos_x (w_size w) \<and> y < pos_y (w_size w)"
    using assms by (auto simp: set_region)
  then have "count_cells w counted (region lo hi) = Inr (of_nat (length (filter ?P (region lo hi))))"
    by (rule count_cells_run)
  ultimately show ?thesis
    by simp
qed

lemma num_elements_run:
  "pos_x hi \<le> pos_x (w_size w) \<Longrightarrow> pos_y hi \<le> pos_y (w_size w) \<Longrightarrow>
    num_elements w lo hi = Inr (of_nat (card (used_in w lo hi)))"
  by (simp add: num_elements_def count_region)

lemma num_elements_type_run:
  "pos_x hi \<le> pos_x (w_size w) \<Longrightarrow> pos_y hi \<le> pos_y (w_size w) \<Longrightarrow>
    num_elements_type w lo hi type = Inr (of_nat (card
      {(x, y) \<in> used_in w lo hi. elem_type (the (w_terrain w x y)) = type}))"
  by (simp add: num_elements_type_def count_region)

section \<open>Free positions\<close>

definition free_cell :: "world \<Rightarrow> position \<Rightarrow> bool" where
  "free_cell w p \<longleftrightarrow> in_world (w_size w) p \<and> w_terrain w (pos_x p) (pos_y p) = None"

text \<open>What the generator proposes at its \<open>i\<close>-th number.\<close>

lemma coord_sum_less:
  fixes a b :: coord
  assumes "unat a + n < unat b"
  shows "a + of_nat n < b"
proof -
  have "unat a + n < 65536"
    using assms unsigned_less [of b, where ?'a = nat] by simp
  then have "unat (a + of_nat n) = unat a + n"
    by (simp add: unat_word_ariths unat_of_nat_coord)
  with assms show ?thesis
    by (simp add: word_less_nat_alt)
qed

definition inside :: "nat \<Rightarrow> (nat \<Rightarrow> nat) \<Rightarrow> world \<Rightarrow> position \<Rightarrow> position \<Rightarrow> nat \<Rightarrow> bool" where
  "inside rand_max rand w lo dims i \<longleftrightarrow>
     unat (pos_x lo) + scaled rand_max (unat (pos_x dims)) (rand i) < unat (pos_x (w_size w)) \<and>
     unat (pos_y lo) + scaled rand_max (unat (pos_y dims)) (rand (i + 1)) < unat (pos_y (w_size w))"

definition proposal :: "nat \<Rightarrow> (nat \<Rightarrow> nat) \<Rightarrow> position \<Rightarrow> position \<Rightarrow> nat \<Rightarrow> position" where
  "proposal rand_max rand lo dims i =
     \<lparr>pos_x = pos_x lo + of_nat (scaled rand_max (unat (pos_x dims)) (rand i)),
      pos_y = pos_y lo + of_nat (scaled rand_max (unat (pos_y dims)) (rand (i + 1)))\<rparr>"

lemma find_unused_unfold:
  "find_unused rand_max rand w lo dims i =
    (let p = proposal rand_max rand lo dims i
     in if \<not> inside rand_max rand w lo dims i then Some (Inl UndefinedBehaviour, i + 2)
        else if w_terrain w (pos_x p) (pos_y p) \<noteq> None then find_unused rand_max rand w lo dims (i + 2)
        else Some (Inr p, i + 2))"
  by (subst find_unused.simps) (simp add: proposal_def inside_def Let_def not_less)

lemma inside_in_world:
  "inside rand_max rand w lo dims i \<Longrightarrow> in_world (w_size w) (proposal rand_max rand lo dims i)"
  by (simp add: inside_def in_world_def proposal_def coord_sum_less)

definition found ::
    "nat \<Rightarrow> (nat \<Rightarrow> nat) \<Rightarrow> world \<Rightarrow> position \<Rightarrow> position \<Rightarrow> nat \<Rightarrow> exn + position \<Rightarrow> bool" where
  "found rand_max rand w lo dims i r \<longleftrightarrow>
     (if inside rand_max rand w lo dims i
      then r = Inr (proposal rand_max rand lo dims i) \<and> free_cell w (proposal rand_max rand lo dims i)
      else r = Inl UndefinedBehaviour)"

lemma find_unused_sound:
  assumes "find_unused rand_max rand w lo dims i = Some rj"
  shows "\<exists>k. found rand_max rand w lo dims (i + 2 * k) (fst rj)"
proof (rule find_unused.raw_induct [OF _ assms])
  fix find rand_max rand w lo dims i rj
  assume IH: "\<And>rand_max rand w lo dims i rj. find rand_max rand w lo dims i = Some rj \<Longrightarrow>
      \<exists>k. found rand_max rand w lo dims (i + 2 * k) (fst rj)"
    and run: "(let x = unat (pos_x lo) + scaled rand_max (unat (pos_x dims)) (rand i);
        y = unat (pos_y lo) + scaled rand_max (unat (pos_y dims)) (rand (i + 1))
    in if x \<ge> unat (pos_x (w_size w)) \<or> y \<ge> unat (pos_y (w_size w))
       then Some (Inl UndefinedBehaviour, i + 2)
       else if w_terrain w (of_nat x) (of_nat y) \<noteq> None then find rand_max rand w lo dims (i + 2)
       else Some (Inr \<lparr>pos_x = of_nat x, pos_y = of_nat y\<rparr>, i + 2)) = Some rj"
  let ?p = "proposal rand_max rand lo dims i"
  show "\<exists>k. found rand_max rand w lo dims (i + 2 * k) (fst rj)"
  proof (cases "inside rand_max rand w lo dims i \<and> w_terrain w (pos_x ?p) (pos_y ?p) \<noteq> None")
    case True
    with run have "find rand_max rand w lo dims (i + 2) = Some rj"
      by (simp add: proposal_def inside_def Let_def not_less [symmetric])
    then obtain k where "found rand_max rand w lo dims (i + 2 + 2 * k) (fst rj)"
      using IH by blast
    moreover have "i + 2 + 2 * k = i + 2 * Suc k"
      by simp
    ultimately show ?thesis
      by metis
  next
    case False
    with run have "found rand_max rand w lo dims i (fst rj)"
      using inside_in_world [of rand_max rand w lo dims i]
      by (auto simp: found_def proposal_def inside_def free_cell_def Let_def not_less split: if_splits)
    then show ?thesis
      by (intro exI [of _ 0]) simp
  qed
qed

lemma find_unused_returns:
  assumes "\<forall>k \<le> n. inside rand_max rand w lo dims (i + 2 * k)"
    and "free_cell w (proposal rand_max rand lo dims (i + 2 * n))"
  shows "\<exists>p j. find_unused rand_max rand w lo dims i = Some (Inr p, j) \<and> free_cell w p"
  using assms
proof (induction n arbitrary: i)
  case 0
  then show ?case
    by (subst find_unused_unfold) (auto simp: Let_def free_cell_def)
next
  case (Suc n)
  have first: "inside rand_max rand w lo dims i"
    using Suc.prems(1) by force
  show ?case
  proof (cases "w_terrain w (pos_x (proposal rand_max rand lo dims i)) (pos_y (proposal rand_max rand lo dims i))")
    case None
    with first show ?thesis
      by (subst find_unused_unfold) (auto simp: Let_def free_cell_def inside_in_world)
  next
    case (Some e)
    have "\<exists>p j. find_unused rand_max rand w lo dims (i + 2) = Some (Inr p, j) \<and> free_cell w p"
    proof (rule Suc.IH)
      show "\<forall>k \<le> n. inside rand_max rand w lo dims (i + 2 + 2 * k)"
      proof (intro allI impI)
        fix k
        assume "k \<le> n"
        then show "inside rand_max rand w lo dims (i + 2 + 2 * k)"
          using Suc.prems(1) [rule_format, of "Suc k"] by (simp add: algebra_simps)
      qed
      show "free_cell w (proposal rand_max rand lo dims (i + 2 + 2 * n))"
        using Suc.prems(2) by (simp add: algebra_simps)
    qed
    with first Some show ?thesis
      by (subst find_unused_unfold) (simp add: Let_def)
  qed
qed

lemma card_grid: "card (grid w) = unat (pos_x (w_size w)) * unat (pos_y (w_size w))"
proof -
  have "grid w = set (region \<lparr>pos_x = 0, pos_y = 0\<rparr> (w_size w))"
    by (auto simp: grid_def set_region)
  also have "card \<dots> = length (region \<lparr>pos_x = 0, pos_y = 0\<rparr> (w_size w))"
    by (rule distinct_card) (rule distinct_region)
  finally show ?thesis
    by (simp add: region_def)
qed

lemma finite_grid [simp]: "finite (grid w)"
  by (rule finite_subset [of _ UNIV]) auto

lemma full_iff:
  assumes "wf_world w"
  shows "grid w \<subseteq> used_cells w \<longleftrightarrow>
    card (used_cells w) = unat (pos_x (w_size w)) * unat (pos_y (w_size w))"
  using assms card_subset_eq [OF finite_grid, of "used_cells w" w]
  unfolding wf_world_def card_grid [symmetric] by auto

lemma proposals_in_world:
  assumes "\<forall>i. rand i \<le> rand_max" and "pos_x (w_size w) \<noteq> 0" and "pos_y (w_size w) \<noteq> 0"
  shows "inside rand_max rand w \<lparr>pos_x = 0, pos_y = 0\<rparr> (w_size w) i"
  using assms by (simp add: inside_def scaled_less unat_gt_0)

section \<open>Properties\<close>

text \<open>
  C34: the grid is a partial map with a counter.  Adding succeeds exactly on a free cell,
  removing on a used one, and moving from a used cell with a movable element to a free cell;
  each changes the content of those cells only and keeps the invariant, so that the counter
  stays the number of elements; every other use throws a \<open>WorldError\<close>.
\<close>

theorem grid_operations:
  assumes "wf_world w"
  shows "(case world_add w (Some e) p of
      Inl x \<Rightarrow> x = WorldError \<and> \<not> free_cell w p
    | Inr w' \<Rightarrow> free_cell w p \<and> wf_world w' \<and> world_get w' p = Inr e \<and>
        (\<forall>r. r \<noteq> p \<longrightarrow> world_get w' r = world_get w r)) \<and>
    (case world_remove w p of
      Inl x \<Rightarrow> x = WorldError \<and> world_get w p = Inl WorldError
    | Inr w' \<Rightarrow> (\<exists>e. world_get w p = Inr e) \<and> wf_world w' \<and> free_cell w' p \<and>
        (\<forall>r. r \<noteq> p \<longrightarrow> world_get w' r = world_get w r)) \<and>
    (case world_move w p q of
      Inl x \<Rightarrow> x = WorldError \<and> \<not> (free_cell w q \<and> (\<exists>e. world_get w p = Inr e \<and> elem_movable e))
    | Inr w' \<Rightarrow> free_cell w q \<and> wf_world w' \<and> w_elements w' = w_elements w \<and>
        (\<exists>e. world_get w p = Inr e \<and> elem_movable e \<and> world_get w' q = Inr e) \<and> free_cell w' p \<and>
        (\<forall>r. r \<noteq> p \<and> r \<noteq> q \<longrightarrow> world_get w' r = world_get w r))"
proof (intro conjI)
  have neq: "r \<noteq> t \<longleftrightarrow> \<not> (pos_x r = pos_x t \<and> pos_y r = pos_y t)" for r t :: position
    by (metis (full_types) old.unit.exhaust position.surjective)
  show "case world_add w (Some e) p of
      Inl x \<Rightarrow> x = WorldError \<and> \<not> free_cell w p
    | Inr w' \<Rightarrow> free_cell w p \<and> wf_world w' \<and> world_get w' p = Inr e \<and>
        (\<forall>r. r \<noteq> p \<longrightarrow> world_get w' r = world_get w r)"
  proof (cases "world_add w (Some e) p")
    case (Inr w')
    with wf_world_add [OF assms Inr] show ?thesis
      by (auto simp: world_add_run world_get_run free_cell_def in_world_def neq split: if_splits)
  qed (auto simp: world_add_run free_cell_def in_world_def split: if_splits)
  show "case world_remove w p of
      Inl x \<Rightarrow> x = WorldError \<and> world_get w p = Inl WorldError
    | Inr w' \<Rightarrow> (\<exists>e. world_get w p = Inr e) \<and> wf_world w' \<and> free_cell w' p \<and>
        (\<forall>r. r \<noteq> p \<longrightarrow> world_get w' r = world_get w r)"
  proof (cases "world_remove w p")
    case (Inr w')
    with wf_world_remove [OF assms Inr] show ?thesis
      by (auto simp: world_remove_run world_get_run free_cell_def in_world_def neq split: if_splits)
  qed (auto simp: world_remove_run world_get_run split: if_splits)
  show "case world_move w p q of
      Inl x \<Rightarrow> x = WorldError \<and> \<not> (free_cell w q \<and> (\<exists>e. world_get w p = Inr e \<and> elem_movable e))
    | Inr w' \<Rightarrow> free_cell w q \<and> wf_world w' \<and> w_elements w' = w_elements w \<and>
        (\<exists>e. world_get w p = Inr e \<and> elem_movable e \<and> world_get w' q = Inr e) \<and> free_cell w' p \<and>
        (\<forall>r. r \<noteq> p \<and> r \<noteq> q \<longrightarrow> world_get w' r = world_get w r)"
  proof (cases "world_move w p q")
    case (Inl x)
    then show ?thesis
      by (auto simp: world_move_run world_get_run free_cell_def in_world_def
          split: if_splits option.splits)
  next
    case (Inr w')
    then obtain f where f: "world_get w p = Inr f" "free_cell w q" "elem_movable f"
      "w' = put_cell (put_cell w p None) q (Some f)"
      by (auto simp: world_move_run free_cell_def in_world_def split: sum.splits if_splits)
    then have "p \<noteq> q"
      by (auto simp: world_get_run free_cell_def split: if_splits)
    with f Inr wf_world_move [OF assms Inr] show ?thesis
      by (auto simp: world_get_run free_cell_def in_world_def neq split: if_splits option.splits)
  qed
qed

definition small_world :: world where
  "small_world = world_new \<lparr>pos_x = 4, pos_y = 4\<rparr>"

theorem grid_operations_witness:
  "\<exists>w'. world_add small_world (Some (element_new 7 ElementBug)) \<lparr>pos_x = 1, pos_y = 2\<rparr> = Inr w' \<and>
    world_get w' \<lparr>pos_x = 1, pos_y = 2\<rparr> = Inr (element_new 7 ElementBug)"
proof -
  have "wf_world small_world"
    by (simp add: small_world_def wf_world_new)
  from grid_operations [OF this, where e = "element_new 7 ElementBug" and
      p = "\<lparr>pos_x = 1, pos_y = 2\<rparr>", THEN conjunct1] show ?thesis
    by (auto simp: free_cell_def in_world_def split: sum.splits)
      (simp_all add: small_world_def world_new_def)
qed

text \<open>
  Counting the elements of a region that lies inside the world gives the number of its
  used cells, and of those of one type, modulo \<open>2^16\<close>; over the whole world it agrees with
  the counter the world keeps.
\<close>

theorem counting_correct:
  assumes "wf_world w" and "pos_x hi \<le> pos_x (w_size w)" and "pos_y hi \<le> pos_y (w_size w)"
  shows "num_elements w lo hi = Inr (of_nat (card (used_in w lo hi))) \<and>
    num_elements_type w lo hi type = Inr (of_nat (card
      {(x, y) \<in> used_in w lo hi. elem_type (the (w_terrain w x y)) = type})) \<and>
    num_elements w \<lparr>pos_x = 0, pos_y = 0\<rparr> (w_size w) = Inr (w_elements w)"
proof -
  have "used_in w \<lparr>pos_x = 0, pos_y = 0\<rparr> (w_size w) = used_cells w"
    using assms(1) by (auto simp: used_in_def used_cells_def wf_world_def grid_def)
  then show ?thesis
    using assms by (simp add: num_elements_run num_elements_type_run wf_world_def)
qed

theorem counting_correct_witness:
  "num_elements small_world \<lparr>pos_x = 0, pos_y = 0\<rparr> \<lparr>pos_x = 4, pos_y = 4\<rparr> = Inr 0"
  using counting_correct [of small_world "\<lparr>pos_x = 0, pos_y = 0\<rparr>" "\<lparr>pos_x = 0, pos_y = 0\<rparr>" ElementBug]
  by (simp add: small_world_def wf_world_new, simp add: world_new_def)

text \<open>
  In a world of fewer than 65536 cells \<open>unused_position\<close> throws exactly when the world is
  full; otherwise it can only return a free position inside the world, and it does return as
  soon as the generator proposes one.
\<close>

theorem unused_position_correct:
  assumes "wf_world w" and "unat (pos_x (w_size w)) * unat (pos_y (w_size w)) < 65536"
    and "\<forall>i. rand i \<le> rand_max"
  shows "(grid w \<subseteq> used_cells w \<longrightarrow> unused_position rand_max rand w i = Some (Inl WorldError, i)) \<and>
    (\<not> grid w \<subseteq> used_cells w \<longrightarrow>
      (\<forall>r j. unused_position rand_max rand w i = Some (r, j) \<longrightarrow> (\<exists>p. r = Inr p \<and> free_cell w p)) \<and>
      ((\<exists>n. free_cell w (proposal rand_max rand \<lparr>pos_x = 0, pos_y = 0\<rparr> (w_size w) (i + 2 * n))) \<longrightarrow>
        unused_position rand_max rand w i \<noteq> None))"
proof -
  let ?a = "unat (pos_x (w_size w))" and ?b = "unat (pos_y (w_size w))"
  have product: "uint (pos_x (w_size w)) * uint (pos_y (w_size w)) = int (?a * ?b)"
    by simp
  have used: "card (used_cells w) \<le> ?a * ?b"
    using assms(1) card_mono [OF finite_grid, of "used_cells w" w]
    by (simp add: wf_world_def card_grid)
  have "uint (w_elements w) = int (card (used_cells w))"
    using assms(1,2) used by (simp add: wf_world_def unsigned_of_nat take_bit_nat_eq_self_iff
        flip: uint_nat)
  then have full: "int (?a * ?b) = uint (w_elements w) \<longleftrightarrow> grid w \<subseteq> used_cells w"
    unfolding full_iff [OF assms(1)] by (metis of_nat_eq_iff)
  have search: "unused_position rand_max rand w i =
      (if grid w \<subseteq> used_cells w then Some (Inl WorldError, i)
       else find_unused rand_max rand w \<lparr>pos_x = 0, pos_y = 0\<rparr> (w_size w) i)"
    using assms(2) full by (simp add: unused_position_def int_product_def product del: of_nat_mult)
  show ?thesis
  proof (cases "grid w \<subseteq> used_cells w")
    case True
    with search show ?thesis by simp
  next
    case False
    then have size: "pos_x (w_size w) \<noteq> 0" "pos_y (w_size w) \<noteq> 0"
      by (auto simp: grid_def)
    note inside = proposals_in_world [OF assms(3) size]
    have "\<exists>p. r = Inr p \<and> free_cell w p"
      if "find_unused rand_max rand w \<lparr>pos_x = 0, pos_y = 0\<rparr> (w_size w) i = Some (r, j)" for r j
      using find_unused_sound [OF that] inside by (auto simp: found_def)
    moreover have "find_unused rand_max rand w \<lparr>pos_x = 0, pos_y = 0\<rparr> (w_size w) i \<noteq> None"
      if "free_cell w (proposal rand_max rand \<lparr>pos_x = 0, pos_y = 0\<rparr> (w_size w) (i + 2 * n))" for n
      using find_unused_returns [of n rand_max rand w "\<lparr>pos_x = 0, pos_y = 0\<rparr>" "w_size w" i] that inside
      by auto
    ultimately show ?thesis
      unfolding search using False by auto
  qed
qed

theorem unused_position_correct_witness:
  "unused_position 7 (\<lambda>_. 3) small_world 0 \<noteq> None"
proof -
  have free: "free_cell small_world (proposal 7 (\<lambda>_. 3) \<lparr>pos_x = 0, pos_y = 0\<rparr> (w_size small_world) (0 + 2 * 0))"
    by (simp add: free_cell_def in_world_def proposal_def scaled_def small_world_def world_new_def)
  have not_full: "\<not> grid small_world \<subseteq> used_cells small_world"
  proof
    assume "grid small_world \<subseteq> used_cells small_world"
    moreover have "(0, 0) \<in> grid small_world"
      by (simp add: small_world_def world_new_def)
    ultimately have "(0, 0) \<in> used_cells small_world"
      by blast
    then show False
      by (simp add: used_cells_iff small_world_def world_new_def)
  qed
  have "wf_world small_world" "unat (pos_x (w_size small_world)) * unat (pos_y (w_size small_world)) < 65536"
    by (simp_all add: small_world_def wf_world_new, simp add: world_new_def)
  then show ?thesis
    using unused_position_correct [of small_world "\<lambda>_. 3" 7 0] free not_full by fastforce
qed

text \<open>
  C35: a full world of 65536 cells or more is not recognised as full, because the number of its
  cells does not fit the 16-bit counter: the search for an unused position never returns.
\<close>

theorem full_large_world_hangs:
  assumes "wf_world w" and "grid w \<subseteq> used_cells w" and "\<forall>i. rand i \<le> rand_max"
    and "65536 \<le> unat (pos_x (w_size w)) * unat (pos_y (w_size w))"
    and "unat (pos_x (w_size w)) * unat (pos_y (w_size w)) < 2 ^ 31"
  shows "unused_position rand_max rand w i = None"
proof -
  let ?a = "unat (pos_x (w_size w))" and ?b = "unat (pos_y (w_size w))"
  have product: "uint (pos_x (w_size w)) * uint (pos_y (w_size w)) = int (?a * ?b)"
    by simp
  have "uint (w_elements w) < 65536"
    using unsigned_less [of "w_elements w", where ?'a = int] by simp
  with assms(4) have "int (?a * ?b) \<noteq> uint (w_elements w)"
    by linarith
  with assms(5) have search: "unused_position rand_max rand w i =
      find_unused rand_max rand w \<lparr>pos_x = 0, pos_y = 0\<rparr> (w_size w) i"
    by (simp add: unused_position_def int_product_def product del: of_nat_mult)
  have size: "pos_x (w_size w) \<noteq> 0" "pos_y (w_size w) \<noteq> 0"
    using assms(4) by auto
  note inside = proposals_in_world [OF assms(3) size]
  have "\<not> free_cell w p" for p
    using assms(2) by (auto simp: free_cell_def in_world_def grid_def used_cells_def)
  then have "find_unused rand_max rand w \<lparr>pos_x = 0, pos_y = 0\<rparr> (w_size w) i \<noteq> Some rj" for rj
    using find_unused_sound [of rand_max rand w "\<lparr>pos_x = 0, pos_y = 0\<rparr>" "w_size w" i rj] inside
    by (auto simp: found_def)
  with search show ?thesis
    by (cases "find_unused rand_max rand w \<lparr>pos_x = 0, pos_y = 0\<rparr> (w_size w) i") auto
qed

definition full_world :: world where
  "full_world = \<lparr>w_size = \<lparr>pos_x = 256, pos_y = 256\<rparr>, w_elements = 0,
     w_terrain = (\<lambda>x y. if x < 256 \<and> y < 256 then Some (element_new 0 ElementFood) else None)\<rparr>"

theorem full_large_world_hangs_witness: "unused_position 7 (\<lambda>_. 3) full_world 0 = None"
proof -
  have cells: "used_cells full_world = grid full_world"
    by (auto simp: used_cells_def grid_def full_world_def)
  have "wf_world full_world"
    unfolding wf_world_def cells card_grid by (simp add: full_world_def)
  then show ?thesis
    by (rule full_large_world_hangs) (simp_all add: cells, simp_all add: full_world_def)
qed

end
