(* ===== verification/File.thy ===== *)
theory File
  imports Prelude
begin

text \<open>
  \<open>simpleworld/cpu/file.cpp\<close>: a text file as a vector of lines, edited by line number, read
  with \<open>std::getline\<close> and written with one \<open>std::endl\<close> per line.
\<close>

section \<open>The class File\<close>

type_synonym size_type = uint64

record text_file =
  file_lines :: "string list"

definition file_new :: text_file where
  "file_new = \<lparr>file_lines = []\<rparr>"

definition file_copy :: "text_file \<Rightarrow> text_file" where
  "file_copy f = foldl (\<lambda>this l. this\<lparr>file_lines := file_lines this @ [l]\<rparr>) file_new (file_lines f)"

definition lines_count :: "text_file \<Rightarrow> size_type" where
  "lines_count f = of_nat (length (file_lines f))"

text \<open>
  \<open>pos + 1\<close> wraps for the last value of \<open>size_type\<close>; the vector is then indexed outside its
  bounds, which has no meaning, and so has erasing past its end.
\<close>

definition get_line :: "text_file \<Rightarrow> size_type \<Rightarrow> exn + string" where
  "get_line f pos =
     (if pos + 1 > lines_count f then Inl CPUException
      else if unat pos < length (file_lines f) then Inr (file_lines f ! unat pos)
      else Inl UndefinedBehaviour)"

text \<open>\<open>file[pos] = line\<close>, through the reference the non-constant \<open>get_line\<close> returns.\<close>

definition put_line :: "text_file \<Rightarrow> size_type \<Rightarrow> string \<Rightarrow> exn + text_file" where
  "put_line f pos line =
     (if pos + 1 > lines_count f then Inl CPUException
      else if unat pos < length (file_lines f)
      then Inr (f\<lparr>file_lines := (file_lines f)[unat pos := line]\<rparr>)
      else Inl UndefinedBehaviour)"

definition file_insert :: "text_file \<Rightarrow> size_type \<Rightarrow> string \<Rightarrow> exn + text_file" where
  "file_insert f pos line =
     (if pos > lines_count f then Inl CPUException
      else Inr (f\<lparr>file_lines := take (unat pos) (file_lines f) @ [line] @ drop (unat pos) (file_lines f)\<rparr>))"

definition file_insert_file :: "text_file \<Rightarrow> size_type \<Rightarrow> text_file \<Rightarrow> exn + text_file" where
  "file_insert_file f pos g =
     (if pos > lines_count f then Inl CPUException
      else Inr (f\<lparr>file_lines := take (unat pos) (file_lines f) @ file_lines g @ drop (unat pos) (file_lines f)\<rparr>))"

definition file_append :: "text_file \<Rightarrow> string \<Rightarrow> exn + text_file" where
  "file_append f line = file_insert f (lines_count f) line"

definition file_append_file :: "text_file \<Rightarrow> text_file \<Rightarrow> exn + text_file" where
  "file_append_file f g = file_insert_file f (lines_count f) g"

definition file_remove :: "text_file \<Rightarrow> size_type \<Rightarrow> size_type \<Rightarrow> exn + text_file" where
  "file_remove f pos n =
     (if pos + 1 > lines_count f then Inl CPUException
      else if unat pos + unat n > length (file_lines f) then Inl UndefinedBehaviour
      else Inr (f\<lparr>file_lines := take (unat pos) (file_lines f) @ drop (unat pos + unat n) (file_lines f)\<rparr>))"

section \<open>Reading and writing\<close>

abbreviation newline :: char where "newline \<equiv> CHR 0x0A"

text \<open>\<open>std::getline\<close>: fails at the end of the stream, drops the line terminator.\<close>

fun getline :: "string \<Rightarrow> (string \<times> string) option" where
  "getline [] = None"
| "getline (c # cs) = Some (takeWhile (\<lambda>d. d \<noteq> newline) (c # cs),
     drop 1 (dropWhile (\<lambda>d. d \<noteq> newline) (c # cs)))"

lemma getline_shorter: "getline s = Some (l, rest) \<Longrightarrow> length rest < length s"
  using length_dropWhile_le [of "\<lambda>d. d \<noteq> newline" "tl s"] by (cases s) auto

function read_lines :: "string \<Rightarrow> text_file \<Rightarrow> text_file" where
  "read_lines is f =
     (case getline is of
        None \<Rightarrow> f
      | Some (str, rest) \<Rightarrow> read_lines rest (f\<lparr>file_lines := file_lines f @ [str]\<rparr>))"
  by pat_completeness auto
termination
  by (relation "measure (\<lambda>(is, f). length is)") (auto dest: getline_shorter)

declare read_lines.simps [simp del]

fun write_lines :: "string \<Rightarrow> string list \<Rightarrow> string" where
  "write_lines os [] = os"
| "write_lines os (l # ls) = write_lines (os @ l @ [newline]) ls"

definition file_read :: "string \<Rightarrow> text_file \<Rightarrow> text_file" where
  "file_read is f = read_lines is (f\<lparr>file_lines := []\<rparr>)"

definition file_write :: "string \<Rightarrow> text_file \<Rightarrow> string" where
  "file_write os f = write_lines os (file_lines f)"

text \<open>
  The files are the argument \<open>fs\<close> (\<open>None\<close>: the file cannot be opened).  The code does not look
  at the state of the stream after it wrote to it.
\<close>

definition file_load :: "(string \<rightharpoonup> string) \<Rightarrow> string \<Rightarrow> (text_file, unit) prog" where
  "file_load fs filename =
     andthen (updating (\<lambda>f. Inr (f\<lparr>file_lines := []\<rparr>))) (\<lambda>_.
       case fs filename of
         None \<Rightarrow> throw IOError
       | Some contents \<Rightarrow> updating (\<lambda>f. Inr (read_lines contents f)))"

definition file_save :: "(string \<Rightarrow> bool) \<Rightarrow> text_file \<Rightarrow> string \<Rightarrow> (string \<rightharpoonup> string, unit) prog" where
  "file_save writable f filename =
     (if writable filename then updating (\<lambda>fs. Inr (fs(filename \<mapsto> write_lines [] (file_lines f))))
      else throw IOError)"

section \<open>Lemmas\<close>

lemma file_copy_id [simp]: "file_copy f = f"
proof -
  have "foldl (\<lambda>this l. this\<lparr>file_lines := file_lines this @ [l]\<rparr>) g ls =
      g\<lparr>file_lines := file_lines g @ ls\<rparr>" for g :: text_file and ls
    by (induction ls arbitrary: g) simp_all
  then show ?thesis
    by (simp add: file_copy_def file_new_def)
qed

lemma write_lines_append: "write_lines os ls = os @ concat (map (\<lambda>l. l @ [newline]) ls)"
  by (induction ls arbitrary: os) simp_all

lemma getline_line:
  "newline \<notin> set l \<Longrightarrow> getline (l @ newline # rest) = Some (l, rest)"
proof -
  assume "newline \<notin> set l"
  then have "takeWhile (\<lambda>d. d \<noteq> newline) (l @ newline # rest) = l"
    "dropWhile (\<lambda>d. d \<noteq> newline) (l @ newline # rest) = newline # rest"
    by (auto intro!: takeWhile_tail [THEN trans] dropWhile_append3 simp: takeWhile_append dropWhile_append)
  then show ?thesis
    by (cases l) auto
qed

lemma read_lines_written:
  "\<forall>l\<in>set ls. newline \<notin> set l \<Longrightarrow>
    read_lines (concat (map (\<lambda>l. l @ [newline]) ls)) f = f\<lparr>file_lines := file_lines f @ ls\<rparr>"
proof (induction ls arbitrary: f)
  case Nil
  then show ?case by (simp add: read_lines.simps)
next
  case (Cons l ls)
  then show ?case
    by (subst read_lines.simps) (simp add: getline_line)
qed

lemma getline_last:
  assumes "newline \<notin> set t" and "t \<noteq> []"
  shows "getline t = Some (t, [])"
proof -
  have "takeWhile (\<lambda>d. d \<noteq> newline) t = t" "dropWhile (\<lambda>d. d \<noteq> newline) t = []"
    using assms(1) by (auto simp: takeWhile_eq_all_conv dropWhile_eq_Nil_conv)
  moreover obtain c cs where "t = c # cs"
    using assms(2) by (cases t) auto
  ultimately show ?thesis
    by (simp only: getline.simps drop_Nil)
qed

lemma written_read_lines:
  "concat (map (\<lambda>l. l @ [newline]) (file_lines (read_lines t h))) =
    concat (map (\<lambda>l. l @ [newline]) (file_lines h)) @
      (if t = [] \<or> last t = newline then t else t @ [newline])"
proof (induction "length t" arbitrary: t h rule: less_induct)
  case less
  show ?case
  proof (cases "newline \<in> set t")
    case True
    then obtain l rest where t: "t = l @ newline # rest" "newline \<notin> set l"
      by (metis split_list_first)
    then show ?thesis
      using less [of rest "h\<lparr>file_lines := file_lines h @ [l]\<rparr>"]
      by (subst read_lines.simps) (simp add: getline_line)
  next
    case False
    show ?thesis
    proof (cases "t = []")
      case True
      then show ?thesis by (simp add: read_lines.simps)
    next
      case nonempty: False
      with False have "last t \<noteq> newline"
        by (metis last_in_set)
      with False nonempty show ?thesis
        by (simp add: read_lines.simps [of t] read_lines.simps [of "[]"] getline_last)
    qed
  qed
qed

text \<open>Line numbers that fit \<open>size_type\<close>.\<close>

lemma unat_count:
  "length (file_lines f) < 2 ^ 64 \<Longrightarrow> unat (lines_count f) = length (file_lines f)"
  by (simp add: lines_count_def unsigned_of_nat take_bit_nat_eq_self_iff)

lemma after_count:
  assumes "length (file_lines f) < 2 ^ 64"
  shows "pos > lines_count f \<longleftrightarrow> length (file_lines f) < unat pos"
  using assms by (simp add: word_less_nat_alt unat_count)

lemma in_count:
  assumes "length (file_lines f) < 2 ^ 64" and "unat pos + 1 < 2 ^ 64"
  shows "pos + 1 > lines_count f \<longleftrightarrow> \<not> unat pos < length (file_lines f)"
proof -
  have "unat (pos + 1) = unat pos + 1"
    using assms(2) by (simp add: unat_word_ariths)
  with assms(1) show ?thesis
    by (simp only: word_less_nat_alt unat_count) linarith
qed

lemma get_line_run:
  assumes "length (file_lines f) < 2 ^ 64" and "unat pos < length (file_lines f)"
  shows "get_line f pos = Inr (file_lines f ! unat pos)"
  using assms in_count [OF assms(1), of pos] by (simp add: get_line_def)

section \<open>Properties\<close>

text \<open>
  A saved file is loaded back line by line, whatever the loading object held before, and
  loading a text and writing it again gives the text with its last line terminated.
\<close>

theorem file_text_roundtrip:
  assumes "\<forall>l\<in>set (file_lines f). newline \<notin> set l" and "writable name"
  shows "(case file_save writable f name fs of
      (r, fs') \<Rightarrow> r = Inr () \<and> (\<forall>g. file_load fs' name g = (Inr (), f)) \<and>
        (\<forall>n. n \<noteq> name \<longrightarrow> fs' n = fs n)) \<and>
    file_write [] (file_read t g) = (if t = [] \<or> last t = newline then t else t @ [newline])"
proof
  show "case file_save writable f name fs of
      (r, fs') \<Rightarrow> r = Inr () \<and> (\<forall>g. file_load fs' name g = (Inr (), f)) \<and>
        (\<forall>n. n \<noteq> name \<longrightarrow> fs' n = fs n)"
    using assms by (simp add: file_save_def file_load_def write_lines_append read_lines_written)
  show "file_write [] (file_read t g) = (if t = [] \<or> last t = newline then t else t @ [newline])"
    by (simp add: file_write_def file_read_def write_lines_append written_read_lines)
qed

theorem file_text_roundtrip_witness:
  "file_load (snd (file_save (\<lambda>_. True) \<lparr>file_lines = [''add r0 r1 r2'', [], ''ret'']\<rparr> ''f.swl'' Map.empty))
     ''f.swl'' file_new = (Inr (), \<lparr>file_lines = [''add r0 r1 r2'', [], ''ret'']\<rparr>)"
  using file_text_roundtrip [of "\<lparr>file_lines = [''add r0 r1 r2'', [], ''ret'']\<rparr>" "\<lambda>_. True"
      "''f.swl''" Map.empty, THEN conjunct1]
  by (simp split: prod.splits)

text \<open>
  Inserting a line fails exactly beyond the end of the file; otherwise the new line is found
  at its position, the lines before it keep their numbers, the lines after it move down by one,
  and removing it gives the old file back.  Inserting a file is undone by removing its lines.
\<close>

theorem insert_remove_lines:
  assumes "length (file_lines f) + length (file_lines g) + 1 < 2 ^ 64"
  shows "(case file_insert f pos l of
      Inl x \<Rightarrow> x = CPUException \<and> length (file_lines f) < unat pos
    | Inr h \<Rightarrow> unat pos \<le> length (file_lines f) \<and> get_line h pos = Inr l \<and>
        (\<forall>i < pos. get_line h i = get_line f i) \<and>
        (\<forall>i. pos \<le> i \<and> i < lines_count f \<longrightarrow> get_line h (i + 1) = get_line f i) \<and>
        lines_count h = lines_count f + 1 \<and> file_remove h pos 1 = Inr f) \<and>
    (case file_insert_file f pos g of
      Inl x \<Rightarrow> x = CPUException \<and> length (file_lines f) < unat pos
    | Inr h \<Rightarrow> lines_count h = lines_count f + lines_count g \<and>
        (file_lines g \<noteq> [] \<longrightarrow> file_remove h pos (lines_count g) = Inr f))"
proof (cases "length (file_lines f) < unat pos")
  case True
  with assms show ?thesis
    by (simp add: file_insert_def file_insert_file_def after_count)
next
  case False
  then have pos: "unat pos \<le> length (file_lines f)"
    by simp
  define h where "h = f\<lparr>file_lines := take (unat pos) (file_lines f) @ [l] @ drop (unat pos) (file_lines f)\<rparr>"
  define k where "k = f\<lparr>file_lines := take (unat pos) (file_lines f) @ file_lines g @ drop (unat pos) (file_lines f)\<rparr>"
  have ins: "file_insert f pos l = Inr h" "file_insert_file f pos g = Inr k"
    using assms False by (simp_all add: file_insert_def file_insert_file_def after_count h_def k_def)
  have len: "length (file_lines h) = length (file_lines f) + 1"
    "length (file_lines k) = length (file_lines f) + length (file_lines g)"
    using pos by (simp_all add: h_def k_def)
  have before: "get_line h i = get_line f i" if "i < pos" for i
    using that assms pos len by (simp add: get_line_run word_less_nat_alt h_def nth_append)
  have here: "get_line h pos = Inr l"
    using assms pos len by (simp add: get_line_run h_def nth_append)
  have after: "get_line h (i + 1) = get_line f i" if "pos \<le> i" "i < lines_count f" for i
  proof -
    have i: "unat i < length (file_lines f)" "unat pos \<le> unat i"
      using that assms by (simp_all add: word_less_nat_alt word_le_nat_alt unat_count)
    then have "unat (i + 1) = unat i + 1"
      using assms by (simp add: unat_word_ariths)
    with i assms len pos show ?thesis
      by (simp add: get_line_run h_def nth_append Suc_diff_le)
  qed
  have count: "lines_count h = lines_count f + 1" "lines_count k = lines_count f + lines_count g"
    using len by (simp_all add: lines_count_def)
  have remove: "file_remove h pos 1 = Inr f"
    using assms pos len in_count [of h pos] by (simp add: file_remove_def h_def)
  have remove_all: "file_remove k pos (lines_count g) = Inr f" if "file_lines g \<noteq> []"
  proof -
    have "0 < length (file_lines g)"
      using that by simp
    with pos len have "unat pos < length (file_lines k)"
      by linarith
    with assms pos len show ?thesis
      using in_count [of k pos] by (simp add: file_remove_def unat_count) (simp add: k_def)
  qed
  show ?thesis
    using ins pos before here after count remove remove_all by simp
qed

theorem insert_remove_lines_witness:
  "\<exists>h. file_insert \<lparr>file_lines = [''a'', ''b'']\<rparr> 1 ''x'' = Inr h \<and> get_line h 1 = Inr ''x'' \<and>
    file_remove h 1 1 = Inr \<lparr>file_lines = [''a'', ''b'']\<rparr>"
  using insert_remove_lines [of "\<lparr>file_lines = [''a'', ''b'']\<rparr>" file_new 1 "''x''", THEN conjunct2]
    insert_remove_lines [of "\<lparr>file_lines = [''a'', ''b'']\<rparr>" file_new 1 "''x''", THEN conjunct1]
  by (auto simp: file_new_def split: sum.splits)

end
