(* ===== verification/Object.thy ===== *)
theory Object
  imports ISA_Table File
begin

text \<open>
  \<open>simpleworld/cpu/object.cpp\<close>: object code and its decompiler, which turns every word into a
  line of assembly or, when it is no instruction, into a line of hexadecimal data.
\<close>

section \<open>Hexadecimal numbers\<close>

text \<open>\<open>boost::format("%0nX")\<close>.\<close>

definition hex_digit :: "nat \<Rightarrow> char" where
  "hex_digit n = ''0123456789ABCDEF'' ! n"

fun hex_digits :: "nat \<Rightarrow> string" where
  "hex_digits n = (if n < 16 then [hex_digit n] else hex_digits (n div 16) @ [hex_digit (n mod 16)])"

declare hex_digits.simps [simp del]

definition format_hex :: "nat \<Rightarrow> nat \<Rightarrow> string" where
  "format_hex width n =
     (let ds = hex_digits n in replicate (width - length ds) (CHR ''0'') @ ds)"

section \<open>The class Object\<close>

record 'f object =
  obj_isa :: "'f isa"
  obj_code :: memory

definition object_new :: "'f isa \<Rightarrow> memory \<Rightarrow> exn + 'f object" where
  "object_new isa code =
     (if mem_size code mod 4 \<noteq> 0 then Inl IOError
      else Inr \<lparr>obj_isa = isa, obj_code = memory_copy code\<rparr>)"

definition object_from_file ::
    "endian \<Rightarrow> (string \<rightharpoonup> uint8 list) \<Rightarrow> 'f isa \<Rightarrow> string \<Rightarrow> exn + 'f object" where
  "object_from_file e fs isa filename =
     (case load_file e fs filename empty_memory of
        (Inl x, _) \<Rightarrow> Inl x
      | (Inr _, code) \<Rightarrow> object_new isa code)"

text \<open>\<open>decompile(Word)\<close>; the data is the third register when there is one.\<close>

definition decompile_word :: "endian \<Rightarrow> 'f isa \<Rightarrow> cpu_word \<Rightarrow> exn + string" where
  "decompile_word e isa instruction =
     attempt (decode e uninitialised instruction) (\<lambda>inst.
     attempt (get_instruction_info isa (i_code inst)) (\<lambda>info.
     attempt (if inst_nregs info > 0
              then attempt (get_register_name isa (ucast (i_first inst)))
                     (\<lambda>name. Inr (inst_name info @ '' '' @ name))
              else Inr (inst_name info)) (\<lambda>result.
     attempt (if inst_nregs info > 1
              then attempt (get_register_name isa (ucast (i_second inst)))
                     (\<lambda>name. Inr (result @ '' '' @ name))
              else Inr result) (\<lambda>result.
     if inst_nregs info > 2
     then attempt (get_register_name isa (ucast (i_data inst)))
            (\<lambda>name. Inr (result @ '' '' @ name))
     else if inst_has_inmediate info
     then Inr (result @ '' '' @ ''0x'' @ format_hex 4 (unat (i_data inst)))
     else Inr result))))"

definition data_line :: "endian \<Rightarrow> cpu_word \<Rightarrow> string" where
  "data_line e instruction =
     ''0x'' @ format_hex 8 (unat (case e of
        BigEndian \<Rightarrow> instruction
      | LittleEndian \<Rightarrow> change_byte_order instruction))"

function decompile_loop ::
    "endian \<Rightarrow> 'f isa \<Rightarrow> memory \<Rightarrow> nat \<Rightarrow> text_file \<Rightarrow> exn + text_file" where
  "decompile_loop e isa code i file =
     (if i < unat (mem_size code)
      then attempt (get_word e code (of_nat i) False) (\<lambda>instruction.
           attempt (case attempt (decompile_word e isa instruction) (file_append file) of
                      Inl CodeError \<Rightarrow> file_append file (data_line e instruction)
                    | r \<Rightarrow> r)
             (\<lambda>file'. decompile_loop e isa code (i + 4) file'))
      else Inr file)"
  by pat_completeness auto
termination
  by (relation "measure (\<lambda>(e, isa, code, i, file). unat (mem_size code) - i)") auto

declare decompile_loop.simps [simp del]

definition decompile :: "endian \<Rightarrow> 'f object \<Rightarrow> exn + text_file" where
  "decompile e obj = decompile_loop e (obj_isa obj) (obj_code obj) 0 file_new"

definition decompile_save ::
    "endian \<Rightarrow> (string \<Rightarrow> bool) \<Rightarrow> 'f object \<Rightarrow> string \<Rightarrow> (string \<rightharpoonup> string, unit) prog" where
  "decompile_save e writable obj filename =
     (case decompile e obj of
        Inl x \<Rightarrow> throw x
      | Inr file \<Rightarrow> file_save writable file filename)"

section \<open>The text of an instruction\<close>

text \<open>Specification: the words of the line of an instruction, when it has a line.\<close>

definition operand_codes :: "'f instruction_info \<Rightarrow> instruction \<Rightarrow> uint8 list" where
  "operand_codes info inst = take (unat (inst_nregs info))
     [ucast (i_first inst), ucast (i_second inst), ucast (i_data inst)]"

definition assembly :: "'f isa \<Rightarrow> instruction \<Rightarrow> string list option" where
  "assembly isa inst =
     (case instructions isa (i_code inst) of
        None \<Rightarrow> None
      | Some info \<Rightarrow>
          let regs = map (registers_map isa) (operand_codes info inst)
          in if None \<in> set regs then None
             else Some (inst_name info # map the regs @
               (if inst_nregs info \<le> 2 \<and> inst_has_inmediate info
                then [''0x'' @ format_hex 4 (unat (i_data inst))] else [])))"

fun unwords :: "string list \<Rightarrow> string" where
  "unwords [] = []"
| "unwords [w] = w"
| "unwords (w # ws) = w @ '' '' @ unwords ws"

lemma unwords_append: "ws \<noteq> [] \<Longrightarrow> unwords (ws @ [w]) = unwords ws @ '' '' @ w"
  by (induction ws rule: unwords.induct) simp_all

lemma take_3:
  "take n [a, b, c] = (if n = 0 then [] else if n = 1 then [a] else if n = 2 then [a, b] else [a, b, c])"
  by (cases n rule: nat.exhaust, simp) (auto simp: take_Cons split: nat.split)

lemma nregs_cases:
  "n = 0 \<or> n = 1 \<or> n = 2 \<or> (n :: uint8) > 2"
proof -
  have "n \<le> 2 \<Longrightarrow> n = 0 \<or> n = 1 \<or> n = 2"
    by (auto simp: word_le_nat_alt unat_eq_0 elim!: le_SucE) (auto simp: word_unat_eq_iff)
  then show ?thesis by fastforce
qed

lemma decompile_word_assembly:
  "decompile_word e isa w =
    (case assembly isa (bytes_inst (host_bytes e w)) of
       None \<Rightarrow> Inl CodeError
     | Some ws \<Rightarrow> Inr (unwords ws))"
proof -
  let ?i = "bytes_inst (host_bytes e w)"
  have decoded: "decode e uninitialised w = Inr ?i"
    using decode_host_word [of "host_bytes e w" e uninitialised] by simp
  show ?thesis
  proof (cases "instructions isa (i_code ?i)")
    case None
    then show ?thesis
      by (simp add: decompile_word_def decoded get_instruction_info_def assembly_def)
  next
    case (Some info)
    consider "inst_nregs info = 0" | "inst_nregs info = 1" | "inst_nregs info = 2" | "inst_nregs info > 2"
      using nregs_cases by blast
    then show ?thesis
    proof cases
      case 4
      then have n: "inst_nregs info > 0" "inst_nregs info > 1" "\<not> inst_nregs info \<le> 2"
        "unat (inst_nregs info) \<ge> 3"
        by (auto simp: word_less_nat_alt word_le_nat_alt)
      then have "operand_codes info ?i = [ucast (i_first ?i), ucast (i_second ?i), ucast (i_data ?i)]"
        by (simp add: operand_codes_def)
      with n 4 Some show ?thesis
        by (simp add: decompile_word_def decoded get_instruction_info_def assembly_def
            get_register_name_def Let_def split: option.split)
    qed (simp_all add: decompile_word_def decoded get_instruction_info_def assembly_def Some
        operand_codes_def get_register_name_def Let_def split: option.split)
  qed
qed

lemma data_line_host: "length bs = 4 \<Longrightarrow> data_line e (host_word e bs) = ''0x'' @ format_hex 8 (unat (be_word bs))"
  by (cases e) (simp_all add: data_line_def host_BE)

section \<open>Properties\<close>

text \<open>Specification: the line of four bytes of object code.\<close>

definition code_line :: "'f isa \<Rightarrow> uint8 list \<Rightarrow> string" where
  "code_line isa bs =
     (case assembly isa (bytes_inst bs) of
        None \<Rightarrow> ''0x'' @ format_hex 8 (unat (be_word bs))
      | Some ws \<Rightarrow> unwords ws)"

lemma decompile_step:
  assumes "length bs = 4" and "length (file_lines f) < 2 ^ 64"
  shows "(case attempt (decompile_word e isa (host_word e bs)) (file_append f) of
      Inl CodeError \<Rightarrow> file_append f (data_line e (host_word e bs)) | r \<Rightarrow> r) =
    Inr (f\<lparr>file_lines := file_lines f @ [code_line isa bs]\<rparr>)"
proof -
  have append: "file_append f l = Inr (f\<lparr>file_lines := file_lines f @ [l]\<rparr>)" for l
    using assms(2) by (simp add: file_append_def file_insert_def unat_count)
  have "decompile_word e isa (host_word e bs) =
      (case assembly isa (bytes_inst bs) of None \<Rightarrow> Inl CodeError | Some ws \<Rightarrow> Inr (unwords ws))"
    using assms(1) by (simp add: decompile_word_assembly)
  then show ?thesis
    using assms(1) by (simp add: append code_line_def data_line_host split: option.split)
qed

lemma decompile_loop_run:
  assumes "wf_memory code" and "unat (mem_size code) = 4 * n" and "k \<le> n"
    and "length (file_lines f) = k"
  shows "decompile_loop e isa code (4 * k) f =
    Inr (f\<lparr>file_lines := file_lines f @ map (\<lambda>j. code_line isa (chunk (mem_bytes code) (4 * j) 4)) [k..<n]\<rparr>)"
  using assms(3,4)
proof (induction "n - k" arbitrary: k f)
  case 0
  then show ?case
    using assms(2) by (simp add: decompile_loop.simps)
next
  case (Suc d)
  then have k: "k < n" "4 * k < 4294967296" "d = n - Suc k"
    using assms(2) unat_size_bound [of code] by auto
  then have addr: "unat (of_nat (4 * k) :: address) = 4 * k"
    by (intro unat_of_nat_address)
  with k assms(2) have word: "get_word e code (of_nat (4 * k)) False =
      Inr (host_word e (chunk (mem_bytes code) (4 * k) 4))"
    by (simp only: get_word_raw) simp
  have len: "length (chunk (mem_bytes code) (4 * k) 4) = 4" "length (file_lines f) < 2 ^ 64"
    using k Suc.prems assms(1,2) by (simp_all add: wf_memory_def)
  have "decompile_loop e isa code (4 * k) f = decompile_loop e isa code (4 * Suc k)
      (f\<lparr>file_lines := file_lines f @ [code_line isa (chunk (mem_bytes code) (4 * k) 4)]\<rparr>)"
  proof -
    have "4 * k < unat (mem_size code)" and succ: "4 * k + 4 = 4 * Suc k"
      using k assms(2) by simp_all
    then show ?thesis
      by (subst decompile_loop.simps)
        (simp only: if_True word attempt_Inr decompile_step [OF len] succ)
  qed
  also have "\<dots> = Inr (f\<lparr>file_lines := file_lines f @
      map (\<lambda>j. code_line isa (chunk (mem_bytes code) (4 * j) 4)) (k # [Suc k..<n])\<rparr>)"
    using Suc.hyps(1) [OF k(3)] k(1) Suc.prems by simp
  finally show ?case
    using k(1) by (simp add: upt_conv_Cons)
qed

text \<open>
  C39: object code is accepted exactly when its size is a multiple of four bytes, and decompiling
  it never fails: on a host of either byte order it gives one line for each word, the assembly
  of the instruction the word encodes or its value in eight hexadecimal digits.
\<close>

theorem decompile_correct:
  assumes "wf_memory code"
  shows "case object_new isa code of
      Inl x \<Rightarrow> x = IOError \<and> unat (mem_size code) mod 4 \<noteq> 0
    | Inr obj \<Rightarrow> unat (mem_size code) mod 4 = 0 \<and>
        decompile e obj = Inr \<lparr>file_lines = map (\<lambda>k. code_line isa (chunk (mem_bytes code) (4 * k) 4))
          [0..<unat (mem_size code) div 4]\<rparr>"
proof -
  have size: "mem_size code mod 4 = 0 \<longleftrightarrow> unat (mem_size code) mod 4 = 0"
    by (simp add: word_unat_eq_iff unat_mod)
  show ?thesis
  proof (cases "unat (mem_size code) mod 4 = 0")
    case True
    then have n: "unat (mem_size code) = 4 * (unat (mem_size code) div 4)"
      by auto
    with True assms show ?thesis
      using decompile_loop_run [OF assms n, of 0 file_new e isa]
      by (simp add: object_new_def decompile_def size memory_copy_id file_new_def)
  qed (simp add: object_new_def size)
qed

theorem decompile_correct_witness:
  "\<exists>obj. object_new (isa_empty :: unit isa) \<lparr>mem_size = 4, mem_bytes = [0x12, 0x34, 0xAB, 0xCD]\<rparr> = Inr obj \<and>
    decompile LittleEndian obj = Inr \<lparr>file_lines = [''0x1234ABCD'']\<rparr>"
proof -
  let ?m = "\<lparr>mem_size = 4, mem_bytes = [0x12, 0x34, 0xAB, 0xCD]\<rparr>"
  have "wf_memory ?m"
    by (simp add: wf_memory_def)
  moreover have "code_line (isa_empty :: unit isa) (chunk (mem_bytes ?m) 0 4) = ''0x1234ABCD''"
    by (simp add: code_line_def assembly_def isa_empty_def chunk_def be_word_def format_hex_def
        hex_digits.simps hex_digit_def)
  ultimately show ?thesis
    using decompile_correct [of ?m LittleEndian "isa_empty :: unit isa"]
    by (auto split: sum.splits)
qed

section \<open>Reading the text back\<close>

definition hex_value :: "char \<Rightarrow> nat" where
  "hex_value c = length (takeWhile (\<lambda>d. d \<noteq> c) ''0123456789ABCDEF'')"

definition read_hex :: "string \<Rightarrow> nat" where
  "read_hex s = foldl (\<lambda>n c. 16 * n + hex_value c) 0 s"

lemma hex_digit_facts:
  assumes "n < 16"
  shows "hex_value (hex_digit n) = n" "hex_digit n \<noteq> CHR '' ''"
proof -
  have "list_all (\<lambda>n. hex_value (hex_digit n) = n \<and> hex_digit n \<noteq> CHR '' '') [0..<16]"
    by code_simp
  with assms show "hex_value (hex_digit n) = n" "hex_digit n \<noteq> CHR '' ''"
    by (simp_all add: list_all_iff)
qed

lemma read_hex_digits: "read_hex (hex_digits n) = n"
proof (induction n rule: hex_digits.induct)
  case (1 n)
  show ?case
  proof (cases "n < 16")
    case True
    then show ?thesis
      by (simp add: hex_digits.simps read_hex_def hex_digit_facts)
  next
    case False
    then have "hex_digits n = hex_digits (n div 16) @ [hex_digit (n mod 16)]"
      by (simp add: hex_digits.simps [of n])
    with 1 False show ?thesis
      by (simp add: read_hex_def hex_digit_facts)
  qed
qed

lemma read_format_hex [simp]: "read_hex (format_hex width n) = n"
proof -
  have zero: "foldl (\<lambda>n c. 16 * n + hex_value c) 0 (replicate k (CHR ''0'')) = 0" for k
    by (induction k) (simp_all add: hex_value_def)
  show ?thesis
    using read_hex_digits [of n] by (simp add: format_hex_def read_hex_def Let_def zero)
qed

lemma format_hex_inject [simp]: "format_hex width m = format_hex width n \<longleftrightarrow> m = n"
  by (metis read_format_hex)

lemma hex_digits_no_space: "CHR '' '' \<notin> set (hex_digits n)"
proof (induction n rule: hex_digits.induct)
  case (1 n)
  then show ?case
    using hex_digit_facts(2) [of n] hex_digit_facts(2) [of "n mod 16"]
    by (cases "n < 16") (simp_all add: hex_digits.simps [of n])
qed

lemma format_hex_no_space [simp]: "CHR '' '' \<notin> set (format_hex width n)"
  using hex_digits_no_space [of n] by (simp add: format_hex_def Let_def)

lemma append_space_inject:
  assumes "CHR '' '' \<notin> set a" and "CHR '' '' \<notin> set b" and "a @ '' '' @ x = b @ '' '' @ y"
  shows "a = b \<and> x = y"
  using assms
proof (induction a arbitrary: b)
  case Nil
  then show ?case by (cases b) auto
next
  case (Cons c a)
  then show ?case by (cases b) auto
qed

lemma unwords_inject:
  assumes "\<forall>w\<in>set ws. CHR '' '' \<notin> set w" and "\<forall>v\<in>set vs. CHR '' '' \<notin> set v"
    and "ws \<noteq> []" and "vs \<noteq> []" and "unwords ws = unwords vs"
  shows "ws = vs"
  using assms
proof (induction ws arbitrary: vs rule: unwords.induct)
  case (2 w)
  then show ?case
    by (cases vs rule: unwords.cases) auto
next
  case (3 w w' ws)
  show ?case
  proof (cases vs rule: unwords.cases)
    case (2 v)
    with 3 have "CHR '' '' \<in> set v"
      by (auto simp flip: 3(6))
    with 2 3 show ?thesis by simp
  next
    case v: (3 v v' vs')
    with 3 have "w = v \<and> unwords (w' # ws) = unwords (v' # vs')"
      by (intro append_space_inject) simp_all
    moreover from this v 3(2,3) have "w' # ws = v' # vs'"
      by (intro 3(1)) simp_all
    ultimately show ?thesis
      using v by simp
  qed (use 3 in simp)
qed simp

lemma base_names_plain:
  "registers_map (base_isa :: 'z cpu_isa) c = Some n \<Longrightarrow> CHR '' '' \<notin> set n"
  "instructions (base_isa :: 'z cpu_isa) c = Some i \<Longrightarrow>
    CHR '' '' \<notin> set (inst_name i) \<and> inst_name i \<noteq> [] \<and> hd (inst_name i) \<noteq> CHR ''0''"
proof -
  have "\<forall>(c, n)\<in>set base_registers. CHR '' '' \<notin> set n"
    by (simp add: base_registers_def)
  then show "registers_map (base_isa :: 'z cpu_isa) c = Some n \<Longrightarrow> CHR '' '' \<notin> set n"
    unfolding base_isa_facts by (auto dest: map_of_SomeD)
  have "\<forall>(c, i)\<in>set (base_instructions :: (uint8 \<times> 'z operation instruction_info) list).
      CHR '' '' \<notin> set (inst_name i) \<and> inst_name i \<noteq> [] \<and> hd (inst_name i) \<noteq> CHR ''0''"
    by (simp add: base_instructions_def base_entries_def)
  then show "instructions (base_isa :: 'z cpu_isa) c = Some i \<Longrightarrow>
    CHR '' '' \<notin> set (inst_name i) \<and> inst_name i \<noteq> [] \<and> hd (inst_name i) \<noteq> CHR ''0''"
    unfolding base_isa_facts by (auto dest: map_of_SomeD)
qed

lemma base_assembly_plain:
  assumes "assembly (base_isa :: 'z cpu_isa) i = Some ws"
  shows "ws \<noteq> []" "\<forall>w\<in>set ws. CHR '' '' \<notin> set w" "hd (unwords ws) \<noteq> CHR ''0''"
    "unwords ws \<noteq> []"
proof -
  obtain info ops where info: "instructions (base_isa :: 'z cpu_isa) (i_code i) = Some info"
    and ws: "ws = inst_name info # ops"
    using assms by (auto simp: assembly_def Let_def split: option.splits if_splits)
  have "\<forall>w\<in>set ops. CHR '' '' \<notin> set w"
    using assms info ws
    by (auto simp: assembly_def Let_def split: if_splits)
      (metis base_names_plain(1) option.exhaust_sel image_eqI)+
  with base_names_plain(2) [OF info] ws show "\<forall>w\<in>set ws. CHR '' '' \<notin> set w"
    by simp
  show "ws \<noteq> []" "hd (unwords ws) \<noteq> CHR ''0''" "unwords ws \<noteq> []"
    using base_names_plain(2) [OF info] ws by (cases ops; simp)+
qed

lemma assembly_operands:
  assumes "rtab.consistent isa" and "None \<notin> registers_map isa ` set cs"
    and "None \<notin> registers_map isa ` set ds"
    and "map (the \<circ> registers_map isa) cs = map (the \<circ> registers_map isa) ds"
  shows "cs = ds"
proof (rule map_inj_on [OF assms(4)], rule inj_onI)
  fix c d
  assume "c \<in> set cs \<union> set ds" and "d \<in> set cs \<union> set ds"
    and "(the \<circ> registers_map isa) c = (the \<circ> registers_map isa) d"
  then obtain n where "registers_map isa c = Some n" "registers_map isa d = Some n"
    using assms(2,3) by (auto simp: image_iff) (metis option.exhaust_sel)+
  from this [THEN rtab.code_of_name [OF assms(1)]] show "c = d"
    by simp
qed

text \<open>
  C40: decompiled text is unambiguous for the base instruction set: two words with the same line
  have the same instruction code, the same register operands and the same immediate data, as far
  as the instruction uses them; the line of a data word gives its value, and no instruction has
  the line of a data word.
\<close>

theorem decompile_unambiguous:
  fixes isa :: "'z cpu_isa"
  defines "isa \<equiv> base_isa"
  assumes "decompile_word e isa w = Inr line" and "decompile_word e isa w' = Inr line"
  shows "\<exists>info i i'. decode e uninitialised w = Inr i \<and> decode e uninitialised w' = Inr i' \<and>
    i_code i = i_code i' \<and> get_instruction_info isa (i_code i) = Inr info \<and>
    operand_codes info i = operand_codes info i' \<and>
    (inst_nregs info \<le> 2 \<and> inst_has_inmediate info \<longrightarrow> i_data i = i_data i') \<and>
    line \<noteq> data_line e v \<and> (data_line e v = data_line e v' \<longrightarrow> v = v')"
proof -
  let ?i = "bytes_inst (host_bytes e w)" and ?i' = "bytes_inst (host_bytes e w')"
  obtain ws vs where ws: "assembly isa ?i = Some ws" "assembly isa ?i' = Some vs"
    "unwords ws = line" "unwords vs = line"
    using assms(2,3) by (auto simp: decompile_word_assembly split: option.splits)
  note plain = ws(1,2) [unfolded isa_def, THEN base_assembly_plain(1)]
    ws(1,2) [unfolded isa_def, THEN base_assembly_plain(2)]
  have "ws = vs"
    using plain ws(3,4) by (intro unwords_inject) simp_all
  obtain info info' where info: "instructions isa (i_code ?i) = Some info"
    "instructions isa (i_code ?i') = Some info'"
    using ws(1,2) by (auto simp: assembly_def split: option.splits)
  have "inst_name info = inst_name info'"
    using ws(1,2) \<open>ws = vs\<close> info by (auto simp: assembly_def Let_def split: if_splits)
  with info have code: "i_code ?i = i_code ?i'"
    using base_isa_facts(2) [THEN itab.code_of_name] unfolding isa_def by (metis option.inject)
  then have same: "info' = info"
    using info by simp
  have len: "length (operand_codes info ?i) = length (operand_codes info ?i')"
    by (simp add: operand_codes_def)
  have ops: "None \<notin> registers_map isa ` set (operand_codes info ?i)"
    "None \<notin> registers_map isa ` set (operand_codes info ?i')"
    using ws(1,2) info same by (auto simp: assembly_def Let_def split: if_splits)
  let ?ops = "\<lambda>j. map (the \<circ> registers_map isa) (operand_codes info j) @
      (if inst_nregs info \<le> 2 \<and> inst_has_inmediate info
       then [''0x'' @ format_hex 4 (unat (i_data j))] else [])"
  have "ws = inst_name info # ?ops ?i" "vs = inst_name info # ?ops ?i'"
    using ws(1,2) info ops same by (simp_all add: assembly_def Let_def)
  with \<open>ws = vs\<close> have lists: "?ops ?i = ?ops ?i'"
    by (metis list.inject)
  then have "operand_codes info ?i = operand_codes info ?i'"
    using len ops assembly_operands [of isa] base_isa_facts(3) unfolding isa_def by auto
  moreover have "i_data ?i = i_data ?i'" if "inst_nregs info \<le> 2 \<and> inst_has_inmediate info"
    using lists len that by (auto simp: word_unat_eq_iff)
  moreover have "decode e uninitialised x = Inr (bytes_inst (host_bytes e x))" for x
    using decode_host_word [of "host_bytes e x" e uninitialised] by simp
  moreover have "line \<noteq> data_line e v"
    using base_assembly_plain(3) ws(1,3) unfolding isa_def by (fastforce simp: data_line_def)
  moreover have "v = v'" if "data_line e v = data_line e v'"
    using that by (cases e) (auto simp: data_line_def word_unat_eq_iff [symmetric]
        dest: arg_cong [of _ _ change_byte_order])
  ultimately show ?thesis
    using code info by (auto simp: get_instruction_info_def)
qed

theorem decompile_unambiguous_witness:
  "\<exists>i i'. decode LittleEndian uninitialised 0 = Inr i \<and>
    decode LittleEndian uninitialised 0xFFFFFF00 = Inr i' \<and> i_code i = i_code i'"
proof -
  have "i_code (bytes_inst (host_bytes LittleEndian 0)) = 0"
    "i_code (bytes_inst (host_bytes LittleEndian 0xFFFFFF00)) = 0"
    by (simp_all add: bytes_inst_def host_bytes_def be_bytes_def)
  then have "decompile_word LittleEndian (base_isa :: unit cpu_isa) 0 = Inr ''stop''"
    "decompile_word LittleEndian (base_isa :: unit cpu_isa) 0xFFFFFF00 = Inr ''stop''"
    by (simp_all add: decompile_word_assembly assembly_def operand_codes_def base_isa_facts
        base_instructions_def base_entries_def)
  from decompile_unambiguous [OF this, of 0 0] show ?thesis
    by blast
qed

end
