(* ===== verification/Schema.thy ===== *)
theory Schema
  imports Prelude
begin

text \<open>
  The tables of the database: the SQL text of \<open>create_tables\<close> in \<open>simpleworld/db/db.cpp\<close> as data.
  A table is the list of its rows in the order of their row ids; every row has a value in every
  column.  A \<open>CHECK\<close> fails only when its condition is false, and a \<open>RAISE\<close> of a trigger happens
  only when its condition is true: with \<open>NULL\<close> a comparison is neither.
\<close>

section \<open>Values, rows and tables\<close>

type_synonym row_id = int

text \<open>\<open>Real\<close> holds the bit pattern of a double.\<close>

datatype sql_value = Null | Integer int | Real uint64 | Bytes "uint8 list"

type_synonym row = "string \<rightharpoonup> sql_value"
type_synonym table = "(row_id \<times> row) list"
type_synonym tables = "string \<Rightarrow> table"

definition col :: "row \<Rightarrow> string \<Rightarrow> sql_value" where
  "col r c = (case r c of None \<Rightarrow> Null | Some v \<Rightarrow> v)"

text \<open>A condition on two numbers, in a \<open>CHECK\<close> and in the \<open>WHERE\<close> of a trigger.\<close>

fun check_int :: "(int \<Rightarrow> int \<Rightarrow> bool) \<Rightarrow> sql_value \<Rightarrow> sql_value \<Rightarrow> bool" where
  "check_int R (Integer a) (Integer b) = R a b"
| "check_int R _ _ = True"

fun where_int :: "(int \<Rightarrow> int \<Rightarrow> bool) \<Rightarrow> sql_value \<Rightarrow> sql_value \<Rightarrow> bool" where
  "where_int R (Integer a) (Integer b) = R a b"
| "where_int R _ _ = False"

definition at_least :: "int \<Rightarrow> row \<Rightarrow> string \<Rightarrow> bool" where
  "at_least n r c = check_int (\<le>) (Integer n) (col r c)"

text \<open>A double between 0 and 1: \<open>+0.0\<close> to \<open>1.0\<close>, or \<open>-0.0\<close>.\<close>

fun unit_interval :: "sql_value \<Rightarrow> bool" where
  "unit_interval (Real d) = (d \<le> 0x3FF0000000000000 \<or> d = 0x8000000000000000)"
| "unit_interval (Integer n) = (0 \<le> n \<and> n \<le> 1)"
| "unit_interval _ = True"

text \<open>What a foreign key does to a row when the row it refers to is deleted.\<close>

datatype on_delete = Cascade | SetNull

record table_def =
  td_columns :: "string list"
  td_nullable :: "string list"
  td_key :: string
  td_unique :: "string list list"
  td_foreign :: "(string \<times> string \<times> on_delete) list"
  td_check :: "row \<Rightarrow> bool"
  td_raise_insert :: "tables \<Rightarrow> row \<Rightarrow> bool"
  td_raise_update :: "tables \<Rightarrow> string \<Rightarrow> row \<Rightarrow> bool"
  td_after_delete :: "row \<Rightarrow> (string \<times> row_id) list"

definition plain_table :: "string list \<Rightarrow> string \<Rightarrow> table_def" where
  "plain_table columns key =
     \<lparr>td_columns = columns, td_nullable = [], td_key = key, td_unique = [], td_foreign = [],
      td_check = (\<lambda>_. True), td_raise_insert = (\<lambda>_ _. False), td_raise_update = (\<lambda>_ _ _. False),
      td_after_delete = (\<lambda>_. [])\<rparr>"

section \<open>Environment\<close>

text \<open>\<open>SELECT max(time) FROM Environment\<close>.\<close>

fun max_value :: "sql_value \<Rightarrow> sql_value \<Rightarrow> sql_value" where
  "max_value (Integer a) (Integer b) = Integer (max a b)"
| "max_value Null v = v"
| "max_value v _ = v"

definition max_time :: "tables \<Rightarrow> sql_value" where
  "max_time db = fold (\<lambda>(_, r). max_value (col r ''time'')) (db ''Environment'') Null"

text \<open>\<open>SELECT c FROM Environment WHERE time = (SELECT max(time) FROM Environment)\<close>.\<close>

definition current :: "string \<Rightarrow> tables \<Rightarrow> sql_value" where
  "current c db =
     (case filter (\<lambda>(_, r). where_int (=) (col r ''time'') (max_time db)) (db ''Environment'') of
        [] \<Rightarrow> Null
      | (_, r) # _ \<Rightarrow> col r c)"

definition environment_table :: table_def where
  "environment_table =
     (plain_table
       [''id'', ''time'', ''size_x'', ''size_y'', ''time_rot'', ''size_rot'', ''mutations_probability'',
        ''time_birth'', ''time_mutate'', ''time_laziness'', ''energy_laziness'', ''attack_multiplier'',
        ''time_nothing'', ''time_myself'', ''time_detect'', ''time_info'', ''time_move'', ''time_turn'',
        ''time_attack'', ''time_eat'', ''time_egg'', ''energy_nothing'', ''energy_myself'',
        ''energy_detect'', ''energy_info'', ''energy_move'', ''energy_turn'', ''energy_attack'',
        ''energy_eat'', ''energy_egg''] ''id'')
     \<lparr>td_check := (\<lambda>r.
        at_least 0 r ''time'' \<and> at_least 1 r ''size_x'' \<and> at_least 1 r ''size_y'' \<and>
        unit_interval (col r ''mutations_probability'') \<and>
        list_all (at_least 0 r)
          [''time_rot'', ''size_rot'', ''time_birth'', ''time_mutate'', ''time_laziness'',
           ''energy_laziness'', ''time_nothing'', ''time_myself'', ''time_detect'', ''time_info'',
           ''time_move'', ''time_turn'', ''time_attack'', ''time_eat'', ''time_egg'',
           ''energy_nothing'', ''energy_myself'', ''energy_detect'', ''energy_info'', ''energy_move'',
           ''energy_turn'', ''energy_attack'', ''energy_eat'', ''energy_egg'']),
      td_raise_insert := (\<lambda>db new.
        where_int (>) (max_time db) (col new ''time'') \<or>
        db ''Environment'' \<noteq> [] \<and>
          \<not> list_ex (\<lambda>(_, r). where_int (=) (col r ''size_x'') (col new ''size_x'') \<and>
              where_int (=) (col r ''size_y'') (col new ''size_y'')) (db ''Environment'')),
      td_raise_update := (\<lambda>db c new. c = ''time'' \<and> where_int (>) (max_time db) (col new ''time''))\<rparr>"

section \<open>World and code\<close>

text \<open>The triggers that keep a column below or at most at the size of the world.\<close>

definition beyond :: "(int \<Rightarrow> int \<Rightarrow> bool) \<Rightarrow> string \<Rightarrow> string \<Rightarrow> tables \<Rightarrow> row \<Rightarrow> bool" where
  "beyond R size_column c db new = where_int R (current size_column db) (col new c)"

definition world_table :: table_def where
  "world_table =
     (plain_table [''id'', ''position_x'', ''position_y'', ''orientation''] ''id'')
     \<lparr>td_nullable := [''orientation''],
      td_unique := [[''position_x'', ''position_y'']],
      td_check := (\<lambda>r. at_least 0 r ''position_x'' \<and> at_least 0 r ''position_y'' \<and>
        at_least 0 r ''orientation'' \<and> check_int (\<le>) (col r ''orientation'') (Integer 3)),
      td_raise_insert := (\<lambda>db new.
        beyond (\<le>) ''size_x'' ''position_x'' db new \<or> beyond (\<le>) ''size_y'' ''position_y'' db new),
      td_raise_update := (\<lambda>db c new.
        c = ''position_x'' \<and> beyond (\<le>) ''size_x'' ''position_x'' db new \<or>
        c = ''position_y'' \<and> beyond (\<le>) ''size_y'' ''position_y'' db new)\<rparr>"

text \<open>\<open>length(data)\<close> of a byte string, the only values the program binds to the column.\<close>

definition codes_table :: table_def where
  "codes_table =
     (plain_table [''id'', ''data''] ''id'')
     \<lparr>td_check := (\<lambda>r. case col r ''data'' of
        Bytes bs \<Rightarrow> length bs > 0 \<and> length bs mod 4 = 0 | v \<Rightarrow> v = Null)\<rparr>"

section \<open>Spawns and resources\<close>

text \<open>\<open>CHECK(max <= (end_x - start_x) * (end_y - start_y))\<close> and the order of the corners.\<close>

definition check_area :: "row \<Rightarrow> bool" where
  "check_area r \<longleftrightarrow>
     at_least 0 r ''start_x'' \<and> at_least 0 r ''start_y'' \<and>
     check_int (>) (col r ''end_x'') (col r ''start_x'') \<and>
     check_int (>) (col r ''end_y'') (col r ''start_y'') \<and>
     (case (col r ''max'', col r ''start_x'', col r ''start_y'', col r ''end_x'', col r ''end_y'') of
        (Integer m, Integer sx, Integer sy, Integer ex, Integer ey) \<Rightarrow> m \<le> (ex - sx) * (ey - sy)
      | _ \<Rightarrow> True)"

definition area_raise_insert :: "tables \<Rightarrow> row \<Rightarrow> bool" where
  "area_raise_insert db new \<longleftrightarrow>
     beyond (\<le>) ''size_x'' ''start_x'' db new \<or> beyond (\<le>) ''size_y'' ''start_y'' db new \<or>
     beyond (<) ''size_x'' ''end_x'' db new \<or> beyond (<) ''size_y'' ''end_y'' db new"

definition area_raise_update :: "tables \<Rightarrow> string \<Rightarrow> row \<Rightarrow> bool" where
  "area_raise_update db c new \<longleftrightarrow>
     c = ''start_x'' \<and> beyond (\<le>) ''size_x'' ''start_x'' db new \<or>
     c = ''start_y'' \<and> beyond (\<le>) ''size_y'' ''start_y'' db new \<or>
     c = ''end_x'' \<and> beyond (<) ''size_x'' ''end_x'' db new \<or>
     c = ''end_y'' \<and> beyond (<) ''size_y'' ''end_y'' db new"

definition spawn_table :: table_def where
  "spawn_table =
     (plain_table
       [''id'', ''code_id'', ''frequency'', ''start_x'', ''start_y'', ''end_x'', ''end_y'', ''max'', ''energy'']
       ''id'')
     \<lparr>td_foreign := [(''code_id'', ''Code'', Cascade)],
      td_check := (\<lambda>r. check_area r \<and> at_least 1 r ''energy''),
      td_raise_insert := area_raise_insert,
      td_raise_update := area_raise_update\<rparr>"

definition resource_table :: table_def where
  "resource_table =
     (plain_table
       [''id'', ''frequency'', ''max'', ''start_x'', ''start_y'', ''end_x'', ''end_y'', ''size''] ''id'')
     \<lparr>td_check := (\<lambda>r. at_least 1 r ''frequency'' \<and> check_area r \<and> at_least 1 r ''size''),
      td_raise_insert := area_raise_insert,
      td_raise_update := area_raise_update\<rparr>"

section \<open>Bugs\<close>

definition bug_table :: table_def where
  "bug_table =
     (plain_table [''id'', ''code_id'', ''creation'', ''father_id''] ''id'')
     \<lparr>td_nullable := [''father_id''],
      td_foreign := [(''code_id'', ''Code'', Cascade), (''father_id'', ''Bug'', SetNull)],
      td_check := (\<lambda>r. at_least 0 r ''creation''),
      td_raise_insert := (\<lambda>db new. where_int (\<noteq>) (max_time db) (col new ''creation''))\<rparr>"

definition egg_table :: table_def where
  "egg_table =
     (plain_table [''bug_id'', ''world_id'', ''energy'', ''memory_id''] ''bug_id'')
     \<lparr>td_unique := [[''world_id''], [''memory_id'']],
      td_foreign := [(''bug_id'', ''Bug'', Cascade), (''world_id'', ''World'', Cascade),
        (''memory_id'', ''Code'', Cascade)],
      td_check := (\<lambda>r. at_least 1 r ''energy'')\<rparr>"

definition registers_table :: table_def where
  "registers_table =
     (plain_table [''id'', ''data''] ''id'')
     \<lparr>td_check := (\<lambda>r. case col r ''data'' of Bytes bs \<Rightarrow> length bs = 544 | v \<Rightarrow> v = Null)\<rparr>"

definition alivebug_table :: table_def where
  "alivebug_table =
     (plain_table
       [''bug_id'', ''world_id'', ''birth'', ''energy'', ''time_last_action'', ''action_time'',
        ''registers_id'', ''memory_id''] ''bug_id'')
     \<lparr>td_nullable := [''time_last_action'', ''action_time''],
      td_unique := [[''world_id''], [''registers_id''], [''memory_id'']],
      td_foreign := [(''bug_id'', ''Bug'', Cascade), (''world_id'', ''World'', Cascade),
        (''registers_id'', ''Registers'', Cascade), (''memory_id'', ''Code'', Cascade)],
      td_check := (\<lambda>r. at_least 0 r ''time_last_action'' \<and> at_least 1 r ''action_time'' \<and>
        at_least 0 r ''birth'' \<and> at_least 1 r ''energy''),
      td_raise_insert := (\<lambda>db new.
        where_int (<) (max_time db) (col new ''time_last_action'') \<or>
        where_int (>) (max_time db) (col new ''action_time'')),
      td_raise_update := (\<lambda>db c new.
        c = ''time_last_action'' \<and> where_int (<) (max_time db) (col new ''time_last_action'') \<or>
        c = ''action_time'' \<and> where_int (>) (max_time db) (col new ''action_time'')),
      td_after_delete := (\<lambda>old. case col old ''registers_id'' of
        Integer i \<Rightarrow> [(''Registers'', i)] | _ \<Rightarrow> [])\<rparr>"

definition deadbug_table :: table_def where
  "deadbug_table =
     (plain_table [''bug_id'', ''birth'', ''death'', ''killer_id''] ''bug_id'')
     \<lparr>td_nullable := [''birth'', ''killer_id''],
      td_foreign := [(''bug_id'', ''Bug'', Cascade), (''killer_id'', ''Bug'', SetNull)],
      td_check := (\<lambda>r. at_least 0 r ''birth'' \<and> check_int (\<le>) (col r ''birth'') (col r ''death'') \<and>
        check_int (\<noteq>) (col r ''bug_id'') (col r ''killer_id''))\<rparr>"

section \<open>Mutations, food and statistics\<close>

definition mutation_values_ok :: "row \<Rightarrow> bool" where
  "mutation_values_ok r =
     (case col r ''type'' of
        Integer k \<Rightarrow>
          if k \<in> {0, 1, 2} then col r ''original'' \<noteq> Null \<and> col r ''mutated'' \<noteq> Null
          else if k \<in> {3, 4} then col r ''original'' = Null \<and> col r ''mutated'' \<noteq> Null
          else k = 5 \<and> col r ''original'' \<noteq> Null \<and> col r ''mutated'' = Null
      | _ \<Rightarrow> True)"

definition mutation_table :: table_def where
  "mutation_table =
     (plain_table [''id'', ''bug_id'', ''time'', ''type'', ''position'', ''original'', ''mutated''] ''id'')
     \<lparr>td_nullable := [''original'', ''mutated''],
      td_foreign := [(''bug_id'', ''Bug'', Cascade)],
      td_check := (\<lambda>r. at_least 0 r ''time'' \<and> at_least 0 r ''position'' \<and> at_least 0 r ''type'' \<and>
        check_int (\<le>) (col r ''type'') (Integer 5) \<and> mutation_values_ok r)\<rparr>"

definition food_table :: table_def where
  "food_table =
     (plain_table [''id'', ''time'', ''world_id'', ''size''] ''id'')
     \<lparr>td_unique := [[''world_id'']],
      td_foreign := [(''world_id'', ''World'', Cascade)],
      td_check := (\<lambda>r. at_least 0 r ''time'' \<and> at_least 0 r ''size'')\<rparr>"

text \<open>\<open>families INTEGER NO NULL\<close> is not \<open>NOT NULL\<close>: the column may be null.\<close>

definition stats_table :: table_def where
  "stats_table =
     (plain_table
       [''id'', ''time'', ''families'', ''alive'', ''eggs'', ''food'', ''energy'', ''mutations'', ''age'',
        ''last_births'', ''last_sons'', ''last_deaths'', ''last_kills'', ''last_mutations''] ''id'')
     \<lparr>td_nullable := [''families''],
      td_check := (\<lambda>r. list_all (at_least 0 r)
        [''time'', ''families'', ''alive'', ''eggs'', ''food'', ''energy'', ''mutations'', ''age'',
         ''last_births'', ''last_sons'', ''last_deaths'', ''last_kills'', ''last_mutations''])\<rparr>"

definition schema :: "(string \<times> table_def) list" where
  "schema =
     [(''Environment'', environment_table), (''World'', world_table), (''Code'', codes_table),
      (''Spawn'', spawn_table), (''Resource'', resource_table), (''Bug'', bug_table),
      (''Egg'', egg_table), (''Registers'', registers_table), (''AliveBug'', alivebug_table),
      (''DeadBug'', deadbug_table), (''Mutation'', mutation_table), (''Food'', food_table),
      (''Stats'', stats_table)]"

lemmas table_defs = environment_table_def world_table_def codes_table_def spawn_table_def
  resource_table_def bug_table_def egg_table_def registers_table_def alivebug_table_def
  deadbug_table_def mutation_table_def food_table_def stats_table_def plain_table_def

end
