(* ===== verification/Tables.thy ===== *)
theory Tables
  imports Schema
begin

text \<open>
  The statements the classes of \<open>simpleworld/db/\<close> execute, over the tables of the schema: what
  SQLite documents of \<open>SELECT\<close>, \<open>INSERT\<close>, \<open>UPDATE\<close> and \<open>DELETE\<close> of one row with constraints,
  foreign keys and triggers.  Errors of the disk or of other connections are not modelled, nor is
  what happens after the largest row id, 2^63 - 1, has been used.
\<close>

section \<open>Connections\<close>

text \<open>
  The tables, the tables at the start of the open transaction, whether a \<open>SAVEPOINT\<close> opened it,
  the savepoints with the tables they keep, the last one first, and the row id of the last
  insertion.
\<close>

record database =
  db_tables :: tables
  db_begun :: "tables option"
  db_by_savepoint :: bool
  db_savepoints :: "(string \<times> tables) list"
  db_last_id :: row_id

text \<open>\<open>RAISE(ROLLBACK, ...)\<close> in a trigger gives up the transaction; a constraint only the statement.\<close>

definition rolled_back :: "database \<Rightarrow> database" where
  "rolled_back s =
     (case db_begun s of
        None \<Rightarrow> s
      | Some db \<Rightarrow> s\<lparr>db_tables := db, db_begun := None, db_by_savepoint := False, db_savepoints := []\<rparr>)"

definition row_ids :: "table \<Rightarrow> row_id set" where
  "row_ids rows = fst ` set rows"

definition replace_row :: "row_id \<Rightarrow> row \<Rightarrow> table \<Rightarrow> table" where
  "replace_row i new rows = map (\<lambda>(j, r). (j, if j = i then new else r)) rows"

section \<open>Constraints\<close>

text \<open>The limit \<open>SQLITE_MAX_LENGTH\<close> of a value: a longer one cannot be bound.\<close>

definition max_length :: nat where
  "max_length = 1000000000"

fun value_fits :: "sql_value \<Rightarrow> bool" where
  "value_fits (Bytes bs) \<longleftrightarrow> length bs \<le> max_length"
| "value_fits _ \<longleftrightarrow> True"

definition row_ok :: "table_def \<Rightarrow> row \<Rightarrow> bool" where
  "row_ok d r \<longleftrightarrow>
     list_all (\<lambda>c. (c \<in> set (td_nullable d) \<or> col r c \<noteq> Null) \<and> value_fits (col r c)) (td_columns d) \<and>
     td_check d r"

definition unique_ok :: "table_def \<Rightarrow> row_id \<Rightarrow> row \<Rightarrow> table \<Rightarrow> bool" where
  "unique_ok d i r rows \<longleftrightarrow>
     list_all (\<lambda>cs. list_all (\<lambda>(j, q). j = i \<or>
       \<not> list_all (\<lambda>c. col q c \<noteq> Null \<and> col q c = col r c) cs) rows) (td_unique d)"

definition foreign_ok :: "table_def \<Rightarrow> row \<Rightarrow> tables \<Rightarrow> bool" where
  "foreign_ok d r db \<longleftrightarrow>
     list_all (\<lambda>(c, parent, _). case col r c of
         Integer i \<Rightarrow> i \<in> row_ids (db parent) | v \<Rightarrow> v = Null) (td_foreign d)"

section \<open>Statements\<close>

text \<open>\<open>SELECT c FROM t WHERE _ROWID_ = i\<close>, where no row is an error for the caller.\<close>

definition sql_select :: "string \<Rightarrow> string \<Rightarrow> row_id \<Rightarrow> database \<Rightarrow> exn + sql_value" where
  "sql_select t c i s =
     (case map_of schema t of
        None \<Rightarrow> Inl DBException
      | Some d \<Rightarrow>
          if c \<notin> set (td_columns d) then Inl DBException
          else (case map_of (db_tables s t) i of
                  None \<Rightarrow> Inl DBException
                | Some r \<Rightarrow> Inr (col r c)))"

text \<open>\<open>UPDATE t SET c = v WHERE _ROWID_ = i\<close>, for a column \<open>c\<close> that is not the key.\<close>

definition sql_update :: "string \<Rightarrow> string \<Rightarrow> sql_value \<Rightarrow> row_id \<Rightarrow> (database, unit) prog" where
  "sql_update t c v i = (\<lambda>s.
     case map_of schema t of
       None \<Rightarrow> (Inl DBException, s)
     | Some d \<Rightarrow>
         if c \<notin> set (td_columns d) then (Inl DBException, s)
         else (case map_of (db_tables s t) i of
                 None \<Rightarrow> (Inr (), s)
               | Some r \<Rightarrow>
                   let new = r(c \<mapsto> v);
                       db' = (db_tables s)(t := replace_row i new (db_tables s t))
                   in if td_raise_update d (db_tables s) c new then (Inl DBException, rolled_back s)
                      else if row_ok d new \<and> unique_ok d i new (db_tables s t) \<and> foreign_ok d new db'
                      then (Inr (), s\<lparr>db_tables := db'\<rparr>)
                      else (Inl DBException, s)))"

text \<open>
  \<open>INSERT INTO t(...) VALUES (...)\<close> followed by \<open>sqlite3_last_insert_rowid\<close>: the key is the value
  given for it, or one more than the largest in use.
\<close>

definition next_row_id :: "table \<Rightarrow> row_id" where
  "next_row_id rows = (if rows = [] then 1 else fst (last rows) + 1)"

definition new_row :: "table_def \<Rightarrow> row_id \<Rightarrow> (string \<times> sql_value) list \<Rightarrow> row" where
  "new_row d i vals = (\<lambda>c.
     if c \<notin> set (td_columns d) then None
     else if c = td_key d then Some (Integer i)
     else (case map_of vals c of None \<Rightarrow> Some Null | Some v \<Rightarrow> Some v))"

definition insert_id :: "table_def \<Rightarrow> (string \<times> sql_value) list \<Rightarrow> table \<Rightarrow> row_id" where
  "insert_id d vals rows =
     (case map_of vals (td_key d) of Some (Integer k) \<Rightarrow> k | _ \<Rightarrow> next_row_id rows)"

definition sql_insert :: "string \<Rightarrow> (string \<times> sql_value) list \<Rightarrow> (database, row_id) prog" where
  "sql_insert t vals = (\<lambda>s.
     case map_of schema t of
       None \<Rightarrow> (Inl DBException, s)
     | Some d \<Rightarrow>
         let i = insert_id d vals (db_tables s t);
             new = new_row d i vals;
             db' = (db_tables s)(t := insort_key fst (i, new) (db_tables s t))
         in if \<not> set (map fst vals) \<subseteq> set (td_columns d) then (Inl DBException, s)
            else if td_raise_insert d (db_tables s) new then (Inl DBException, rolled_back s)
            else if i \<notin> row_ids (db_tables s t) \<and> row_ok d new \<and>
              unique_ok d i new (db_tables s t) \<and> foreign_ok d new db'
            then (Inr i, s\<lparr>db_tables := db', db_last_id := i\<rparr>)
            else (Inl DBException, s))"

text \<open>
  \<open>DELETE FROM t WHERE _ROWID_ = i\<close>: the rows that refer to a deleted row are deleted too or their
  reference is set to null, as the foreign key says, and the triggers delete further rows.
\<close>

definition drop_row :: "string \<Rightarrow> row_id \<Rightarrow> tables \<Rightarrow> tables" where
  "drop_row t i db = db(t := filter (\<lambda>(j, _). j \<noteq> i) (db t))"

definition referring :: "string \<Rightarrow> row_id \<Rightarrow> tables \<Rightarrow> (string \<times> row_id) list" where
  "referring t i db =
     concat (map (\<lambda>(child, d). concat (map (\<lambda>(c, parent, action).
       if parent = t \<and> action = Cascade
       then map (\<lambda>(j, _). (child, j)) (filter (\<lambda>(_, r). col r c = Integer i) (db child))
       else []) (td_foreign d))) schema)"

definition null_references :: "string \<Rightarrow> row_id \<Rightarrow> tables \<Rightarrow> tables" where
  "null_references t i db = (\<lambda>child.
     case map_of schema child of
       None \<Rightarrow> db child
     | Some d \<Rightarrow> fold (\<lambda>(c, parent, action) rows.
         if parent = t \<and> action = SetNull
         then map (\<lambda>(j, r). (j, if col r c = Integer i then r(c \<mapsto> Null) else r)) rows
         else rows) (td_foreign d) (db child))"

definition find_row :: "string \<Rightarrow> row_id \<Rightarrow> tables \<Rightarrow> (table_def \<times> row) option" where
  "find_row t i db =
     (case map_of schema t of
        None \<Rightarrow> None
      | Some d \<Rightarrow> (case map_of (db t) i of None \<Rightarrow> None | Some r \<Rightarrow> Some (d, r)))"

definition total_rows :: "tables \<Rightarrow> nat" where
  "total_rows db = (\<Sum>(t, _)\<leftarrow>schema. length (db t))"

lemma length_null_references [simp]: "length (null_references t i db child) = length (db child)"
proof -
  have "length (fold (\<lambda>(c, parent, action) rows.
         if parent = t \<and> action = SetNull
         then map (\<lambda>(j, r). (j, if col r c = Integer i then r(c \<mapsto> Null) else r)) rows
         else rows) fks rows) = length rows" for fks :: "(string \<times> string \<times> on_delete) list" and rows :: table
    by (induction fks arbitrary: rows) auto
  then show ?thesis
    by (simp add: null_references_def split: option.split)
qed

lemma total_rows_null_references [simp]: "total_rows (null_references t i db) = total_rows db"
  by (simp add: total_rows_def)

lemma sum_list_less:
  fixes f g :: "'a \<Rightarrow> nat"
  assumes "\<And>x. x \<in> set xs \<Longrightarrow> f x \<le> g x" and "x \<in> set xs" and "f x < g x"
  shows "sum_list (map f xs) < sum_list (map g xs)"
  using assms
proof (induction xs)
  case (Cons y ys)
  have "sum_list (map f ys) \<le> sum_list (map g ys)"
    using Cons.prems(1) by (intro sum_list_mono) simp
  with Cons show ?case
    by (cases "x = y") (force intro: add_less_le_mono add_le_less_mono)+
qed simp

lemma total_rows_drop:
  assumes "find_row t i db = Some (d, r)"
  shows "total_rows (drop_row t i db) < total_rows db"
proof -
  have t: "(t, d) \<in> set schema" and r: "(i, r) \<in> set (db t)"
    using assms by (auto simp: find_row_def split: option.splits dest: map_of_SomeD)
  have "length (filter (\<lambda>(j, _). j \<noteq> i) (db t)) < length (db t)"
    using r by (intro length_filter_less) auto
  then have less: "length (drop_row t i db t) < length (db t)"
    by (simp add: drop_row_def)
  show ?thesis
    unfolding total_rows_def
    by (rule sum_list_less [of schema _ _ "(t, d)"]) (use t less in \<open>auto simp: drop_row_def\<close>)
qed

function cascade :: "(string \<times> row_id) list \<Rightarrow> tables \<Rightarrow> tables" where
  "cascade [] db = db"
| "cascade ((t, i) # work) db =
     (case find_row t i db of
        None \<Rightarrow> cascade work db
      | Some (d, r) \<Rightarrow>
          cascade (referring t i db @ td_after_delete d r @ work) (null_references t i (drop_row t i db)))"
  by pat_completeness auto

termination
  by (relation "measures [\<lambda>(work, db). total_rows db, \<lambda>(work, db). length work]")
    (auto simp: total_rows_drop)

definition sql_delete :: "string \<Rightarrow> row_id \<Rightarrow> (database, unit) prog" where
  "sql_delete t i = (\<lambda>s.
     if map_of schema t = None then (Inl DBException, s)
     else (Inr (), s\<lparr>db_tables := cascade [(t, i)] (db_tables s)\<rparr>))"

text \<open>
  \<open>UPDATE t SET key = k WHERE key = i\<close>: the references to the row follow it
  (\<open>ON UPDATE CASCADE\<close>); no table refers to a table whose own key is such a reference.
\<close>

definition move_row :: "row_id \<Rightarrow> row_id \<Rightarrow> table_def \<Rightarrow> table \<Rightarrow> table" where
  "move_row i k d rows =
     (case map_of rows i of
        None \<Rightarrow> rows
      | Some r \<Rightarrow> insort_key fst (k, r(td_key d \<mapsto> Integer k)) (filter (\<lambda>(j, _). j \<noteq> i) rows))"

definition move_references :: "string \<Rightarrow> row_id \<Rightarrow> row_id \<Rightarrow> tables \<Rightarrow> tables" where
  "move_references t i k db = (\<lambda>child.
     case map_of schema child of
       None \<Rightarrow> db child
     | Some d \<Rightarrow> fold (\<lambda>(c, parent, _) rows.
         if parent \<noteq> t then rows
         else if c = td_key d then move_row i k d rows
         else map (\<lambda>(j, r). (j, if col r c = Integer i then r(c \<mapsto> Integer k) else r)) rows)
         (td_foreign d) (db child))"

definition sql_rename :: "string \<Rightarrow> row_id \<Rightarrow> row_id \<Rightarrow> (database, unit) prog" where
  "sql_rename t k i = (\<lambda>s.
     case map_of schema t of
       None \<Rightarrow> (Inl DBException, s)
     | Some d \<Rightarrow>
         (case map_of (db_tables s t) i of
            None \<Rightarrow> (Inr (), s)
          | Some r \<Rightarrow>
              let new = r(td_key d \<mapsto> Integer k);
                  db' = (db_tables s)(t := move_row i k d (db_tables s t))
              in if k \<noteq> i \<and> k \<in> row_ids (db_tables s t) \<or> \<not> row_ok d new \<or> \<not> foreign_ok d new db'
                 then (Inl DBException, s)
                 else (Inr (), s\<lparr>db_tables := move_references t i k db'\<rparr>)))"

section \<open>Binding and reading columns\<close>

text \<open>
  \<open>sqlite3_bind_int\<close> takes a signed \<open>int\<close>: a \<open>Uint32\<close> from 2^31 on is stored as a negative number,
  and \<open>sqlite3_column_int\<close> turns it back.  Reading \<open>NULL\<close> as a number gives 0.
\<close>

definition bind_int :: "uint32 \<Rightarrow> sql_value" where
  "bind_int w = Integer (sint w)"

definition bind_short :: "uint16 \<Rightarrow> sql_value" where
  "bind_short w = Integer (uint w)"

fun integer_of :: "sql_value \<Rightarrow> int" where
  "integer_of (Integer n) = n"
| "integer_of _ = 0"

fun double_of :: "sql_value \<Rightarrow> uint64" where
  "double_of (Real d) = d"
| "double_of _ = 0"

definition column_int :: "string \<Rightarrow> string \<Rightarrow> row_id \<Rightarrow> (database, 'a::len word) prog" where
  "column_int t c i = reading (\<lambda>s. attempt (sql_select t c i s) (\<lambda>v. Inr (word_of_int (integer_of v))))"

definition column_int64 :: "string \<Rightarrow> string \<Rightarrow> row_id \<Rightarrow> (database, row_id) prog" where
  "column_int64 t c i = reading (\<lambda>s. attempt (sql_select t c i s) (\<lambda>v. Inr (integer_of v)))"

definition column_double :: "string \<Rightarrow> string \<Rightarrow> row_id \<Rightarrow> (database, uint64) prog" where
  "column_double t c i = reading (\<lambda>s. attempt (sql_select t c i s) (\<lambda>v. Inr (double_of v)))"

text \<open>\<open>Table::is_null\<close> and \<open>Table::set_null\<close> of \<open>simpleworld/db/table.cpp\<close>, for the table \<open>t\<close>.\<close>

definition is_null :: "string \<Rightarrow> string \<Rightarrow> row_id \<Rightarrow> (database, bool) prog" where
  "is_null t colname i = reading (\<lambda>s. attempt (sql_select t colname i s) (\<lambda>v. Inr (v = Null)))"

definition set_null :: "string \<Rightarrow> string \<Rightarrow> row_id \<Rightarrow> (database, unit) prog" where
  "set_null t colname i = sql_update t colname Null i"

section \<open>Lemmas\<close>

lemma map_of_replace_row [simp]:
  "map_of (replace_row i new rows) j =
    (if j = i \<and> map_of rows i \<noteq> None then Some new else map_of rows j)"
  by (induction rows) (auto simp: replace_row_def)

lemma row_ids_replace_row [simp]: "row_ids (replace_row i new rows) = row_ids rows"
  by (force simp: row_ids_def replace_row_def)

lemma row_ids_map_of: "i \<in> row_ids rows \<longleftrightarrow> map_of rows i \<noteq> None"
  by (simp add: row_ids_def map_of_eq_None_iff)

lemma col_upd [simp]: "col (r(c \<mapsto> v)) c' = (if c' = c then v else col r c')"
  by (simp add: col_def)

end
