(* ===== verification/Blob.thy ===== *)
theory Blob
  imports Tables
begin

text \<open>
  \<open>simpleworld/db/blob.cpp\<close>: byte strings kept in a column of a row of the database.  The
  statements of the class read and write the tables of the database.
\<close>

section \<open>The class Blob\<close>

record blob =
  blob_table :: string
  blob_column :: string
  blob_id :: row_id

text \<open>
  The columns the program opens hold byte strings, or \<open>NULL\<close>, which reads as the empty string.
\<close>

fun bytes_of :: "sql_value \<Rightarrow> uint8 list" where
  "bytes_of (Bytes bs) = bs"
| "bytes_of _ = []"

definition blob_cell :: "blob \<Rightarrow> database \<Rightarrow> exn + sql_value" where
  "blob_cell b = sql_select (blob_table b) (blob_column b) (blob_id b)"

definition blob_size :: "blob \<Rightarrow> database \<Rightarrow> exn + uint32" where
  "blob_size b db = attempt (blob_cell b db) (\<lambda>v. Inr (of_nat (length (bytes_of v))))"

text \<open>\<open>read(Uint32* size)\<close>: the data and the size.\<close>

definition blob_read :: "blob \<Rightarrow> database \<Rightarrow> exn + (uint8 list \<times> uint32)" where
  "blob_read b db =
     attempt (blob_cell b db) (\<lambda>v. Inr (bytes_of v, of_nat (length (bytes_of v))))"

text \<open>
  Incremental access: \<open>sqlite3_blob_open\<close> fails without the row or on a value that is no byte
  string, and reading or writing fails with a negative argument (both are \<open>int\<close>s) and outside the
  current size of the value.  Writing this way checks no constraint.
\<close>

definition incremental_ok :: "uint8 list \<Rightarrow> uint32 \<Rightarrow> uint32 \<Rightarrow> bool" where
  "incremental_ok bs n offset \<longleftrightarrow>
     0 \<le> sint n \<and> 0 \<le> sint offset \<and> sint offset + sint n \<le> int (length bs)"

definition blob_read_part :: "blob \<Rightarrow> uint32 \<Rightarrow> uint32 \<Rightarrow> database \<Rightarrow> exn + uint8 list" where
  "blob_read_part b n offset db =
     attempt (blob_cell b db) (\<lambda>v.
     case v of
       Bytes bs \<Rightarrow> if incremental_ok bs n offset then Inr (chunk bs (unat offset) (unat n))
                  else Inl DBException
     | _ \<Rightarrow> Inl DBException)"

text \<open>\<open>write(data, size)\<close>: an \<open>UPDATE\<close>, which changes nothing when there is no such row.\<close>

definition blob_write :: "blob \<Rightarrow> uint8 list \<Rightarrow> (database, unit) prog" where
  "blob_write b data = sql_update (blob_table b) (blob_column b) (Bytes data) (blob_id b)"

definition put_bytes :: "blob \<Rightarrow> uint8 list \<Rightarrow> database \<Rightarrow> database" where
  "put_bytes b data s =
     (case map_of (db_tables s (blob_table b)) (blob_id b) of
        None \<Rightarrow> s
      | Some r \<Rightarrow> s\<lparr>db_tables := (db_tables s)(blob_table b :=
          replace_row (blob_id b) (r(blob_column b \<mapsto> Bytes data)) (db_tables s (blob_table b)))\<rparr>)"

definition blob_write_part :: "blob \<Rightarrow> uint8 list \<Rightarrow> uint32 \<Rightarrow> (database, unit) prog" where
  "blob_write_part b data offset = updating (\<lambda>db.
     attempt (blob_cell b db) (\<lambda>v.
     case v of
       Bytes bs \<Rightarrow>
         if incremental_ok bs (of_nat (length data)) offset
         then Inr (put_bytes b (blit bs (unat offset) data) db)
         else Inl DBException
     | _ \<Rightarrow> Inl DBException))"

section \<open>Lemmas\<close>

text \<open>The value a blob refers to.\<close>

definition blob_value :: "blob \<Rightarrow> database \<Rightarrow> uint8 list option" where
  "blob_value b db = (case blob_cell b db of Inr (Bytes bs) \<Rightarrow> Some bs | _ \<Rightarrow> None)"

lemma blob_value_cell: "blob_value b db = Some bs \<longleftrightarrow> blob_cell b db = Inr (Bytes bs)"
  by (auto simp: blob_value_def split: sum.splits sql_value.splits)

lemma blob_read_value:
  "blob_value b db = Some bs \<Longrightarrow> blob_read b db = Inr (bs, of_nat (length bs))"
  by (simp add: blob_value_cell blob_read_def)

lemma blob_size_value: "blob_value b db = Some bs \<Longrightarrow> blob_size b db = Inr (of_nat (length bs))"
  by (simp add: blob_value_cell blob_size_def)

lemma blob_read_missing:
  "blob_cell b db = Inl x \<Longrightarrow> blob_read b db = Inl DBException"
  by (auto simp: blob_read_def blob_cell_def sql_select_def split: option.splits if_splits)

text \<open>The row and the column of a blob that has a value.\<close>

lemma blob_cellD:
  assumes "blob_cell b db = Inr v"
  obtains d r where "map_of schema (blob_table b) = Some d" "blob_column b \<in> set (td_columns d)"
    "map_of (db_tables db (blob_table b)) (blob_id b) = Some r" "col r (blob_column b) = v"
  using assms by (auto simp: blob_cell_def sql_select_def split: option.splits if_splits)

lemma blob_eq: "c = b \<longleftrightarrow> blob_table c = blob_table b \<and> blob_column c = blob_column b \<and> blob_id c = blob_id b"
  for b c :: blob
  by (cases b; cases c) simp

text \<open>What a write does to every value of the database.\<close>

lemma blob_cell_put_bytes:
  assumes "blob_cell b db = Inr v"
  shows "blob_cell c (put_bytes b data db) = (if c = b then Inr (Bytes data) else blob_cell c db)"
  using assms by (auto elim!: blob_cellD simp: blob_cell_def sql_select_def put_bytes_def blob_eq
      split: option.splits)

lemma blob_value_put_bytes:
  assumes "blob_value b db = Some bs"
  shows "blob_value c (put_bytes b data db) = (if c = b then Some data else blob_value c db)"
  using blob_cell_put_bytes [of b db "Bytes bs"] assms by (simp add: blob_value_cell) (simp add: blob_value_def)

text \<open>The \<open>UPDATE\<close> of the whole value is accepted by the constraints of the table.\<close>

definition accepts :: "blob \<Rightarrow> uint8 list \<Rightarrow> database \<Rightarrow> bool" where
  "accepts b data db \<longleftrightarrow> fst (blob_write b data db) = Inr ()"

lemma blob_write_accepted:
  assumes "blob_value b db = Some bs" and "accepts b data db"
  shows "blob_write b data db = (Inr (), put_bytes b data db)"
  using assms by (auto elim!: blob_cellD simp: blob_value_cell accepts_def blob_write_def sql_update_def
      put_bytes_def Let_def split: if_splits)

lemma blob_write_value:
  assumes "blob_value b db = Some bs" and "accepts b data db"
  shows "\<exists>db'. blob_write b data db = (Inr (), db') \<and>
    (\<forall>c. blob_value c db' = (if c = b then Some data else blob_value c db))"
  using blob_write_accepted [OF assms] blob_value_put_bytes [OF assms(1)] by blast

text \<open>The blobs of the program: the code and the registers of the bugs, with the sizes their tables check.\<close>

definition data_size_ok :: "blob \<Rightarrow> nat \<Rightarrow> bool" where
  "data_size_ok b n \<longleftrightarrow>
     (if blob_table b = ''Code'' then 0 < n \<and> n mod 4 = 0 \<and> n \<le> max_length else n = 544)"

definition memory_row :: "blob \<Rightarrow> database \<Rightarrow> bool" where
  "memory_row b db \<longleftrightarrow> blob_column b = ''data'' \<and> blob_table b \<in> {''Code'', ''Registers''} \<and>
     (\<exists>r. map_of (db_tables db (blob_table b)) (blob_id b) = Some r \<and> (\<exists>i. col r ''id'' = Integer i))"

lemma memory_row_put_bytes [simp]: "memory_row b db \<Longrightarrow> memory_row b (put_bytes b data db)"
  by (auto simp: memory_row_def put_bytes_def)

lemma memory_blob_write:
  assumes "memory_row b db"
  shows "blob_write b data db =
    (if data_size_ok b (length data) then (Inr (), put_bytes b data db) else (Inl DBException, db))"
  using assms
  by (auto simp: memory_row_def blob_write_def sql_update_def schema_def table_defs row_ok_def
      unique_ok_def foreign_ok_def data_size_ok_def put_bytes_def Let_def max_length_def)

lemma accepts_memory_row: "memory_row b db \<Longrightarrow> accepts b data db \<longleftrightarrow> data_size_ok b (length data)"
  by (simp add: accepts_def memory_blob_write)

lemma sint_uint32: "sint (w :: uint32) = uint w - (if bit w 31 then 2 ^ 32 else 0)"
proof -
  have "take_bit 32 (uint w) = uint w"
    by (rule bintr_uint) simp
  then show ?thesis
    by (simp add: sint_uint signed_take_bit_eq_take_bit_minus bit_uint_iff)
qed

lemma sint_small: "uint (w :: uint32) < 2 ^ 31 \<Longrightarrow> sint w = uint w"
  using sint_ge [of w] by (simp add: sint_uint32 split: if_splits)

lemma sint_large: "\<not> uint (w :: uint32) < 2 ^ 31 \<Longrightarrow> sint w < 0"
  using sint_lt [of w] unsigned_less [of w, where ?'a = int] by (simp add: sint_uint32 split: if_splits)

lemma incremental_ok_iff:
  assumes "length bs < 2 ^ 31" and "length data < 2 ^ 31"
  shows "incremental_ok bs (of_nat (length data)) offset \<longleftrightarrow> unat offset + length data \<le> length bs"
proof -
  have "uint (of_nat (length data) :: uint32) = int (length data)"
    using assms(2) by (simp add: unsigned_of_nat take_bit_nat_eq_self_iff)
  then have n: "sint (of_nat (length data) :: uint32) = int (length data)"
    using assms(2) by (simp add: sint_small)
  have "unat offset + length data \<le> length bs \<longleftrightarrow> uint offset + int (length data) \<le> int (length bs)"
    by (metis of_nat_add of_nat_le_iff uint_nat)
  then show ?thesis
    using assms n sint_small [of offset] sint_large [of offset]
    by (cases "uint offset < 2 ^ 31") (auto simp: incremental_ok_def)
qed

lemma blob_write_part_value:
  assumes "blob_value b db = Some bs" and "length bs < 2 ^ 31" and "length data < 2 ^ 31"
  shows "if unat offset + length data \<le> length bs
    then \<exists>db'. blob_write_part b data offset db = (Inr (), db') \<and>
      (\<forall>c. blob_value c db' = (if c = b then Some (blit bs (unat offset) data) else blob_value c db))
    else blob_write_part b data offset db = (Inl DBException, db)"
proof -
  have "blob_write_part b data offset db =
      (if unat offset + length data \<le> length bs
       then (Inr (), put_bytes b (blit bs (unat offset) data) db) else (Inl DBException, db))"
    using assms(1) incremental_ok_iff [OF assms(2,3)] by (simp add: blob_write_part_def blob_value_cell)
  then show ?thesis
    using blob_value_put_bytes [OF assms(1)] by auto
qed

end
