(* ===== verification/DBMemory.thy ===== *)
theory DBMemory
  imports Memory Blob
begin

text \<open>
  \<open>simpleworld/dbmemory.cpp\<close>: the memory of a bug, a \<open>Memory\<close> whose every change is also written
  to a blob of the database.  It provides the interface \<open>word_store\<close> as \<open>Memory\<close> does, as long as
  the blob holds the bytes of the memory.
\<close>

section \<open>The class DBMemory\<close>

text \<open>The object, with the database its blob \<open>b\<close> lives in.\<close>

record dbmemory =
  dm_memory :: memory
  dm_db :: database

definition on_memory :: "(memory \<Rightarrow> exn + memory) \<Rightarrow> (dbmemory, unit) prog" where
  "on_memory f = updating (\<lambda>s. attempt (f (dm_memory s)) (\<lambda>m. Inr (s\<lparr>dm_memory := m\<rparr>)))"

definition on_db :: "(database, unit) prog \<Rightarrow> (dbmemory, unit) prog" where
  "on_db p = (\<lambda>s. case p (dm_db s) of (r, db) \<Rightarrow> (r, s\<lparr>dm_db := db\<rparr>))"

definition dm_update :: "blob \<Rightarrow> (dbmemory, unit) prog" where
  "dm_update b =
     andthen (reading (\<lambda>s. blob_read b (dm_db s))) (\<lambda>(data, size).
     andthen (on_memory (\<lambda>m. Inr (memory_resize m size))) (\<lambda>_.
     on_memory (\<lambda>m. Inr (m\<lparr>mem_bytes := blit (mem_bytes m) 0 (take (unat size) data)\<rparr>))))"

definition dbmemory_new :: "blob \<Rightarrow> database \<Rightarrow> (exn + unit) \<times> dbmemory" where
  "dbmemory_new b db = dm_update b \<lparr>dm_memory = memory_new 0, dm_db = db\<rparr>"

text \<open>\<open>blob_.write(memory_, n)\<close>.\<close>

definition write_all :: "blob \<Rightarrow> address \<Rightarrow> (dbmemory, unit) prog" where
  "write_all b n =
     andthen (reading (\<lambda>s. Inr (take (unat n) (mem_bytes (dm_memory s)))))
       (\<lambda>data. on_db (blob_write b data))"

definition dm_resize :: "blob \<Rightarrow> address \<Rightarrow> (dbmemory, unit) prog" where
  "dm_resize b sz =
     andthen (on_memory (\<lambda>m. Inr (memory_resize m sz))) (\<lambda>_. write_all b sz)"

text \<open>The value is swapped for the blob on every host, whatever \<open>Memory\<close> does.\<close>

definition dm_set_word ::
    "endian \<Rightarrow> blob \<Rightarrow> address \<Rightarrow> cpu_word \<Rightarrow> bool \<Rightarrow> (dbmemory, unit) prog" where
  "dm_set_word e b address value system_endian =
     andthen (on_memory (\<lambda>m. set_word e m address value system_endian)) (\<lambda>_.
     let v = (if system_endian then change_byte_order value else value)
     in on_db (blob_write_part b (host_bytes e v) address))"

definition dm_set_halfword ::
    "endian \<Rightarrow> blob \<Rightarrow> address \<Rightarrow> half_word \<Rightarrow> bool \<Rightarrow> (dbmemory, unit) prog" where
  "dm_set_halfword e b address value system_endian =
     andthen (on_memory (\<lambda>m. set_halfword e m address value system_endian)) (\<lambda>_.
     let v = (if system_endian then change_byte_order_h value else value)
     in on_db (blob_write_part b (host_bytes_h e v) address))"

definition dm_set_quarterword :: "blob \<Rightarrow> address \<Rightarrow> quarter_word \<Rightarrow> (dbmemory, unit) prog" where
  "dm_set_quarterword b address value =
     andthen (on_memory (\<lambda>m. set_quarterword m address value)) (\<lambda>_.
     on_db (blob_write_part b [value] address))"

text \<open>\<open>Memory::assign\<close> calls the virtual \<open>resize\<close>.\<close>

definition dm_assign :: "blob \<Rightarrow> memory \<Rightarrow> (dbmemory, unit) prog" where
  "dm_assign b m =
     andthen (dm_resize b (mem_size m)) (\<lambda>_.
     andthen (on_memory (\<lambda>this. Inr (this\<lparr>mem_bytes :=
        blit (mem_bytes this) 0 (take (unat (mem_size this)) (mem_bytes m))\<rparr>))) (\<lambda>_.
     write_all b (mem_size m)))"

section \<open>Coherence of the memory and its blob\<close>

text \<open>Sizes stay below \<open>2^31\<close>, the limit of the values of SQLite.\<close>

definition coherent :: "blob \<Rightarrow> dbmemory \<Rightarrow> bool" where
  "coherent b s \<longleftrightarrow> wf_memory (dm_memory s) \<and> unat (mem_size (dm_memory s)) < 2 ^ 31 \<and>
     blob_value b (dm_db s) = Some (mem_bytes (dm_memory s))"

text \<open>Nothing but the blob changes in the database.\<close>

definition only_blob :: "blob \<Rightarrow> database \<Rightarrow> database \<Rightarrow> bool" where
  "only_blob b db db' \<longleftrightarrow> (\<forall>c. c \<noteq> b \<longrightarrow> blob_value c db' = blob_value c db)"

text \<open>A store of bytes into the memory, then of the same bytes into the blob.\<close>

lemma store_coherent:
  assumes "coherent b s" and "unat a + length bs \<le> unat (mem_size (dm_memory s))"
  defines "m \<equiv> (dm_memory s)\<lparr>mem_bytes := blit (mem_bytes (dm_memory s)) (unat a) bs\<rparr>"
  shows "\<exists>s'. on_db (blob_write_part b bs a) (s\<lparr>dm_memory := m\<rparr>) = (Inr (), s') \<and>
    dm_memory s' = m \<and> coherent b s' \<and> only_blob b (dm_db s) (dm_db s')"
proof -
  have s: "wf_memory (dm_memory s)" "unat (mem_size (dm_memory s)) < 2 ^ 31"
    "blob_value b (dm_db s) = Some (mem_bytes (dm_memory s))"
    "length (mem_bytes (dm_memory s)) = unat (mem_size (dm_memory s))"
    using assms(1) by (auto simp: coherent_def wf_memory_def)
  with assms(2) obtain db' where db': "blob_write_part b bs a (dm_db s) = (Inr (), db')"
    "\<forall>c. blob_value c db' = (if c = b then Some (blit (mem_bytes (dm_memory s)) (unat a) bs)
        else blob_value c (dm_db s))"
    using blob_write_part_value [OF s(3), of bs a] by auto
  then show ?thesis
    using s assms(2) by (intro exI [of _ "s\<lparr>dm_memory := m, dm_db := db'\<rparr>"])
      (simp add: on_db_def m_def coherent_def only_blob_def)
qed

lemma write_all_coherent:
  assumes "wf_memory (dm_memory s)" and "unat (mem_size (dm_memory s)) < 2 ^ 31"
    and "blob_value b (dm_db s) \<noteq> None" and "n = mem_size (dm_memory s)"
    and "memory_row b (dm_db s)" and "data_size_ok b (unat n)"
  shows "\<exists>s'. write_all b n s = (Inr (), s') \<and> dm_memory s' = dm_memory s \<and> coherent b s' \<and>
    only_blob b (dm_db s) (dm_db s') \<and> memory_row b (dm_db s')"
proof -
  let ?bs = "mem_bytes (dm_memory s)"
  obtain old where old: "blob_value b (dm_db s) = Some old"
    using assms(3) by blast
  have bs: "length ?bs = unat n" "take (unat n) ?bs = ?bs"
    using assms(1,4) by (simp_all add: wf_memory_def)
  then have "blob_write b ?bs (dm_db s) = (Inr (), put_bytes b ?bs (dm_db s))"
    using assms(5,6) by (simp add: memory_blob_write)
  then show ?thesis
    using assms(1,2,5) bs blob_value_put_bytes [OF old]
    by (intro exI [of _ "s\<lparr>dm_db := put_bytes b ?bs (dm_db s)\<rparr>"])
      (simp add: write_all_def on_db_def coherent_def only_blob_def)
qed

lemma only_blob_trans: "only_blob b db1 db2 \<Longrightarrow> only_blob b db2 db3 \<Longrightarrow> only_blob b db1 db3"
  by (simp add: only_blob_def)

section \<open>DBMemory refines Memory\<close>

text \<open>
  What an operation of \<open>DBMemory\<close> owes to the operation of \<open>Memory\<close> it overrides: the same
  exception and no effect, or the same memory, with the blob brought up to date.
\<close>

definition refines ::
    "blob \<Rightarrow> (dbmemory, unit) prog \<Rightarrow> (memory \<Rightarrow> exn + memory) \<Rightarrow> dbmemory \<Rightarrow> bool" where
  "refines b p f s \<longleftrightarrow>
     (case f (dm_memory s) of
        Inl x \<Rightarrow> p s = (Inl x, s)
      | Inr m \<Rightarrow> \<exists>s'. p s = (Inr (), s') \<and> dm_memory s' = m \<and> coherent b s' \<and>
          only_blob b (dm_db s) (dm_db s'))"

lemma store_refines:
  assumes "coherent b s"
    and "f (dm_memory s) =
      (if unat a + length bs \<le> unat (mem_size (dm_memory s))
       then Inr ((dm_memory s)\<lparr>mem_bytes := blit (mem_bytes (dm_memory s)) (unat a) bs\<rparr>)
       else Inl (MemoryError a))"
    and "p = andthen (on_memory f) (\<lambda>_. on_db (blob_write_part b bs a))"
  shows "refines b p f s"
  using store_coherent [OF assms(1), of a bs]
  by (simp add: refines_def assms(2,3) on_memory_def)

lemma set_word_refines:
  assumes "coherent b s"
  shows "refines b (dm_set_word LittleEndian b a v sys) (\<lambda>m. set_word LittleEndian m a v sys) s"
  by (rule store_refines [OF assms, of _ a
      "if sys then be_bytes v else host_bytes LittleEndian v"])
    (auto simp: dm_set_word_def set_word_system set_word_raw)

lemma set_halfword_refines:
  assumes "coherent b s"
  shows "refines b (dm_set_halfword LittleEndian b a v sys) (\<lambda>m. set_halfword LittleEndian m a v sys) s"
  by (rule store_refines [OF assms, of _ a
      "if sys then be_bytes_h v else host_bytes_h LittleEndian v"])
    (auto simp: dm_set_halfword_def set_halfword_def out_of_range_iff)

lemma blit_single: "i < length xs \<Longrightarrow> blit xs i [x] = xs[i := x]"
  by (simp add: blit_def upd_conv_take_nth_drop)

lemma set_quarterword_refines:
  assumes "coherent b s"
  shows "refines b (dm_set_quarterword b a v) (\<lambda>m. set_quarterword m a v) s"
  using assms
  by (intro store_refines [OF assms, of _ a "[v]"])
    (auto simp: dm_set_quarterword_def set_quarterword_def out_of_range_iff blit_single coherent_def
      wf_memory_def)

lemma resize_run:
  assumes "coherent b s" and "unat sz < 2 ^ 31" and "memory_row b (dm_db s)" and "data_size_ok b (unat sz)"
  shows "\<exists>s'. dm_resize b sz s = (Inr (), s') \<and> dm_memory s' = memory_resize (dm_memory s) sz \<and>
    coherent b s' \<and> only_blob b (dm_db s) (dm_db s') \<and> memory_row b (dm_db s')"
  using assms write_all_coherent [of "s\<lparr>dm_memory := memory_resize (dm_memory s) sz\<rparr>" b sz]
  by (simp add: dm_resize_def on_memory_def coherent_def)

lemma resize_refines:
  assumes "coherent b s" and "unat sz < 2 ^ 31" and "memory_row b (dm_db s)" and "data_size_ok b (unat sz)"
  shows "refines b (dm_resize b sz) (\<lambda>m. Inr (memory_resize m sz)) s"
  using resize_run [OF assms] by (auto simp: refines_def)

lemma dm_replaced:
  "dm_memory (s\<lparr>dm_memory := m\<rparr>) = m" "dm_db (s\<lparr>dm_memory := m\<rparr>) = dm_db s"
  by simp_all

lemma assign_refines:
  assumes "coherent b s" and "wf_memory m" and "unat (mem_size m) < 2 ^ 31"
    and "memory_row b (dm_db s)" and "data_size_ok b (unat (mem_size m))"
  shows "refines b (dm_assign b m) (\<lambda>this. Inr (memory_assign this m)) s"
proof -
  obtain s' where s': "dm_resize b (mem_size m) s = (Inr (), s')"
    "dm_memory s' = memory_resize (dm_memory s) (mem_size m)" "coherent b s'"
    "only_blob b (dm_db s) (dm_db s')" "memory_row b (dm_db s')"
    using resize_run [OF assms(1,3-5)] by blast
  define n where "n = (dm_memory s')\<lparr>mem_bytes :=
    blit (mem_bytes (dm_memory s')) 0 (take (unat (mem_size (dm_memory s'))) (mem_bytes m))\<rparr>"
  have n: "n = memory_assign (dm_memory s) m"
    using s'(2) by (simp add: n_def memory_assign_def Let_def)
  moreover have "memory_assign (dm_memory s) m = m"
    using assms by (intro memory_assign_eq) (simp_all add: coherent_def)
  ultimately have nm: "n = m" by simp
  have "blob_value b (dm_db s') \<noteq> None"
    using s'(3) by (simp add: coherent_def)
  then have "\<exists>s''. write_all b (mem_size m) (s'\<lparr>dm_memory := n\<rparr>) = (Inr (), s'') \<and>
      dm_memory s'' = n \<and> coherent b s'' \<and> only_blob b (dm_db s') (dm_db s'')"
    using write_all_coherent [of "s'\<lparr>dm_memory := m\<rparr>" b "mem_size m"] assms(2,3,5) s'(5)
    unfolding nm dm_replaced by blast
  then obtain s'' where s'': "write_all b (mem_size m) (s'\<lparr>dm_memory := n\<rparr>) = (Inr (), s'')"
    "dm_memory s'' = n" "coherent b s''" "only_blob b (dm_db s') (dm_db s'')"
    by blast
  have "on_memory (\<lambda>this. Inr (this\<lparr>mem_bytes :=
        blit (mem_bytes this) 0 (take (unat (mem_size this)) (mem_bytes m))\<rparr>)) s' =
      (Inr (), s'\<lparr>dm_memory := n\<rparr>)"
    by (simp add: on_memory_def n_def)
  then have "dm_assign b m s = (Inr (), s'')"
    unfolding dm_assign_def andthen_apply s'(1) by (simp add: s''(1))
  with s''(2-4) s'(4) show ?thesis
    unfolding refines_def n [symmetric] by (auto intro: only_blob_trans)
qed

text \<open>A memory loaded from a coherent database is the memory that was kept in it.\<close>

lemma reload:
  assumes "coherent b s"
  shows "dbmemory_new b (dm_db s) = (Inr (), s)"
proof -
  let ?m = "dm_memory s"
  have m: "blob_value b (dm_db s) = Some (mem_bytes ?m)" "length (mem_bytes ?m) = unat (mem_size ?m)"
    using assms by (auto simp: coherent_def wf_memory_def)
  then have "mem_size ?m = of_nat (length (mem_bytes ?m))"
    by simp
  with m blob_read_value [OF m(1)] show ?thesis
    by (simp add: dbmemory_new_def dm_update_def on_memory_def memory_resize_def memory_new_def
        empty_memory_def Let_def blit_def)
qed

text \<open>What a loaded memory holds.\<close>

lemma load_bytes:
  assumes "blob_cell b db = Inr v" and "length (bytes_of v) < 2 ^ 31"
  shows "dbmemory_new b db = (Inr (),
    \<lparr>dm_memory = \<lparr>mem_size = of_nat (length (bytes_of v)), mem_bytes = bytes_of v\<rparr>, dm_db = db\<rparr>)"
proof -
  have "unat (of_nat (length (bytes_of v)) :: uint32) = length (bytes_of v)"
    using assms(2) by (simp add: unat_of_nat_address)
  moreover have "blob_read b db = Inr (bytes_of v, of_nat (length (bytes_of v)))"
    using assms(1) by (simp add: blob_read_def)
  ultimately show ?thesis
    by (simp add: dbmemory_new_def dm_update_def on_memory_def memory_resize_def memory_new_def
        empty_memory_def Let_def blit_def)
qed

section \<open>DBMemory provides the interface of a store\<close>

text \<open>The new state of a run that returns.\<close>

definition state_of :: "(exn + unit) \<times> dbmemory \<Rightarrow> exn + dbmemory" where
  "state_of rs = (case rs of (Inl x, _) \<Rightarrow> Inl x | (Inr _, s) \<Rightarrow> Inr s)"

lemma refines_cases:
  assumes "refines b p f s"
  obtains x where "f (dm_memory s) = Inl x" and "p s = (Inl x, s)"
  | s' where "f (dm_memory s) = Inr (dm_memory s')" and "p s = (Inr (), s')" and "coherent b s'"
      and "only_blob b (dm_db s) (dm_db s')"
  using assms by (auto simp: refines_def split: sum.splits)

text \<open>An operation that refines a store of \<open>Memory\<close> is a store of the same interface.\<close>

lemma refined_store:
  fixes p :: "address \<Rightarrow> 'v \<Rightarrow> (dbmemory, unit) prog"
  assumes store: "word_store width wf_memory (\<lambda>m. unat (mem_size m)) ld st"
    and ref: "\<And>s a v. coherent b s \<Longrightarrow> refines b (p a v) (\<lambda>m. st m a v) s"
  shows "word_store width (coherent b) (\<lambda>s. unat (mem_size (dm_memory s)))
    (\<lambda>s. ld (dm_memory s)) (\<lambda>s a v. state_of (p a v s))"
proof (rule word_store.intro)
  note laws = store [THEN word_store.size_bound] store [THEN word_store.get_in]
    store [THEN word_store.get_out] store [THEN word_store.set_in] store [THEN word_store.set_out]
    store [THEN word_store.get_set_same] store [THEN word_store.get_set_other]
  fix s s' :: dbmemory and a c :: address and v :: 'v
  show "coherent b s \<Longrightarrow> unat (mem_size (dm_memory s)) < 2 ^ 32"
    using laws(1) by (simp add: coherent_def)
  show "coherent b s \<Longrightarrow> unat a + width \<le> unat (mem_size (dm_memory s)) \<Longrightarrow> \<exists>v. ld (dm_memory s) a = Inr v"
    using laws(2) by (simp add: coherent_def)
  show "coherent b s \<Longrightarrow> \<not> unat a + width \<le> unat (mem_size (dm_memory s)) \<Longrightarrow>
      ld (dm_memory s) a = Inl (MemoryError a)"
    using laws(3) by (simp add: coherent_def)
  show "\<exists>s'. state_of (p a v s) = Inr s' \<and> coherent b s' \<and>
      unat (mem_size (dm_memory s')) = unat (mem_size (dm_memory s))"
    if "coherent b s" "unat a + width \<le> unat (mem_size (dm_memory s))"
    using ref [OF that(1), of a v]
  proof (cases rule: refines_cases)
    case (1 x)
    with laws(4) [of "dm_memory s" a v] that show ?thesis
      by (auto simp: coherent_def)
  next
    case (2 s')
    with laws(4) [of "dm_memory s" a v] that show ?thesis
      by (auto simp: coherent_def state_of_def)
  qed
  show "state_of (p a v s) = Inl (MemoryError a)"
    if "coherent b s" "\<not> unat a + width \<le> unat (mem_size (dm_memory s))"
    using ref [OF that(1), of a v]
  proof (cases rule: refines_cases)
    case (1 x)
    with laws(5) [of "dm_memory s" a v] that show ?thesis
      by (auto simp: coherent_def state_of_def)
  next
    case (2 s')
    with laws(5) [of "dm_memory s" a v] that show ?thesis
      by (auto simp: coherent_def)
  qed
  have stored: "st (dm_memory s) a v = Inr (dm_memory s')"
    if "coherent b s" "state_of (p a v s) = Inr s'"
    using ref [OF that(1), of a v] that(2)
    by (cases rule: refines_cases) (auto simp: state_of_def)
  show "ld (dm_memory s') a = Inr v" if "coherent b s" "state_of (p a v s) = Inr s'"
    using laws(6) stored [OF that] that(1) by (auto simp: coherent_def)
  show "ld (dm_memory s') c = ld (dm_memory s) c"
    if "coherent b s" "state_of (p a v s) = Inr s'" "unat c + width \<le> unat a \<or> unat a + width \<le> unat c"
    using laws(7) stored [OF that(1,2)] that(1,3) by (auto simp: coherent_def)
qed

interpretation dbw: word_store 4 "coherent b" "\<lambda>s. unat (mem_size (dm_memory s))"
    "\<lambda>s a. get_word LittleEndian (dm_memory s) a True"
    "\<lambda>s a v. state_of (dm_set_word LittleEndian b a v True s)"
  for b
  by (rule refined_store [OF mw.word_store_axioms set_word_refines])

interpretation dbh: word_store 2 "coherent b" "\<lambda>s. unat (mem_size (dm_memory s))"
    "\<lambda>s a. get_halfword LittleEndian (dm_memory s) a True"
    "\<lambda>s a v. state_of (dm_set_halfword LittleEndian b a v True s)"
  for b
  by (rule refined_store [OF mh.word_store_axioms set_halfword_refines])

interpretation dbq: word_store 1 "coherent b" "\<lambda>s. unat (mem_size (dm_memory s))"
    "\<lambda>s a. get_quarterword (dm_memory s) a" "\<lambda>s a v. state_of (dm_set_quarterword b a v s)"
  for b
  by (rule refined_store [OF mq.word_store_axioms set_quarterword_refines])

section \<open>Properties\<close>

lemma rejected_resize:
  assumes "coherent b s" and "memory_row b (dm_db s)" and "\<not> data_size_ok b (unat sz)"
  shows "dm_resize b sz s = (Inl DBException, s\<lparr>dm_memory := memory_resize (dm_memory s) sz\<rparr>)"
proof -
  let ?m = "memory_resize (dm_memory s) sz"
  have "length (take (unat sz) (mem_bytes ?m)) = unat sz"
    using assms(1) wf_memory_resize [of "dm_memory s" sz] by (auto simp: coherent_def wf_memory_def)
  then show ?thesis
    using assms(2,3) by (simp add: dm_resize_def write_all_def on_memory_def on_db_def memory_blob_write)
qed

text \<open>
  C21: on a little-endian host \<open>DBMemory\<close> refines \<open>Memory\<close>: while the blob
  holds the bytes of the memory, each of its stores, at the three widths and converted or not, throws
  exactly when the store of \<open>Memory\<close> throws, then without any effect, and otherwise changes the memory in
  the same way, brings the blob up to date and touches nothing else in the database.  So do \<open>resize\<close> and
  \<open>assign\<close>, to the sizes the \<open>CHECK\<close> of the table allows and \<open>int\<close> can express; a size it rejects makes
  \<open>resize\<close> throw with the memory resized already and the database as it was.
\<close>

theorem dbmemory_refines_memory:
  assumes "coherent b s"
  shows "refines b (dm_set_word LittleEndian b a v sys) (\<lambda>m. set_word LittleEndian m a v sys) s \<and>
    refines b (dm_set_halfword LittleEndian b a h sys) (\<lambda>m. set_halfword LittleEndian m a h sys) s \<and>
    refines b (dm_set_quarterword b a q) (\<lambda>m. set_quarterword m a q) s \<and>
    (memory_row b (dm_db s) \<longrightarrow>
      (unat sz < 2 ^ 31 \<and> data_size_ok b (unat sz) \<longrightarrow>
        refines b (dm_resize b sz) (\<lambda>m. Inr (memory_resize m sz)) s) \<and>
      (\<not> data_size_ok b (unat sz) \<longrightarrow>
        dm_resize b sz s = (Inl DBException, s\<lparr>dm_memory := memory_resize (dm_memory s) sz\<rparr>)) \<and>
      (wf_memory n \<and> unat (mem_size n) < 2 ^ 31 \<and> data_size_ok b (unat (mem_size n)) \<longrightarrow>
        refines b (dm_assign b n) (\<lambda>m. Inr (memory_assign m n)) s))"
  using assms
  by (simp add: set_word_refines set_halfword_refines set_quarterword_refines resize_refines
      assign_refines rejected_resize)

text \<open>
  \<open>resize\<close> to a size the table rejects, such as 0 or one that is no multiple of four, throws
  after the memory has been resized: the object is left with a memory that the database does not
  hold, and is never coherent again by itself.
\<close>

theorem rejected_resize_incoherent:
  assumes "coherent b s" and "memory_row b (dm_db s)" and "\<not> data_size_ok b (unat sz)"
    and "data_size_ok b (length (mem_bytes (dm_memory s)))"
  shows "\<exists>s'. dm_resize b sz s = (Inl DBException, s') \<and> dm_db s' = dm_db s \<and>
    dm_memory s' = memory_resize (dm_memory s) sz \<and> \<not> coherent b s'"
proof -
  let ?m = "memory_resize (dm_memory s) sz"
  have len: "length (take (unat sz) (mem_bytes ?m)) = unat sz" "take (unat sz) (mem_bytes ?m) = mem_bytes ?m"
    using assms(1) wf_memory_resize [of "dm_memory s" sz] by (auto simp: coherent_def wf_memory_def)
  have "dm_resize b sz s = (Inl DBException, s\<lparr>dm_memory := ?m\<rparr>)"
    using assms(1-3) by (rule rejected_resize)
  moreover have "mem_bytes ?m \<noteq> mem_bytes (dm_memory s)"
    using assms(3,4) len by metis
  then have "\<not> coherent b (s\<lparr>dm_memory := ?m\<rparr>)"
    using assms(1) by (auto simp: coherent_def)
  ultimately show ?thesis by simp
qed

text \<open>
  The memory of a bug survives in the database: loading fails exactly when the row is missing,
  a loaded memory holds the bytes of the blob, and loading again after any coherent history of
  changes gives the same memory.
\<close>

theorem memory_persists:
  shows "(case blob_cell b db of
      Inl x \<Rightarrow> fst (dbmemory_new b db) = Inl DBException
    | Inr v \<Rightarrow> length (bytes_of v) < 2 ^ 31 \<longrightarrow>
        (\<exists>s. dbmemory_new b db = (Inr (), s) \<and> mem_bytes (dm_memory s) = bytes_of v \<and> dm_db s = db \<and>
          (coherent b s \<longleftrightarrow> blob_value b db \<noteq> None))) \<and>
    (coherent b s \<longrightarrow> dbmemory_new b (dm_db s) = (Inr (), s))"
proof (intro conjI impI)
  show "case blob_cell b db of
      Inl x \<Rightarrow> fst (dbmemory_new b db) = Inl DBException
    | Inr v \<Rightarrow> length (bytes_of v) < 2 ^ 31 \<longrightarrow>
        (\<exists>s. dbmemory_new b db = (Inr (), s) \<and> mem_bytes (dm_memory s) = bytes_of v \<and> dm_db s = db \<and>
          (coherent b s \<longleftrightarrow> blob_value b db \<noteq> None))"
  proof (cases "blob_cell b db")
    case (Inl x)
    then show ?thesis
      by (simp add: dbmemory_new_def dm_update_def blob_read_missing)
  next
    case (Inr v)
    let ?bs = "bytes_of v"
    let ?s = "\<lparr>dm_memory = \<lparr>mem_size = of_nat (length ?bs), mem_bytes = ?bs\<rparr>, dm_db = db\<rparr>"
    have "dbmemory_new b db = (Inr (), ?s) \<and> (coherent b ?s \<longleftrightarrow> blob_value b db \<noteq> None)"
      if "length ?bs < 2 ^ 31"
    proof -
      have "dbmemory_new b db = (Inr (), ?s)"
        using load_bytes [OF Inr that] .
      moreover have "coherent b ?s \<longleftrightarrow> blob_value b db \<noteq> None"
        using that Inr by (cases v) (auto simp: coherent_def wf_memory_def unat_of_nat_address blob_value_def)
      ultimately show ?thesis by blast
    qed
    then show ?thesis
      using Inr by auto
  qed
qed (rule reload)

definition small_database :: database where
  "small_database =
     \<lparr>db_tables = (\<lambda>t. if t = ''Code''
        then [(1, [''id'' \<mapsto> Integer 1, ''data'' \<mapsto> Bytes [1, 2, 3, 4]])] else []),
      db_begun = None, db_by_savepoint = False, db_savepoints = [], db_last_id = 1\<rparr>"

definition small_blob :: blob where
  "small_blob = \<lparr>blob_table = ''Code'', blob_column = ''data'', blob_id = 1\<rparr>"

definition small_dbmemory :: dbmemory where
  "small_dbmemory = \<lparr>dm_memory = \<lparr>mem_size = 4, mem_bytes = [1, 2, 3, 4]\<rparr>, dm_db = small_database\<rparr>"

lemma small_cell: "blob_cell small_blob small_database = Inr (Bytes [1, 2, 3, 4])"
  by (simp add: blob_cell_def sql_select_def schema_def table_defs small_blob_def small_database_def col_def)

lemma small_coherent: "coherent small_blob small_dbmemory"
  by (simp add: coherent_def small_dbmemory_def wf_memory_def blob_value_cell small_cell)

lemma small_memory_row: "memory_row small_blob (dm_db small_dbmemory)"
  by (simp add: memory_row_def small_blob_def small_dbmemory_def small_database_def col_def)

theorem dbmemory_refines_memory_witness:
  "refines small_blob (dm_set_word LittleEndian small_blob 0 0x01020304 True)
    (\<lambda>m. set_word LittleEndian m 0 0x01020304 True) small_dbmemory \<and>
   refines small_blob (dm_resize small_blob 8) (\<lambda>m. Inr (memory_resize m 8)) small_dbmemory"
  using dbmemory_refines_memory [OF small_coherent, where sz = 8] small_memory_row
  by (simp add: data_size_ok_def small_blob_def max_length_def)

theorem rejected_resize_incoherent_witness:
  "\<exists>s'. dm_resize small_blob 0 small_dbmemory = (Inl DBException, s') \<and> \<not> coherent small_blob s'"
  using rejected_resize_incoherent [OF small_coherent small_memory_row, of 0]
  by (auto simp: data_size_ok_def small_blob_def small_dbmemory_def max_length_def)

theorem memory_persists_witness:
  "dbmemory_new small_blob small_database = (Inr (), small_dbmemory)"
  using memory_persists [of small_blob small_database small_dbmemory] small_coherent
  by (simp add: small_dbmemory_def)

text \<open>
  On a big-endian host a word stored with the default conversion is written to the blob with
  its bytes reversed: the memory reads it back, but after loading from the database it is the
  swapped word, so that the blob agrees with the memory only for words equal to their swap.
\<close>

theorem big_endian_blob_swapped:
  assumes "coherent b s" and "unat a + 4 \<le> unat (mem_size (dm_memory s))"
  shows "\<exists>s' r. dm_set_word BigEndian b a v True s = (Inr (), s') \<and>
    get_word BigEndian (dm_memory s') a True = Inr v \<and>
    dbmemory_new b (dm_db s') = (Inr (), r) \<and>
    get_word BigEndian (dm_memory r) a True = Inr (change_byte_order v) \<and>
    (coherent b s' \<longleftrightarrow> change_byte_order v = v)"
proof -
  define m where "m = (\<lambda>w. (dm_memory s)\<lparr>mem_bytes := blit (mem_bytes (dm_memory s)) (unat a) (be_bytes w)\<rparr>)"
  let ?w = "change_byte_order v"
  have len: "unat a + length (be_bytes w) \<le> unat (mem_size (dm_memory s))" for w
    using assms(2) by simp
  obtain r where r: "on_db (blob_write_part b (be_bytes ?w) a) (s\<lparr>dm_memory := m ?w\<rparr>) = (Inr (), r)"
    "dm_memory r = m ?w" "coherent b r"
    using store_coherent [OF assms(1) len] unfolding m_def by blast
  define s' where "s' = r\<lparr>dm_memory := m v\<rparr>"
  have "on_db (blob_write_part b (be_bytes ?w) a) (s\<lparr>dm_memory := m v\<rparr>) = (Inr (), s')"
    using r(1) by (auto simp: on_db_def s'_def split: prod.splits)
  then have run: "dm_set_word BigEndian b a v True s = (Inr (), s')"
    using assms(2) by (simp add: dm_set_word_def on_memory_def set_word_system m_def host_bytes_BE)
  have wf: "wf_memory (m w)" "mem_size (m w) = mem_size (dm_memory s)" for w
    using assms by (simp_all add: m_def coherent_def)
  have chunk: "chunk (mem_bytes (m w)) (unat a) 4 = be_bytes w" for w
    using assms by (simp add: m_def coherent_def wf_memory_def)
  have get: "get_word BigEndian (m w) a True = Inr w" for w
    using assms(2) wf by (simp add: get_word_system chunk)
  have "dbmemory_new b (dm_db s') = (Inr (), r)"
    using reload [OF r(3)] by (simp add: s'_def)
  moreover have "coherent b s' \<longleftrightarrow> mem_bytes (m ?w) = mem_bytes (m v)"
    using r(2,3) wf [of v] by (simp add: coherent_def s'_def) (simp add: m_def)
  moreover have "mem_bytes (m ?w) = mem_bytes (m v) \<longleftrightarrow> ?w = v"
    using chunk be_bytes_inject by metis
  ultimately show ?thesis
    using run get r(2) by (intro exI [of _ s'] exI [of _ r]) (simp add: s'_def)
qed

theorem big_endian_blob_swapped_witness:
  "\<exists>s' r. dm_set_word BigEndian small_blob 0 0x01020304 True small_dbmemory = (Inr (), s') \<and>
    dbmemory_new small_blob (dm_db s') = (Inr (), r) \<and>
    get_word BigEndian (dm_memory r) 0 True = Inr 0x04030201"
proof -
  have "change_byte_order 0x01020304 = 0x04030201"
    by (simp add: change_byte_order_def)
  then show ?thesis
    using big_endian_blob_swapped [OF small_coherent, of 0 "0x01020304"]
    by (auto simp: small_dbmemory_def)
qed

end
