(* ===== verification/Db_Environment.thy ===== *)
theory Db_Environment
  imports Tables
begin

text \<open>
  \<open>simpleworld/db/environment.cpp\<close> and \<open>default.cpp\<close>: the parameters of the simulation.
\<close>

text \<open>The values of an environment; doubles as bit patterns.\<close>

record environment_values =
  ev_size_x :: uint16
  ev_size_y :: uint16
  ev_time_rot :: uint32
  ev_size_rot :: uint32
  ev_mutations_probability :: uint64
  ev_time_birth :: uint32
  ev_time_mutate :: uint32
  ev_time_laziness :: uint32
  ev_energy_laziness :: uint32
  ev_attack_multiplier :: uint64
  ev_time_nothing :: uint32
  ev_time_myself :: uint32
  ev_time_detect :: uint32
  ev_time_info :: uint32
  ev_time_move :: uint32
  ev_time_turn :: uint32
  ev_time_attack :: uint32
  ev_time_eat :: uint32
  ev_time_egg :: uint32
  ev_energy_nothing :: uint32
  ev_energy_myself :: uint32
  ev_energy_detect :: uint32
  ev_energy_info :: uint32
  ev_energy_move :: uint32
  ev_energy_turn :: uint32
  ev_energy_attack :: uint32
  ev_energy_eat :: uint32
  ev_energy_egg :: uint32

definition default_environment :: environment_values where
  "default_environment = \<lparr>
     ev_size_x = 16,
     ev_size_y = 16,
     ev_time_rot = 64,
     ev_size_rot = 64,
     ev_mutations_probability = 0x3F50624DD2F1A9FC,
     ev_time_birth = 2,
     ev_time_mutate = 1024,
     ev_time_laziness = 64,
     ev_energy_laziness = 64,
     ev_attack_multiplier = 0x4004000000000000,
     ev_time_nothing = 1,
     ev_time_myself = 1,
     ev_time_detect = 1,
     ev_time_info = 1,
     ev_time_move = 2,
     ev_time_turn = 2,
     ev_time_attack = 2,
     ev_time_eat = 2,
     ev_time_egg = 2,
     ev_energy_nothing = 0,
     ev_energy_myself = 1,
     ev_energy_detect = 1,
     ev_energy_info = 1,
     ev_energy_move = 2,
     ev_energy_turn = 2,
     ev_energy_attack = 5,
     ev_energy_eat = 3,
     ev_energy_egg = 10\<rparr>"

definition environment_columns :: "uint32 \<Rightarrow> environment_values \<Rightarrow> (string \<times> sql_value) list" where
  "environment_columns time v =
      [(''time'', bind_int time),
       (''size_x'', bind_short (ev_size_x v)),
       (''size_y'', bind_short (ev_size_y v)),
       (''time_rot'', bind_int (ev_time_rot v)),
       (''size_rot'', bind_int (ev_size_rot v)),
       (''mutations_probability'', Real (ev_mutations_probability v)),
       (''time_birth'', bind_int (ev_time_birth v)),
       (''time_mutate'', bind_int (ev_time_mutate v)),
       (''time_laziness'', bind_int (ev_time_laziness v)),
       (''energy_laziness'', bind_int (ev_energy_laziness v)),
       (''attack_multiplier'', Real (ev_attack_multiplier v)),
       (''time_nothing'', bind_int (ev_time_nothing v)),
       (''time_myself'', bind_int (ev_time_myself v)),
       (''time_detect'', bind_int (ev_time_detect v)),
       (''time_info'', bind_int (ev_time_info v)),
       (''time_move'', bind_int (ev_time_move v)),
       (''time_turn'', bind_int (ev_time_turn v)),
       (''time_attack'', bind_int (ev_time_attack v)),
       (''time_eat'', bind_int (ev_time_eat v)),
       (''time_egg'', bind_int (ev_time_egg v)),
       (''energy_nothing'', bind_int (ev_energy_nothing v)),
       (''energy_myself'', bind_int (ev_energy_myself v)),
       (''energy_detect'', bind_int (ev_energy_detect v)),
       (''energy_info'', bind_int (ev_energy_info v)),
       (''energy_move'', bind_int (ev_energy_move v)),
       (''energy_turn'', bind_int (ev_energy_turn v)),
       (''energy_attack'', bind_int (ev_energy_attack v)),
       (''energy_eat'', bind_int (ev_energy_eat v)),
       (''energy_egg'', bind_int (ev_energy_egg v))]"

definition Environment_insert :: "uint32 \<Rightarrow> environment_values \<Rightarrow> (database, row_id) prog" where
  "Environment_insert time v = sql_insert ''Environment'' (environment_columns time v)"

definition Environment_remove :: "row_id \<Rightarrow> (database, unit) prog" where
  "Environment_remove i = sql_delete ''Environment'' i"

definition Environment_set_id :: "row_id \<Rightarrow> row_id \<Rightarrow> (database, row_id) prog" where
  "Environment_set_id k i = andthen (sql_rename ''Environment'' k i) (\<lambda>_. ret k)"

definition Environment_time :: "row_id \<Rightarrow> (database, uint32) prog" where
  "Environment_time i = column_int ''Environment'' ''time'' i"

definition Environment_set_time :: "uint32 \<Rightarrow> row_id \<Rightarrow> (database, unit) prog" where
  "Environment_set_time v = sql_update ''Environment'' ''time'' (bind_int v)"

definition Environment_size_x :: "row_id \<Rightarrow> (database, uint16) prog" where
  "Environment_size_x i = column_int ''Environment'' ''size_x'' i"

definition Environment_size_y :: "row_id \<Rightarrow> (database, uint16) prog" where
  "Environment_size_y i = column_int ''Environment'' ''size_y'' i"

definition Environment_set_size_x :: "uint16 \<Rightarrow> row_id \<Rightarrow> (database, unit) prog" where
  "Environment_set_size_x v = sql_update ''Environment'' ''size_x'' (bind_short v)"

definition Environment_set_size_y :: "uint16 \<Rightarrow> row_id \<Rightarrow> (database, unit) prog" where
  "Environment_set_size_y v = sql_update ''Environment'' ''size_y'' (bind_short v)"

definition Environment_time_rot :: "row_id \<Rightarrow> (database, uint32) prog" where
  "Environment_time_rot i = column_int ''Environment'' ''time_rot'' i"

definition Environment_set_time_rot :: "uint32 \<Rightarrow> row_id \<Rightarrow> (database, unit) prog" where
  "Environment_set_time_rot v = sql_update ''Environment'' ''time_rot'' (bind_int v)"

definition Environment_size_rot :: "row_id \<Rightarrow> (database, uint32) prog" where
  "Environment_size_rot i = column_int ''Environment'' ''size_rot'' i"

definition Environment_set_size_rot :: "uint32 \<Rightarrow> row_id \<Rightarrow> (database, unit) prog" where
  "Environment_set_size_rot v = sql_update ''Environment'' ''size_rot'' (bind_int v)"

definition Environment_mutations_probability :: "row_id \<Rightarrow> (database, uint64) prog" where
  "Environment_mutations_probability i = column_double ''Environment'' ''mutations_probability'' i"

definition Environment_set_mutations_probability :: "uint64 \<Rightarrow> row_id \<Rightarrow> (database, unit) prog" where
  "Environment_set_mutations_probability v = sql_update ''Environment'' ''mutations_probability'' (Real v)"

definition Environment_time_birth :: "row_id \<Rightarrow> (database, uint32) prog" where
  "Environment_time_birth i = column_int ''Environment'' ''time_birth'' i"

definition Environment_set_time_birth :: "uint32 \<Rightarrow> row_id \<Rightarrow> (database, unit) prog" where
  "Environment_set_time_birth v = sql_update ''Environment'' ''time_birth'' (bind_int v)"

definition Environment_time_mutate :: "row_id \<Rightarrow> (database, uint32) prog" where
  "Environment_time_mutate i = column_int ''Environment'' ''time_mutate'' i"

definition Environment_set_time_mutate :: "uint32 \<Rightarrow> row_id \<Rightarrow> (database, unit) prog" where
  "Environment_set_time_mutate v = sql_update ''Environment'' ''time_mutate'' (bind_int v)"

definition Environment_time_laziness :: "row_id \<Rightarrow> (database, uint32) prog" where
  "Environment_time_laziness i = column_int ''Environment'' ''time_laziness'' i"

definition Environment_set_time_laziness :: "uint32 \<Rightarrow> row_id \<Rightarrow> (database, unit) prog" where
  "Environment_set_time_laziness v = sql_update ''Environment'' ''time_laziness'' (bind_int v)"

definition Environment_energy_laziness :: "row_id \<Rightarrow> (database, uint32) prog" where
  "Environment_energy_laziness i = column_int ''Environment'' ''energy_laziness'' i"

definition Environment_set_energy_laziness :: "uint32 \<Rightarrow> row_id \<Rightarrow> (database, unit) prog" where
  "Environment_set_energy_laziness v = sql_update ''Environment'' ''energy_laziness'' (bind_int v)"

definition Environment_attack_multiplier :: "row_id \<Rightarrow> (database, uint64) prog" where
  "Environment_attack_multiplier i = column_double ''Environment'' ''attack_multiplier'' i"

definition Environment_set_attack_multiplier :: "uint64 \<Rightarrow> row_id \<Rightarrow> (database, unit) prog" where
  "Environment_set_attack_multiplier v = sql_update ''Environment'' ''attack_multiplier'' (Real v)"

definition Environment_time_nothing :: "row_id \<Rightarrow> (database, uint32) prog" where
  "Environment_time_nothing i = column_int ''Environment'' ''time_nothing'' i"

definition Environment_set_time_nothing :: "uint32 \<Rightarrow> row_id \<Rightarrow> (database, unit) prog" where
  "Environment_set_time_nothing v = sql_update ''Environment'' ''time_nothing'' (bind_int v)"

definition Environment_time_myself :: "row_id \<Rightarrow> (database, uint32) prog" where
  "Environment_time_myself i = column_int ''Environment'' ''time_myself'' i"

definition Environment_set_time_myself :: "uint32 \<Rightarrow> row_id \<Rightarrow> (database, unit) prog" where
  "Environment_set_time_myself v = sql_update ''Environment'' ''time_myself'' (bind_int v)"

definition Environment_time_detect :: "row_id \<Rightarrow> (database, uint32) prog" where
  "Environment_time_detect i = column_int ''Environment'' ''time_detect'' i"

definition Environment_set_time_detect :: "uint32 \<Rightarrow> row_id \<Rightarrow> (database, unit) prog" where
  "Environment_set_time_detect v = sql_update ''Environment'' ''time_detect'' (bind_int v)"

definition Environment_time_info :: "row_id \<Rightarrow> (database, uint32) prog" where
  "Environment_time_info i = column_int ''Environment'' ''time_info'' i"

definition Environment_set_time_info :: "uint32 \<Rightarrow> row_id \<Rightarrow> (database, unit) prog" where
  "Environment_set_time_info v = sql_update ''Environment'' ''time_info'' (bind_int v)"

definition Environment_time_move :: "row_id \<Rightarrow> (database, uint32) prog" where
  "Environment_time_move i = column_int ''Environment'' ''time_move'' i"

definition Environment_set_time_move :: "uint32 \<Rightarrow> row_id \<Rightarrow> (database, unit) prog" where
  "Environment_set_time_move v = sql_update ''Environment'' ''time_move'' (bind_int v)"

definition Environment_time_turn :: "row_id \<Rightarrow> (database, uint32) prog" where
  "Environment_time_turn i = column_int ''Environment'' ''time_turn'' i"

definition Environment_set_time_turn :: "uint32 \<Rightarrow> row_id \<Rightarrow> (database, unit) prog" where
  "Environment_set_time_turn v = sql_update ''Environment'' ''time_turn'' (bind_int v)"

definition Environment_time_attack :: "row_id \<Rightarrow> (database, uint32) prog" where
  "Environment_time_attack i = column_int ''Environment'' ''time_attack'' i"

definition Environment_set_time_attack :: "uint32 \<Rightarrow> row_id \<Rightarrow> (database, unit) prog" where
  "Environment_set_time_attack v = sql_update ''Environment'' ''time_attack'' (bind_int v)"

definition Environment_time_eat :: "row_id \<Rightarrow> (database, uint32) prog" where
  "Environment_time_eat i = column_int ''Environment'' ''time_eat'' i"

definition Environment_set_time_eat :: "uint32 \<Rightarrow> row_id \<Rightarrow> (database, unit) prog" where
  "Environment_set_time_eat v = sql_update ''Environment'' ''time_eat'' (bind_int v)"

definition Environment_time_egg :: "row_id \<Rightarrow> (database, uint32) prog" where
  "Environment_time_egg i = column_int ''Environment'' ''time_egg'' i"

definition Environment_set_time_egg :: "uint32 \<Rightarrow> row_id \<Rightarrow> (database, unit) prog" where
  "Environment_set_time_egg v = sql_update ''Environment'' ''time_egg'' (bind_int v)"

definition Environment_energy_nothing :: "row_id \<Rightarrow> (database, uint32) prog" where
  "Environment_energy_nothing i = column_int ''Environment'' ''energy_nothing'' i"

definition Environment_set_energy_nothing :: "uint32 \<Rightarrow> row_id \<Rightarrow> (database, unit) prog" where
  "Environment_set_energy_nothing v = sql_update ''Environment'' ''energy_nothing'' (bind_int v)"

definition Environment_energy_myself :: "row_id \<Rightarrow> (database, uint32) prog" where
  "Environment_energy_myself i = column_int ''Environment'' ''energy_myself'' i"

definition Environment_set_energy_myself :: "uint32 \<Rightarrow> row_id \<Rightarrow> (database, unit) prog" where
  "Environment_set_energy_myself v = sql_update ''Environment'' ''energy_myself'' (bind_int v)"

definition Environment_energy_detect :: "row_id \<Rightarrow> (database, uint32) prog" where
  "Environment_energy_detect i = column_int ''Environment'' ''energy_detect'' i"

definition Environment_set_energy_detect :: "uint32 \<Rightarrow> row_id \<Rightarrow> (database, unit) prog" where
  "Environment_set_energy_detect v = sql_update ''Environment'' ''energy_detect'' (bind_int v)"

definition Environment_energy_info :: "row_id \<Rightarrow> (database, uint32) prog" where
  "Environment_energy_info i = column_int ''Environment'' ''energy_info'' i"

definition Environment_set_energy_info :: "uint32 \<Rightarrow> row_id \<Rightarrow> (database, unit) prog" where
  "Environment_set_energy_info v = sql_update ''Environment'' ''energy_info'' (bind_int v)"

definition Environment_energy_move :: "row_id \<Rightarrow> (database, uint32) prog" where
  "Environment_energy_move i = column_int ''Environment'' ''energy_move'' i"

definition Environment_set_energy_move :: "uint32 \<Rightarrow> row_id \<Rightarrow> (database, unit) prog" where
  "Environment_set_energy_move v = sql_update ''Environment'' ''energy_move'' (bind_int v)"

definition Environment_energy_turn :: "row_id \<Rightarrow> (database, uint32) prog" where
  "Environment_energy_turn i = column_int ''Environment'' ''energy_turn'' i"

definition Environment_set_energy_turn :: "uint32 \<Rightarrow> row_id \<Rightarrow> (database, unit) prog" where
  "Environment_set_energy_turn v = sql_update ''Environment'' ''energy_turn'' (bind_int v)"

definition Environment_energy_attack :: "row_id \<Rightarrow> (database, uint32) prog" where
  "Environment_energy_attack i = column_int ''Environment'' ''energy_attack'' i"

definition Environment_set_energy_attack :: "uint32 \<Rightarrow> row_id \<Rightarrow> (database, unit) prog" where
  "Environment_set_energy_attack v = sql_update ''Environment'' ''energy_attack'' (bind_int v)"

definition Environment_energy_eat :: "row_id \<Rightarrow> (database, uint32) prog" where
  "Environment_energy_eat i = column_int ''Environment'' ''energy_eat'' i"

definition Environment_set_energy_eat :: "uint32 \<Rightarrow> row_id \<Rightarrow> (database, unit) prog" where
  "Environment_set_energy_eat v = sql_update ''Environment'' ''energy_eat'' (bind_int v)"

definition Environment_energy_egg :: "row_id \<Rightarrow> (database, uint32) prog" where
  "Environment_energy_egg i = column_int ''Environment'' ''energy_egg'' i"

definition Environment_set_energy_egg :: "uint32 \<Rightarrow> row_id \<Rightarrow> (database, unit) prog" where
  "Environment_set_energy_egg v = sql_update ''Environment'' ''energy_egg'' (bind_int v)"


end
