(* ===== verification/Db_Code.thy ===== *)
theory Db_Code
  imports Blob CPU
begin

text \<open>
  \<open>simpleworld/db/code.cpp\<close> and \<open>registers.cpp\<close>: the code and the registers of the bugs.
\<close>

section \<open>Code\<close>

definition Code_insert ::
    "uint8 list \<Rightarrow> (database, row_id) prog" where
  "Code_insert data =
     sql_insert ''Code'' [(''data'', Bytes data)]"

text \<open>
  \<open>INSERT ... SELECT\<close>: without the row nothing is inserted and the id is that of the last insertion.
\<close>

definition Code_copy :: "row_id \<Rightarrow> (database, row_id) prog" where
  "Code_copy i = (\<lambda>s.
     case map_of (db_tables s ''Code'') i of
       None \<Rightarrow> (Inr (db_last_id s), s)
     | Some r \<Rightarrow> sql_insert ''Code'' [(''data'', col r ''data'')] s)"

definition code_data :: "row_id \<Rightarrow> blob" where
  "code_data row = \<lparr>blob_table = ''Code'', blob_column = ''data'', blob_id = row\<rparr>"

definition Code_remove :: "row_id \<Rightarrow> (database, unit) prog" where
  "Code_remove i = sql_delete ''Code'' i"

definition Code_set_id :: "row_id \<Rightarrow> row_id \<Rightarrow> (database, row_id) prog" where
  "Code_set_id k i = andthen (sql_rename ''Code'' k i) (\<lambda>_. ret k)"


section \<open>Registers\<close>

definition Registers_insert_data ::
    "uint8 list \<Rightarrow> (database, row_id) prog" where
  "Registers_insert_data data =
     sql_insert ''Registers'' [(''data'', Bytes data)]"

text \<open>\<open>TOTAL_REGISTERS\<close> words of zeroes.\<close>

definition Registers_insert :: "(database, row_id) prog" where
  "Registers_insert =
     sql_insert ''Registers'' [(''data'', Bytes (replicate (4 * TOTAL_REGISTERS) 0))]"

definition registers_data :: "row_id \<Rightarrow> blob" where
  "registers_data row = \<lparr>blob_table = ''Registers'', blob_column = ''data'', blob_id = row\<rparr>"

definition Registers_remove :: "row_id \<Rightarrow> (database, unit) prog" where
  "Registers_remove i = sql_delete ''Registers'' i"

definition Registers_set_id :: "row_id \<Rightarrow> row_id \<Rightarrow> (database, row_id) prog" where
  "Registers_set_id k i = andthen (sql_rename ''Registers'' k i) (\<lambda>_. ret k)"


end
