(* ===== verification/Db_Bug.thy ===== *)
theory Db_Bug
  imports Db_Code
begin

text \<open>
  \<open>simpleworld/db/bug.cpp\<close>, \<open>egg.cpp\<close>, \<open>alivebug.cpp\<close> and \<open>deadbug.cpp\<close>: the life of a bug is a row
  of \<open>Bug\<close> and one row of \<open>Egg\<close>, \<open>AliveBug\<close> or \<open>DeadBug\<close>.
\<close>

section \<open>Bug\<close>

definition Bug_insert_son ::
    "row_id \<Rightarrow> uint32 \<Rightarrow> row_id \<Rightarrow> (database, row_id) prog" where
  "Bug_insert_son code_id creation father_id =
     sql_insert ''Bug'' [(''code_id'', Integer code_id), (''creation'', bind_int creation),
       (''father_id'', Integer father_id)]"

definition Bug_insert ::
    "row_id \<Rightarrow> uint32 \<Rightarrow> (database, row_id) prog" where
  "Bug_insert code_id creation =
     sql_insert ''Bug'' [(''code_id'', Integer code_id), (''creation'', bind_int creation)]"

definition Bug_remove :: "row_id \<Rightarrow> (database, unit) prog" where
  "Bug_remove i = sql_delete ''Bug'' i"

definition Bug_set_id :: "row_id \<Rightarrow> row_id \<Rightarrow> (database, row_id) prog" where
  "Bug_set_id k i = andthen (sql_rename ''Bug'' k i) (\<lambda>_. ret k)"

definition Bug_code_id :: "row_id \<Rightarrow> (database, row_id) prog" where
  "Bug_code_id i = column_int64 ''Bug'' ''code_id'' i"

definition Bug_set_code_id :: "row_id \<Rightarrow> row_id \<Rightarrow> (database, unit) prog" where
  "Bug_set_code_id v = sql_update ''Bug'' ''code_id'' (Integer v)"

definition Bug_creation :: "row_id \<Rightarrow> (database, uint32) prog" where
  "Bug_creation i = column_int ''Bug'' ''creation'' i"

definition Bug_set_creation :: "uint32 \<Rightarrow> row_id \<Rightarrow> (database, unit) prog" where
  "Bug_set_creation v = sql_update ''Bug'' ''creation'' (bind_int v)"

definition Bug_father_id :: "row_id \<Rightarrow> (database, row_id) prog" where
  "Bug_father_id i = column_int64 ''Bug'' ''father_id'' i"

definition Bug_set_father_id :: "row_id \<Rightarrow> row_id \<Rightarrow> (database, unit) prog" where
  "Bug_set_father_id v = sql_update ''Bug'' ''father_id'' (Integer v)"


text \<open>
  \<open>ancestors\<close> calls itself for the father; it does not return when a bug is its own ancestor.
\<close>

partial_function (option) Bug_ancestors :: "row_id \<Rightarrow> database \<Rightarrow> (exn + row_id list) option" where
  "Bug_ancestors i db =
     (case fst (is_null ''Bug'' ''father_id'' i db) of
        Inl x \<Rightarrow> Some (Inl x)
      | Inr orphan \<Rightarrow>
          if orphan then Some (Inr [])
          else (case fst (Bug_father_id i db) of
                  Inl x \<Rightarrow> Some (Inl x)
                | Inr father \<Rightarrow>
                    Option.bind (Bug_ancestors father db) (\<lambda>r.
                    Some (attempt r (\<lambda>ids. Inr (ids @ [father]))))))"

definition Bug_mutations :: "row_id \<Rightarrow> database \<Rightarrow> row_id list" where
  "Bug_mutations i db =
     map fst (filter (\<lambda>(_, r). col r ''bug_id'' = Integer i) (db_tables db ''Mutation''))"

definition Bug_all_mutations :: "row_id \<Rightarrow> database \<Rightarrow> (exn + row_id list) option" where
  "Bug_all_mutations i db =
     (case Bug_ancestors i db of
        None \<Rightarrow> None
      | Some r \<Rightarrow> Some (attempt r (\<lambda>ancestors. attempt (fst (Bug_creation i db)) (\<lambda>creation.
          Inr (Bug_mutations i db @ concat (map (\<lambda>a.
            map fst (filter (\<lambda>(_, r). col r ''bug_id'' = Integer a \<and>
              where_int (<) (col r ''time'') (bind_int creation)) (db_tables db ''Mutation''))) ancestors))))))"

section \<open>Egg\<close>

definition Egg_insert ::
    "row_id \<Rightarrow> row_id \<Rightarrow> uint32 \<Rightarrow> row_id \<Rightarrow> (database, row_id) prog" where
  "Egg_insert bug_id world_id energy memory_id =
     sql_insert ''Egg'' [(''bug_id'', Integer bug_id), (''world_id'', Integer world_id),
       (''energy'', bind_int energy), (''memory_id'', Integer memory_id)]"

definition Egg_remove :: "row_id \<Rightarrow> (database, unit) prog" where
  "Egg_remove i = sql_delete ''Egg'' i"

definition Egg_set_bug_id :: "row_id \<Rightarrow> row_id \<Rightarrow> (database, row_id) prog" where
  "Egg_set_bug_id k i = andthen (sql_rename ''Egg'' k i) (\<lambda>_. ret k)"

definition Egg_world_id :: "row_id \<Rightarrow> (database, row_id) prog" where
  "Egg_world_id i = column_int64 ''Egg'' ''world_id'' i"

definition Egg_set_world_id :: "row_id \<Rightarrow> row_id \<Rightarrow> (database, unit) prog" where
  "Egg_set_world_id v = sql_update ''Egg'' ''world_id'' (Integer v)"

definition Egg_energy :: "row_id \<Rightarrow> (database, uint32) prog" where
  "Egg_energy i = column_int ''Egg'' ''energy'' i"

definition Egg_set_energy :: "uint32 \<Rightarrow> row_id \<Rightarrow> (database, unit) prog" where
  "Egg_set_energy v = sql_update ''Egg'' ''energy'' (bind_int v)"

definition Egg_memory_id :: "row_id \<Rightarrow> (database, row_id) prog" where
  "Egg_memory_id i = column_int64 ''Egg'' ''memory_id'' i"

definition Egg_set_memory_id :: "row_id \<Rightarrow> row_id \<Rightarrow> (database, unit) prog" where
  "Egg_set_memory_id v = sql_update ''Egg'' ''memory_id'' (Integer v)"


section \<open>AliveBug\<close>

definition AliveBug_insert ::
    "row_id \<Rightarrow> row_id \<Rightarrow> uint32 \<Rightarrow> uint32 \<Rightarrow> row_id \<Rightarrow> row_id \<Rightarrow> (database, row_id) prog" where
  "AliveBug_insert bug_id world_id birth energy registers_id memory_id =
     sql_insert ''AliveBug'' [(''bug_id'', Integer bug_id), (''world_id'', Integer world_id),
       (''birth'', bind_int birth), (''energy'', bind_int energy),
       (''registers_id'', Integer registers_id), (''memory_id'', Integer memory_id)]"

text \<open>The egg becomes an alive bug: new registers, and the row of the egg moves to the other table.\<close>

definition AliveBug_insert_egg :: "row_id \<Rightarrow> uint32 \<Rightarrow> (database, row_id) prog" where
  "AliveBug_insert_egg egg birth =
     andthen Registers_insert (\<lambda>registers_id.
     andthen (Egg_world_id egg) (\<lambda>world_id.
     andthen (Egg_energy egg) (\<lambda>energy.
     andthen (Egg_memory_id egg) (\<lambda>memory_id.
     andthen (AliveBug_insert egg world_id birth energy registers_id memory_id) (\<lambda>row.
     andthen (Egg_remove egg) (\<lambda>_. ret row))))))"

definition AliveBug_remove :: "row_id \<Rightarrow> (database, unit) prog" where
  "AliveBug_remove i = sql_delete ''AliveBug'' i"

definition AliveBug_set_bug_id :: "row_id \<Rightarrow> row_id \<Rightarrow> (database, row_id) prog" where
  "AliveBug_set_bug_id k i = andthen (sql_rename ''AliveBug'' k i) (\<lambda>_. ret k)"

definition AliveBug_world_id :: "row_id \<Rightarrow> (database, row_id) prog" where
  "AliveBug_world_id i = column_int64 ''AliveBug'' ''world_id'' i"

definition AliveBug_set_world_id :: "row_id \<Rightarrow> row_id \<Rightarrow> (database, unit) prog" where
  "AliveBug_set_world_id v = sql_update ''AliveBug'' ''world_id'' (Integer v)"

definition AliveBug_birth :: "row_id \<Rightarrow> (database, uint32) prog" where
  "AliveBug_birth i = column_int ''AliveBug'' ''birth'' i"

definition AliveBug_set_birth :: "uint32 \<Rightarrow> row_id \<Rightarrow> (database, unit) prog" where
  "AliveBug_set_birth v = sql_update ''AliveBug'' ''birth'' (bind_int v)"

definition AliveBug_energy :: "row_id \<Rightarrow> (database, uint32) prog" where
  "AliveBug_energy i = column_int ''AliveBug'' ''energy'' i"

definition AliveBug_set_energy :: "uint32 \<Rightarrow> row_id \<Rightarrow> (database, unit) prog" where
  "AliveBug_set_energy v = sql_update ''AliveBug'' ''energy'' (bind_int v)"

definition AliveBug_time_last_action :: "row_id \<Rightarrow> (database, uint32) prog" where
  "AliveBug_time_last_action i = column_int ''AliveBug'' ''time_last_action'' i"

definition AliveBug_set_time_last_action :: "uint32 \<Rightarrow> row_id \<Rightarrow> (database, unit) prog" where
  "AliveBug_set_time_last_action v = sql_update ''AliveBug'' ''time_last_action'' (bind_int v)"

definition AliveBug_action_time :: "row_id \<Rightarrow> (database, uint32) prog" where
  "AliveBug_action_time i = column_int ''AliveBug'' ''action_time'' i"

definition AliveBug_set_action_time :: "uint32 \<Rightarrow> row_id \<Rightarrow> (database, unit) prog" where
  "AliveBug_set_action_time v = sql_update ''AliveBug'' ''action_time'' (bind_int v)"

definition AliveBug_registers_id :: "row_id \<Rightarrow> (database, row_id) prog" where
  "AliveBug_registers_id i = column_int64 ''AliveBug'' ''registers_id'' i"

definition AliveBug_set_registers_id :: "row_id \<Rightarrow> row_id \<Rightarrow> (database, unit) prog" where
  "AliveBug_set_registers_id v = sql_update ''AliveBug'' ''registers_id'' (Integer v)"

definition AliveBug_memory_id :: "row_id \<Rightarrow> (database, row_id) prog" where
  "AliveBug_memory_id i = column_int64 ''AliveBug'' ''memory_id'' i"

definition AliveBug_set_memory_id :: "row_id \<Rightarrow> row_id \<Rightarrow> (database, unit) prog" where
  "AliveBug_set_memory_id v = sql_update ''AliveBug'' ''memory_id'' (Integer v)"


section \<open>DeadBug\<close>

definition DeadBug_insert ::
    "row_id \<Rightarrow> uint32 \<Rightarrow> (database, row_id) prog" where
  "DeadBug_insert bug_id death =
     sql_insert ''DeadBug'' [(''bug_id'', Integer bug_id), (''death'', bind_int death)]"

definition DeadBug_insert_born ::
    "row_id \<Rightarrow> uint32 \<Rightarrow> uint32 \<Rightarrow> (database, row_id) prog" where
  "DeadBug_insert_born bug_id birth death =
     sql_insert ''DeadBug'' [(''bug_id'', Integer bug_id), (''birth'', bind_int birth),
       (''death'', bind_int death)]"

definition DeadBug_insert_killed ::
    "row_id \<Rightarrow> uint32 \<Rightarrow> row_id \<Rightarrow> (database, row_id) prog" where
  "DeadBug_insert_killed bug_id death killer_id =
     sql_insert ''DeadBug'' [(''bug_id'', Integer bug_id), (''death'', bind_int death),
       (''killer_id'', Integer killer_id)]"

definition DeadBug_insert_born_killed ::
    "row_id \<Rightarrow> uint32 \<Rightarrow> uint32 \<Rightarrow> row_id \<Rightarrow> (database, row_id) prog" where
  "DeadBug_insert_born_killed bug_id birth death killer_id =
     sql_insert ''DeadBug'' [(''bug_id'', Integer bug_id), (''birth'', bind_int birth),
       (''death'', bind_int death), (''killer_id'', Integer killer_id)]"

text \<open>A dead egg or bug: its row goes with the code it ran, by the foreign keys.\<close>

definition DeadBug_insert_egg :: "row_id \<Rightarrow> uint32 \<Rightarrow> (database, row_id) prog" where
  "DeadBug_insert_egg egg death =
     andthen (DeadBug_insert egg death) (\<lambda>row.
     andthen (Egg_memory_id egg) (\<lambda>memory_id.
     andthen (Code_remove memory_id) (\<lambda>_. ret row)))"

definition DeadBug_insert_egg_killed :: "row_id \<Rightarrow> uint32 \<Rightarrow> row_id \<Rightarrow> (database, row_id) prog" where
  "DeadBug_insert_egg_killed egg death killer_id =
     andthen (DeadBug_insert_killed egg death killer_id) (\<lambda>row.
     andthen (Egg_memory_id egg) (\<lambda>memory_id.
     andthen (Code_remove memory_id) (\<lambda>_. ret row)))"

definition DeadBug_insert_bug :: "row_id \<Rightarrow> uint32 \<Rightarrow> (database, row_id) prog" where
  "DeadBug_insert_bug bug death =
     andthen (AliveBug_birth bug) (\<lambda>birth.
     andthen (DeadBug_insert_born bug birth death) (\<lambda>row.
     andthen (AliveBug_memory_id bug) (\<lambda>memory_id.
     andthen (Code_remove memory_id) (\<lambda>_. ret row))))"

definition DeadBug_insert_bug_killed :: "row_id \<Rightarrow> uint32 \<Rightarrow> row_id \<Rightarrow> (database, row_id) prog" where
  "DeadBug_insert_bug_killed bug death killer_id =
     andthen (AliveBug_birth bug) (\<lambda>birth.
     andthen (DeadBug_insert_born_killed bug birth death killer_id) (\<lambda>row.
     andthen (AliveBug_memory_id bug) (\<lambda>memory_id.
     andthen (Code_remove memory_id) (\<lambda>_. ret row))))"

definition DeadBug_remove :: "row_id \<Rightarrow> (database, unit) prog" where
  "DeadBug_remove i = sql_delete ''DeadBug'' i"

definition DeadBug_set_bug_id :: "row_id \<Rightarrow> row_id \<Rightarrow> (database, row_id) prog" where
  "DeadBug_set_bug_id k i = andthen (sql_rename ''DeadBug'' k i) (\<lambda>_. ret i)"

definition DeadBug_birth :: "row_id \<Rightarrow> (database, uint32) prog" where
  "DeadBug_birth i = column_int ''DeadBug'' ''birth'' i"

definition DeadBug_set_birth :: "uint32 \<Rightarrow> row_id \<Rightarrow> (database, unit) prog" where
  "DeadBug_set_birth v = sql_update ''DeadBug'' ''birth'' (bind_int v)"

definition DeadBug_death :: "row_id \<Rightarrow> (database, uint32) prog" where
  "DeadBug_death i = column_int ''DeadBug'' ''death'' i"

definition DeadBug_set_death :: "uint32 \<Rightarrow> row_id \<Rightarrow> (database, unit) prog" where
  "DeadBug_set_death v = sql_update ''DeadBug'' ''death'' (bind_int v)"

definition DeadBug_killer_id :: "row_id \<Rightarrow> (database, row_id) prog" where
  "DeadBug_killer_id i = column_int64 ''DeadBug'' ''killer_id'' i"

definition DeadBug_set_killer_id :: "row_id \<Rightarrow> row_id \<Rightarrow> (database, unit) prog" where
  "DeadBug_set_killer_id v = sql_update ''DeadBug'' ''killer_id'' (Integer v)"


end
