(* ===== verification/Db_Lists.thy ===== *)
theory Db_Lists
  imports Db_Environment Db_Bug
begin

text \<open>
  \<open>simpleworld/db/db.cpp\<close>: opening and creating databases and the lists of their rows.
\<close>

section \<open>Lists of ids\<close>

text \<open>Tables are kept in the order of their row ids; \<open>ORDER BY c, id\<close> sorts by the column, stably.\<close>

definition ids_of :: "string \<Rightarrow> database \<Rightarrow> row_id list" where
  "ids_of t s = map fst (db_tables s t)"

definition ids_by :: "string \<Rightarrow> string \<Rightarrow> database \<Rightarrow> row_id list" where
  "ids_by t c s = map fst (sort_key (\<lambda>(_, r). integer_of (col r c)) (db_tables s t))"

definition environments :: "database \<Rightarrow> row_id list" where
  "environments = ids_by ''Environment'' ''time''"

text \<open>The newest environment, and of several with the same time the one with the largest id.\<close>

definition last_environment :: "database \<Rightarrow> exn + row_id" where
  "last_environment s =
     (case filter (\<lambda>(_, r). where_int (=) (col r ''time'') (max_time (db_tables s)))
        (db_tables s ''Environment'') of
        [] \<Rightarrow> Inl DBException
      | rows \<Rightarrow> Inr (fst (last rows)))"

definition spawns :: "database \<Rightarrow> row_id list" where
  "spawns = ids_of ''Spawn''"

definition resources :: "database \<Rightarrow> row_id list" where
  "resources = ids_of ''Resource''"

definition eggs :: "database \<Rightarrow> row_id list" where
  "eggs = ids_of ''Egg''"

definition alive_bugs :: "database \<Rightarrow> row_id list" where
  "alive_bugs = ids_by ''AliveBug'' ''birth''"

definition dead_bugs :: "database \<Rightarrow> row_id list" where
  "dead_bugs = ids_by ''DeadBug'' ''death''"

definition food :: "database \<Rightarrow> row_id list" where
  "food = ids_of ''Food''"

definition stats_ids :: "database \<Rightarrow> row_id list" where
  "stats_ids = ids_of ''Stats''"

section \<open>Opening and creating databases\<close>

text \<open>
  The files of the file system that are databases: their version and tables.  Opening gives a new
  connection, without a transaction; \<open>WrongVersion\<close> is a \<open>DBException\<close>.
\<close>

type_synonym db_files = "string \<rightharpoonup> int \<times> tables"

definition connection :: "tables \<Rightarrow> database" where
  "connection db =
     \<lparr>db_tables = db, db_begun = None, db_by_savepoint = False, db_savepoints = [], db_last_id = 0\<rparr>"

definition database_version :: int where
  "database_version = 6"

definition db_open :: "db_files \<Rightarrow> string \<Rightarrow> exn + database" where
  "db_open files filename =
     (case files filename of
        None \<Rightarrow> Inl DBException
      | Some (version, db) \<Rightarrow>
          if version \<noteq> database_version then Inl DBException else Inr (connection db))"

text \<open>\<open>create\<close> leaves the file behind when the environment is rejected.\<close>

definition db_create :: "string \<Rightarrow> uint32 \<Rightarrow> environment_values \<Rightarrow> (db_files, unit) prog" where
  "db_create filename time v = (\<lambda>files.
     if files filename \<noteq> None then (Inl DBException, files)
     else (case Environment_insert time v (connection (\<lambda>_. [])) of
             (Inl x, s) \<Rightarrow> (Inl x, files(filename \<mapsto> (database_version, db_tables s)))
           | (Inr _, s) \<Rightarrow> (Inr (), files(filename \<mapsto> (database_version, db_tables s)))))"

definition db_create_default :: "string \<Rightarrow> (db_files, unit) prog" where
  "db_create_default filename = db_create filename 0 default_environment"

end
