(* ===== verification/Db_Mutation.thy ===== *)
theory Db_Mutation
  imports Tables
begin

text \<open>
  \<open>simpleworld/db/mutation.cpp\<close>: the rows that record mutations.
\<close>

datatype mutation_type = Total | Partial | Permutation | Addition | Duplication | Deletion

fun type_number :: "mutation_type \<Rightarrow> int" where
  "type_number Total = 0"
| "type_number Partial = 1"
| "type_number Permutation = 2"
| "type_number Addition = 3"
| "type_number Duplication = 4"
| "type_number Deletion = 5"

definition Mutation_insert_mutation ::
    "row_id \<Rightarrow> uint32 \<Rightarrow> uint32 \<Rightarrow> uint32 \<Rightarrow> uint32 \<Rightarrow> (database, row_id) prog" where
  "Mutation_insert_mutation bug_id time position original mutated =
     sql_insert ''Mutation'' [(''bug_id'', Integer bug_id), (''time'', bind_int time),
       (''type'', Integer 0), (''position'', bind_int position), (''original'', bind_int original),
       (''mutated'', bind_int mutated)]"

definition Mutation_insert_partial ::
    "row_id \<Rightarrow> uint32 \<Rightarrow> uint32 \<Rightarrow> uint32 \<Rightarrow> uint32 \<Rightarrow> (database, row_id) prog" where
  "Mutation_insert_partial bug_id time position original mutated =
     sql_insert ''Mutation'' [(''bug_id'', Integer bug_id), (''time'', bind_int time),
       (''type'', Integer 1), (''position'', bind_int position), (''original'', bind_int original),
       (''mutated'', bind_int mutated)]"

definition Mutation_insert_permutation ::
    "row_id \<Rightarrow> uint32 \<Rightarrow> uint32 \<Rightarrow> uint32 \<Rightarrow> uint32 \<Rightarrow> (database, row_id) prog" where
  "Mutation_insert_permutation bug_id time position original mutated =
     sql_insert ''Mutation'' [(''bug_id'', Integer bug_id), (''time'', bind_int time),
       (''type'', Integer 2), (''position'', bind_int position), (''original'', bind_int original),
       (''mutated'', bind_int mutated)]"

definition Mutation_insert_addition ::
    "row_id \<Rightarrow> uint32 \<Rightarrow> uint32 \<Rightarrow> uint32 \<Rightarrow> (database, row_id) prog" where
  "Mutation_insert_addition bug_id time position mutated =
     sql_insert ''Mutation'' [(''bug_id'', Integer bug_id), (''time'', bind_int time),
       (''type'', Integer 3), (''position'', bind_int position), (''mutated'', bind_int mutated)]"

definition Mutation_insert_duplication ::
    "row_id \<Rightarrow> uint32 \<Rightarrow> uint32 \<Rightarrow> uint32 \<Rightarrow> (database, row_id) prog" where
  "Mutation_insert_duplication bug_id time position mutated =
     sql_insert ''Mutation'' [(''bug_id'', Integer bug_id), (''time'', bind_int time),
       (''type'', Integer 4), (''position'', bind_int position), (''mutated'', bind_int mutated)]"

definition Mutation_insert_deletion ::
    "row_id \<Rightarrow> uint32 \<Rightarrow> uint32 \<Rightarrow> uint32 \<Rightarrow> (database, row_id) prog" where
  "Mutation_insert_deletion bug_id time position original =
     sql_insert ''Mutation'' [(''bug_id'', Integer bug_id), (''time'', bind_int time),
       (''type'', Integer 5), (''position'', bind_int position),
       (''original'', bind_int original)]"

definition Mutation_remove :: "row_id \<Rightarrow> (database, unit) prog" where
  "Mutation_remove i = sql_delete ''Mutation'' i"

definition Mutation_set_id :: "row_id \<Rightarrow> row_id \<Rightarrow> (database, row_id) prog" where
  "Mutation_set_id k i = andthen (sql_rename ''Mutation'' k i) (\<lambda>_. ret k)"

definition Mutation_bug_id :: "row_id \<Rightarrow> (database, row_id) prog" where
  "Mutation_bug_id i = column_int64 ''Mutation'' ''bug_id'' i"

definition Mutation_set_bug_id :: "row_id \<Rightarrow> row_id \<Rightarrow> (database, unit) prog" where
  "Mutation_set_bug_id v = sql_update ''Mutation'' ''bug_id'' (Integer v)"

definition Mutation_time :: "row_id \<Rightarrow> (database, uint32) prog" where
  "Mutation_time i = column_int ''Mutation'' ''time'' i"

definition Mutation_set_time :: "uint32 \<Rightarrow> row_id \<Rightarrow> (database, unit) prog" where
  "Mutation_set_time v = sql_update ''Mutation'' ''time'' (bind_int v)"

definition Mutation_set_type :: "mutation_type \<Rightarrow> row_id \<Rightarrow> (database, unit) prog" where
  "Mutation_set_type v = sql_update ''Mutation'' ''type'' (Integer (type_number v))"

definition Mutation_position :: "row_id \<Rightarrow> (database, uint32) prog" where
  "Mutation_position i = column_int ''Mutation'' ''position'' i"

definition Mutation_set_position :: "uint32 \<Rightarrow> row_id \<Rightarrow> (database, unit) prog" where
  "Mutation_set_position v = sql_update ''Mutation'' ''position'' (bind_int v)"

definition Mutation_original :: "row_id \<Rightarrow> (database, uint32) prog" where
  "Mutation_original i = column_int ''Mutation'' ''original'' i"

definition Mutation_set_original :: "uint32 \<Rightarrow> row_id \<Rightarrow> (database, unit) prog" where
  "Mutation_set_original v = sql_update ''Mutation'' ''original'' (bind_int v)"

definition Mutation_mutated :: "row_id \<Rightarrow> (database, uint32) prog" where
  "Mutation_mutated i = column_int ''Mutation'' ''mutated'' i"

definition Mutation_set_mutated :: "uint32 \<Rightarrow> row_id \<Rightarrow> (database, unit) prog" where
  "Mutation_set_mutated v = sql_update ''Mutation'' ''mutated'' (bind_int v)"


text \<open>The number is cast to the enumeration; a number that is none of the six has no meaning.\<close>

definition Mutation_type :: "row_id \<Rightarrow> (database, mutation_type) prog" where
  "Mutation_type i =
     andthen (column_int ''Mutation'' ''type'' i) (\<lambda>n :: uint32.
     case find (\<lambda>k. type_number k = uint n) [Total, Partial, Permutation, Addition, Duplication, Deletion] of
       None \<Rightarrow> throw UndefinedBehaviour
     | Some k \<Rightarrow> ret k)"

end
