(* ===== verification/Mutation.thy ===== *)
theory Mutation
  imports Random_Numbers Memory Db_Lists Db_Mutation
begin

text \<open>
  \<open>simpleworld/mutation.cpp\<close>: the mutations of the code of a bug.  \<open>generate\<close> decides where
  mutations happen, \<open>mutate\<close> applies them to a copy of the code.  The arrays are byte lists; an
  access outside an array has no meaning.
\<close>

section \<open>Data\<close>

record mutation =
  mut_type :: mutation_type
  mut_address :: address
  mut_old_value :: cpu_word
  mut_new_value :: cpu_word

text \<open>
  The object of the loop is reused and its two values are never initialised before they are
  written: the parameters \<open>old\<close> and \<open>new\<close> stand for what they hold.
\<close>

definition new_mutation :: "cpu_word \<Rightarrow> cpu_word \<Rightarrow> mutation_type \<Rightarrow> address \<Rightarrow> mutation" where
  "new_mutation old new type addr =
     \<lparr>mut_type = type, mut_address = addr, mut_old_value = old, mut_new_value = new\<rparr>"

section \<open>Random words\<close>

text \<open>
  The state is the generator of random numbers.  \<open>w0\<close> is the content of the uninitialised word
  that is filled in, \<open>left\<close> says whether the compiler evaluates arguments from left to right.
\<close>

definition random_word ::
    "nat \<Rightarrow> (nat \<Rightarrow> nat) \<Rightarrow> endian \<Rightarrow> cpu_word \<Rightarrow> (nat, cpu_word) prog" where
  "random_word rand_max rand e w0 =
     for_each [0..<4] (\<lambda>i word.
       andthen (randint rand_max rand 0 256) (\<lambda>v.
       reading (\<lambda>_. set_byte e word (of_nat i) (of_nat v)))) w0"

definition partial_mutation ::
    "nat \<Rightarrow> (nat \<Rightarrow> nat) \<Rightarrow> endian \<Rightarrow> bool \<Rightarrow> cpu_word \<Rightarrow> (nat, cpu_word) prog" where
  "partial_mutation rand_max rand e left word =
     andthen (randint rand_max rand 1 4) (\<lambda>limit.
     for_each [0..<limit] (\<lambda>_ newword.
       if left
       then andthen (randint rand_max rand 0 4) (\<lambda>i.
            andthen (randint rand_max rand 0 256) (\<lambda>v.
            reading (\<lambda>_. set_byte e newword (of_nat i) (of_nat v))))
       else andthen (randint rand_max rand 0 256) (\<lambda>v.
            andthen (randint rand_max rand 0 4) (\<lambda>i.
            reading (\<lambda>_. set_byte e newword (of_nat i) (of_nat v))))) word)"

definition permutation ::
    "nat \<Rightarrow> (nat \<Rightarrow> nat) \<Rightarrow> endian \<Rightarrow> cpu_word \<Rightarrow> cpu_word \<Rightarrow> (nat, cpu_word) prog" where
  "permutation rand_max rand e w0 word =
     for_each [0..<4] (\<lambda>i newword.
       andthen (randint rand_max rand 0 4) (\<lambda>k.
       reading (\<lambda>_. attempt (get_byte e word (of_nat k))
         (\<lambda>b. set_byte e newword (of_nat i) b)))) w0"

section \<open>Generating the list of mutations\<close>

text \<open>
  \<open>one_in\<close> is \<open>int(1 / probability)\<close>, and \<open>None\<close> when the probability is 0.  The body of the
  \<open>switch\<close> gives the mutation and what is added to the address and to the size of the code.
\<close>

definition choose_mutation :: "nat \<Rightarrow> address \<Rightarrow> mutation_type \<times> address \<times> address" where
  "choose_mutation k i =
     (if k = 0 then (Total, 4, 0)
      else if k = 1 then (Partial, 4, 0)
      else if k = 2 then (Permutation, 4, 0)
      else if k = 3 then (Addition, 4, 4)
      else if k = 4 then (if i = 0 then Addition else Duplication, 4, 4)
      else (Deletion, 0, - 4))"

partial_function (option) generate_loop ::
    "nat \<Rightarrow> (nat \<Rightarrow> nat) \<Rightarrow> (mutation_type \<Rightarrow> address \<Rightarrow> mutation) \<Rightarrow> nat \<Rightarrow> address \<Rightarrow> address \<Rightarrow>
      mutation list \<Rightarrow> nat \<Rightarrow> (mutation list \<times> address \<times> nat) option" where
  "generate_loop rand_max rand mk one_in i sz ms n =
     (if i < sz
      then if scaled rand_max one_in (rand n) = 0
        then (case choose_mutation (scaled rand_max 6 (rand (n + 1))) i of
                (type, di, dsz) \<Rightarrow>
                  generate_loop rand_max rand mk one_in (i + di) (sz + dsz) (ms @ [mk type i]) (n + 2))
        else generate_loop rand_max rand mk one_in (i + 4) sz ms (n + 1)
      else Some (ms, sz, n))"

definition generate ::
    "nat \<Rightarrow> (nat \<Rightarrow> nat) \<Rightarrow> (mutation_type \<Rightarrow> address \<Rightarrow> mutation) \<Rightarrow> nat option \<Rightarrow> address \<Rightarrow> nat \<Rightarrow>
      (bool \<times> mutation list \<times> address \<times> nat) option" where
  "generate rand_max rand mk probability sz n =
     (case probability of
        None \<Rightarrow> Some (False, [], sz, n)
      | Some one_in \<Rightarrow>
          (case generate_loop rand_max rand mk one_in 0 sz [] n of
             None \<Rightarrow> None
           | Some (ms, sz', n') \<Rightarrow> Some (ms \<noteq> [], ms, sz', n')))"

section \<open>Applying the mutations\<close>

record mutate_state =
  ms_bytes :: "uint8 list"
  ms_original :: address
  ms_mutated :: address
  ms_rand :: nat

definition with_rand :: "(nat, 'a) prog \<Rightarrow> (mutate_state, 'a) prog" where
  "with_rand p = (\<lambda>s. case p (ms_rand s) of (r, n) \<Rightarrow> (r, s\<lparr>ms_rand := n\<rparr>))"

text \<open>\<open>memcpy(mutated + mutated_i, original + original_i, n)\<close>.\<close>

definition copy_code :: "uint8 list \<Rightarrow> address \<Rightarrow> (mutate_state, unit) prog" where
  "copy_code original n = updating (\<lambda>s.
     if unat (ms_original s) + unat n \<le> length original \<and>
        unat (ms_mutated s) + unat n \<le> length (ms_bytes s)
     then Inr (s\<lparr>ms_bytes := blit (ms_bytes s) (unat (ms_mutated s))
                   (chunk original (unat (ms_original s)) (unat n))\<rparr>)
     else Inl UndefinedBehaviour)"

text \<open>\<open>*reinterpret_cast<Word*>(bytes + offset)\<close>, read and written.\<close>

definition peek_word :: "endian \<Rightarrow> uint8 list \<Rightarrow> int \<Rightarrow> exn + cpu_word" where
  "peek_word e bs offset =
     (if 0 \<le> offset \<and> offset + 4 \<le> int (length bs)
      then Inr (host_word e (chunk bs (nat offset) 4)) else Inl UndefinedBehaviour)"

definition poke_word :: "endian \<Rightarrow> int \<Rightarrow> cpu_word \<Rightarrow> (mutate_state, unit) prog" where
  "poke_word e offset w = updating (\<lambda>s.
     if 0 \<le> offset \<and> offset + 4 \<le> int (length (ms_bytes s))
     then Inr (s\<lparr>ms_bytes := blit (ms_bytes s) (nat offset) (host_bytes e w)\<rparr>)
     else Inl UndefinedBehaviour)"

definition advance :: "address \<Rightarrow> address \<Rightarrow> (mutate_state, unit) prog" where
  "advance n k = updating (\<lambda>s. Inr (s\<lparr>ms_original := ms_original s + n, ms_mutated := ms_mutated s + k\<rparr>))"

text \<open>
  The three mutations of one word share their code: nothing happens, and neither index moves,
  when the new word is the old one.
\<close>

definition replace_word ::
    "endian \<Rightarrow> uint8 list \<Rightarrow> (cpu_word \<Rightarrow> (nat, cpu_word) prog) \<Rightarrow> address \<Rightarrow> mutation \<Rightarrow>
      (mutate_state, mutation) prog" where
  "replace_word e original change chunk_size m =
     andthen (reading (\<lambda>_. peek_word e original (uint chunk_size))) (\<lambda>old_word.
     andthen (with_rand (change old_word)) (\<lambda>new_word.
     if old_word \<noteq> new_word
     then andthen (poke_word e (uint chunk_size) new_word) (\<lambda>_.
          andthen (advance (chunk_size + 4) (chunk_size + 4)) (\<lambda>_.
          ret (m\<lparr>mut_old_value := old_word, mut_new_value := new_word\<rparr>)))
     else ret m))"

definition apply_mutation ::
    "nat \<Rightarrow> (nat \<Rightarrow> nat) \<Rightarrow> endian \<Rightarrow> bool \<Rightarrow> cpu_word \<Rightarrow> uint8 list \<Rightarrow> mutation \<Rightarrow>
      (mutate_state, mutation) prog" where
  "apply_mutation rand_max rand e left w0 original m =
     andthen (reading (\<lambda>s. Inr (mut_address m - ms_mutated s))) (\<lambda>chunk_size.
     andthen (if chunk_size > 0 then copy_code original chunk_size else ret ()) (\<lambda>_.
     case mut_type m of
       Total \<Rightarrow>
         replace_word e original (\<lambda>_. random_word rand_max rand e w0) chunk_size m
     | Partial \<Rightarrow>
         replace_word e original (partial_mutation rand_max rand e left) chunk_size m
     | Permutation \<Rightarrow>
         replace_word e original (permutation rand_max rand e w0) chunk_size m
     | Addition \<Rightarrow>
         andthen (with_rand (random_word rand_max rand e w0)) (\<lambda>new_word.
         andthen (poke_word e (uint chunk_size) new_word) (\<lambda>_.
         andthen (advance chunk_size (chunk_size + 4)) (\<lambda>_.
         ret (m\<lparr>mut_new_value := new_word\<rparr>))))
     | Duplication \<Rightarrow>
         andthen (reading (\<lambda>s. peek_word e (ms_bytes s) (uint chunk_size - 4))) (\<lambda>new_word.
         andthen (poke_word e (uint chunk_size) new_word) (\<lambda>_.
         andthen (advance chunk_size (chunk_size + 4)) (\<lambda>_.
         ret (m\<lparr>mut_new_value := new_word\<rparr>))))
     | Deletion \<Rightarrow>
         andthen (reading (\<lambda>_. peek_word e original (uint chunk_size))) (\<lambda>old_word.
         andthen (advance (chunk_size + 4) chunk_size) (\<lambda>_.
         ret (m\<lparr>mut_old_value := old_word\<rparr>)))))"

fun apply_mutations ::
    "(mutation \<Rightarrow> (mutate_state, mutation) prog) \<Rightarrow> mutation list \<Rightarrow> (mutate_state, mutation list) prog" where
  "apply_mutations f [] = ret []"
| "apply_mutations f (m # ms) =
     andthen (f m) (\<lambda>m'. andthen (apply_mutations f ms) (\<lambda>ms'. ret (m' # ms')))"

text \<open>
  \<open>mutate(list, original, size)\<close>; \<open>fresh\<close> is what the new array of \<open>size\<close> bytes holds.  The result
  is the array, with the list of mutations updated in place.
\<close>

definition mutate_code ::
    "nat \<Rightarrow> (nat \<Rightarrow> nat) \<Rightarrow> endian \<Rightarrow> bool \<Rightarrow> cpu_word \<Rightarrow> uint8 list \<Rightarrow> uint8 list \<Rightarrow> address \<Rightarrow>
      mutation list \<Rightarrow> (nat, uint8 list \<times> mutation list) prog" where
  "mutate_code rand_max rand e left w0 fresh original sz ms = (\<lambda>n.
     case andthen (apply_mutations (apply_mutation rand_max rand e left w0 original) ms) (\<lambda>ms'.
          andthen (reading (\<lambda>s. Inr (ms_mutated s))) (\<lambda>mutated_i.
          andthen (if mutated_i \<noteq> sz then copy_code original (sz - mutated_i) else ret ()) (\<lambda>_.
          andthen (reading (\<lambda>s. Inr (ms_bytes s))) (\<lambda>bytes. ret (bytes, ms')))))
       \<lparr>ms_bytes = take (unat sz) fresh, ms_original = 0, ms_mutated = 0, ms_rand = n\<rparr>
     of (r, s) \<Rightarrow> (r, ms_rand s))"

section \<open>The bytes that are drawn\<close>

text \<open>
  Specification: the bytes of the word a mutation puts into the code, when \<open>n\<close> random numbers have been
  drawn before; \<open>old\<close> is the word at the address or, for a duplication, the word before it.
\<close>

lemma byte_number: "i < 4 \<Longrightarrow> \<not> 3 < (of_nat i :: uint8)"
proof -
  assume "i < 4"
  then consider "i = 0" | "i = 1" | "i = 2" | "i = 3"
    by linarith
  then show ?thesis
    by cases simp_all
qed

definition new_bytes :: "nat \<Rightarrow> (nat \<Rightarrow> nat) \<Rightarrow> bool \<Rightarrow> mutation_type \<Rightarrow> nat \<Rightarrow> uint8 list \<Rightarrow> uint8 list" where
  "new_bytes rand_max rand left type n old =
     (let byte = (\<lambda>k. of_nat (scaled rand_max 256 (rand k))); place = (\<lambda>k. scaled rand_max 4 (rand k))
      in case type of
           Partial \<Rightarrow>
             fold (\<lambda>j bs. if left then bs[place (n + 1 + 2 * j) := byte (n + 2 + 2 * j)]
                          else bs[place (n + 2 + 2 * j) := byte (n + 1 + 2 * j)])
               [0..<1 + scaled rand_max 3 (rand n)] old
         | Permutation \<Rightarrow> map (\<lambda>i. old ! place (n + i)) [0..<4]
         | Duplication \<Rightarrow> old
         | _ \<Rightarrow> map (\<lambda>i. byte (n + i)) [0..<4])"

lemma upto4: "[0..<4 :: nat] = [0, 1, 2, 3]"
  by (simp add: upt_rec)

lemma suc3: "Suc (Suc (Suc n)) = n + 3"
  by simp

lemma random_word_drawn:
  assumes "type \<in> {Total, Addition}"
  shows "random_word rand_max rand e w0 n = (Inr (host_word e (new_bytes rand_max rand left type n old)), n + 4)"
proof -
  obtain a b c d where "host_bytes e w0 = [a, b, c, d]"
    using length_4D [OF length_host_bytes] by blast
  then show ?thesis
    using assms by (auto simp: random_word_def upto4 randint_def set_byte_def new_bytes_def Let_def suc3)
qed

lemma get_byte_chosen:
  assumes "k < 4"
  shows "get_byte e w (of_nat k) = Inr (host_bytes e w ! k)"
    and "set_byte e w (of_nat k) v = Inr (host_word e ((host_bytes e w)[k := v]))"
  using assms byte_number [OF assms] by (simp_all add: get_byte_def set_byte_def unat_of_nat take_bit_eq_mod)

lemma permutation_drawn:
  assumes "\<forall>i. rand i \<le> rand_max"
  shows "permutation rand_max rand e w0 w n =
    (Inr (host_word e (new_bytes rand_max rand left Permutation n (host_bytes e w))), n + 4)"
proof -
  obtain a b c d where w0: "host_bytes e w0 = [a, b, c, d]"
    using length_4D [OF length_host_bytes] by blast
  have place: "scaled rand_max 4 (rand k) < 4" for k
    using assms by (simp add: scaled_less)
  show ?thesis
    using w0 by (simp add: permutation_def upto4 randint_def set_byte_def get_byte_chosen(1) [OF place] new_bytes_def Let_def suc3)
qed

lemma partial_mutation_drawn:
  assumes "\<forall>i. rand i \<le> rand_max"
  shows "\<exists>n'. partial_mutation rand_max rand e left w n =
    (Inr (host_word e (new_bytes rand_max rand left Partial n (host_bytes e w))), n')"
proof -
  let ?body = "\<lambda>_ newword.
       if left
       then andthen (randint rand_max rand 0 4) (\<lambda>i.
            andthen (randint rand_max rand 0 256) (\<lambda>v.
            reading (\<lambda>_. set_byte e newword (of_nat i) (of_nat v))))
       else andthen (randint rand_max rand 0 256) (\<lambda>v.
            andthen (randint rand_max rand 0 4) (\<lambda>i.
            reading (\<lambda>_. set_byte e newword (of_nat i) (of_nat v))))"
  let ?put = "\<lambda>m j bs. if left then bs[scaled rand_max 4 (rand (m + 1 + 2 * j)) := of_nat (scaled rand_max 256 (rand (m + 2 + 2 * j))) :: uint8]
                          else bs[scaled rand_max 4 (rand (m + 2 + 2 * j)) := of_nat (scaled rand_max 256 (rand (m + 1 + 2 * j)))]"
  have place: "scaled rand_max 4 (rand k) < 4" for k
    using assms by (simp add: scaled_less)
  have step: "?body x w (m + 1) = (Inr (host_word e (?put m 0 (host_bytes e w))), m + 3)" for x :: nat and w m
    by (simp add: randint_def get_byte_chosen(2) [OF place])
  have fold: "length bs = 4 \<Longrightarrow> length (fold (?put m) js bs) = 4" for m js and bs :: "uint8 list"
    by (induction js arbitrary: bs) simp_all
  have "for_each [i..<i + k] ?body w (m + 1 + 2 * i) =
      (Inr (host_word e (fold (?put m) [i..<i + k] (host_bytes e w))), m + 1 + 2 * (i + k))" for i k m w
  proof (induction k arbitrary: i w)
    case (Suc k)
    have "[i..<i + Suc k] = i # [Suc i..<Suc i + k]"
      by (simp add: upt_rec)
    moreover have "?body i w (m + 1 + 2 * i) = (Inr (host_word e (?put m i (host_bytes e w))), m + 1 + 2 * Suc i)"
      using step [of w "m + 2 * i"] by (simp add: algebra_simps)
    ultimately show ?case
      using Suc.IH [of "Suc i"] by (simp add: algebra_simps)
  qed simp
  from this [of 0 "1 + scaled rand_max 3 (rand n)" w n] show ?thesis
    by (simp add: partial_mutation_def andthen_apply [of "randint rand_max rand 1 4"]
        randint_def [of rand_max rand 1 4] new_bytes_def Let_def del: upt_Suc One_nat_def fold_simps)
qed


section \<open>One mutation\<close>

text \<open>Specification: the code after one edit, \<open>new\<close> the bytes of the new word.\<close>

fun edit :: "mutation_type \<Rightarrow> nat \<Rightarrow> uint8 list \<Rightarrow> uint8 list \<Rightarrow> uint8 list" where
  "edit Deletion a new bs = take a bs @ drop (a + 4) bs"
| "edit Addition a new bs = take a bs @ new @ drop a bs"
| "edit Duplication a new bs = take a bs @ new @ drop a bs"
| "edit _ a new bs = blit bs a new"

text \<open>The last step of \<open>mutate\<close>: copying the rest of the code.\<close>

definition copy_rest :: "uint8 list \<Rightarrow> address \<Rightarrow> mutate_state \<Rightarrow> exn + uint8 list" where
  "copy_rest original sz s =
     (if ms_mutated s = sz then Inr (ms_bytes s)
      else case copy_code original (sz - ms_mutated s) s of
        (Inl x, _) \<Rightarrow> Inl x
      | (Inr _, s') \<Rightarrow> Inr (ms_bytes s'))"

lemma mutate_code_run:
  "mutate_code rand_max rand e left w0 fresh original sz ms n =
    (case apply_mutations (apply_mutation rand_max rand e left w0 original) ms
        \<lparr>ms_bytes = take (unat sz) fresh, ms_original = 0, ms_mutated = 0, ms_rand = n\<rparr> of
       (Inl x, s) \<Rightarrow> (Inl x, ms_rand s)
     | (Inr ms', s) \<Rightarrow>
         (case copy_rest original sz s of Inl x \<Rightarrow> Inl x | Inr bytes \<Rightarrow> Inr (bytes, ms'), ms_rand s))"
  by (auto simp: mutate_code_def copy_rest_def copy_code_def split: prod.split sum.split)

lemma copy_rest_run:
  assumes "unat (ms_mutated s) \<le> unat sz" and "length (ms_bytes s) = unat sz"
  shows "copy_rest original sz s =
    (if unat (ms_original s) + (unat sz - unat (ms_mutated s)) \<le> length original \<or> ms_mutated s = sz
     then Inr (take (unat (ms_mutated s)) (ms_bytes s) @
       chunk original (unat (ms_original s)) (unat sz - unat (ms_mutated s)))
     else Inl UndefinedBehaviour)"
proof -
  have d: "unat (sz - ms_mutated s) = unat sz - unat (ms_mutated s)"
    using assms(1) by (simp add: unat_sub word_le_nat_alt)
  show ?thesis
    using assms by (auto simp: copy_rest_def copy_code_def d blit_def chunk_def)
qed

text \<open>A prefix of the code copied in front of the first mutation.\<close>

definition prefix_state :: "uint8 list \<Rightarrow> uint8 list \<Rightarrow> address \<Rightarrow> nat \<Rightarrow> mutate_state" where
  "prefix_state original fresh a n =
     \<lparr>ms_bytes = take (unat a) original @ drop (unat a) fresh, ms_original = 0, ms_mutated = 0, ms_rand = n\<rparr>"

lemma copy_prefix:
  assumes "unat a \<le> length original" and "unat a \<le> length fresh"
  shows "(if a > 0 then copy_code original a else ret ())
      \<lparr>ms_bytes = fresh, ms_original = 0, ms_mutated = 0, ms_rand = n\<rparr> =
    (Inr (), prefix_state original fresh a n)"
  using assms by (auto simp: copy_code_def prefix_state_def blit_def chunk_def unat_eq_0
      dest: not_less [THEN iffD1])

lemma plus4:
  fixes a sz :: address
  assumes "unat a + 4 \<le> unat sz"
  shows "unat (a + 4) = unat a + 4"
proof -
  have "unat a + 4 < 4294967296"
    using assms unsigned_less [of sz, where ?'a = nat] by simp
  then show ?thesis
    by (simp add: unat_word_ariths)
qed

lemma length_prefix [simp]:
  "unat a \<le> length original \<Longrightarrow> unat a \<le> length fresh \<Longrightarrow>
    length (ms_bytes (prefix_state original fresh a n)) = length fresh"
  by (simp add: prefix_state_def)

lemma poke_prefix:
  assumes "unat a + 4 \<le> length fresh" and "unat a \<le> length original"
  shows "poke_word e (uint a) w (prefix_state original fresh a n) =
    (Inr (), (prefix_state original fresh a n)\<lparr>ms_bytes :=
       take (unat a) original @ host_bytes e w @ drop (unat a + 4) fresh\<rparr>)"
proof -
  have u: "nat (uint a) = unat a" "uint a + 4 \<le> int (length fresh) \<longleftrightarrow> unat a + 4 \<le> length fresh"
    by (simp, metis (mono_tags) int_ops(5) of_nat_le_iff of_nat_numeral uint_nat)
  show ?thesis
    using assms by (simp add: poke_word_def u prefix_state_def blit_def add.commute [of 4])
qed

lemma peek_inside:
  assumes "unat a + 4 \<le> length bs"
  shows "peek_word e bs (uint a) = Inr (host_word e (chunk bs (unat a) 4))"
proof -
  have u: "nat (uint a) = unat a" "uint a + 4 \<le> int (length bs) \<longleftrightarrow> unat a + 4 \<le> length bs"
    by (simp, metis (mono_tags) int_ops(5) of_nat_le_iff of_nat_numeral uint_nat)
  show ?thesis
    using assms by (simp add: peek_word_def u)
qed

lemma replace_first:
  assumes "unat a + 4 \<le> length original" and "unat a + 4 \<le> length fresh"
    and "old = host_word e (chunk original (unat a) 4)" and "change old n = (Inr w, n')"
  shows "replace_word e original change a m (prefix_state original fresh a n) =
    (if old = w then (Inr m, prefix_state original fresh a n')
     else (Inr (m\<lparr>mut_old_value := old, mut_new_value := w\<rparr>),
       \<lparr>ms_bytes = take (unat a) original @ host_bytes e w @ drop (unat a + 4) fresh,
        ms_original = a + 4, ms_mutated = a + 4, ms_rand = n'\<rparr>))"
proof -
  have rand: "with_rand (change old) (prefix_state original fresh a n) =
      (Inr w, prefix_state original fresh a n')"
    using assms(4) by (simp add: with_rand_def prefix_state_def)
  have "replace_word e original change a m (prefix_state original fresh a n) =
      (if old = w then (Inr m, prefix_state original fresh a n')
       else andthen (poke_word e (uint a) w) (\<lambda>_. andthen (advance (a + 4) (a + 4)) (\<lambda>_.
         ret (m\<lparr>mut_old_value := old, mut_new_value := w\<rparr>))) (prefix_state original fresh a n'))"
    using rand by (simp add: replace_word_def peek_inside [OF assms(1)] flip: assms(3))
  then show ?thesis
    using assms(1,2) by (simp add: poke_prefix advance_def) (simp add: prefix_state_def)
qed

text \<open>One replaced word, up to the end of the function.\<close>

lemma replace_finished:
  assumes "length original = unat sz" and "length fresh = unat sz" and "unat a + 4 \<le> unat sz"
  shows "copy_rest original sz (prefix_state original fresh a n) = Inr original"
    and "copy_rest original sz \<lparr>ms_bytes = take (unat a) original @ host_bytes e w @ drop (unat a + 4) fresh,
        ms_original = a + 4, ms_mutated = a + 4, ms_rand = n\<rparr> = Inr (blit original (unat a) (host_bytes e w))"
proof -
  have "length (ms_bytes (prefix_state original fresh a n)) = unat sz"
    using assms by simp
  then show "copy_rest original sz (prefix_state original fresh a n) = Inr original"
    using assms by (subst copy_rest_run) (simp_all add: prefix_state_def chunk_def)
  show "copy_rest original sz \<lparr>ms_bytes = take (unat a) original @ host_bytes e w @ drop (unat a + 4) fresh,
        ms_original = a + 4, ms_mutated = a + 4, ms_rand = n\<rparr> = Inr (blit original (unat a) (host_bytes e w))"
    using assms plus4 [OF assms(3)]
    by (subst copy_rest_run) (auto simp: chunk_def blit_def)
qed

text \<open>How \<open>apply_mutation\<close> starts on the first mutation of a list.\<close>

lemma apply_first:
  assumes "unat (mut_address m) \<le> length original" and "unat (mut_address m) \<le> length fresh"
  shows "apply_mutation rand_max rand e left w0 original m
      \<lparr>ms_bytes = fresh, ms_original = 0, ms_mutated = 0, ms_rand = n\<rparr> =
    (case mut_type m of
       Total \<Rightarrow>
         replace_word e original (\<lambda>_. random_word rand_max rand e w0) (mut_address m) m
     | Partial \<Rightarrow>
         replace_word e original (partial_mutation rand_max rand e left) (mut_address m) m
     | Permutation \<Rightarrow>
         replace_word e original (permutation rand_max rand e w0) (mut_address m) m
     | Addition \<Rightarrow>
         andthen (with_rand (random_word rand_max rand e w0)) (\<lambda>new_word.
         andthen (poke_word e (uint (mut_address m)) new_word) (\<lambda>_.
         andthen (advance (mut_address m) (mut_address m + 4)) (\<lambda>_.
         ret (m\<lparr>mut_new_value := new_word\<rparr>))))
     | Duplication \<Rightarrow>
         andthen (reading (\<lambda>s. peek_word e (ms_bytes s) (uint (mut_address m) - 4))) (\<lambda>new_word.
         andthen (poke_word e (uint (mut_address m)) new_word) (\<lambda>_.
         andthen (advance (mut_address m) (mut_address m + 4)) (\<lambda>_.
         ret (m\<lparr>mut_new_value := new_word\<rparr>))))
     | Deletion \<Rightarrow>
         andthen (reading (\<lambda>_. peek_word e original (uint (mut_address m)))) (\<lambda>old_word.
         andthen (advance (mut_address m + 4) (mut_address m)) (\<lambda>_.
         ret (m\<lparr>mut_old_value := old_word\<rparr>))))
      (prefix_state original fresh (mut_address m) n)"
  unfolding apply_mutation_def andthen_apply reading_apply sum.case prod.case mutate_state.select_convs
    diff_zero copy_prefix [OF assms]
  by simp

text \<open>The size \<open>generate\<close> computes for one mutation.\<close>

definition edited_size :: "mutation_type \<Rightarrow> nat \<Rightarrow> nat \<Rightarrow> nat \<Rightarrow> bool" where
  "edited_size t a old_size new_size \<longleftrightarrow>
     (case t of
        Addition \<Rightarrow> a \<le> old_size \<and> new_size = old_size + 4
      | Duplication \<Rightarrow> 4 \<le> a \<and> a \<le> old_size \<and> new_size = old_size + 4
      | Deletion \<Rightarrow> a + 4 \<le> old_size \<and> new_size + 4 = old_size
      | _ \<Rightarrow> a + 4 \<le> old_size \<and> new_size = old_size)"

lemma replace_single_drawn:
  assumes "length original = unat sz" and "length fresh = unat sz" and "unat a + 4 \<le> unat sz"
    and "change (host_word e (chunk original (unat a) 4)) n = (Inr (host_word e new), n')" and "length new = 4"
  shows "\<exists>s'. replace_word e original change a m (prefix_state original fresh a n) =
      (Inr (if new = chunk original (unat a) 4 then m
        else m\<lparr>mut_old_value := host_word e (chunk original (unat a) 4), mut_new_value := host_word e new\<rparr>), s') \<and>
    copy_rest original sz s' = Inr (blit original (unat a) new)"
proof -
  let ?old = "chunk original (unat a) 4"
  have old: "length ?old = 4" "blit original (unat a) ?old = original"
    using assms(1,3) by (simp_all add: blit_chunk_id)
  have same: "host_word e ?old = host_word e new \<longleftrightarrow> new = ?old"
    using old(1) assms(5) by (metis host_bytes_host_word)
  show ?thesis
    using replace_first [of a original fresh "host_word e ?old" e change n "host_word e new" n' m]
      replace_finished(1) [OF assms(1-3), of n'] replace_finished(2) [OF assms(1-3), of e "host_word e new" n']
      host_bytes_host_word [OF assms(5), of e] assms(1-4) old(2) same
    by (cases "new = ?old") auto
qed

lemma length_new_bytes: "type \<noteq> Deletion \<Longrightarrow> length old = 4 \<Longrightarrow> length (new_bytes rand_max rand left type n old) = 4"
proof -
  have "length (fold (\<lambda>j bs. bs[f j := g j]) js bs) = length bs" for f g and js :: "nat list" and bs :: "uint8 list"
    by (induction js arbitrary: bs) simp_all
  then show "length old = 4 \<Longrightarrow> length (new_bytes rand_max rand left type n old) = 4"
    by (cases left) (simp_all add: new_bytes_def Let_def del: upt_Suc split: mutation_type.split)
qed

lemma add_single:
  assumes "length fresh = unat sz" and "unat a \<le> length original" and "unat sz = length original + 4"
  shows "\<exists>s'. andthen (poke_word e (uint a) w) (\<lambda>_. andthen (advance a (a + 4)) (\<lambda>_. ret m))
      (prefix_state original fresh a n) = (Inr m, s') \<and>
    copy_rest original sz s' = Inr (take (unat a) original @ host_bytes e w @ drop (unat a) original)"
proof -
  let ?s = "\<lparr>ms_bytes = take (unat a) original @ host_bytes e w @ drop (unat a + 4) fresh,
    ms_original = a, ms_mutated = a + 4, ms_rand = n\<rparr>"
  have a: "unat a + 4 \<le> unat sz"
    using assms by simp
  then have "copy_rest original sz ?s = Inr (take (unat a) original @ host_bytes e w @ drop (unat a) original)"
    using assms plus4 [OF a] by (subst copy_rest_run) (auto simp: chunk_def)
  moreover have "andthen (poke_word e (uint a) w) (\<lambda>_. andthen (advance a (a + 4)) (\<lambda>_. ret m))
      (prefix_state original fresh a n) = (Inr m, ?s)"
    using assms a by (simp add: poke_prefix advance_def) (simp add: prefix_state_def)
  ultimately show ?thesis by blast
qed

lemma delete_single:
  assumes "length fresh = unat sz" and "unat a + 4 \<le> length original"
  shows "\<exists>s'. andthen (advance (a + 4) a) (\<lambda>_. ret m) (prefix_state original fresh a n) = (Inr m, s') \<and>
    (unat a \<le> unat sz \<and> length original < 2 ^ 32 \<longrightarrow> copy_rest original sz s' =
      (if unat sz + 4 \<le> length original \<or> a = sz
       then Inr (take (unat a) original @ chunk original (unat a + 4) (unat sz - unat a))
       else Inl UndefinedBehaviour))"
proof -
  let ?s = "\<lparr>ms_bytes = take (unat a) original @ drop (unat a) fresh,
    ms_original = a + 4, ms_mutated = a, ms_rand = n\<rparr>"
  have "copy_rest original sz ?s =
      (if unat sz + 4 \<le> length original \<or> a = sz
       then Inr (take (unat a) original @ chunk original (unat a + 4) (unat sz - unat a))
       else Inl UndefinedBehaviour)" if a: "unat a \<le> unat sz" and "length original < 2 ^ 32"
  proof -
    have "unat (a + 4) = unat a + 4"
      using assms(2) that by (simp add: unat_word_ariths)
    then show ?thesis
      using assms a by (subst copy_rest_run) (auto simp: chunk_def)
  qed
  moreover have "andthen (advance (a + 4) a) (\<lambda>_. ret m) (prefix_state original fresh a n) = (Inr m, ?s)"
    by (simp add: advance_def prefix_state_def)
  ultimately show ?thesis by blast
qed

lemma peek_duplicated:
  assumes "4 \<le> unat a" and "unat a \<le> length original" and "unat a \<le> length fresh"
  shows "peek_word e (ms_bytes (prefix_state original fresh a n)) (uint a - 4) =
    Inr (host_word e (chunk original (unat a - 4) 4))"
proof -
  define k where "k = unat a - 4"
  have k: "uint a - 4 = int k" "k + 4 \<le> length (ms_bytes (prefix_state original fresh a n))"
    using assms by (simp_all add: k_def of_nat_diff)
  have "chunk (ms_bytes (prefix_state original fresh a n)) k 4 = chunk original k 4"
    using assms by (simp add: prefix_state_def chunk_def drop_take k_def)
  with k show ?thesis
    by (simp add: peek_word_def flip: k_def)
qed

section \<open>Mutating the code in the database\<close>

text \<open>
  \<open>mutate(list, db, code_id, probability)\<close> and the variant that inserts a new row.  In the call
  \<open>mutate(list, data().read(&size), size)\<close> the reading overwrites \<open>size\<close>: a compiler that evaluates
  arguments from left to right passes the old size of the code, one that evaluates them from
  right to left the generated size.  \<open>fresh\<close> is what the new array holds; writing more bytes than
  the array has has no meaning.
\<close>

definition mutated_array ::
    "nat \<Rightarrow> (nat \<Rightarrow> nat) \<Rightarrow> endian \<Rightarrow> bool \<Rightarrow> cpu_word \<Rightarrow> (nat \<Rightarrow> uint8 list) \<Rightarrow> address \<Rightarrow>
      mutation list \<Rightarrow> row_id \<Rightarrow> database \<Rightarrow> (nat, uint8 list \<times> mutation list) prog" where
  "mutated_array rand_max rand e left w0 fresh generated_size ms code_id db =
     andthen (reading (\<lambda>_. blob_read (code_data code_id) db)) (\<lambda>(original, old_size).
     let sz = (if left then old_size else generated_size)
     in andthen (mutate_code rand_max rand e left w0 (fresh (unat sz)) original sz ms) (\<lambda>(bytes, ms').
        if unat old_size \<le> length bytes then ret (take (unat old_size) bytes, ms')
        else throw UndefinedBehaviour))"

definition mutate_bug ::
    "nat \<Rightarrow> (nat \<Rightarrow> nat) \<Rightarrow> (mutation_type \<Rightarrow> address \<Rightarrow> mutation) \<Rightarrow> endian \<Rightarrow> bool \<Rightarrow> cpu_word \<Rightarrow>
      (nat \<Rightarrow> uint8 list) \<Rightarrow> nat option \<Rightarrow> row_id \<Rightarrow> database \<Rightarrow> nat \<Rightarrow>
      ((exn + bool \<times> mutation list) \<times> database \<times> nat) option" where
  "mutate_bug rand_max rand mk e left w0 fresh probability code_id db n =
     (case blob_size (code_data code_id) db of
        Inl x \<Rightarrow> Some (Inl x, db, n)
      | Inr sz \<Rightarrow>
          (case generate rand_max rand mk probability sz n of
             None \<Rightarrow> None
           | Some (mutated, ms, sz', n') \<Rightarrow>
               if \<not> mutated then Some (Inr (False, ms), db, n')
               else (case mutated_array rand_max rand e left w0 fresh sz' ms code_id db n' of
                       (Inl x, n'') \<Rightarrow> Some (Inl x, db, n'')
                     | (Inr (bytes, ms'), n'') \<Rightarrow>
                         (case blob_write (code_data code_id) bytes db of
                            (Inl x, db') \<Rightarrow> Some (Inl x, db', n'')
                          | (Inr _, db') \<Rightarrow> Some (Inr (True, ms'), db', n'')))))"

definition mutate_new ::
    "nat \<Rightarrow> (nat \<Rightarrow> nat) \<Rightarrow> (mutation_type \<Rightarrow> address \<Rightarrow> mutation) \<Rightarrow> endian \<Rightarrow> bool \<Rightarrow> cpu_word \<Rightarrow>
      (nat \<Rightarrow> uint8 list) \<Rightarrow> nat option \<Rightarrow> row_id \<Rightarrow> database \<Rightarrow> nat \<Rightarrow>
      ((exn + row_id option \<times> mutation list) \<times> database \<times> nat) option" where
  "mutate_new rand_max rand mk e left w0 fresh probability code_id db n =
     (case blob_size (code_data code_id) db of
        Inl x \<Rightarrow> Some (Inl x, db, n)
      | Inr sz \<Rightarrow>
          (case generate rand_max rand mk probability sz n of
             None \<Rightarrow> None
           | Some (mutated, ms, sz', n') \<Rightarrow>
               if \<not> mutated then Some (Inr (None, ms), db, n')
               else (case mutated_array rand_max rand e left w0 fresh sz' ms code_id db n' of
                       (Inl x, n'') \<Rightarrow> Some (Inl x, db, n'')
                     | (Inr (bytes, ms'), n'') \<Rightarrow>
                         (case Code_insert bytes db of
                            (Inl x, db') \<Rightarrow> Some (Inl x, db', n'')
                          | (Inr row, db') \<Rightarrow> Some (Inr (Some row, ms'), db', n'')))))"

text \<open>\<open>update_mutations\<close>: the list is recorded in the database.\<close>

definition update_mutation :: "row_id \<Rightarrow> uint32 \<Rightarrow> mutation \<Rightarrow> (database, row_id) prog" where
  "update_mutation bug_id time m =
     (case mut_type m of
        Total \<Rightarrow> Mutation_insert_mutation bug_id time (mut_address m) (mut_old_value m) (mut_new_value m)
      | Partial \<Rightarrow> Mutation_insert_partial bug_id time (mut_address m) (mut_old_value m) (mut_new_value m)
      | Permutation \<Rightarrow>
          Mutation_insert_permutation bug_id time (mut_address m) (mut_old_value m) (mut_new_value m)
      | Addition \<Rightarrow> Mutation_insert_addition bug_id time (mut_address m) (mut_new_value m)
      | Duplication \<Rightarrow> Mutation_insert_duplication bug_id time (mut_address m) (mut_new_value m)
      | Deletion \<Rightarrow> Mutation_insert_deletion bug_id time (mut_address m) (mut_old_value m))"

definition update_mutations :: "mutation list \<Rightarrow> row_id \<Rightarrow> uint32 \<Rightarrow> (database, unit) prog" where
  "update_mutations ms bug_id time =
     for_each ms (\<lambda>m _. andthen (update_mutation bug_id time m) (\<lambda>_. ret ())) ()"

section \<open>Properties\<close>

text \<open>Specification: what is recorded of a mutation; nothing, when the new word is the old one.\<close>

definition recorded :: "endian \<Rightarrow> uint8 list \<Rightarrow> uint8 list \<Rightarrow> mutation \<Rightarrow> mutation" where
  "recorded e old new m =
     (case mut_type m of
        Deletion \<Rightarrow> m\<lparr>mut_old_value := host_word e old\<rparr>
      | Addition \<Rightarrow> m\<lparr>mut_new_value := host_word e new\<rparr>
      | Duplication \<Rightarrow> m\<lparr>mut_new_value := host_word e new\<rparr>
      | _ \<Rightarrow> if new = old then m else m\<lparr>mut_old_value := host_word e old, mut_new_value := host_word e new\<rparr>)"

text \<open>The first step of \<open>mutate\<close>, for each kind of mutation.\<close>

lemma first_replaced:
  assumes "\<forall>i. rand i \<le> rand_max" and "mut_type m \<in> {Total, Partial, Permutation}"
    and "length original = unat sz" and "length fresh = unat sz" and "unat (mut_address m) + 4 \<le> unat sz"
    and "old = chunk original (unat (mut_address m)) 4" and "new = new_bytes rand_max rand left (mut_type m) n old"
  shows "\<exists>s'. apply_mutation rand_max rand e left w0 original m
      \<lparr>ms_bytes = fresh, ms_original = 0, ms_mutated = 0, ms_rand = n\<rparr> = (Inr (recorded e old new m), s') \<and>
    copy_rest original sz s' = Inr (blit original (unat (mut_address m)) new)"
proof -
  have old: "length old = 4"
    using assms(3,5,6) by simp
  have len: "length new = 4"
    using assms(2) old unfolding assms(7) by (intro length_new_bytes) auto
  note first = apply_first [of m original fresh rand_max rand e left w0 n]
  note single = replace_single_drawn [OF assms(3,4,5) _ len, of _ e n _ m, folded assms(6)]
  from assms(2) consider "mut_type m = Total" | "mut_type m = Partial" | "mut_type m = Permutation"
    by blast
  then show ?thesis
  proof cases
    case 1
    then have "random_word rand_max rand e w0 n = (Inr (host_word e new), n + 4)"
      using random_word_drawn [of Total] assms(7) by simp
    with single [of "\<lambda>_. random_word rand_max rand e w0"] 1 first assms(3-5) show ?thesis
      by (simp add: recorded_def)
  next
    case 2
    then obtain n' where "partial_mutation rand_max rand e left (host_word e old) n = (Inr (host_word e new), n')"
      using partial_mutation_drawn [OF assms(1), of e left "host_word e old" n] assms(7) old by auto
    with single [of "partial_mutation rand_max rand e left"] 2 first assms(3-5) show ?thesis
      by (simp add: recorded_def)
  next
    case 3
    then have "permutation rand_max rand e w0 (host_word e old) n = (Inr (host_word e new), n + 4)"
      using permutation_drawn [OF assms(1), of e w0 "host_word e old" n left] assms(7) old by simp
    with single [of "permutation rand_max rand e w0"] 3 first assms(3-5) show ?thesis
      by (simp add: recorded_def)
  qed
qed

lemma first_shifted:
  assumes "length fresh = unat sz" and "length original < 2 ^ 32"
    and "edited_size (mut_type m) (unat (mut_address m)) (length original) (unat sz)"
    and "old = chunk original (unat (mut_address m) - (if mut_type m = Duplication then 4 else 0)) 4"
    and "new = new_bytes rand_max rand left (mut_type m) n old"
    and kind: "mut_type m \<notin> {Total, Partial, Permutation}"
  shows "\<exists>s'. apply_mutation rand_max rand e left w0 original m
      \<lparr>ms_bytes = fresh, ms_original = 0, ms_mutated = 0, ms_rand = n\<rparr> = (Inr (recorded e old new m), s') \<and>
    copy_rest original sz s' = Inr (edit (mut_type m) (unat (mut_address m)) new original)"
proof -
  let ?a = "mut_address m"
  have a: "unat ?a \<le> length original" "unat ?a \<le> length fresh"
    using assms(1,3) by (auto simp: edited_size_def split: mutation_type.splits)
  note first = apply_first [OF a, of rand_max rand e left w0 n]
  from kind consider "mut_type m = Addition" | "mut_type m = Duplication" | "mut_type m = Deletion"
    by (cases "mut_type m") auto
  then show ?thesis
  proof cases
    case 1
    then have len: "length new = 4"
      unfolding assms(5) by (simp add: new_bytes_def Let_def)
    have "with_rand (random_word rand_max rand e w0) (prefix_state original fresh ?a n) =
        (Inr (host_word e new), prefix_state original fresh ?a (n + 4))"
      using random_word_drawn [of Addition rand_max rand e w0 n left old] assms(5) 1
      by (simp add: with_rand_def prefix_state_def)
    then show ?thesis
      using add_single [of fresh sz ?a original e "host_word e new" "m\<lparr>mut_new_value := host_word e new\<rparr>" "n + 4"]
        assms(1,3) first 1 len by (auto simp: edited_size_def recorded_def)
  next
    case 2
    then have size: "4 \<le> unat ?a" "unat sz = length original + 4"
      using assms(3) by (simp_all add: edited_size_def)
    have new: "new = chunk original (unat ?a - 4) 4" "host_bytes e (host_word e new) = new"
      using 2 size a assms(4,5) by (simp_all add: new_bytes_def)
    have "peek_word e (ms_bytes (prefix_state original fresh ?a n)) (uint ?a - 4) = Inr (host_word e new)"
      using peek_duplicated [OF size(1) a, of e n] by (simp add: new(1))
    then show ?thesis
      using add_single [of fresh sz ?a original e "host_word e new" "m\<lparr>mut_new_value := host_word e new\<rparr>" n]
        assms(1) first 2 size a new(2) by (auto simp: recorded_def)
  next
    case 3
    then have size: "unat ?a + 4 \<le> length original" "unat sz + 4 = length original"
      using assms(3) by (simp_all add: edited_size_def)
    have "take (unat ?a) original @ chunk original (unat ?a + 4) (unat sz - unat ?a) =
        take (unat ?a) original @ drop (unat ?a + 4) original"
      using size by (simp add: chunk_def)
    then show ?thesis
      using delete_single [OF assms(1) size(1), of
          "m\<lparr>mut_old_value := host_word e (chunk original (unat ?a) 4)\<rparr>" n] assms(2,4) first
        3 size peek_inside [OF size(1), of e] by (auto simp: recorded_def)
  qed
qed

text \<open>
  C37: for a list of one mutation and an array of the size \<open>generate\<close> computed, \<open>mutate\<close> carries out
  each of the six kinds exactly: a total or added word consists of the next four random bytes, a partial
  mutation sets one to three random bytes of the old word, a permutation picks each byte from the old
  word, a duplication repeats the word before; the word is at the address of the mutation, every other
  byte of the code is kept, and old and new value are recorded unless they are equal.  The function
  on the database passes the size of the generated code only when the arguments are evaluated from right
  to left.
\<close>

theorem single_mutation_correct:
  assumes "\<forall>i. rand i \<le> rand_max" and "length fresh = unat sz" and "length original < 2 ^ 32"
    and "edited_size (mut_type m) (unat (mut_address m)) (length original) (unat sz)"
    and "old = chunk original (unat (mut_address m) - (if mut_type m = Duplication then 4 else 0)) 4"
    and "new = new_bytes rand_max rand left (mut_type m) n old"
  shows "\<exists>n'. mutate_code rand_max rand e left w0 fresh original sz [m] n =
    (Inr (edit (mut_type m) (unat (mut_address m)) new original, [recorded e old new m]), n')"
proof -
  let ?a = "mut_address m"
  let ?step = "apply_mutation rand_max rand e left w0 original m
      \<lparr>ms_bytes = fresh, ms_original = 0, ms_mutated = 0, ms_rand = n\<rparr>"
  have "\<exists>s'. ?step = (Inr (recorded e old new m), s') \<and>
      copy_rest original sz s' = Inr (edit (mut_type m) (unat ?a) new original)"
  proof (cases "mut_type m \<in> {Total, Partial, Permutation}")
    case True
    then have "length original = unat sz" "unat ?a + 4 \<le> unat sz" "old = chunk original (unat ?a) 4"
      using assms(4,5) by (auto simp: edited_size_def)
    from first_replaced [OF assms(1) True this(1) assms(2) this(2,3) assms(6)] True show ?thesis
      by auto
  qed (rule first_shifted [OF assms(2-6)])
  then obtain s' where "?step = (Inr (recorded e old new m), s')"
    "copy_rest original sz s' = Inr (edit (mut_type m) (unat ?a) new original)"
    by blast
  then have "mutate_code rand_max rand e left w0 fresh original sz [m] n =
      (Inr (edit (mut_type m) (unat ?a) new original, [recorded e old new m]), ms_rand s')"
    using assms(2) by (simp add: mutate_code_run)
  then show ?thesis by blast
qed

text \<open>A chunk copied and a word replaced in any state.\<close>

lemma copy_chunk:
  assumes "unat (ms_original s) + unat n \<le> length original"
    and "unat (ms_mutated s) + unat n \<le> length (ms_bytes s)"
  shows "(if n > 0 then copy_code original n else ret ()) s =
    (Inr (), s\<lparr>ms_bytes := blit (ms_bytes s) (unat (ms_mutated s)) (chunk original (unat (ms_original s)) (unat n))\<rparr>)"
proof (cases "n = 0")
  case True
  then show ?thesis
    by (simp add: blit_def chunk_def)
next
  case False
  then have "n > 0"
    using word_neq_0_conv by blast
  with assms show ?thesis
    by (simp add: copy_code_def)
qed

lemma replace_changed:
  assumes "unat a + 4 \<le> length original" and "unat a + 4 \<le> length (ms_bytes s)"
    and "old = host_word e (chunk original (unat a) 4)" and "change old (ms_rand s) = (Inr w, n')"
    and "old \<noteq> w"
  shows "replace_word e original change a m s = (Inr (m\<lparr>mut_old_value := old, mut_new_value := w\<rparr>),
    s\<lparr>ms_bytes := blit (ms_bytes s) (unat a) (host_bytes e w), ms_original := ms_original s + (a + 4),
      ms_mutated := ms_mutated s + (a + 4), ms_rand := n'\<rparr>)"
proof -
  have u: "nat (uint a) = unat a" "uint a + 4 \<le> int (length (ms_bytes s)) \<longleftrightarrow> unat a + 4 \<le> length (ms_bytes s)"
    by (simp, metis (mono_tags) int_ops(5) of_nat_le_iff of_nat_numeral uint_nat)
  show ?thesis
    using assms(2,4,5)
    by (simp add: replace_word_def peek_inside [OF assms(1)] with_rand_def poke_word_def u advance_def
        flip: assms(3))
qed

lemma mutated_array_size:
  assumes "blob_value (code_data row) db = Some original" and "length original < 2 ^ 32"
    and "mutated_array rand_max rand e left w0 fresh gsz ms row db n = (Inr (bytes, ms'), n')"
  shows "length bytes = length original"
proof -
  have "unat (of_nat (length original) :: uint32) = length original"
    using assms(2) by (simp add: unat_of_nat_address)
  with assms(3) blob_read_value [OF assms(1)] show ?thesis
    by (auto simp: mutated_array_def Let_def split: prod.splits sum.splits if_splits)
qed

text \<open>
  C38: mutating never changes the length of the code, whatever the list of mutations: added words
  push the end of the code out, and the size the mutations ask for is lost.  Nothing else in the
  database changes.
\<close>

theorem mutation_keeps_code_size:
  assumes "blob_value (code_data row) db = Some original" and "length original < 2 ^ 32"
    and "mutate_bug rand_max rand mk e left w0 fresh probability row db n = Some (Inr (changed, ms), db', n')"
  shows "\<exists>bytes. blob_value (code_data row) db' = Some bytes \<and> length bytes = length original \<and>
    (\<not> changed \<longrightarrow> db' = db) \<and> (\<forall>b. b \<noteq> code_data row \<longrightarrow> blob_value b db' = blob_value b db)"
proof -
  have size: "blob_size (code_data row) db = Inr (of_nat (length original))"
    using assms(1) by (rule blob_size_value)
  obtain c gs gsz m where gen: "generate rand_max rand mk probability (of_nat (length original)) n =
      Some (c, gs, gsz, m)"
    using assms(3) by (auto simp: mutate_bug_def size split: option.splits)
  show ?thesis
  proof (cases c)
    case True
    obtain bytes ms' m' where array:
      "mutated_array rand_max rand e left w0 fresh gsz gs row db m = (Inr (bytes, ms'), m')"
      using assms(3) True
      by (auto simp: mutate_bug_def size gen split: prod.splits sum.splits)
    have "blob_write (code_data row) bytes db = (Inr (), db')" "changed"
      using assms(3) True array by (auto simp: mutate_bug_def size gen split: prod.splits sum.splits)
    moreover from this have "blob_write (code_data row) bytes db = (Inr (), put_bytes (code_data row) bytes db)"
      using blob_write_accepted [OF assms(1)] by (simp add: accepts_def)
    ultimately show ?thesis
      using blob_value_put_bytes [OF assms(1)] mutated_array_size [OF assms(1,2) array] by auto
  next
    case False
    with assms show ?thesis
      by (auto simp: mutate_bug_def size gen)
  qed
qed

text \<open>
  Deleting a word never works: when the list holds one deletion, the program reads past the
  end of the old code or writes from past the end of the new one, in whichever order the compiler
  evaluates the arguments.
\<close>

theorem deletion_out_of_bounds:
  assumes "blob_value (code_data row) db = Some original" and "length original < 2 ^ 32"
    and "generate rand_max rand mk probability (of_nat (length original)) n = Some (True, [m], gsz, n1)"
    and "mut_type m = Deletion" and "unat (mut_address m) + 4 \<le> length original"
    and "unat gsz + 4 = length original" and "\<forall>k. length (fresh k) = k"
  shows "\<exists>n'. mutate_bug rand_max rand mk e left w0 fresh probability row db n =
    Some (Inl UndefinedBehaviour, db, n')"
proof -
  let ?a = "mut_address m" and ?L = "of_nat (length original) :: uint32"
  let ?sz = "if left then ?L else gsz"
  have L: "unat ?L = length original"
    using assms(2) by (simp add: unat_of_nat_address)
  have size: "blob_size (code_data row) db = Inr ?L"
    using assms(1) by (rule blob_size_value)
  let ?m = "m\<lparr>mut_old_value := host_word e (chunk original (unat ?a) 4)\<rparr>"
  have len: "length (fresh (unat ?sz)) = unat ?sz" "unat ?a \<le> unat ?sz"
    using assms(5-7) L by auto
  obtain s' where del: "andthen (advance (?a + 4) ?a) (\<lambda>_. ret ?m)
      (prefix_state original (fresh (unat ?sz)) ?a n1) = (Inr ?m, s')"
    "copy_rest original ?sz s' =
      (if unat ?sz + 4 \<le> length original \<or> ?a = ?sz
       then Inr (take (unat ?a) original @ chunk original (unat ?a + 4) (unat ?sz - unat ?a))
       else Inl UndefinedBehaviour)"
    using delete_single [OF len(1) assms(5), of ?m n1] assms(2) len(2) by blast
  have a: "unat ?a \<le> length original" "unat ?a \<le> length (fresh (unat ?sz))"
    using assms(5) len by simp_all
  have step: "apply_mutation rand_max rand e left w0 original m
      \<lparr>ms_bytes = fresh (unat ?sz), ms_original = 0, ms_mutated = 0, ms_rand = n1\<rparr> = (Inr ?m, s')"
    using apply_first [OF a, of rand_max rand e left w0 n1] del(1) assms(4)
      peek_inside [OF assms(5), of e] by simp
  have "?a \<noteq> ?L"
    using assms(5) L by (metis add_leD1 le_refl not_add_less1 not_numeral_le_zero add_le_same_cancel1)
  then have code: "mutate_code rand_max rand e left w0 (fresh (unat ?sz)) original ?sz [m] n1 =
      (if left then Inl UndefinedBehaviour
       else Inr (take (unat ?a) original @ chunk original (unat ?a + 4) (unat ?sz - unat ?a), [?m]), ms_rand s')"
    using step del(2) len(1) L assms(6) by (simp add: mutate_code_run split: if_splits)
  have "mutated_array rand_max rand e left w0 fresh gsz [m] row db n1 = (Inl UndefinedBehaviour, ms_rand s')"
    using code L assms(5,6) blob_read_value [OF assms(1)]
    by (cases left) (auto simp: mutated_array_def Let_def)
  then show ?thesis
    by (simp add: mutate_bug_def size assms(3))
qed

text \<open>
  With two mutations the second one is misplaced, because the code uses the length of the
  chunk as an index: of two replaced words at \<open>a\<close> and \<open>b\<close>, the second is written at
  \<open>b - (a + 4)\<close> instead of \<open>b\<close>, and the word at \<open>b\<close> of the result is never written at all.
\<close>

theorem second_mutation_misplaced:
  assumes "length original = unat sz" and "length fresh = unat sz"
    and "mut_type m1 = Total" and "mut_type m2 = Total"
    and "unat (mut_address m1) + 4 \<le> unat (mut_address m2)" and "unat (mut_address m2) + 4 \<le> unat sz"
    and "random_word rand_max rand e w0 n = (Inr w1, n1)" and "random_word rand_max rand e w0 n1 = (Inr w2, n2)"
    and "chunk original (unat (mut_address m1)) 4 \<noteq> host_bytes e w1"
    and "chunk original (unat (mut_address m2) - (unat (mut_address m1) + 4)) 4 \<noteq> host_bytes e w2"
  shows "\<exists>bytes ms'. mutate_code rand_max rand e left w0 fresh original sz [m1, m2] n = (Inr (bytes, ms'), n2) \<and>
    chunk bytes (unat (mut_address m2) - (unat (mut_address m1) + 4)) 4 = host_bytes e w2 \<and>
    chunk bytes (unat (mut_address m2)) 4 = chunk fresh (unat (mut_address m2)) 4"
proof -
  let ?a = "mut_address m1" and ?b = "mut_address m2"
  let ?c = "?b - (?a + 4)"
  let ?old1 = "host_word e (chunk original (unat ?a) 4)"
  have a4: "unat (?a + 4) = unat ?a + 4" and b4: "unat (?b + 4) = unat ?b + 4"
    using assms(5,6) by (auto intro!: plus4 [of _ sz])
  have c: "unat ?c = unat ?b - (unat ?a + 4)"
    using assms(5) a4 by (simp add: unat_sub word_le_nat_alt)
  have neq1: "?old1 \<noteq> w1" and neq2: "host_word e (chunk original (unat ?c) 4) \<noteq> w2"
    using assms(1,5,6,9,10) c host_bytes_host_word [of "chunk original (unat ?a) 4" e]
      host_bytes_host_word [of "chunk original (unat ?c) 4" e] by auto
  define bs1 where "bs1 = take (unat ?a) original @ host_bytes e w1 @ drop (unat ?a + 4) fresh"
  let ?s1 = "\<lparr>ms_bytes = bs1, ms_original = ?a + 4, ms_mutated = ?a + 4, ms_rand = n1\<rparr>"
  obtain m1' where step1: "apply_mutation rand_max rand e left w0 original m1
      \<lparr>ms_bytes = fresh, ms_original = 0, ms_mutated = 0, ms_rand = n\<rparr> = (Inr m1', ?s1)"
    using apply_first [of m1 original fresh rand_max rand e left w0 n] assms(1-7) neq1
      replace_first [of ?a original fresh ?old1 e "\<lambda>_. random_word rand_max rand e w0" n w1 n1 m1]
    by (auto simp: bs1_def)
  have len1: "length bs1 = unat sz"
    using assms(1,2,5,6) by (simp add: bs1_def)
  define bs2 where "bs2 = blit bs1 (unat ?a + 4) (chunk original (unat ?a + 4) (unat ?c))"
  have len2: "length bs2 = unat sz"
    using len1 assms(1,5,6) c by (simp add: bs2_def)
  define bs3 where "bs3 = blit bs2 (unat ?c) (host_bytes e w2)"
  have len3: "length bs3 = unat sz"
    using len2 assms(5,6) c by (simp add: bs3_def)
  let ?s3 = "\<lparr>ms_bytes = bs3, ms_original = ?b + 4, ms_mutated = ?b + 4, ms_rand = n2\<rparr>"
  have copy: "(if ?c > 0 then copy_code original ?c else ret ()) ?s1 = (Inr (), ?s1\<lparr>ms_bytes := bs2\<rparr>)"
    using copy_chunk [of ?s1 ?c original] len1 assms(1,5,6) a4 c by (simp add: bs2_def)
  have sum: "?a + 4 + (?c + 4) = ?b + 4"
    by simp
  have range: "unat ?c + 4 \<le> length original" "unat ?c + 4 \<le> length (ms_bytes (?s1\<lparr>ms_bytes := bs2\<rparr>))"
    using assms(1,6) c len2 by simp_all
  obtain m2' where replace: "replace_word e original (\<lambda>_. random_word rand_max rand e w0) ?c m2
      (?s1\<lparr>ms_bytes := bs2\<rparr>) = (Inr m2', ?s3)"
    using replace_changed [OF range refl, of "\<lambda>_. random_word rand_max rand e w0" e w2 n2 m2]
      assms(8) neq2 by (simp add: bs3_def sum)
  have step2: "apply_mutation rand_max rand e left w0 original m2 ?s1 = (Inr m2', ?s3)"
    unfolding apply_mutation_def andthen_apply reading_apply sum.case prod.case mutate_state.select_convs copy
      assms(4) mutation_type.case replace by (rule refl)
  have fin: "copy_rest original sz ?s3 = Inr (take (unat ?b + 4) bs3 @ chunk original (unat ?b + 4) (unat sz - (unat ?b + 4)))"
    using b4 len3 assms(1,6) by (subst copy_rest_run) auto
  define bytes where "bytes = take (unat ?b + 4) bs3 @ chunk original (unat ?b + 4) (unat sz - (unat ?b + 4))"
  have "mutate_code rand_max rand e left w0 fresh original sz [m1, m2] n = (Inr (bytes, [m1', m2']), n2)"
    using step1 step2 fin assms(2) by (simp add: mutate_code_run bytes_def)
  moreover have before: "chunk bytes k 4 = chunk bs3 k 4" if "k \<le> unat ?b" for k
    using that len3 assms(6) by (simp add: bytes_def chunk_def drop_take min_def)
  have "chunk bytes (unat ?c) 4 = host_bytes e w2"
    using before [of "unat ?c"] c len2 assms(6) by (simp add: bs3_def)
  moreover have "chunk bytes (unat ?b) 4 = chunk fresh (unat ?b) 4"
  proof -
    have "chunk bs3 (unat ?b) 4 = chunk bs2 (unat ?b) 4"
      using c len2 assms(5,6) unfolding bs3_def by (intro chunk_blit_other) simp_all
    also have "\<dots> = chunk bs1 (unat ?b) 4"
      using c len1 assms(1,5,6) unfolding bs2_def by (intro chunk_blit_other) simp_all
    also have "\<dots> = chunk fresh (unat ?b) 4"
      using assms(1,5,6) by (simp add: bs1_def chunk_def)
    finally show ?thesis
      using before [of "unat ?b"] by simp
  qed
  ultimately show ?thesis
    using c by auto
qed

section \<open>The generated list\<close>

definition counted :: "mutation_type set \<Rightarrow> mutation list \<Rightarrow> uint32" where
  "counted T ms = of_nat (length (filter (\<lambda>m. mut_type m \<in> T) ms))"

text \<open>What the loop keeps: \<open>sz0\<close> is the size it started from.\<close>

definition generated :: "address \<Rightarrow> address \<Rightarrow> address \<Rightarrow> mutation list \<Rightarrow> bool" where
  "generated sz0 i sz ms \<longleftrightarrow>
     unat i mod 4 = 0 \<and> unat sz mod 4 = 0 \<and>
     sorted (map (\<lambda>m. unat (mut_address m)) ms) \<and>
     (\<forall>m\<in>set ms. unat (mut_address m) \<le> unat i \<and> unat (mut_address m) mod 4 = 0 \<and>
        (mut_type m = Duplication \<longrightarrow> mut_address m \<noteq> 0)) \<and>
     sz + 4 * counted {Deletion} ms = sz0 + 4 * counted {Addition, Duplication} ms"

lemma counted_append [simp]:
  "counted T (ms @ [m]) = counted T ms + (if mut_type m \<in> T then 1 else 0)"
  by (simp add: counted_def)

lemma aligned_step:
  fixes i sz :: address
  assumes "unat i mod 4 = 0" and "unat sz mod 4 = 0" and "i < sz"
  shows "unat (i + 4) = unat i + 4" "unat (sz - 4) mod 4 = 0" "unat (sz + 4) mod 4 = 0"
    "unat (i + 4) mod 4 = 0"
proof -
  have lt: "unat i < unat sz"
    using assms(3) by (simp add: word_less_nat_alt)
  obtain a b where ab: "unat i = 4 * a" "unat sz = 4 * b"
    using assms(1,2) by (metis mod_0_imp_dvd dvdE)
  with lt have "unat i + 4 \<le> unat sz"
    by simp
  then show i4: "unat (i + 4) = unat i + 4"
    by (rule plus4)
  then show "unat (i + 4) mod 4 = 0"
    using assms(1) by simp
  have "unat (4 :: address) = 4"
    by simp
  then have "unat (sz - 4) = unat sz - 4"
    using lt ab by (subst unat_sub) (simp_all add: word_le_nat_alt)
  then show "unat (sz - 4) mod 4 = 0"
    using ab lt by simp
  have "unat (sz + 4) = (unat sz + 4) mod 4294967296"
    by (simp add: unat_word_ariths)
  then show "unat (sz + 4) mod 4 = 0"
    using assms(2) by (simp add: mod_mod_cancel)
qed

lemma generated_step:
  assumes "generated sz0 i sz ms" and "i < sz" and "choose_mutation k i = (t, di, dsz)"
  shows "generated sz0 (i + di) (sz + dsz) (ms @ [new_mutation old new t i])"
proof -
  have al: "unat i mod 4 = 0" "unat sz mod 4 = 0"
    using assms(1) unfolding generated_def by blast+
  note step = aligned_step [OF al assms(2)]
  show ?thesis
    using assms(1,3) step al
    by (auto simp: generated_def choose_mutation_def new_mutation_def sorted_append algebra_simps
        split: if_splits)
qed

lemma generated_skip:
  assumes "generated sz0 i sz ms" and "i < sz"
  shows "generated sz0 (i + 4) sz ms"
proof -
  have al: "unat i mod 4 = 0" "unat sz mod 4 = 0"
    using assms(1) unfolding generated_def by blast+
  show ?thesis
    using assms(1) aligned_step [OF al assms(2)] by (fastforce simp: generated_def)
qed

lemma generate_loop_keeps:
  assumes "generate_loop rand_max rand mk one_in i sz ms n = Some t"
  shows "mk = new_mutation old new \<longrightarrow> generated sz0 i sz ms \<longrightarrow>
    (\<exists>j. generated sz0 j (fst (snd t)) (fst t) \<and> \<not> j < fst (snd t))"
proof (rule generate_loop.raw_induct [OF _ assms])
  fix loop rand_max rand mk one_in and i sz :: address and ms n t
  assume IH: "\<And>rand_max rand mk one_in i sz ms n t. loop rand_max rand mk one_in i sz ms n = Some t \<Longrightarrow>
      mk = new_mutation old new \<longrightarrow> generated sz0 i sz ms \<longrightarrow>
      (\<exists>j. generated sz0 j (fst (snd t)) (fst t) \<and> \<not> j < fst (snd t))"
    and run: "(if i < sz
      then if scaled rand_max one_in (rand n) = 0
        then (case choose_mutation (scaled rand_max 6 (rand (n + 1))) i of
                (type, di, dsz) \<Rightarrow> loop rand_max rand mk one_in (i + di) (sz + dsz) (ms @ [mk type i]) (n + 2))
        else loop rand_max rand mk one_in (i + 4) sz ms (n + 1)
      else Some (ms, sz, n)) = Some t"
  show "mk = new_mutation old new \<longrightarrow> generated sz0 i sz ms \<longrightarrow>
      (\<exists>j. generated sz0 j (fst (snd t)) (fst t) \<and> \<not> j < fst (snd t))"
  proof (intro impI)
    assume mk: "mk = new_mutation old new" and gen: "generated sz0 i sz ms"
    obtain type di dsz where k: "choose_mutation (scaled rand_max 6 (rand (n + 1))) i = (type, di, dsz)"
      by (metis prod_cases3)
    consider "\<not> i < sz" "t = (ms, sz, n)"
      | "i < sz" "loop rand_max rand mk one_in (i + di) (sz + dsz) (ms @ [mk type i]) (n + 2) = Some t"
      | "i < sz" "loop rand_max rand mk one_in (i + 4) sz ms (n + 1) = Some t"
      using run k by (auto split: if_splits)
    then show "\<exists>j. generated sz0 j (fst (snd t)) (fst t) \<and> \<not> j < fst (snd t)"
    proof cases
      case 1
      with gen show ?thesis by auto
    next
      case 2
      with IH [OF 2(2)] generated_step [OF gen 2(1) k] mk show ?thesis by blast
    next
      case 3
      with IH [OF 3(2)] generated_skip [OF gen 3(1)] mk show ?thesis by blast
    qed
  qed
qed

lemma generate_nothing:
  assumes "unat sz mod 4 = 0" and "unat i mod 4 = 0" and "\<forall>k. scaled rand_max one_in (rand k) \<noteq> 0"
  shows "\<exists>n'. generate_loop rand_max rand mk one_in i sz [] n = Some ([], sz, n')"
  using assms(2)
proof (induction "unat sz - unat i" arbitrary: i n rule: less_induct)
  case less
  show ?case
  proof (cases "i < sz")
    case True
    note i4 = aligned_step [OF less.prems assms(1) True]
    have "unat i < unat sz"
      using True by (simp add: word_less_nat_alt)
    then have "unat sz - unat (i + 4) < unat sz - unat i"
      using i4(1) by linarith
    then obtain n' where "generate_loop rand_max rand mk one_in (i + 4) sz [] (n + 1) = Some ([], sz, n')"
      using less.hyps [of "i + 4" "n + 1"] i4(4) by blast
    moreover have "generate_loop rand_max rand mk one_in i sz [] n =
        generate_loop rand_max rand mk one_in (i + 4) sz [] (n + 1)"
      using True assms(3) [rule_format, of n] by (subst generate_loop.simps) (simp only: if_True if_False)
    ultimately show ?thesis by simp
  qed (simp add: generate_loop.simps)
qed

text \<open>
  C18: whenever \<open>generate\<close> returns, the mutations are ordered by address, their addresses are those
  of words, no duplication is at the beginning of the code, and the size is the old size, plus a
  word for each addition and duplication, less a word for each deletion (modulo \<open>2^32\<close>).  With
  probability 0, and with a generator that proposes no mutation, it returns an empty list.
\<close>

theorem generated_list:
  assumes "unat sz mod 4 = 0"
  shows "(\<forall>c ms sz' n'. generate rand_max rand (new_mutation old new) probability sz n = Some (c, ms, sz', n') \<longrightarrow>
      (c \<longleftrightarrow> ms \<noteq> []) \<and> sorted (map (\<lambda>m. unat (mut_address m)) ms) \<and>
      (\<forall>m\<in>set ms. unat (mut_address m) mod 4 = 0 \<and> (mut_type m = Duplication \<longrightarrow> mut_address m \<noteq> 0)) \<and>
      sz' + 4 * counted {Deletion} ms = sz + 4 * counted {Addition, Duplication} ms) \<and>
    ((probability = None \<or> (\<exists>one_in. probability = Some one_in \<and> (\<forall>k. scaled rand_max one_in (rand k) \<noteq> 0))) \<longrightarrow>
      (\<exists>n'. generate rand_max rand (new_mutation old new) probability sz n = Some (False, [], sz, n')))"
proof (intro conjI allI impI)
  have start: "generated sz 0 sz []"
    using assms by (simp add: generated_def counted_def)
  fix c ms sz' n'
  assume run: "generate rand_max rand (new_mutation old new) probability sz n = Some (c, ms, sz', n')"
  have "\<exists>j. generated sz j sz' ms \<and> (c \<longleftrightarrow> ms \<noteq> [])"
  proof (cases probability)
    case None
    with run start show ?thesis
      by (auto simp: generate_def)
  next
    case (Some one_in)
    with run obtain loop: "generate_loop rand_max rand (new_mutation old new) one_in 0 sz [] n = Some (ms, sz', n')"
      and "c \<longleftrightarrow> ms \<noteq> []"
      by (auto simp: generate_def split: option.splits)
    with generate_loop_keeps [OF loop, of old new sz] start show ?thesis
      by auto
  qed
  then show "c \<longleftrightarrow> ms \<noteq> []" "sorted (map (\<lambda>m. unat (mut_address m)) ms)"
    "\<forall>m\<in>set ms. unat (mut_address m) mod 4 = 0 \<and> (mut_type m = Duplication \<longrightarrow> mut_address m \<noteq> 0)"
    "sz' + 4 * counted {Deletion} ms = sz + 4 * counted {Addition, Duplication} ms"
    by (auto simp: generated_def)
next
  assume "probability = None \<or> (\<exists>one_in. probability = Some one_in \<and> (\<forall>k. scaled rand_max one_in (rand k) \<noteq> 0))"
  then show "\<exists>n'. generate rand_max rand (new_mutation old new) probability sz n = Some (False, [], sz, n')"
  proof
    assume "probability = None"
    then show ?thesis
      by (simp add: generate_def)
  next
    assume "\<exists>one_in. probability = Some one_in \<and> (\<forall>k. scaled rand_max one_in (rand k) \<noteq> 0)"
    then obtain one_in where p: "probability = Some one_in" "\<forall>k. scaled rand_max one_in (rand k) \<noteq> 0"
      by blast
    obtain n' where "generate_loop rand_max rand (new_mutation old new) one_in 0 sz [] n = Some ([], sz, n')"
      using generate_nothing [OF assms _ p(2)] by (metis mod_0 unat_0)
    with p(1) show ?thesis
      by (simp add: generate_def)
  qed
qed

section \<open>Witnesses\<close>

text \<open>A generator that always answers 0: every byte and every choice is 0.\<close>

definition six_words :: "uint8 list" where
  "six_words = [1, 2, 3, 4, 5, 6, 7, 8, 9, 10, 11, 12]"

theorem single_mutation_correct_witness:
  "\<exists>n'. mutate_code 7 (\<lambda>k. min k 7) LittleEndian True 0 (replicate 12 0) six_words 12
      [new_mutation 0 0 Total 4] 0 =
    (Inr ([1, 2, 3, 4, 0, 32, 64, 96, 9, 10, 11, 12],
      [new_mutation (host_word LittleEndian [5, 6, 7, 8]) (host_word LittleEndian [0, 32, 64, 96]) Total 4]), n')"
proof -
  let ?m = "new_mutation 0 0 Total 4"
  have new: "[0, 32, 64, 96] = new_bytes 7 (\<lambda>k. min k 7) True (mut_type ?m) 0 [5, 6, 7, 8]"
    by (simp add: new_bytes_def new_mutation_def scaled_def upto4 Let_def)
  have old: "[5, 6, 7, 8] = chunk six_words (unat (mut_address ?m) - (if mut_type ?m = Duplication then 4 else 0)) 4"
    by (simp add: six_words_def chunk_def new_mutation_def)
  have "\<exists>n'. mutate_code 7 (\<lambda>k. min k 7) LittleEndian True 0 (replicate 12 0) six_words 12 [?m] 0 =
      (Inr (edit (mut_type ?m) (unat (mut_address ?m)) [0, 32, 64, 96] six_words,
        [recorded LittleEndian [5, 6, 7, 8] [0, 32, 64, 96] ?m]), n')"
    by (rule single_mutation_correct [OF _ _ _ _ old new]) (simp_all add: six_words_def new_mutation_def edited_size_def)
  then show ?thesis
    by (simp add: six_words_def new_mutation_def recorded_def blit_def)
qed

definition code_database :: database where
  "code_database =
     connection (\<lambda>t. if t = ''Code''
       then [(1, [''id'' \<mapsto> Integer 1, ''data'' \<mapsto> Bytes six_words])] else [])"

lemma six_words_length: "length six_words = 12"
  by (simp add: six_words_def)

lemma code_database_value: "blob_value (code_data 1) code_database = Some six_words"
  by (simp add: blob_value_cell blob_cell_def sql_select_def schema_def table_defs code_data_def
      code_database_def connection_def col_def)

theorem mutation_keeps_code_size_witness:
  "\<exists>ms db' n' bytes. mutate_bug 11 (\<lambda>k. if k < 2 then 0 else 11) (new_mutation 0 0) LittleEndian False 0
      (\<lambda>k. replicate k 0) (Some 2) 1 code_database 0 = Some (Inr (True, ms), db', n') \<and>
    blob_value (code_data 1) db' = Some bytes \<and> length bytes = 12"
proof -
  let ?rand = "\<lambda>k :: nat. if k < 2 then 0 else (11 :: nat)" and ?m = "new_mutation 0 0 Total 0"
  have gen: "generate 11 ?rand (new_mutation 0 0) (Some 2) (of_nat (length six_words)) 0 = Some (True, [?m], 12, 4)"
    by (simp add: generate_def generate_loop.simps scaled_def choose_mutation_def six_words_def)
  let ?new = "new_bytes 11 ?rand False Total 4 [1, 2, 3, 4]"
  have "\<forall>k. ?rand k \<le> 11"
    by simp
  from first_replaced [OF this, of ?m six_words 12 "replicate 12 0" "[1, 2, 3, 4]" ?new False 4 LittleEndian 0]
  obtain s' where "apply_mutation 11 ?rand LittleEndian False 0 six_words ?m
      \<lparr>ms_bytes = replicate 12 0, ms_original = 0, ms_mutated = 0, ms_rand = 4\<rparr> =
      (Inr (recorded LittleEndian [1, 2, 3, 4] ?new ?m), s')" "copy_rest six_words 12 s' = Inr (blit six_words 0 ?new)"
    by (auto simp: new_mutation_def six_words_def chunk_def)
  moreover have len: "length (blit six_words 0 ?new) = 12"
    using length_new_bytes [of Total "[1, 2, 3, 4]" 11 ?rand False 4] by (simp add: six_words_def)
  ultimately have array: "mutated_array 11 ?rand LittleEndian False 0 (\<lambda>k. replicate k 0) 12 [?m] 1 code_database 4 =
      (Inr (blit six_words 0 ?new, [recorded LittleEndian [1, 2, 3, 4] ?new ?m]), ms_rand s')"
    using blob_read_value [OF code_database_value] six_words_length by (simp add: mutated_array_def mutate_code_run)
  have "memory_row (code_data 1) code_database"
    by (simp add: memory_row_def code_data_def code_database_def connection_def col_def)
  then have "blob_write (code_data 1) (blit six_words 0 ?new) code_database =
      (Inr (), put_bytes (code_data 1) (blit six_words 0 ?new) code_database)"
    using len by (simp add: memory_blob_write data_size_ok_def code_data_def max_length_def)
  with gen array have run: "mutate_bug 11 ?rand (new_mutation 0 0) LittleEndian False 0 (\<lambda>k. replicate k 0) (Some 2) 1 code_database 0 =
      Some (Inr (True, [recorded LittleEndian [1, 2, 3, 4] ?new ?m]), put_bytes (code_data 1) (blit six_words 0 ?new) code_database, ms_rand s')"
    by (simp add: mutate_bug_def blob_size_value [OF code_database_value])
  from mutation_keeps_code_size [OF code_database_value _ run] run show ?thesis
    by (auto simp: six_words_def)
qed

theorem deletion_out_of_bounds_witness:
  "\<exists>n'. mutate_bug 11 (\<lambda>n. if n = 1 then 11 else if n = 0 then 0 else 11) (new_mutation 0 0) LittleEndian False 0
      (\<lambda>k. replicate k 0) (Some 2) 1 code_database 0 = Some (Inl UndefinedBehaviour, code_database, n')"
proof -
  let ?rand = "\<lambda>n :: nat. if n = 1 then 11 else if n = 0 then 0 else (11 :: nat)"
  have "generate 11 ?rand (new_mutation 0 0) (Some 2) (of_nat (length six_words)) 0 =
      Some (True, [new_mutation 0 0 Deletion 0], 8, 4)"
    by (simp add: generate_def generate_loop.simps scaled_def choose_mutation_def six_words_def)
  from deletion_out_of_bounds [OF code_database_value _ this, of "\<lambda>k. replicate k 0" LittleEndian False 0]
  show ?thesis
    by (simp add: new_mutation_def six_words_def)
qed

theorem second_mutation_misplaced_witness:
  "\<exists>bytes ms' n'. mutate_code 7 (\<lambda>_. 0) LittleEndian True 0 (replicate 12 0xFF) six_words 12
      [new_mutation 0 0 Total 0, new_mutation 0 0 Total 8] 0 = (Inr (bytes, ms'), n') \<and>
    chunk bytes 8 4 = [0xFF, 0xFF, 0xFF, 0xFF]"
proof -
  have zero: "host_bytes LittleEndian 0 = [0, 0, 0, 0]"
    by (simp add: host_bytes_def be_bytes_def)
  have unchanged: "[0, 0, 0, 0][k := 0] = [0, 0, 0, 0 :: uint8]" for k
    by (auto split: nat.split)
  have "host_word LittleEndian [0, 0, 0, 0] = 0"
    using host_word_host_bytes [of LittleEndian 0] by (simp only: zero)
  then have byte: "set_byte LittleEndian 0 i 0 = Inr 0" if "\<not> 3 < i" for i
    using that by (simp only: set_byte_def zero unchanged if_False)
  have word: "random_word 7 (\<lambda>_. 0) LittleEndian 0 n = (Inr 0, n + 4)" for n
    by (simp add: random_word_def randint_def scaled_def byte upt_rec)
  let ?m1 = "new_mutation 0 0 Total 0" and ?m2 = "new_mutation 0 0 Total 8"
  have sel: "mut_type ?m1 = Total" "mut_type ?m2 = Total" "mut_address ?m1 = 0" "mut_address ?m2 = 8"
    by (simp_all add: new_mutation_def)
  have chunks: "chunk six_words 0 4 = [1, 2, 3, 4]" "chunk six_words 4 4 = [5, 6, 7, 8]"
    "chunk (replicate 12 (0xFF :: uint8)) 8 4 = [0xFF, 0xFF, 0xFF, 0xFF]"
    by (simp_all add: chunk_def six_words_def numeral_eq_Suc)
  have "length six_words = unat (12 :: address)" "length (replicate 12 (0xFF :: uint8)) = unat (12 :: address)"
    by (simp_all add: six_words_def)
  from second_mutation_misplaced [OF this sel(1,2) _ _ word [of 0] word [of "0 + 4"], of True]
  show ?thesis
    unfolding sel zero by (simp add: chunks) blast
qed

theorem generated_list_witness:
  "\<exists>ms sz' n'. generate 11 (\<lambda>k. if k = 0 then 0 else 11) (new_mutation 0 0) (Some 2) 12 0 = Some (True, ms, sz', n') \<and>
    counted {Deletion} ms = 1 \<and> sz' = 8 \<and> sorted (map (\<lambda>m. unat (mut_address m)) ms)"
proof -
  let ?rand = "\<lambda>k :: nat. if k = 0 then 0 else (11 :: nat)"
  have "generate 11 ?rand (new_mutation 0 0) (Some 2) 12 0 = Some (True, [new_mutation 0 0 Deletion 0], 8, 4)"
    by (simp add: generate_def generate_loop.simps scaled_def choose_mutation_def)
  moreover have "counted {Deletion} [new_mutation 0 0 Deletion 0] = 1"
    by (simp add: new_mutation_def counted_def)
  ultimately show ?thesis
    using generated_list [of 12 11 ?rand 0 0 "Some 2" 0, THEN conjunct1] by fastforce
qed

end
