(* ===== verification/Integrity.thy ===== *)
theory Integrity
  imports Tables
begin

text \<open>
  The integrity of the database: rows in the order of distinct ids, each with its id in its key,
  no \<open>NULL\<close> where none is allowed, every \<open>CHECK\<close> and \<open>UNIQUE\<close> satisfied and every reference to an
  existing row.  Every statement keeps it, the deletions with all they cascade to included.
\<close>

section \<open>Consistent tables\<close>

definition same_on :: "string list \<Rightarrow> row \<Rightarrow> row \<Rightarrow> bool" where
  "same_on cs q r \<longleftrightarrow> (\<forall>c \<in> set cs. col q c \<noteq> Null \<and> col q c = col r c)"

definition refers_to :: "sql_value \<Rightarrow> row_id set \<Rightarrow> bool" where
  "refers_to v ids \<longleftrightarrow> (case v of Integer i \<Rightarrow> i \<in> ids | _ \<Rightarrow> v = Null)"

lemma same_on_sym: "same_on cs q r \<Longrightarrow> same_on cs r q"
  by (simp add: same_on_def) metis

lemma unique_ok_iff:
  "unique_ok d i r rows \<longleftrightarrow>
    (\<forall>cs \<in> set (td_unique d). \<forall>(j, q) \<in> set rows. j \<noteq> i \<longrightarrow> \<not> same_on cs q r)"
  by (auto simp: unique_ok_def same_on_def list_all_iff)

lemma foreign_ok_iff:
  "foreign_ok d r db \<longleftrightarrow> (\<forall>(c, parent, _) \<in> set (td_foreign d). refers_to (col r c) (row_ids (db parent)))"
  by (auto simp: foreign_ok_def refers_to_def list_all_iff split: sql_value.splits)

definition unique_set :: "table_def \<Rightarrow> (row_id \<times> row) set \<Rightarrow> bool" where
  "unique_set d S \<longleftrightarrow> (\<forall>cs \<in> set (td_unique d). \<forall>i r j q.
     (i, r) \<in> S \<longrightarrow> (j, q) \<in> S \<longrightarrow> j \<noteq> i \<longrightarrow> \<not> same_on cs q r)"

lemma unique_set_extend:
  assumes "unique_set d (set rows)" and "unique_ok d i r rows"
    and "\<And>j q. (j, q) \<in> S \<Longrightarrow> (j, q) = (i, r) \<or> j \<noteq> i \<and> (j, q) \<in> set rows"
  shows "unique_set d S"
  unfolding unique_set_def
proof (intro ballI allI impI notI)
  fix cs j q k p
  assume cs: "cs \<in> set (td_unique d)" and jk: "(j, q) \<in> S" "(k, p) \<in> S" "k \<noteq> j" and same: "same_on cs p q"
  consider "(j, q) = (i, r)" "(k, p) \<in> set rows" "k \<noteq> i" | "(k, p) = (i, r)" "(j, q) \<in> set rows" "j \<noteq> i"
    | "(j, q) \<in> set rows" "(k, p) \<in> set rows"
    using assms(3) [OF jk(1)] assms(3) [OF jk(2)] jk(3) by blast
  then show False
  proof cases
    case 1
    with assms(2) cs same show ?thesis
      by (auto simp: unique_ok_iff)
  next
    case 2
    with assms(2) cs same_on_sym [OF same] show ?thesis
      by (auto simp: unique_ok_iff)
  next
    case 3
    with assms(1) cs same jk(3) show ?thesis
      by (auto simp: unique_set_def)
  qed
qed

text \<open>What concerns the table alone, and what concerns the references.\<close>

definition table_ok :: "table_def \<Rightarrow> table \<Rightarrow> bool" where
  "table_ok d rows \<longleftrightarrow> sorted (map fst rows) \<and> distinct (map fst rows) \<and>
     (\<forall>(i, r) \<in> set rows. row_ok d r \<and> col r (td_key d) = Integer i) \<and> unique_set d (set rows)"

definition tables_ok :: "tables \<Rightarrow> bool" where
  "tables_ok db \<longleftrightarrow> (\<forall>(t, d) \<in> set schema. table_ok d (db t))"

definition references_ok :: "tables \<Rightarrow> bool" where
  "references_ok db \<longleftrightarrow> (\<forall>(t, d) \<in> set schema. \<forall>(i, r) \<in> set (db t). foreign_ok d r db)"

definition consistent :: "tables \<Rightarrow> bool" where
  "consistent db \<longleftrightarrow> tables_ok db \<and> references_ok db"

lemma distinct_schema: "distinct (map fst schema)"
  by (simp add: schema_def)

lemma schema_lookup: "map_of schema t = Some d \<longleftrightarrow> (t, d) \<in> set schema"
  using distinct_schema by (rule map_of_eq_Some_iff)

lemma table_okD: "tables_ok db \<Longrightarrow> (t, d) \<in> set schema \<Longrightarrow> table_ok d (db t)"
  by (auto simp: tables_ok_def)

lemma same_table: "(t, d) \<in> set schema \<Longrightarrow> (t, e) \<in> set schema \<Longrightarrow> e = d"
  using eq_key_imp_eq_value [OF distinct_schema] .

lemma tables_ok_upd:
  assumes "tables_ok db" and "(t, d) \<in> set schema" and "table_ok d rows"
  shows "tables_ok (db(t := rows))"
  unfolding tables_ok_def
proof (intro ballI, clarify)
  fix u e
  assume u: "(u, e) \<in> set schema"
  show "table_ok e ((db(t := rows)) u)"
  proof (cases "u = t")
    case True
    with u assms(2,3) same_table show ?thesis
      by (metis fun_upd_same)
  qed (use table_okD [OF assms(1) u] in simp)
qed

text \<open>A table with one row more, or with one row replaced.\<close>

lemma table_ok_insert:
  assumes "table_ok d rows" and "i \<notin> row_ids rows" and "row_ok d r" and "col r (td_key d) = Integer i"
    and "unique_ok d i r rows"
  shows "table_ok d (insort_key fst (i, r) rows)"
proof -
  have set: "set (insort_key fst (i, r) rows) = insert (i, r) (set rows)"
    by (simp add: set_insort_key)
  have ids: "map fst (insort_key fst (i, r) rows) = insort i (map fst rows)"
    by (induction rows) auto
  have "distinct (i # map fst rows)"
    using assms(1,2) by (simp add: table_ok_def row_ids_def)
  moreover have "unique_set d (set (insort_key fst (i, r) rows))"
    unfolding set by (rule unique_set_extend [of d rows i r])
      (use assms(1,2,5) in \<open>auto simp: table_ok_def row_ids_def rev_image_eqI\<close>)
  ultimately show ?thesis
    using assms(1,3,4) unfolding table_ok_def set ids by (auto simp: sorted_insort distinct_insort)
qed

lemma set_replace_row:
  "set (replace_row i new rows) =
    {(j, r). (j, r) \<in> set rows \<and> j \<noteq> i} \<union> (if i \<in> row_ids rows then {(i, new)} else {})"
  by (force simp: replace_row_def row_ids_def)

lemma ids_replace_row [simp]: "map fst (replace_row i new rows) = map fst rows"
  by (induction rows) (auto simp: replace_row_def)

lemma table_ok_replace:
  assumes "table_ok d rows" and "row_ok d r" and "col r (td_key d) = Integer i" and "unique_ok d i r rows"
  shows "table_ok d (replace_row i r rows)"
proof -
  have "unique_set d (set (replace_row i r rows))"
    unfolding set_replace_row by (rule unique_set_extend [of d rows i r])
      (use assms(1,4) in \<open>auto simp: table_ok_def split: if_splits\<close>)
  then show ?thesis
    using assms(1-3) by (auto simp: table_ok_def set_replace_row split: if_splits)
qed

section \<open>Insertions and updates\<close>

lemma refers_to_mono: "refers_to v ids \<Longrightarrow> ids \<subseteq> ids' \<Longrightarrow> refers_to v ids'"
  by (auto simp: refers_to_def split: sql_value.splits)

lemma foreign_ok_mono:
  assumes "foreign_ok d r db" and "\<And>t. row_ids (db t) \<subseteq> row_ids (db' t)"
  shows "foreign_ok d r db'"
  using assms unfolding foreign_ok_iff by (fastforce intro: refers_to_mono)

lemma schema_key: "(t, d) \<in> set schema \<Longrightarrow> td_key d \<in> set (td_columns d)"
  by (auto simp: schema_def table_defs)

lemma row_ids_insert [simp]: "row_ids (insort_key fst (i, r) rows) = insert i (row_ids rows)"
  by (auto simp: row_ids_def set_insort_key)

lemma sql_insert_cases:
  assumes "sql_insert t vals s = (r, s')" and "map_of schema t = Some d"
  defines "i \<equiv> insert_id d vals (db_tables s t)"
  defines "new \<equiv> new_row d i vals"
  defines "db' \<equiv> (db_tables s)(t := insort_key fst (i, new) (db_tables s t))"
  obtains (refused) "r = Inl DBException" and "s' = s"
  | (raised) "r = Inl DBException" and "s' = rolled_back s" and "td_raise_insert d (db_tables s) new"
  | (inserted) "r = Inr i" and "s' = s\<lparr>db_tables := db', db_last_id := i\<rparr>"
      and "i \<notin> row_ids (db_tables s t)" and "row_ok d new" and "unique_ok d i new (db_tables s t)"
      and "foreign_ok d new db'" and "\<not> td_raise_insert d (db_tables s) new"
proof -
  have "(r, s') =
      (if \<not> set (map fst vals) \<subseteq> set (td_columns d) then (Inl DBException, s)
       else if td_raise_insert d (db_tables s) new then (Inl DBException, rolled_back s)
       else if i \<notin> row_ids (db_tables s t) \<and> row_ok d new \<and>
         unique_ok d i new (db_tables s t) \<and> foreign_ok d new db'
       then (Inr i, s\<lparr>db_tables := db', db_last_id := i\<rparr>)
       else (Inl DBException, s))"
    unfolding assms(1) [symmetric] sql_insert_def assms(2) option.case Let_def i_def new_def db'_def
    by (rule refl)
  then show ?thesis
    using that by (metis prod.inject)
qed

lemma insert_consistent:
  assumes "consistent (db_tables s)" and "sql_insert t vals s = (r, s')"
  shows "consistent (db_tables s') \<or> s' = rolled_back s"
proof (cases "map_of schema t")
  case None
  with assms show ?thesis
    by (simp add: sql_insert_def)
next
  case (Some d)
  let ?rows = "db_tables s t"
  define i where "i = insert_id d vals ?rows"
  define new where "new = new_row d i vals"
  define db' where "db' = (db_tables s)(t := insort_key fst (i, new) ?rows)"
  have d: "(t, d) \<in> set schema"
    using Some by (simp add: schema_lookup)
  consider "s' = s" | "s' = rolled_back s"
    | "db_tables s' = db'" "i \<notin> row_ids ?rows" "row_ok d new" "unique_ok d i new ?rows" "foreign_ok d new db'"
    using assms(2) Some unfolding i_def new_def db'_def by (cases rule: sql_insert_cases) auto
  then show ?thesis
  proof cases
    case 3
    have "col new (td_key d) = Integer i"
      using schema_key [OF d] by (simp add: new_def new_row_def col_def)
    then have "table_ok d (insort_key fst (i, new) ?rows)"
      using assms(1) 3 d by (intro table_ok_insert) (auto simp: consistent_def dest: table_okD)
    then have "tables_ok db'"
      using assms(1) d by (simp add: db'_def consistent_def tables_ok_upd)
    moreover have "foreign_ok e q db'"
      if "(u, e) \<in> set schema" "(j, q) \<in> set (db' u)" for u e j q
    proof (cases "u = t \<and> (j, q) = (i, new)")
      case True
      with that d have "e = d" "q = new"
        using distinct_schema by (auto dest: eq_key_imp_eq_value)
      with 3 show ?thesis by simp
    next
      case False
      with that have "(j, q) \<in> set (db_tables s u)"
        by (auto simp: db'_def set_insort_key split: if_splits)
      then have "foreign_ok e q (db_tables s)"
        using assms(1) that(1) by (force simp: consistent_def references_ok_def)
      then show ?thesis
        by (rule foreign_ok_mono) (simp add: db'_def subset_insertI)
    qed
    ultimately show ?thesis
      using 3 by (auto simp: consistent_def references_ok_def)
  qed (use assms in simp_all)
qed

lemma update_consistent:
  assumes "consistent (db_tables s)" and "sql_update t c v i s = (r, s')"
    and "\<And>d. map_of schema t = Some d \<Longrightarrow> c \<noteq> td_key d"
  shows "consistent (db_tables s') \<or> s' = rolled_back s"
proof (cases "map_of schema t = None \<or> map_of (db_tables s t) i = None")
  case True
  with assms show ?thesis
    by (auto simp: sql_update_def split: option.splits if_splits)
next
  case False
  then obtain d q where dq: "map_of schema t = Some d" "map_of (db_tables s t) i = Some q"
    by auto
  let ?rows = "db_tables s t" and ?new = "q(c \<mapsto> v)"
  define db' where "db' = (db_tables s)(t := replace_row i ?new ?rows)"
  have d: "(t, d) \<in> set schema" and q: "(i, q) \<in> set ?rows"
    using dq by (auto simp: schema_lookup map_of_SomeD)
  consider "s' = s" | "s' = rolled_back s"
    | "db_tables s' = db'" "row_ok d ?new" "unique_ok d i ?new ?rows" "foreign_ok d ?new db'"
    using assms(2) dq unfolding sql_update_def Let_def db'_def by (auto split: if_splits)
  then show ?thesis
  proof cases
    case 3
    have "col ?new (td_key d) = Integer i"
      using assms(1,3) dq(1) d q by (auto simp: consistent_def table_ok_def dest!: table_okD)
    then have "table_ok d (replace_row i ?new ?rows)"
      using assms(1) 3 d by (intro table_ok_replace) (auto simp: consistent_def dest: table_okD)
    then have "tables_ok db'"
      using assms(1) d by (simp add: db'_def consistent_def tables_ok_upd)
    moreover have ids: "row_ids (db' u) = row_ids (db_tables s u)" for u
      by (simp add: db'_def)
    have "foreign_ok e p db'"
      if "(u, e) \<in> set schema" "(j, p) \<in> set (db' u)" for u e j p
    proof (cases "u = t \<and> j = i")
      case True
      with that d have "e = d" "p = ?new"
        using distinct_schema by (auto simp: db'_def set_replace_row dest: eq_key_imp_eq_value split: if_splits)
      with 3 show ?thesis by simp
    next
      case False
      with that have "(j, p) \<in> set (db_tables s u)"
        by (auto simp: db'_def set_replace_row split: if_splits)
      then have "foreign_ok e p (db_tables s)"
        using assms(1) that(1) by (force simp: consistent_def references_ok_def)
      then show ?thesis
        by (rule foreign_ok_mono) (simp add: ids)
    qed
    ultimately show ?thesis
      using 3 by (auto simp: consistent_def references_ok_def)
  qed (use assms in simp_all)
qed

section \<open>Deletions\<close>

text \<open>While a deletion runs, every reference to a missing row comes from a row still to be deleted.\<close>

definition pending_ok :: "(string \<times> row_id) list \<Rightarrow> tables \<Rightarrow> bool" where
  "pending_ok work db \<longleftrightarrow>
     (\<forall>t d i r. (t, d) \<in> set schema \<longrightarrow> (i, r) \<in> set (db t) \<longrightarrow> foreign_ok d r db \<or> (t, i) \<in> set work)"

definition nulled :: "(string \<times> string \<times> on_delete) list \<Rightarrow> string \<Rightarrow> row_id \<Rightarrow> row \<Rightarrow> row" where
  "nulled fks t i r =
     fold (\<lambda>(c, parent, action) r.
       if parent = t \<and> action = SetNull \<and> col r c = Integer i then r(c \<mapsto> Null) else r) fks r"

lemma null_references_rows:
  assumes "(child, d) \<in> set schema"
  shows "null_references t i db child = map (\<lambda>(j, r). (j, nulled (td_foreign d) t i r)) (db child)"
proof -
  have "fold (\<lambda>(c, parent, action) rows.
         if parent = t \<and> action = SetNull
         then map (\<lambda>(j, r). (j, if col r c = Integer i then r(c \<mapsto> Null) else r)) rows
         else rows) fks rows = map (\<lambda>(j, r). (j, nulled fks t i r)) rows"
    for fks :: "(string \<times> string \<times> on_delete) list" and rows :: table
  proof (induction fks arbitrary: rows)
    case (Cons fk fks)
    then show ?case
      by (cases fk) (auto simp: nulled_def)
  qed (simp add: nulled_def case_prod_unfold)
  then show ?thesis
    using assms by (simp add: null_references_def flip: schema_lookup)
qed

lemma col_nulled:
  "col (nulled fks t i r) c = col r c \<or>
    col (nulled fks t i r) c = Null \<and> col r c = Integer i \<and> (c, t, SetNull) \<in> set fks"
  unfolding nulled_def
proof (induction fks arbitrary: r)
  case (Cons fk fks)
  obtain c' p a where fk: "fk = (c', p, a)"
    by (cases fk)
  show ?case
    using Cons [of "if p = t \<and> a = SetNull \<and> col r c' = Integer i then r(c' \<mapsto> Null) else r"]
    by (auto simp: fk split: if_splits)
qed simp

lemma nulled_reference:
  assumes "(c, t, SetNull) \<in> set fks"
  shows "col (nulled fks t i r) c \<noteq> Integer i"
  using assms
proof (induction fks arbitrary: r)
  case (Cons fk fks)
  show ?case
  proof (cases "fk = (c, t, SetNull)")
    case True
    let ?r = "if col r c = Integer i then r(c \<mapsto> Null) else r"
    have "nulled (fk # fks) t i r = nulled fks t i ?r"
      by (simp add: nulled_def True)
    then show ?thesis
      using col_nulled [of fks t i ?r c] by auto
  next
    case False
    then show ?thesis
      using Cons by (simp add: nulled_def)
  qed
qed simp

text \<open>Setting such a reference to null violates nothing.\<close>

lemma null_allowed:
  assumes "(t, d) \<in> set schema" and "(c, parent, SetNull) \<in> set (td_foreign d)"
  shows "c \<in> set (td_nullable d)" and "c \<noteq> td_key d"
    and "td_check d r \<Longrightarrow> td_check d (r(c \<mapsto> Null))"
  using assms by (auto simp: schema_def table_defs at_least_def)

lemma row_ok_nulled:
  assumes "(u, d) \<in> set schema" and "set fks \<subseteq> set (td_foreign d)" and "row_ok d r"
  shows "row_ok d (nulled fks t i r) \<and> col (nulled fks t i r) (td_key d) = col r (td_key d)"
  using assms(2,3)
proof (induction fks arbitrary: r)
  case (Cons fk fks)
  obtain c p a where fk: "fk = (c, p, a)"
    by (cases fk)
  let ?r = "if p = t \<and> a = SetNull \<and> col r c = Integer i then r(c \<mapsto> Null) else r"
  have step: "nulled (fk # fks) t i r = nulled fks t i ?r"
    by (simp add: nulled_def fk)
  have "row_ok d ?r \<and> col ?r (td_key d) = col r (td_key d)"
  proof (cases "a = SetNull")
    case True
    with Cons.prems(1) fk have c: "c \<in> set (td_nullable d)" "c \<noteq> td_key d"
        "td_check d r \<Longrightarrow> td_check d (r(c \<mapsto> Null))"
      using null_allowed [OF assms(1), of c p] by auto
    with Cons.prems(2) show ?thesis
      by (auto simp: row_ok_def list_all_iff)
  qed (use Cons.prems in simp)
  then show ?case
    using Cons.IH [of ?r] Cons.prems(1) by (simp add: step)
qed (simp add: nulled_def)

lemma table_ok_filter:
  assumes "table_ok d rows"
  shows "table_ok d (filter P rows)"
  using assms unfolding table_ok_def unique_set_def
  by (auto simp: distinct_map_filter sorted_filter)

lemma table_ok_nulled:
  assumes "(u, d) \<in> set schema" and "table_ok d rows"
  shows "table_ok d (map (\<lambda>(j, r). (j, nulled (td_foreign d) t i r)) rows)" (is "table_ok d ?rows")
proof -
  let ?n = "nulled (td_foreign d) t i"
  have ids: "map fst ?rows = map fst rows"
    by (induction rows) auto
  have same: "same_on cs q r" if "same_on cs (?n q) (?n r)" for cs q r
  proof -
    have "col q c \<noteq> Null \<and> col q c = col r c" if "c \<in> set cs" for c
      using \<open>same_on cs (?n q) (?n r)\<close> that col_nulled [of "td_foreign d" t i q c]
        col_nulled [of "td_foreign d" t i r c] by (auto simp: same_on_def)
    then show ?thesis
      unfolding same_on_def by blast
  qed
  then have "unique_set d (set ?rows)"
    using assms(2) unfolding table_ok_def unique_set_def by (auto dest!: same)
  then show ?thesis
    using assms(2) row_ok_nulled [OF assms(1) subset_refl] unfolding table_ok_def ids by fastforce
qed

lemma tables_ok_after_drop:
  assumes "tables_ok db"
  shows "tables_ok (null_references t i (drop_row t i db))"
  unfolding tables_ok_def
proof (intro ballI, clarify)
  fix u d
  assume u: "(u, d) \<in> set schema"
  then have "table_ok d (drop_row t i db u)"
    using table_okD [OF assms u] by (auto simp: drop_row_def table_ok_filter)
  then show "table_ok d (null_references t i (drop_row t i db) u)"
    unfolding null_references_rows [OF u] by (rule table_ok_nulled [OF u])
qed

lemma row_ids_null_references [simp]: "row_ids (null_references t i db u) = row_ids (db u)"
proof (cases "map_of schema u")
  case (Some d)
  then show ?thesis
    by (force simp: null_references_rows schema_lookup row_ids_def)
qed (simp add: null_references_def)

lemma row_ids_drop_row: "row_ids (drop_row t i db u) = row_ids (db u) - (if u = t then {i} else {})"
  by (force simp: drop_row_def row_ids_def)

lemma pending_after_drop:
  assumes "pending_ok ((t, i) # work) db" and "set (referring t i db) \<union> set work \<subseteq> set work'"
  shows "pending_ok work' (null_references t i (drop_row t i db))" (is "pending_ok _ ?db")
  unfolding pending_ok_def
proof (intro allI impI)
  fix u d j q
  assume u: "(u, d) \<in> set schema" and q: "(j, q) \<in> set (?db u)"
  then obtain q0 where q0: "q = nulled (td_foreign d) t i q0" "(j, q0) \<in> set (db u)" "u = t \<Longrightarrow> j \<noteq> i"
    by (auto simp: null_references_rows drop_row_def split: if_splits)
  show "foreign_ok d q ?db \<or> (u, j) \<in> set work'"
  proof (cases "(u, j) \<in> set work'")
    case False
    then have "(u, j) \<notin> set ((t, i) # work)"
      using assms(2) q0(3) by auto
    then have "foreign_ok d q0 db"
      using assms(1) u q0(2) unfolding pending_ok_def by blast
    moreover have "refers_to (col q c) (row_ids (?db p))"
      if fk: "(c, p, a) \<in> set (td_foreign d)" and r: "refers_to (col q0 c) (row_ids (db p))" for c p a
    proof (cases "p = t \<and> col q c = Integer i")
      case True
      then have "a \<noteq> SetNull" "col q0 c = Integer i"
        using fk nulled_reference [of c t "td_foreign d" i q0] col_nulled [of "td_foreign d" t i q0 c]
        by (auto simp: q0(1))
      then have "(u, j) \<in> set (referring t i db)"
        using True fk u q0(2) by (cases a) (force simp: referring_def)+
      with False assms(2) show ?thesis by auto
    next
      case False
      then show ?thesis
        using r col_nulled [of "td_foreign d" t i q0 c]
        by (auto simp: q0(1) refers_to_def row_ids_drop_row split: sql_value.splits)
    qed
    ultimately show ?thesis
      by (auto simp: foreign_ok_iff)
  qed simp
qed

lemma cascade_consistent:
  assumes "tables_ok db" and "pending_ok work db"
  shows "consistent (cascade work db)"
  using assms
proof (induction work db rule: cascade.induct)
  case (1 db)
  then show ?case
    by (fastforce simp: consistent_def references_ok_def pending_ok_def)
next
  case (2 t i work db)
  show ?case
  proof (cases "find_row t i db")
    case None
    have "(u, j) \<noteq> (t, i)" if "(u, d) \<in> set schema" "(j, r) \<in> set (db u)" for u d j r
    proof
      assume "(u, j) = (t, i)"
      with that None show False
        by (auto simp: find_row_def map_of_eq_None_iff rev_image_eqI split: option.splits)
    qed
    then have "pending_ok work db"
      using "2.prems"(2) unfolding pending_ok_def by (metis set_ConsD)
    then have "consistent (cascade work db)"
      by (rule "2.IH"(1) [OF None "2.prems"(1)])
    with None show ?thesis by simp
  next
    case (Some dr)
    obtain d r where dr: "dr = (d, r)"
      by (cases dr)
    show ?thesis
      using "2.IH"(2) [OF Some dr [symmetric] tables_ok_after_drop [OF "2.prems"(1)] pending_after_drop [OF "2.prems"(2)]]
        Some by (auto simp: dr)
  qed
qed

lemma delete_consistent:
  assumes "consistent (db_tables s)" and "sql_delete t i s = (r, s')"
  shows "consistent (db_tables s')"
proof -
  have "pending_ok [(t, i)] (db_tables s)"
    using assms(1) by (fastforce simp: consistent_def references_ok_def pending_ok_def)
  then have "consistent (cascade [(t, i)] (db_tables s))"
    using assms(1) by (intro cascade_consistent) (simp_all add: consistent_def)
  then show ?thesis
    using assms by (auto simp: sql_delete_def split: if_splits)
qed

end
