(* ===== verification/Transaction.thy ===== *)
theory Transaction
  imports Tables
begin

text \<open>
  \<open>simpleworld/db/transaction.cpp\<close>: transactions and savepoints of one connection, and the object
  that rolls an unfinished transaction back when it is destroyed.
\<close>

section \<open>The statements\<close>

text \<open>\<open>BEGIN\<close>, of the three kinds: without other connections they differ in nothing.\<close>

definition sql_begin :: "(database, unit) prog" where
  "sql_begin = updating (\<lambda>s.
     if db_begun s \<noteq> None then Inl DBException
     else Inr (s\<lparr>db_begun := Some (db_tables s), db_by_savepoint := False\<rparr>))"

definition finished :: "database \<Rightarrow> database" where
  "finished s = s\<lparr>db_begun := None, db_by_savepoint := False, db_savepoints := []\<rparr>"

definition sql_commit :: "(database, unit) prog" where
  "sql_commit = updating (\<lambda>s. if db_begun s = None then Inl DBException else Inr (finished s))"

definition sql_rollback :: "(database, unit) prog" where
  "sql_rollback = updating (\<lambda>s. if db_begun s = None then Inl DBException else Inr (rolled_back s))"

text \<open>
  The name of a savepoint ends at the first semicolon, where the statement ends.  Outside a
  transaction \<open>SAVEPOINT\<close> begins one, which ends when that savepoint is released.
\<close>

definition savepoint_name :: "string \<Rightarrow> string" where
  "savepoint_name text = takeWhile (\<lambda>c. c \<noteq> CHR '';'') text"

definition sql_savepoint :: "string \<Rightarrow> (database, unit) prog" where
  "sql_savepoint text = updating (\<lambda>s.
     let s' = s\<lparr>db_savepoints := (savepoint_name text, db_tables s) # db_savepoints s\<rparr>
     in Inr (if db_begun s = None then s'\<lparr>db_begun := Some (db_tables s), db_by_savepoint := True\<rparr>
             else s'))"

text \<open>The newest savepoint of the name and the older ones.\<close>

definition from_savepoint :: "string \<Rightarrow> database \<Rightarrow> (string \<times> tables) list" where
  "from_savepoint text s = dropWhile (\<lambda>(name, _). name \<noteq> savepoint_name text) (db_savepoints s)"

definition sql_release :: "string \<Rightarrow> (database, unit) prog" where
  "sql_release text = updating (\<lambda>s.
     case from_savepoint text s of
       [] \<Rightarrow> Inl DBException
     | _ # older \<Rightarrow>
         if older = [] \<and> db_by_savepoint s then Inr (finished s)
         else Inr (s\<lparr>db_savepoints := older\<rparr>))"

definition sql_rollback_to :: "string \<Rightarrow> (database, unit) prog" where
  "sql_rollback_to text = updating (\<lambda>s.
     case from_savepoint text s of
       [] \<Rightarrow> Inl DBException
     | (name, db) # older \<Rightarrow> Inr (s\<lparr>db_tables := db, db_savepoints := (name, db) # older\<rparr>))"

section \<open>The class Transaction\<close>

text \<open>The object beside its database.\<close>

record transaction =
  tx_counter :: uint16
  tx_started :: bool
  tx_db :: database

datatype transaction_type = Deferred | Immediate | Exclusive

definition on_connection :: "(database, unit) prog \<Rightarrow> bool \<Rightarrow> (transaction, unit) prog" where
  "on_connection p started = (\<lambda>t.
     case p (tx_db t) of
       (Inl x, s) \<Rightarrow> (Inl x, t\<lparr>tx_db := s\<rparr>)
     | (Inr _, s) \<Rightarrow> (Inr (), t\<lparr>tx_db := s, tx_started := started\<rparr>))"

definition transaction_new :: "database \<Rightarrow> transaction" where
  "transaction_new s = \<lparr>tx_counter = 0, tx_started = False, tx_db = s\<rparr>"

definition transaction_begin :: "transaction_type \<Rightarrow> (transaction, unit) prog" where
  "transaction_begin type = on_connection sql_begin True"

text \<open>\<open>Transaction(db, type)\<close>.\<close>

definition transaction_start :: "transaction_type \<Rightarrow> database \<Rightarrow> (exn + unit) \<times> transaction" where
  "transaction_start type s = transaction_begin type (transaction_new s)"

definition transaction_savepoint :: "string \<Rightarrow> (transaction, unit) prog" where
  "transaction_savepoint name = (\<lambda>t. on_connection (sql_savepoint name) (tx_started t) t)"

text \<open>\<open>SP_n\<close>, for the savepoints the object numbers.\<close>

fun decimal :: "nat \<Rightarrow> string" where
  "decimal n = (if n < 10 then [char_of (48 + n)] else decimal (n div 10) @ [char_of (48 + n mod 10)])"

definition numbered :: "uint16 \<Rightarrow> string" where
  "numbered n = ''SP_'' @ decimal (unat n)"

definition transaction_savepoint_number :: "(transaction, uint16) prog" where
  "transaction_savepoint_number =
     andthen (updating (\<lambda>t. Inr (t\<lparr>tx_counter := tx_counter t + 1\<rparr>))) (\<lambda>_.
     andthen (reading (\<lambda>t. Inr (tx_counter t))) (\<lambda>n.
     andthen (transaction_savepoint (numbered n)) (\<lambda>_. ret n)))"

definition transaction_commit :: "(transaction, unit) prog" where
  "transaction_commit = on_connection sql_commit False"

definition transaction_release :: "string \<Rightarrow> (transaction, unit) prog" where
  "transaction_release name = (\<lambda>t. on_connection (sql_release name) (tx_started t) t)"

definition transaction_release_number :: "uint16 \<Rightarrow> (transaction, unit) prog" where
  "transaction_release_number n = transaction_release (numbered n)"

definition transaction_rollback :: "(transaction, unit) prog" where
  "transaction_rollback = on_connection sql_rollback False"

definition transaction_rollback_to :: "string \<Rightarrow> (transaction, unit) prog" where
  "transaction_rollback_to name = (\<lambda>t. on_connection (sql_rollback_to name) (tx_started t) t)"

definition transaction_rollback_to_number :: "uint16 \<Rightarrow> (transaction, unit) prog" where
  "transaction_rollback_to_number n = transaction_rollback_to (numbered n)"

text \<open>\<open>~Transaction\<close>.\<close>

definition transaction_destroy :: "(transaction, unit) prog" where
  "transaction_destroy = (\<lambda>t. if tx_started t then transaction_rollback t else (Inr (), t))"

end
