(* ===== verification/Db_Steps.thy ===== *)
theory Db_Steps
  imports Integrity Transaction Blob
begin

text \<open>
  Runs of statements on one connection: what every sequence of statements keeps, what a transaction
  and a savepoint give back.
\<close>

section \<open>Statements as steps\<close>

text \<open>The statements on the rows.\<close>

inductive row_step :: "database \<Rightarrow> database \<Rightarrow> bool" where
  insert: "sql_insert t vals s = (r, s') \<Longrightarrow> row_step s s'"
| update: "sql_update t c v i s = (r, s') \<Longrightarrow> (\<And>d. map_of schema t = Some d \<Longrightarrow> c \<noteq> td_key d) \<Longrightarrow>
    row_step s s'"
| delete: "sql_delete t i s = (r, s') \<Longrightarrow> row_step s s'"
| bytes: "blob_write_part b data offset s = (r, s') \<Longrightarrow> blob_column b = ''data'' \<Longrightarrow>
    blob_table b \<in> {''Code'', ''Registers''} \<Longrightarrow> length data < 2 ^ 31 \<Longrightarrow> row_step s s'"

text \<open>The statements on transactions and savepoints.\<close>

inductive transaction_step :: "database \<Rightarrow> database \<Rightarrow> bool" where
  start: "sql_begin s = (r, s') \<Longrightarrow> transaction_step s s'"
| commit: "sql_commit s = (r, s') \<Longrightarrow> transaction_step s s'"
| rollback: "sql_rollback s = (r, s') \<Longrightarrow> transaction_step s s'"
| savepoint: "sql_savepoint name s = (r, s') \<Longrightarrow> transaction_step s s'"
| release: "sql_release name s = (r, s') \<Longrightarrow> transaction_step s s'"
| rollback_to: "sql_rollback_to name s = (r, s') \<Longrightarrow> transaction_step s s'"

definition statement :: "database \<Rightarrow> database \<Rightarrow> bool" where
  "statement s s' \<longleftrightarrow> row_step s s' \<or> transaction_step s s'"

section \<open>Integrity\<close>

lemma incremental_ok_inside:
  assumes "incremental_ok bs (of_nat (length data)) offset" and "length data < 2 ^ 31"
  shows "unat offset + length data \<le> length bs"
proof -
  have "uint (of_nat (length data) :: uint32) = int (length data)"
    using assms(2) by (simp add: unsigned_of_nat take_bit_nat_eq_self_iff)
  then have "sint (of_nat (length data) :: uint32) = int (length data)"
    using assms(2) by (simp add: sint_small)
  moreover have "sint offset = uint offset"
  proof (rule sint_small, rule ccontr)
    assume "\<not> uint offset < 2 ^ 31"
    with assms(1) sint_large [of offset] show False
      by (simp add: incremental_ok_def)
  qed
  ultimately have "uint offset + int (length data) \<le> int (length bs)"
    using assms(1) unfolding incremental_ok_def by linarith
  moreover have "int (unat offset) = uint offset"
    by simp
  ultimately show ?thesis
    by linarith
qed

lemma blob_write_part_cases:
  assumes "blob_write_part b data offset s = (r, s')"
  obtains "s' = s"
  | bs where "blob_value b s = Some bs" and "incremental_ok bs (of_nat (length data)) offset"
      and "s' = put_bytes b (blit bs (unat offset) data) s"
proof (cases "blob_value b s")
  case None
  then have "s' = s"
    using assms by (cases "blob_cell b s") (auto simp: blob_write_part_def blob_value_def split: sql_value.splits)
  with that show ?thesis by blast
next
  case (Some bs)
  then have "s' = (if incremental_ok bs (of_nat (length data)) offset
      then put_bytes b (blit bs (unat offset) data) s else s)"
    using assms by (simp add: blob_write_part_def blob_value_cell split: if_splits)
  with Some that show ?thesis
    by (metis (full_types))
qed

text \<open>The tables and every version of them that can come back are consistent.\<close>

definition database_ok :: "database \<Rightarrow> bool" where
  "database_ok s \<longleftrightarrow> consistent (db_tables s) \<and> (\<forall>db. db_begun s = Some db \<longrightarrow> consistent db) \<and>
     (\<forall>(_, db) \<in> set (db_savepoints s). consistent db)"

lemma database_ok_rolled_back: "database_ok s \<Longrightarrow> database_ok (rolled_back s)"
  by (auto simp: database_ok_def rolled_back_def split: option.split)

text \<open>Rewriting part of the data of a code or of registers.\<close>

lemma data_row_replaced:
  assumes "(t, d) \<in> set schema" and "t \<in> {''Code'', ''Registers''}" and "row_ok d r"
    and "col r ''data'' = Bytes bs" and "length bs' = length bs"
  shows "row_ok d (r(''data'' \<mapsto> Bytes bs')) \<and> td_key d \<noteq> ''data'' \<and> td_unique d = [] \<and> td_foreign d = []"
  using assms by (auto simp: schema_def table_defs row_ok_def)

lemma consistent_put_bytes:
  assumes "consistent (db_tables s)" and "blob_value b s = Some bs" and "length bs' = length bs"
    and "blob_column b = ''data''" and "blob_table b \<in> {''Code'', ''Registers''}"
  shows "consistent (db_tables (put_bytes b bs' s))"
proof -
  obtain d r where row: "map_of schema (blob_table b) = Some d"
    "map_of (db_tables s (blob_table b)) (blob_id b) = Some r" "col r ''data'' = Bytes bs"
    using assms(2,4) by (auto simp: blob_value_cell elim!: blob_cellD)
  let ?t = "blob_table b" and ?i = "blob_id b" and ?new = "r(''data'' \<mapsto> Bytes bs')"
  have d: "(?t, d) \<in> set schema" and r: "(?i, r) \<in> set (db_tables s ?t)"
    using row by (auto simp: schema_lookup map_of_SomeD)
  have ok: "table_ok d (db_tables s ?t)"
    using assms(1) d by (auto simp: consistent_def dest: table_okD)
  then have "row_ok d r" "col r (td_key d) = Integer ?i"
    using r by (auto simp: table_ok_def)
  note new = data_row_replaced [OF d assms(5) this(1) row(3) assms(3)]
  have "table_ok d (replace_row ?i ?new (db_tables s ?t))"
    using new ok \<open>col r (td_key d) = Integer ?i\<close> by (intro table_ok_replace) (simp_all add: unique_ok_def)
  then have tables: "tables_ok ((db_tables s)(?t := replace_row ?i ?new (db_tables s ?t)))" (is "tables_ok ?db")
    using assms(1) d by (simp add: consistent_def tables_ok_upd)
  have "foreign_ok e q ?db" if "(u, e) \<in> set schema" "(j, q) \<in> set (?db u)" for u e j q
  proof (cases "u = ?t")
    case True
    then show ?thesis
      using same_table [OF d] that(1) new by (simp add: foreign_ok_def)
  next
    case False
    then have "foreign_ok e q (db_tables s)"
      using that assms(1) by (force simp: consistent_def references_ok_def)
    then show ?thesis
      by (rule foreign_ok_mono) simp
  qed
  then have "references_ok ?db"
    by (auto simp: references_ok_def)
  then show ?thesis
    using tables row(2) assms(4) by (simp add: put_bytes_def consistent_def)
qed

text \<open>A statement on rows leaves the transaction alone or rolls it back.\<close>

lemma row_step_cases:
  assumes "row_step s s'"
  shows "s' = rolled_back s \<or> db_begun s' = db_begun s \<and> db_savepoints s' = db_savepoints s \<and>
    db_by_savepoint s' = db_by_savepoint s"
  using assms
proof cases
  case (insert t vals r)
  then show ?thesis
    by (auto simp: sql_insert_def Let_def split: option.splits if_splits)
next
  case (update t c v i r)
  then show ?thesis
    by (auto simp: sql_update_def Let_def split: option.splits if_splits)
next
  case (delete t i r)
  then show ?thesis
    by (auto simp: sql_delete_def split: if_splits)
next
  case (bytes b data offset r)
  from bytes(1) show ?thesis
    by (cases rule: blob_write_part_cases) (simp_all add: put_bytes_def split: option.split)
qed

lemma row_step_consistent:
  assumes "database_ok s" and "row_step s s'"
  shows "consistent (db_tables s') \<or> s' = rolled_back s"
  using assms(2)
proof cases
  case (insert t vals r)
  with assms(1) show ?thesis
    by (intro insert_consistent [of s t vals r]) (auto simp: database_ok_def)
next
  case (update t c v i r)
  with assms(1) show ?thesis
    by (intro update_consistent [of s t c v i r]) (auto simp: database_ok_def)
next
  case (delete t i r)
  with assms(1) show ?thesis
    by (auto simp: database_ok_def intro: delete_consistent)
next
  case (bytes b data offset r)
  have s: "consistent (db_tables s)"
    using assms(1) by (simp add: database_ok_def)
  from bytes(1) show ?thesis
  proof (cases rule: blob_write_part_cases)
    case (2 bs)
    then have "unat offset + length data \<le> length bs"
      using bytes(4) by (simp add: incremental_ok_inside)
    with 2 bytes(2,3) s show ?thesis
      by (simp add: consistent_put_bytes)
  qed (use s in simp)
qed

text \<open>Every sequence of statements keeps the integrity of the database.\<close>

lemma row_step_ok:
  assumes "database_ok s" and "row_step s s'"
  shows "database_ok s'"
  using row_step_cases [OF assms(2)] row_step_consistent [OF assms] database_ok_rolled_back [OF assms(1)]
    assms(1) by (auto simp: database_ok_def)

lemma from_savepoint_subset: "set (from_savepoint text s) \<subseteq> set (db_savepoints s)"
  by (auto simp: from_savepoint_def dest: set_dropWhileD)

lemma transaction_step_ok:
  assumes "database_ok s" and "transaction_step s s'"
  shows "database_ok s'"
  using assms(2)
proof cases
  case (release name r)
  then show ?thesis
    using assms(1) from_savepoint_subset [of name s]
    by (fastforce simp: sql_release_def finished_def database_ok_def split: list.splits if_splits)
next
  case (rollback_to name r)
  then show ?thesis
    using assms(1) from_savepoint_subset [of name s]
    by (fastforce simp: sql_rollback_to_def database_ok_def split: list.splits)
qed (use assms(1) in \<open>auto simp: sql_begin_def sql_commit_def sql_rollback_def sql_savepoint_def finished_def
    rolled_back_def database_ok_def Let_def split: if_splits option.splits\<close>)

lemma statements_ok: "statement\<^sup>*\<^sup>* s s' \<Longrightarrow> database_ok s \<Longrightarrow> database_ok s'"
  by (induction rule: rtranclp_induct) (metis statement_def row_step_ok transaction_step_ok)+

section \<open>Transactions and savepoints\<close>

text \<open>The steps the code takes between \<open>BEGIN\<close> and the end of a transaction.\<close>

inductive inner_step :: "database \<Rightarrow> database \<Rightarrow> bool" where
  row: "row_step s s' \<Longrightarrow> inner_step s s'"
| savepoint: "sql_savepoint name s = (r, s') \<Longrightarrow> db_begun s \<noteq> None \<Longrightarrow> inner_step s s'"
| release: "sql_release name s = (r, s') \<Longrightarrow> inner_step s s'"
| rollback_to: "sql_rollback_to name s = (r, s') \<Longrightarrow> inner_step s s'"

text \<open>The transaction began with the tables \<open>db\<close>, or it is over, rolled back by a trigger.\<close>

definition inside :: "tables \<Rightarrow> database \<Rightarrow> bool" where
  "inside db s \<longleftrightarrow> (case db_begun s of None \<Rightarrow> db_savepoints s = [] | Some b \<Rightarrow> b = db) \<and>
     \<not> db_by_savepoint s"

lemma inside_rolled_back: "inside db s \<Longrightarrow> inside db (rolled_back s)"
  by (auto simp: inside_def rolled_back_def split: option.splits)

lemma inner_step_inside:
  assumes "inner_step s s'" and "inside db s"
  shows "inside db s'"
  using assms(1)
proof cases
  case row
  from row_step_cases [OF row] show ?thesis
    using assms(2) inside_rolled_back [OF assms(2)] by (auto simp: inside_def split: option.splits)
next
  case (savepoint name r)
  with assms(2) show ?thesis
    by (auto simp: sql_savepoint_def Let_def inside_def split: if_splits option.splits)
next
  case (release name r)
  with assms(2) show ?thesis
    by (auto simp: sql_release_def inside_def from_savepoint_def split: list.splits option.splits if_splits)
next
  case (rollback_to name r)
  with assms(2) show ?thesis
    by (auto simp: sql_rollback_to_def inside_def from_savepoint_def split: list.splits option.splits)
qed

lemma inner_steps_inside: "inner_step\<^sup>*\<^sup>* s s' \<Longrightarrow> inside db s \<Longrightarrow> inside db s'"
  by (induction rule: rtranclp_induct) (simp_all add: inner_step_inside)

section \<open>Numbered savepoints\<close>

lemma decimal_value: "foldl (\<lambda>a c. 10 * a + (of_char c - 48)) 0 (decimal n) = n"
  by (induction n rule: decimal.induct) simp

lemma digit_no_semicolon: "d < 10 \<Longrightarrow> char_of (48 + d) \<noteq> CHR '';''" for d :: nat
proof
  assume "d < 10" and "char_of (48 + d) = CHR '';''"
  from this(2) have "of_char (char_of (48 + d) :: char) = (of_char (CHR '';'') :: nat)"
    by simp
  with \<open>d < 10\<close> show False
    by simp
qed

declare decimal.simps [simp del]

lemma decimal_digits: "CHR '';'' \<notin> set (decimal n)"
proof (induction n rule: decimal.induct)
  case (1 n)
  have "CHR '';'' \<noteq> char_of (48 + n mod 10)" "n < 10 \<Longrightarrow> CHR '';'' \<noteq> char_of (48 + n)"
    using digit_no_semicolon [of "n mod 10"] digit_no_semicolon [of n] by (metis mod_less_divisor zero_less_numeral)+
  with 1 show ?case
    by (cases "n < 10") (simp_all add: decimal.simps [of n])
qed

lemma numbered_inject: "numbered m = numbered n \<longleftrightarrow> m = n"
proof
  assume "numbered m = numbered n"
  then have "decimal (unat m) = decimal (unat n)"
    by (simp only: numbered_def same_append_eq)
  then have "unat m = unat n"
    using decimal_value by metis
  then show "m = n"
    by (rule unsigned_word_eqI)
qed simp

lemma savepoint_name_numbered [simp]: "savepoint_name (numbered n) = numbered n"
proof -
  have "c \<noteq> CHR '';''" if "c \<in> set (numbered n)" for c
    using that decimal_digits [of "unat n"] by (auto simp: numbered_def)
  then show ?thesis
    by (simp add: savepoint_name_def takeWhile_eq_all_conv)
qed

lemma savepoint_number_run:
  "\<exists>s. transaction_savepoint_number t = (Inr (tx_counter t + 1), t\<lparr>tx_counter := tx_counter t + 1, tx_db := s\<rparr>) \<and>
    db_begun s \<noteq> None \<and> db_tables s = db_tables (tx_db t) \<and>
    db_savepoints s = (numbered (tx_counter t + 1), db_tables (tx_db t)) # db_savepoints (tx_db t) \<and>
    (db_begun (tx_db t) \<noteq> None \<longrightarrow> db_begun s = db_begun (tx_db t) \<and> db_by_savepoint s = db_by_savepoint (tx_db t))"
  by (cases "db_begun (tx_db t) = None")
    (auto simp: transaction_savepoint_number_def transaction_savepoint_def on_connection_def sql_savepoint_def Let_def)

lemma from_savepoint_above:
  "db_savepoints s = newer @ (savepoint_name text, db) # older \<Longrightarrow> savepoint_name text \<notin> fst ` set newer \<Longrightarrow>
    from_savepoint text s = (savepoint_name text, db) # older"
  unfolding from_savepoint_def by (induction newer arbitrary: s) (force simp: dropWhile_append)+

text \<open>What may happen inside the savepoint \<open>n\<close>.\<close>

inductive nested_step :: "uint16 \<Rightarrow> transaction \<Rightarrow> transaction \<Rightarrow> bool" for n where
  row: "row_step (tx_db t) s \<Longrightarrow> db_begun s \<noteq> None \<Longrightarrow> nested_step n t (t\<lparr>tx_db := s\<rparr>)"
| savepoint: "transaction_savepoint_number t = (Inr k, t') \<Longrightarrow> k \<noteq> n \<Longrightarrow> nested_step n t t'"

lemma nested_steps:
  assumes "(nested_step n)\<^sup>*\<^sup>* t t'" and "db_begun (tx_db t) \<noteq> None"
  shows "\<exists>newer. db_savepoints (tx_db t') = newer @ db_savepoints (tx_db t) \<and> numbered n \<notin> fst ` set newer \<and>
    db_begun (tx_db t') = db_begun (tx_db t) \<and> db_by_savepoint (tx_db t') = db_by_savepoint (tx_db t) \<and>
    tx_started t' = tx_started t"
  using assms(1)
proof (induction rule: rtranclp_induct)
  case (step u v)
  from step(2) show ?case
  proof cases
    case (row s)
    with row_step_cases [OF row(2)] have "db_savepoints s = db_savepoints (tx_db u) \<and>
        db_begun s = db_begun (tx_db u) \<and> db_by_savepoint s = db_by_savepoint (tx_db u)"
      by (auto simp: rolled_back_def split: option.splits)
    with step.IH row(1) show ?thesis by auto
  next
    case (savepoint k)
    with savepoint_number_run [of u] step.IH assms(2) show ?thesis
      by (fastforce simp: numbered_inject)
  qed
qed (use assms(2) in simp)

section \<open>Properties\<close>

text \<open>
  C22: an abandoned transaction leaves no trace: whatever statements ran since it began, destroying
  the object brings back the tables of the beginning and closes the transaction - unless a trigger
  had rolled it back already: then the destructor throws, because there is no transaction.
\<close>

theorem abandoned_transaction:
  assumes "transaction_start type s = (Inr (), t)" and "inner_step\<^sup>*\<^sup>* (tx_db t) s'"
  shows "(db_begun s' \<noteq> None \<longrightarrow>
      (\<exists>t'. transaction_destroy (t\<lparr>tx_db := s'\<rparr>) = (Inr (), t') \<and> db_tables (tx_db t') = db_tables s \<and>
        db_begun (tx_db t') = None \<and> db_savepoints (tx_db t') = [])) \<and>
    (db_begun s' = None \<longrightarrow> fst (transaction_destroy (t\<lparr>tx_db := s'\<rparr>)) = Inl DBException)"
proof -
  have "tx_started t" and "inside (db_tables s) (tx_db t)"
    using assms(1) by (auto simp: transaction_start_def transaction_begin_def on_connection_def
        transaction_new_def sql_begin_def inside_def split: if_splits)
  moreover from this assms(2) have "inside (db_tables s) s'"
    by (blast intro: inner_steps_inside)
  ultimately show ?thesis
    by (auto simp: transaction_destroy_def transaction_rollback_def on_connection_def sql_rollback_def
        rolled_back_def inside_def)
qed


text \<open>A connection to an empty database, and one with a row of code.\<close>

definition no_rows :: database where
  "no_rows = \<lparr>db_tables = (\<lambda>_. []), db_begun = None, db_by_savepoint = False, db_savepoints = [], db_last_id = 0\<rparr>"

definition insert_word :: "(database, row_id) prog" where
  "insert_word = sql_insert ''Code'' [(''data'', Bytes [1, 2, 3, 4])]"

lemma insert_word_step: "row_step s (snd (insert_word s))"
  unfolding insert_word_def by (rule row_step.insert [OF surjective_pairing])

theorem abandoned_transaction_witness:
  "\<exists>t t'. transaction_start Immediate no_rows = (Inr (), t) \<and>
    transaction_destroy (t\<lparr>tx_db := snd (insert_word (tx_db t))\<rparr>) = (Inr (), t') \<and>
    db_tables (tx_db t') = (\<lambda>_. [])"
proof -
  obtain t where t: "transaction_start Immediate no_rows = (Inr (), t)" "db_begun (tx_db t) \<noteq> None"
    "db_tables (tx_db t) = (\<lambda>_. [])"
    by (auto simp: transaction_start_def transaction_begin_def on_connection_def transaction_new_def
        sql_begin_def no_rows_def)
  have "inner_step\<^sup>*\<^sup>* (tx_db t) (snd (insert_word (tx_db t)))"
    by (rule r_into_rtranclp) (rule inner_step.row [OF insert_word_step])
  moreover have "db_begun (snd (insert_word (tx_db t))) \<noteq> None"
    using t(2,3) by (simp add: insert_word_def sql_insert_def schema_def table_defs row_ok_def
        max_length_def unique_ok_def foreign_ok_def insert_id_def next_row_id_def new_row_def row_ids_def col_def Let_def)
  ultimately show ?thesis
    using abandoned_transaction [OF t(1)] t(1) by (fastforce simp: no_rows_def)
qed


end
