(* ===== verification/Db_World.thy ===== *)
theory Db_World
  imports Tables
begin

text \<open>
  \<open>simpleworld/db/world.cpp\<close> and \<open>food.cpp\<close>: the rows of the positions and of the food.
\<close>

section \<open>World\<close>

definition World_insert ::
    "uint16 \<Rightarrow> uint16 \<Rightarrow> uint32 \<Rightarrow> (database, row_id) prog" where
  "World_insert x y orientation =
     sql_insert ''World'' [(''position_x'', bind_short x), (''position_y'', bind_short y),
       (''orientation'', bind_int orientation)]"

definition World_insert_unoriented ::
    "uint16 \<Rightarrow> uint16 \<Rightarrow> (database, row_id) prog" where
  "World_insert_unoriented x y =
     sql_insert ''World'' [(''position_x'', bind_short x), (''position_y'', bind_short y)]"

definition World_remove :: "row_id \<Rightarrow> (database, unit) prog" where
  "World_remove i = sql_delete ''World'' i"

definition World_set_id :: "row_id \<Rightarrow> row_id \<Rightarrow> (database, row_id) prog" where
  "World_set_id k i = andthen (sql_rename ''World'' k i) (\<lambda>_. ret k)"

definition World_position_x :: "row_id \<Rightarrow> (database, uint16) prog" where
  "World_position_x i = column_int ''World'' ''position_x'' i"

definition World_position_y :: "row_id \<Rightarrow> (database, uint16) prog" where
  "World_position_y i = column_int ''World'' ''position_y'' i"

definition World_set_position_x :: "uint16 \<Rightarrow> row_id \<Rightarrow> (database, unit) prog" where
  "World_set_position_x v = sql_update ''World'' ''position_x'' (bind_short v)"

definition World_set_position_y :: "uint16 \<Rightarrow> row_id \<Rightarrow> (database, unit) prog" where
  "World_set_position_y v = sql_update ''World'' ''position_y'' (bind_short v)"

definition World_orientation :: "row_id \<Rightarrow> (database, uint32) prog" where
  "World_orientation i = column_int ''World'' ''orientation'' i"

definition World_set_orientation :: "uint32 \<Rightarrow> row_id \<Rightarrow> (database, unit) prog" where
  "World_set_orientation v = sql_update ''World'' ''orientation'' (bind_int v)"


section \<open>Food\<close>

definition Food_insert ::
    "uint32 \<Rightarrow> row_id \<Rightarrow> uint32 \<Rightarrow> (database, row_id) prog" where
  "Food_insert time world_id sz =
     sql_insert ''Food'' [(''time'', bind_int time), (''world_id'', Integer world_id),
       (''size'', bind_int sz)]"

definition Food_remove :: "row_id \<Rightarrow> (database, unit) prog" where
  "Food_remove i = sql_delete ''Food'' i"

definition Food_set_id :: "row_id \<Rightarrow> row_id \<Rightarrow> (database, row_id) prog" where
  "Food_set_id k i = andthen (sql_rename ''Food'' k i) (\<lambda>_. ret k)"

definition Food_time :: "row_id \<Rightarrow> (database, uint32) prog" where
  "Food_time i = column_int ''Food'' ''time'' i"

definition Food_set_time :: "uint32 \<Rightarrow> row_id \<Rightarrow> (database, unit) prog" where
  "Food_set_time v = sql_update ''Food'' ''time'' (bind_int v)"

definition Food_world_id :: "row_id \<Rightarrow> (database, row_id) prog" where
  "Food_world_id i = column_int64 ''Food'' ''world_id'' i"

definition Food_set_world_id :: "row_id \<Rightarrow> row_id \<Rightarrow> (database, unit) prog" where
  "Food_set_world_id v = sql_update ''Food'' ''world_id'' (Integer v)"

definition Food_size :: "row_id \<Rightarrow> (database, uint32) prog" where
  "Food_size i = column_int ''Food'' ''size'' i"

definition Food_set_size :: "uint32 \<Rightarrow> row_id \<Rightarrow> (database, unit) prog" where
  "Food_set_size v = sql_update ''Food'' ''size'' (bind_int v)"


end
