(* ===== verification/Db_Spawn.thy ===== *)
theory Db_Spawn
  imports Tables
begin

text \<open>
  \<open>simpleworld/db/spawn.cpp\<close> and \<open>resource.cpp\<close>: where eggs and food appear.
\<close>

section \<open>Spawn\<close>

definition Spawn_insert ::
    "row_id \<Rightarrow> uint32 \<Rightarrow> uint16 \<Rightarrow> uint16 \<Rightarrow> uint16 \<Rightarrow> uint16 \<Rightarrow> uint16 \<Rightarrow> uint32 \<Rightarrow> (database, row_id) prog" where
  "Spawn_insert code_id frequency limit sx sy ex ey energy =
     sql_insert ''Spawn'' [(''code_id'', Integer code_id), (''frequency'', bind_int frequency),
       (''max'', bind_short limit), (''start_x'', bind_short sx), (''start_y'', bind_short sy),
       (''end_x'', bind_short ex), (''end_y'', bind_short ey), (''energy'', bind_int energy)]"

definition Spawn_remove :: "row_id \<Rightarrow> (database, unit) prog" where
  "Spawn_remove i = sql_delete ''Spawn'' i"

definition Spawn_set_id :: "row_id \<Rightarrow> row_id \<Rightarrow> (database, row_id) prog" where
  "Spawn_set_id k i = andthen (sql_rename ''Spawn'' k i) (\<lambda>_. ret k)"

definition Spawn_code_id :: "row_id \<Rightarrow> (database, row_id) prog" where
  "Spawn_code_id i = column_int64 ''Spawn'' ''code_id'' i"

definition Spawn_set_code_id :: "row_id \<Rightarrow> row_id \<Rightarrow> (database, unit) prog" where
  "Spawn_set_code_id v = sql_update ''Spawn'' ''code_id'' (Integer v)"

definition Spawn_frequency :: "row_id \<Rightarrow> (database, uint32) prog" where
  "Spawn_frequency i = column_int ''Spawn'' ''frequency'' i"

definition Spawn_set_frequency :: "uint32 \<Rightarrow> row_id \<Rightarrow> (database, unit) prog" where
  "Spawn_set_frequency v = sql_update ''Spawn'' ''frequency'' (bind_int v)"

definition Spawn_max :: "row_id \<Rightarrow> (database, uint16) prog" where
  "Spawn_max i = column_int ''Spawn'' ''max'' i"

definition Spawn_set_max :: "uint16 \<Rightarrow> row_id \<Rightarrow> (database, unit) prog" where
  "Spawn_set_max v = sql_update ''Spawn'' ''max'' (bind_short v)"

definition Spawn_start_x :: "row_id \<Rightarrow> (database, uint16) prog" where
  "Spawn_start_x i = column_int ''Spawn'' ''start_x'' i"

definition Spawn_set_start_x :: "uint16 \<Rightarrow> row_id \<Rightarrow> (database, unit) prog" where
  "Spawn_set_start_x v = sql_update ''Spawn'' ''start_x'' (bind_short v)"

definition Spawn_start_y :: "row_id \<Rightarrow> (database, uint16) prog" where
  "Spawn_start_y i = column_int ''Spawn'' ''start_y'' i"

definition Spawn_set_start_y :: "uint16 \<Rightarrow> row_id \<Rightarrow> (database, unit) prog" where
  "Spawn_set_start_y v = sql_update ''Spawn'' ''start_y'' (bind_short v)"

definition Spawn_end_x :: "row_id \<Rightarrow> (database, uint16) prog" where
  "Spawn_end_x i = column_int ''Spawn'' ''end_x'' i"

definition Spawn_set_end_x :: "uint16 \<Rightarrow> row_id \<Rightarrow> (database, unit) prog" where
  "Spawn_set_end_x v = sql_update ''Spawn'' ''end_x'' (bind_short v)"

definition Spawn_end_y :: "row_id \<Rightarrow> (database, uint16) prog" where
  "Spawn_end_y i = column_int ''Spawn'' ''end_y'' i"

definition Spawn_set_end_y :: "uint16 \<Rightarrow> row_id \<Rightarrow> (database, unit) prog" where
  "Spawn_set_end_y v = sql_update ''Spawn'' ''end_y'' (bind_short v)"

definition Spawn_energy :: "row_id \<Rightarrow> (database, uint32) prog" where
  "Spawn_energy i = column_int ''Spawn'' ''energy'' i"

definition Spawn_set_energy :: "uint32 \<Rightarrow> row_id \<Rightarrow> (database, unit) prog" where
  "Spawn_set_energy v = sql_update ''Spawn'' ''energy'' (bind_int v)"


section \<open>Resource\<close>

definition Resource_insert ::
    "uint32 \<Rightarrow> uint16 \<Rightarrow> uint16 \<Rightarrow> uint16 \<Rightarrow> uint16 \<Rightarrow> uint16 \<Rightarrow> uint32 \<Rightarrow> (database, row_id) prog" where
  "Resource_insert frequency limit sx sy ex ey sz =
     sql_insert ''Resource'' [(''frequency'', bind_int frequency), (''max'', bind_short limit),
       (''start_x'', bind_short sx), (''start_y'', bind_short sy), (''end_x'', bind_short ex),
       (''end_y'', bind_short ey), (''size'', bind_int sz)]"

definition Resource_remove :: "row_id \<Rightarrow> (database, unit) prog" where
  "Resource_remove i = sql_delete ''Resource'' i"

definition Resource_set_id :: "row_id \<Rightarrow> row_id \<Rightarrow> (database, row_id) prog" where
  "Resource_set_id k i = andthen (sql_rename ''Resource'' k i) (\<lambda>_. ret k)"

definition Resource_frequency :: "row_id \<Rightarrow> (database, uint32) prog" where
  "Resource_frequency i = column_int ''Resource'' ''frequency'' i"

definition Resource_set_frequency :: "uint32 \<Rightarrow> row_id \<Rightarrow> (database, unit) prog" where
  "Resource_set_frequency v = sql_update ''Resource'' ''frequency'' (bind_int v)"

definition Resource_max :: "row_id \<Rightarrow> (database, uint16) prog" where
  "Resource_max i = column_int ''Resource'' ''max'' i"

definition Resource_set_max :: "uint16 \<Rightarrow> row_id \<Rightarrow> (database, unit) prog" where
  "Resource_set_max v = sql_update ''Resource'' ''max'' (bind_short v)"

definition Resource_start_x :: "row_id \<Rightarrow> (database, uint16) prog" where
  "Resource_start_x i = column_int ''Resource'' ''start_x'' i"

definition Resource_set_start_x :: "uint16 \<Rightarrow> row_id \<Rightarrow> (database, unit) prog" where
  "Resource_set_start_x v = sql_update ''Resource'' ''start_x'' (bind_short v)"

definition Resource_start_y :: "row_id \<Rightarrow> (database, uint16) prog" where
  "Resource_start_y i = column_int ''Resource'' ''start_y'' i"

definition Resource_set_start_y :: "uint16 \<Rightarrow> row_id \<Rightarrow> (database, unit) prog" where
  "Resource_set_start_y v = sql_update ''Resource'' ''start_y'' (bind_short v)"

definition Resource_end_x :: "row_id \<Rightarrow> (database, uint16) prog" where
  "Resource_end_x i = column_int ''Resource'' ''end_x'' i"

definition Resource_set_end_x :: "uint16 \<Rightarrow> row_id \<Rightarrow> (database, unit) prog" where
  "Resource_set_end_x v = sql_update ''Resource'' ''end_x'' (bind_short v)"

definition Resource_end_y :: "row_id \<Rightarrow> (database, uint16) prog" where
  "Resource_end_y i = column_int ''Resource'' ''end_y'' i"

definition Resource_set_end_y :: "uint16 \<Rightarrow> row_id \<Rightarrow> (database, unit) prog" where
  "Resource_set_end_y v = sql_update ''Resource'' ''end_y'' (bind_short v)"

definition Resource_size :: "row_id \<Rightarrow> (database, uint32) prog" where
  "Resource_size i = column_int ''Resource'' ''size'' i"

definition Resource_set_size :: "uint32 \<Rightarrow> row_id \<Rightarrow> (database, unit) prog" where
  "Resource_set_size v = sql_update ''Resource'' ''size'' (bind_int v)"


end
