(* ===== verification/Db_Stats.thy ===== *)
theory Db_Stats
  imports Db_Lists
begin

text \<open>
  \<open>simpleworld/db/stats.cpp\<close>: the statistics of the simulation.
\<close>

text \<open>The columns of a row, as the arguments of \<open>insert\<close> and the results of the queries.\<close>

record stats =
  st_time :: uint32
  st_families :: uint32
  st_alive :: uint32
  st_eggs :: uint32
  st_food :: uint32
  st_energy :: uint32
  st_mutations :: uint32
  st_age :: uint32
  st_last_births :: uint32
  st_last_sons :: uint32
  st_last_deaths :: uint32
  st_last_kills :: uint32
  st_last_mutations :: uint32

definition Stats_insert :: "stats \<Rightarrow> (database, row_id) prog" where
  "Stats_insert v =
     sql_insert ''Stats''
      [(''time'', bind_int (st_time v)),
       (''families'', bind_int (st_families v)),
       (''alive'', bind_int (st_alive v)),
       (''eggs'', bind_int (st_eggs v)),
       (''food'', bind_int (st_food v)),
       (''energy'', bind_int (st_energy v)),
       (''mutations'', bind_int (st_mutations v)),
       (''age'', bind_int (st_age v)),
       (''last_births'', bind_int (st_last_births v)),
       (''last_sons'', bind_int (st_last_sons v)),
       (''last_deaths'', bind_int (st_last_deaths v)),
       (''last_kills'', bind_int (st_last_kills v)),
       (''last_mutations'', bind_int (st_last_mutations v))]"

definition Stats_remove :: "row_id \<Rightarrow> (database, unit) prog" where
  "Stats_remove i = sql_delete ''Stats'' i"

definition Stats_set_id :: "row_id \<Rightarrow> row_id \<Rightarrow> (database, row_id) prog" where
  "Stats_set_id k i = andthen (sql_rename ''Stats'' k i) (\<lambda>_. ret k)"

definition Stats_time :: "row_id \<Rightarrow> (database, uint32) prog" where
  "Stats_time i = column_int ''Stats'' ''time'' i"

definition Stats_set_time :: "uint32 \<Rightarrow> row_id \<Rightarrow> (database, unit) prog" where
  "Stats_set_time v = sql_update ''Stats'' ''time'' (bind_int v)"

definition Stats_families :: "row_id \<Rightarrow> (database, uint32) prog" where
  "Stats_families i = column_int ''Stats'' ''families'' i"

definition Stats_set_families :: "uint32 \<Rightarrow> row_id \<Rightarrow> (database, unit) prog" where
  "Stats_set_families v = sql_update ''Stats'' ''families'' (bind_int v)"

definition Stats_alive :: "row_id \<Rightarrow> (database, uint32) prog" where
  "Stats_alive i = column_int ''Stats'' ''alive'' i"

definition Stats_set_alive :: "uint32 \<Rightarrow> row_id \<Rightarrow> (database, unit) prog" where
  "Stats_set_alive v = sql_update ''Stats'' ''alive'' (bind_int v)"

definition Stats_eggs :: "row_id \<Rightarrow> (database, uint32) prog" where
  "Stats_eggs i = column_int ''Stats'' ''eggs'' i"

definition Stats_set_eggs :: "uint32 \<Rightarrow> row_id \<Rightarrow> (database, unit) prog" where
  "Stats_set_eggs v = sql_update ''Stats'' ''eggs'' (bind_int v)"

definition Stats_food :: "row_id \<Rightarrow> (database, uint32) prog" where
  "Stats_food i = column_int ''Stats'' ''food'' i"

definition Stats_set_food :: "uint32 \<Rightarrow> row_id \<Rightarrow> (database, unit) prog" where
  "Stats_set_food v = sql_update ''Stats'' ''food'' (bind_int v)"

definition Stats_energy :: "row_id \<Rightarrow> (database, uint32) prog" where
  "Stats_energy i = column_int ''Stats'' ''energy'' i"

definition Stats_set_energy :: "uint32 \<Rightarrow> row_id \<Rightarrow> (database, unit) prog" where
  "Stats_set_energy v = sql_update ''Stats'' ''energy'' (bind_int v)"

definition Stats_mutations :: "row_id \<Rightarrow> (database, uint32) prog" where
  "Stats_mutations i = column_int ''Stats'' ''mutations'' i"

definition Stats_set_mutations :: "uint32 \<Rightarrow> row_id \<Rightarrow> (database, unit) prog" where
  "Stats_set_mutations v = sql_update ''Stats'' ''mutations'' (bind_int v)"

definition Stats_age :: "row_id \<Rightarrow> (database, uint32) prog" where
  "Stats_age i = column_int ''Stats'' ''age'' i"

definition Stats_set_age :: "uint32 \<Rightarrow> row_id \<Rightarrow> (database, unit) prog" where
  "Stats_set_age v = sql_update ''Stats'' ''age'' (bind_int v)"

definition Stats_last_births :: "row_id \<Rightarrow> (database, uint32) prog" where
  "Stats_last_births i = column_int ''Stats'' ''last_births'' i"

definition Stats_set_last_births :: "uint32 \<Rightarrow> row_id \<Rightarrow> (database, unit) prog" where
  "Stats_set_last_births v = sql_update ''Stats'' ''last_births'' (bind_int v)"

definition Stats_last_sons :: "row_id \<Rightarrow> (database, uint32) prog" where
  "Stats_last_sons i = column_int ''Stats'' ''last_sons'' i"

definition Stats_set_last_sons :: "uint32 \<Rightarrow> row_id \<Rightarrow> (database, unit) prog" where
  "Stats_set_last_sons v = sql_update ''Stats'' ''last_sons'' (bind_int v)"

definition Stats_last_deaths :: "row_id \<Rightarrow> (database, uint32) prog" where
  "Stats_last_deaths i = column_int ''Stats'' ''last_deaths'' i"

definition Stats_set_last_deaths :: "uint32 \<Rightarrow> row_id \<Rightarrow> (database, unit) prog" where
  "Stats_set_last_deaths v = sql_update ''Stats'' ''last_deaths'' (bind_int v)"

definition Stats_last_kills :: "row_id \<Rightarrow> (database, uint32) prog" where
  "Stats_last_kills i = column_int ''Stats'' ''last_kills'' i"

definition Stats_set_last_kills :: "uint32 \<Rightarrow> row_id \<Rightarrow> (database, unit) prog" where
  "Stats_set_last_kills v = sql_update ''Stats'' ''last_kills'' (bind_int v)"

definition Stats_last_mutations :: "row_id \<Rightarrow> (database, uint32) prog" where
  "Stats_last_mutations i = column_int ''Stats'' ''last_mutations'' i"

definition Stats_set_last_mutations :: "uint32 \<Rightarrow> row_id \<Rightarrow> (database, unit) prog" where
  "Stats_set_last_mutations v = sql_update ''Stats'' ''last_mutations'' (bind_int v)"


text \<open>
  \<open>Stats::insert(db)\<close>.  \<open>total\<close> adds doubles, exactly while the sums stay below 2^53; the model adds
  integers.
\<close>

definition total :: "string \<Rightarrow> table \<Rightarrow> int" where
  "total c rows = (\<Sum>(_, r)\<leftarrow>rows. integer_of (col r c))"

definition with_father :: "tables \<Rightarrow> table \<Rightarrow> table" where
  "with_father db rows = filter (\<lambda>(_, r). list_ex (\<lambda>(i, b). col r ''bug_id'' = Integer i \<and>
     col b ''father_id'' \<noteq> Null) (db ''Bug'')) rows"

text \<open>The oldest ancestor of a bug, or the bug itself; and the number of its mutations.\<close>

definition family :: "row_id \<Rightarrow> database \<Rightarrow> (exn + row_id) option" where
  "family i db = map_option (\<lambda>r. attempt r (\<lambda>ids. Inr (if ids = [] then i else hd ids))) (Bug_ancestors i db)"

fun collect :: "('a \<Rightarrow> (exn + 'b) option) \<Rightarrow> 'a list \<Rightarrow> (exn + 'b list) option" where
  "collect f [] = Some (Inr [])"
| "collect f (x # xs) =
     (case f x of
        None \<Rightarrow> None
      | Some (Inl e) \<Rightarrow> Some (Inl e)
      | Some (Inr y) \<Rightarrow> map_option (\<lambda>r. attempt r (\<lambda>ys. Inr (y # ys))) (collect f xs))"

definition current_stats :: "database \<Rightarrow> row_id list \<Rightarrow> row_id list list \<Rightarrow> stats" where
  "current_stats s families mutations =
     (let db = db_tables s;
          time = integer_of (max_time db);
          alive = db ''AliveBug''; dead = db ''DeadBug''; earlier = db ''Stats''
      in \<lparr>st_time = word_of_int time,
          st_families = of_nat (length (remdups families)),
          st_alive = of_nat (length alive),
          st_eggs = of_nat (length (db ''Egg'')),
          st_food = of_nat (length (db ''Food'')),
          st_energy = word_of_int (total ''energy'' alive),
          st_mutations = (\<Sum>ms\<leftarrow>mutations. of_nat (length ms)),
          st_age = word_of_int (\<Sum>(_, r)\<leftarrow>alive. time - integer_of (col r ''birth'')),
          st_last_births = word_of_int (int (length alive) + int (length dead) - total ''last_births'' earlier),
          st_last_sons = word_of_int (int (length (with_father db alive)) +
            int (length (with_father db dead)) - total ''last_sons'' earlier),
          st_last_deaths = word_of_int (int (length dead) - total ''last_deaths'' earlier),
          st_last_kills = word_of_int (int (length (filter (\<lambda>(_, r). col r ''killer_id'' \<noteq> Null) dead)) -
            total ''last_kills'' earlier),
          st_last_mutations = word_of_int (int (length (db ''Mutation'')) -
            total ''last_mutations'' earlier)\<rparr>)"

definition Stats_insert_current :: "database \<Rightarrow> ((exn + row_id) \<times> database) option" where
  "Stats_insert_current s =
     (case collect (\<lambda>i. family i s) (alive_bugs s) of
        None \<Rightarrow> None
      | Some (Inl x) \<Rightarrow> Some (Inl x, s)
      | Some (Inr families) \<Rightarrow>
          (case collect (\<lambda>i. Bug_all_mutations i s) (alive_bugs s) of
             None \<Rightarrow> None
           | Some (Inl x) \<Rightarrow> Some (Inl x, s)
           | Some (Inr mutations) \<Rightarrow> Some (Stats_insert (current_stats s families mutations) s)))"

end
