(* ===== verification/Simulation.thy ===== *)
theory Simulation
  imports World DBMemory Mutation Db_World Db_Spawn Db_Stats Transaction Interrupts
begin

text \<open>
  The state of a simulation, \<open>SimpleWorld\<close> of \<open>simpleworld/simpleworld.hpp\<close>, and the objects of
  \<open>egg.cpp\<close>, \<open>food.cpp\<close> and \<open>bug.cpp\<close>: the elements that live in the heap, on the grid and in the
  database.
\<close>

section \<open>The platform\<close>

text \<open>
  What the program takes from its environment: the random numbers, the order in which arguments are
  evaluated, the contents of uninitialised words, mutations and arrays, and two conversions of
  doubles: \<open>int(1 / p)\<close>, with \<open>None\<close> for \<open>p == 0\<close>, and the \<open>Energy\<close> in \<open>energy * multiplier\<close>, which
  has no meaning when it does not fit.  The words of the database are little-endian, as the host is.
\<close>

record platform =
  pf_rand_max :: nat
  pf_rand :: "nat \<Rightarrow> nat"
  pf_left :: bool
  pf_word :: cpu_word
  pf_mutation :: "mutation_type \<Rightarrow> address \<Rightarrow> mutation"
  pf_array :: "nat \<Rightarrow> uint8 list"
  pf_one_in :: "uint64 \<Rightarrow> nat option"
  pf_scale :: "uint32 \<Rightarrow> uint64 \<Rightarrow> exn + uint32"

section \<open>Objects\<close>

type_synonym ptr = nat

text \<open>
  A bug is one object with the ids of its rows, the memories of its CPU, each with its blob, and the
  state of the CPU.
\<close>

record bug_object =
  bo_id :: row_id
  bo_world :: row_id
  bo_registers :: row_id
  bo_memory :: row_id
  bo_cpu :: cpu_state

datatype entity =
    Egg (entity_id: row_id) (entity_world: row_id)
  | Food (entity_id: row_id) (entity_world: row_id)
  | Bug (entity_bug: bug_object)

text \<open>
  The database connection with the row of the current environment, the grid, the heap with the next
  free address, the lists of pointers, the spawns and resources, and the random numbers used.
\<close>

record sim =
  sim_db :: database
  sim_env :: row_id
  sim_world :: world
  sim_heap :: "ptr \<rightharpoonup> entity"
  sim_next :: ptr
  sim_foods :: "ptr list"
  sim_eggs :: "ptr list"
  sim_bugs :: "ptr list"
  sim_spawns :: "row_id list"
  sim_resources :: "row_id list"
  sim_rand :: nat

section \<open>Programs on the parts of the state\<close>

definition on_database :: "(database, 'a) prog \<Rightarrow> (sim, 'a) prog" where
  "on_database p = (\<lambda>s. case p (sim_db s) of (r, db) \<Rightarrow> (r, s\<lparr>sim_db := db\<rparr>))"

definition from_database :: "(database \<Rightarrow> exn + 'a) \<Rightarrow> (sim, 'a) prog" where
  "from_database f = reading (\<lambda>s. f (sim_db s))"

definition on_world :: "(world \<Rightarrow> exn + world) \<Rightarrow> (sim, unit) prog" where
  "on_world f = updating (\<lambda>s. attempt (f (sim_world s)) (\<lambda>w. Inr (s\<lparr>sim_world := w\<rparr>)))"

definition from_world :: "(world \<Rightarrow> exn + 'a) \<Rightarrow> (sim, 'a) prog" where
  "from_world f = reading (\<lambda>s. f (sim_world s))"

definition env :: "(row_id \<Rightarrow> (database, 'a) prog) \<Rightarrow> (sim, 'a) prog" where
  "env getter = (\<lambda>s. on_database (getter (sim_env s)) s)"

text \<open>Following a pointer: a deleted object, or one of another class, gives no meaning.\<close>

definition as_egg :: "entity option \<Rightarrow> exn + row_id \<times> row_id" where
  "as_egg e = (case e of Some (Egg i w) \<Rightarrow> Inr (i, w) | _ \<Rightarrow> Inl UndefinedBehaviour)"

definition as_food :: "entity option \<Rightarrow> exn + row_id \<times> row_id" where
  "as_food e = (case e of Some (Food i w) \<Rightarrow> Inr (i, w) | _ \<Rightarrow> Inl UndefinedBehaviour)"

definition as_bug :: "entity option \<Rightarrow> exn + bug_object" where
  "as_bug e = (case e of Some (Bug b) \<Rightarrow> Inr b | _ \<Rightarrow> Inl UndefinedBehaviour)"

definition the_egg :: "ptr \<Rightarrow> (sim, row_id \<times> row_id) prog" where
  "the_egg p = reading (\<lambda>s. as_egg (sim_heap s p))"

definition the_food :: "ptr \<Rightarrow> (sim, row_id \<times> row_id) prog" where
  "the_food p = reading (\<lambda>s. as_food (sim_heap s p))"

definition the_bug :: "ptr \<Rightarrow> (sim, bug_object) prog" where
  "the_bug p = reading (\<lambda>s. as_bug (sim_heap s p))"

definition new_object :: "entity \<Rightarrow> (sim, ptr) prog" where
  "new_object e = (\<lambda>s. (Inr (sim_next s),
     s\<lparr>sim_heap := (sim_heap s)(sim_next s \<mapsto> e), sim_next := sim_next s + 1\<rparr>))"

definition delete_object :: "ptr \<Rightarrow> (sim, unit) prog" where
  "delete_object p = updating (\<lambda>s. Inr (s\<lparr>sim_heap := (sim_heap s)(p := None)\<rparr>))"

text \<open>The lists of the elements: \<open>push_back\<close> and \<open>remove\<close>.\<close>

definition push_food :: "ptr \<Rightarrow> (sim, unit) prog" where
  "push_food p = updating (\<lambda>s. Inr (s\<lparr>sim_foods := sim_foods s @ [p]\<rparr>))"

definition push_egg :: "ptr \<Rightarrow> (sim, unit) prog" where
  "push_egg p = updating (\<lambda>s. Inr (s\<lparr>sim_eggs := sim_eggs s @ [p]\<rparr>))"

definition push_bug :: "ptr \<Rightarrow> (sim, unit) prog" where
  "push_bug p = updating (\<lambda>s. Inr (s\<lparr>sim_bugs := sim_bugs s @ [p]\<rparr>))"

definition drop_food :: "ptr \<Rightarrow> (sim, unit) prog" where
  "drop_food p = updating (\<lambda>s. Inr (s\<lparr>sim_foods := removeAll p (sim_foods s)\<rparr>))"

definition drop_egg :: "ptr \<Rightarrow> (sim, unit) prog" where
  "drop_egg p = updating (\<lambda>s. Inr (s\<lparr>sim_eggs := removeAll p (sim_eggs s)\<rparr>))"

definition drop_bug :: "ptr \<Rightarrow> (sim, unit) prog" where
  "drop_bug p = updating (\<lambda>s. Inr (s\<lparr>sim_bugs := removeAll p (sim_bugs s)\<rparr>))"

section \<open>The constructors of the elements\<close>

definition food_new :: "row_id \<Rightarrow> (sim, ptr) prog" where
  "food_new i =
     andthen (on_database (Food_world_id i)) (\<lambda>world_id. new_object (Food i world_id))"

definition egg_new :: "row_id \<Rightarrow> (sim, ptr) prog" where
  "egg_new i =
     andthen (on_database (Egg_world_id i)) (\<lambda>world_id. new_object (Egg i world_id))"

text \<open>A \<open>DBMemory\<close> over a blob.\<close>

definition load_memory :: "blob \<Rightarrow> (sim, memory) prog" where
  "load_memory b = from_database (\<lambda>db.
     case dbmemory_new b db of (Inl x, _) \<Rightarrow> Inl x | (Inr _, d) \<Rightarrow> Inr (dm_memory d))"

definition bug_new :: "row_id \<Rightarrow> (sim, ptr) prog" where
  "bug_new i =
     andthen (on_database (AliveBug_world_id i)) (\<lambda>world_id.
     andthen (on_database (AliveBug_registers_id i)) (\<lambda>registers_id.
     andthen (load_memory (registers_data registers_id)) (\<lambda>regs.
     andthen (on_database (AliveBug_memory_id i)) (\<lambda>memory_id.
     andthen (load_memory (code_data memory_id)) (\<lambda>mem.
     new_object (Bug \<lparr>bo_id = i, bo_world = world_id, bo_registers = registers_id,
       bo_memory = memory_id, bo_cpu = cpu_new regs mem\<rparr>))))))"

section \<open>Null columns\<close>

definition egg_is_null :: "ptr \<Rightarrow> string \<Rightarrow> (sim, bool) prog" where
  "egg_is_null p colname =
     andthen (the_egg p) (\<lambda>(i, world_id).
     if colname = ''father_id'' then on_database (is_null ''Bug'' colname i)
     else if colname = ''orientation'' then on_database (is_null ''World'' colname world_id)
     else ret False)"

definition egg_set_null :: "ptr \<Rightarrow> string \<Rightarrow> (sim, unit) prog" where
  "egg_set_null p colname =
     andthen (the_egg p) (\<lambda>(i, world_id).
     if colname = ''father_id'' then on_database (set_null ''Bug'' colname i)
     else if colname = ''orientation'' then on_database (set_null ''World'' colname world_id)
     else ret ())"

definition food_is_null :: "ptr \<Rightarrow> string \<Rightarrow> (sim, bool) prog" where
  "food_is_null p colname =
     andthen (the_food p) (\<lambda>(_, world_id).
     if colname = ''orientation'' then on_database (is_null ''World'' colname world_id)
     else ret False)"

definition food_set_null :: "ptr \<Rightarrow> string \<Rightarrow> (sim, unit) prog" where
  "food_set_null p colname =
     andthen (the_food p) (\<lambda>(_, world_id).
     if colname = ''orientation'' then on_database (set_null ''World'' colname world_id)
     else ret ())"

definition bug_is_null :: "ptr \<Rightarrow> string \<Rightarrow> (sim, bool) prog" where
  "bug_is_null p colname =
     andthen (the_bug p) (\<lambda>b.
     if colname = ''father_id'' then on_database (is_null ''Bug'' colname (bo_id b))
     else if colname = ''time_last_action'' \<or> colname = ''action_time''
     then on_database (is_null ''AliveBug'' colname (bo_id b))
     else if colname = ''orientation'' then on_database (is_null ''World'' colname (bo_world b))
     else ret False)"

definition bug_set_null :: "ptr \<Rightarrow> string \<Rightarrow> (sim, unit) prog" where
  "bug_set_null p colname =
     andthen (the_bug p) (\<lambda>b.
     if colname = ''father_id'' then on_database (set_null ''Bug'' colname (bo_id b))
     else if colname = ''time_last_action'' \<or> colname = ''action_time''
     then on_database (set_null ''AliveBug'' colname (bo_id b))
     else if colname = ''orientation'' then on_database (set_null ''World'' colname (bo_world b))
     else ret ())"

text \<open>The setters of the ids of a row and of the world id; the object of the world keeps its old id.\<close>

definition bug_world_id :: "ptr \<Rightarrow> (sim, row_id) prog" where
  "bug_world_id p = andthen (the_bug p) (\<lambda>b. on_database (AliveBug_world_id (bo_id b)))"

definition bug_set_world_id :: "row_id \<Rightarrow> ptr \<Rightarrow> (sim, unit) prog" where
  "bug_set_world_id w p =
     andthen (the_bug p) (\<lambda>b.
     andthen (on_database (AliveBug_set_world_id w (bo_id b))) (\<lambda>_.
     updating (\<lambda>s. Inr (s\<lparr>sim_heap := (sim_heap s)(p \<mapsto> Bug (b\<lparr>bo_world := w\<rparr>))\<rparr>))))"

end
