(* ===== verification/Bug_CPU.thy ===== *)
theory Bug_CPU
  imports Simulation ISA_Table
begin

text \<open>
  \<open>simpleworld/cpu.cpp\<close>, \<open>isa.cpp\<close> and the events of \<open>bug.cpp\<close>: the CPU of a bug, which belongs to an
  object of the simulation, acts on it, and is interrupted by it.
\<close>

section \<open>A CPU in its simulation\<close>

text \<open>The running CPU of the bug \<open>bc_bug\<close>, with the simulation around it.\<close>

record bug_cpu = cpu_state +
  bc_bug :: ptr
  bc_sim :: sim

text \<open>
  The memories of a bug are \<open>DBMemory\<close>s, whose stores go to the blobs as well
  (\<open>dbmemory_refines_memory\<close>).  No statement of the program reads these blobs while the CPU runs by
  itself, so the model brings them up to date when control passes from the CPU to the simulation: a
  memory the CPU has changed since it was entered is stored then.
\<close>

definition store_changes :: "blob \<Rightarrow> memory \<Rightarrow> memory \<Rightarrow> database \<Rightarrow> database" where
  "store_changes b old new db = (if new = old then db else put_bytes b (mem_bytes new) db)"

definition leave_cpu :: "bug_cpu \<Rightarrow> sim" where
  "leave_cpu c =
     (case sim_heap (bc_sim c) (bc_bug c) of
        Some (Bug b) \<Rightarrow>
          (bc_sim c)
          \<lparr>sim_heap := (sim_heap (bc_sim c))(bc_bug c \<mapsto> Bug (b\<lparr>bo_cpu := cpu_state.truncate c\<rparr>)),
           sim_db :=
             store_changes (registers_data (bo_registers b)) (cpu_registers (bo_cpu b)) (cpu_registers c)
               (store_changes (code_data (bo_memory b)) (cpu_memory (bo_cpu b)) (cpu_memory c)
                 (sim_db (bc_sim c)))\<rparr>
      | _ \<Rightarrow> bc_sim c)"

definition enter_cpu :: "cpu_state \<Rightarrow> ptr \<Rightarrow> sim \<Rightarrow> bug_cpu" where
  "enter_cpu c p s =
     \<lparr>cpu_registers = cpu_registers c, cpu_memory = cpu_memory c, cpu_running = cpu_running c,
      bc_bug = p, bc_sim = s\<rparr>"

text \<open>Running a program on the CPU of a bug, and calling the simulation from there.\<close>

definition on_cpu :: "ptr \<Rightarrow> (bug_cpu, 'a) prog \<Rightarrow> (sim, 'a) prog" where
  "on_cpu p prog = (\<lambda>s.
     case as_bug (sim_heap s p) of
       Inl x \<Rightarrow> (Inl x, s)
     | Inr b \<Rightarrow> (case prog (enter_cpu (bo_cpu b) p s) of (r, c) \<Rightarrow> (r, leave_cpu c)))"

definition in_sim :: "(ptr \<Rightarrow> (sim, 'a) prog) \<Rightarrow> (bug_cpu, 'a) prog" where
  "in_sim p = (\<lambda>c.
     case p (bc_bug c) (leave_cpu c) of
       (r, s) \<Rightarrow>
         (r, case sim_heap s (bc_bug c) of
               Some (Bug b) \<Rightarrow> enter_cpu (bo_cpu b) (bc_bug c) s
             | _ \<Rightarrow> c\<lparr>bc_sim := s\<rparr>))"

section \<open>The instruction set of the simulation\<close>

abbreviation INTERRUPT_WORLDACTION :: uint8 where "INTERRUPT_WORLDACTION \<equiv> 5"
abbreviation INTERRUPT_WORLDEVENT :: uint8 where "INTERRUPT_WORLDEVENT \<equiv> 6"

definition world_interrupts :: "exn + 'z cpu_isa" where
  "world_interrupts =
     attempt isa_new (\<lambda>t.
     attempt (add_interrupt' t INTERRUPT_WORLDACTION ''InvalidWorldCommand'' True) (\<lambda>t.
     add_interrupt' t INTERRUPT_WORLDEVENT ''WorldEvent'' False))"

definition world_isa_new :: "'z operation \<Rightarrow> exn + 'z cpu_isa" where
  "world_isa_new world_op =
     attempt world_interrupts (\<lambda>t. add_instruction' t 0x58 ''world'' 0 True world_op)"

text \<open>
  The global variable \<open>isa\<close>.  An interrupt looks up its description only: \<open>interrupts_isa\<close> is the
  table without the operation, which itself throws interrupts.
\<close>

definition world_isa :: "'z operation \<Rightarrow> 'z cpu_isa" where
  "world_isa world_op = (case world_isa_new world_op of Inl _ \<Rightarrow> isa_empty | Inr t \<Rightarrow> t)"

definition interrupts_isa :: "'z cpu_isa" where
  "interrupts_isa = (case world_interrupts of Inl _ \<Rightarrow> isa_empty | Inr t \<Rightarrow> t)"

section \<open>Interrupts and cycles\<close>

abbreviation ActionSuccess :: cpu_word where "ActionSuccess \<equiv> 0"
abbreviation ActionFailure :: cpu_word where "ActionFailure \<equiv> 1"
abbreviation ActionInterrupted :: cpu_word where "ActionInterrupted \<equiv> 2"

abbreviation EventAttack :: cpu_word where "EventAttack \<equiv> 0"
abbreviation EventMutation :: cpu_word where "EventMutation \<equiv> 1"

text \<open>\<open>CPU::interrupt\<close>: an enabled interrupt takes the place of the action in progress.\<close>

definition bug_interrupt :: "uint8 \<Rightarrow> cpu_word \<Rightarrow> cpu_word \<Rightarrow> (bug_cpu, unit) prog" where
  "bug_interrupt code g1 g2 =
     andthen (interrupt_enabled LittleEndian code) (\<lambda>enabled.
     andthen (if enabled then in_sim (\<lambda>p. bug_is_null p ''action_time'') else ret True) (\<lambda>idle.
     if enabled \<and> \<not> idle
     then andthen (in_sim (\<lambda>p. bug_set_null p ''action_time'')) (\<lambda>_.
          set_reg LittleEndian REGISTER_G0 ActionInterrupted True)
     else cpu_interrupt LittleEndian interrupts_isa code g1 g2))"

definition bug_class :: "unit bug_cpu_ext cpu_class" where
  "bug_class = \<lparr>host = LittleEndian, vinterrupt = bug_interrupt\<rparr>"

text \<open>\<open>CPU::next\<close>, with the virtual \<open>interrupt\<close>.\<close>

definition bug_next :: "unit bug_cpu_ext operation \<Rightarrow> (bug_cpu, unit) prog" where
  "bug_next world_op =
     try_catch (cpu_next bug_class (world_isa world_op)) (\<lambda>x.
       if x = ActionError
       then Some
         (andthen (get_reg LittleEndian REGISTER_PC True) (\<lambda>addr.
          andthen (get_mem LittleEndian addr False) (\<lambda>w.
          andthen (reading (\<lambda>_. decode LittleEndian uninitialised w)) (\<lambda>inst.
          bug_interrupt INTERRUPT_WORLDACTION addr (ucast (i_data inst))))))
       else None)"

section \<open>Events\<close>

definition bug_attacked :: "ptr \<Rightarrow> (sim, unit) prog" where
  "bug_attacked p = on_cpu p (bug_interrupt INTERRUPT_WORLDEVENT EventAttack 0)"

text \<open>\<open>mem.update()\<close> reads the changed code back.\<close>

definition reload_code :: "ptr \<Rightarrow> (sim, unit) prog" where
  "reload_code p =
     andthen (the_bug p) (\<lambda>b.
     andthen (load_memory (code_data (bo_memory b))) (\<lambda>m.
     updating (\<lambda>s. Inr (s\<lparr>sim_heap := (sim_heap s)
       (p \<mapsto> Bug (b\<lparr>bo_cpu := (bo_cpu b)\<lparr>cpu_memory := m\<rparr>\<rparr>))\<rparr>))))"

definition bug_mutated :: "ptr \<Rightarrow> (sim, unit) prog" where
  "bug_mutated p =
     andthen (reload_code p) (\<lambda>_.
     on_cpu p (bug_interrupt INTERRUPT_WORLDEVENT EventMutation 0))"

definition bug_timer_interrupt :: "ptr \<Rightarrow> (sim, unit) prog" where
  "bug_timer_interrupt p = on_cpu p (timer_interrupt bug_class)"

end
