(* ===== verification/Simple_World.thy ===== *)
theory Simple_World
  imports Bug_CPU
begin

text \<open>
  \<open>simpleworld/simpleworld.cpp\<close>, the actions of the bugs and the life and death of the elements.
  An \<open>assert\<close> of the code says that an element on the grid is an egg, a bug or food; it is what the
  constructors of the elements give.
\<close>

section \<open>Energy\<close>

definition sw_substract_energy_egg :: "ptr \<Rightarrow> uint32 \<Rightarrow> (sim, unit) prog" where
  "sw_substract_energy_egg egg energy =
     andthen (the_egg egg) (\<lambda>(i, _).
     andthen (on_database (Egg_energy i)) (\<lambda>old.
     if old \<le> energy then throw BugDeath
     else andthen (on_database (Egg_energy i)) (\<lambda>old. on_database (Egg_set_energy (old - energy) i))))"

definition sw_substract_energy :: "ptr \<Rightarrow> uint32 \<Rightarrow> (sim, unit) prog" where
  "sw_substract_energy bug energy =
     andthen (the_bug bug) (\<lambda>b.
     andthen (on_database (AliveBug_energy (bo_id b))) (\<lambda>old.
     if old \<le> energy then throw BugDeath
     else andthen (on_database (AliveBug_energy (bo_id b))) (\<lambda>old.
       on_database (AliveBug_set_energy (old - energy) (bo_id b)))))"

section \<open>Birth and death\<close>

text \<open>The position of a row of \<open>World\<close>, and the cell of an element: \<open>Position(x, y)\<close>.\<close>

definition row_position :: "row_id \<Rightarrow> (sim, position) prog" where
  "row_position world_id =
     andthen (on_database (World_position_x world_id)) (\<lambda>x.
     andthen (on_database (World_position_y world_id)) (\<lambda>y. ret \<lparr>pos_x = x, pos_y = y\<rparr>))"

definition put_element :: "ptr \<Rightarrow> element_type \<Rightarrow> position \<Rightarrow> (sim, unit) prog" where
  "put_element p type position = on_world (\<lambda>w. world_add w (Some (element_new p type)) position)"

definition clear_cell :: "position \<Rightarrow> (sim, unit) prog" where
  "clear_cell position = on_world (\<lambda>w. world_remove w position)"

definition sw_birth :: "ptr \<Rightarrow> (sim, unit) prog" where
  "sw_birth egg =
     andthen (the_egg egg) (\<lambda>(egg_id, _).
     andthen (env Environment_time) (\<lambda>now.
     andthen (on_database (AliveBug_insert_egg egg_id now)) (\<lambda>i.
     andthen (bug_new i) (\<lambda>bug.
     andthen (the_bug bug) (\<lambda>b.
     andthen (row_position (bo_world b)) (\<lambda>position.
     andthen (clear_cell position) (\<lambda>_.
     andthen (put_element bug ElementBug position) (\<lambda>_.
     andthen (push_bug bug) (\<lambda>_.
     andthen (drop_egg egg) (\<lambda>_.
     delete_object egg))))))))))"

text \<open>\<open>db::Code(this, memory_id).data().size()\<close>.\<close>

definition code_size :: "row_id \<Rightarrow> (sim, uint32) prog" where
  "code_size memory_id = from_database (blob_size (code_data memory_id))"

text \<open>
  The common part of the four functions \<open>kill\<close>: the food takes the place of the dead, whose rows the
  program \<open>bury\<close> changes.
\<close>

definition become_food :: "uint32 \<Rightarrow> row_id \<Rightarrow> uint32 \<Rightarrow> (database, row_id) prog \<Rightarrow> (sim, unit) prog" where
  "become_food now world_id sz bury =
     andthen (on_database (Food_insert now world_id sz)) (\<lambda>i.
     andthen (on_database bury) (\<lambda>_.
     andthen (food_new i) (\<lambda>food.
     andthen (the_food food) (\<lambda>(_, food_world).
     andthen (row_position food_world) (\<lambda>position.
     andthen (push_food food) (\<lambda>_.
     andthen (clear_cell position) (\<lambda>_.
     put_element food ElementFood position)))))))"

definition kill_egg_with :: "(row_id \<Rightarrow> uint32 \<Rightarrow> (database, row_id) prog) \<Rightarrow> ptr \<Rightarrow> (sim, unit) prog" where
  "kill_egg_with bury egg =
     andthen (env Environment_time) (\<lambda>now.
     andthen (the_egg egg) (\<lambda>(i, _).
     andthen (on_database (Egg_world_id i)) (\<lambda>world_id.
     andthen (on_database (Egg_memory_id i)) (\<lambda>memory_id.
     andthen (code_size memory_id) (\<lambda>sz.
     andthen (become_food now world_id sz (bury i now)) (\<lambda>_.
     andthen (drop_egg egg) (\<lambda>_.
     delete_object egg)))))))"

definition kill_bug_with :: "(row_id \<Rightarrow> uint32 \<Rightarrow> (database, row_id) prog) \<Rightarrow> ptr \<Rightarrow> (sim, unit) prog" where
  "kill_bug_with bury bug =
     andthen (env Environment_time) (\<lambda>now.
     andthen (the_bug bug) (\<lambda>b.
     andthen (on_database (AliveBug_world_id (bo_id b))) (\<lambda>world_id.
     andthen (on_database (AliveBug_memory_id (bo_id b))) (\<lambda>memory_id.
     andthen (code_size memory_id) (\<lambda>sz.
     andthen (become_food now world_id sz (bury (bo_id b) now)) (\<lambda>_.
     andthen (drop_bug bug) (\<lambda>_.
     delete_object bug)))))))"

definition sw_kill_egg :: "ptr \<Rightarrow> (sim, unit) prog" where
  "sw_kill_egg = kill_egg_with DeadBug_insert_egg"

definition sw_kill_egg_by :: "row_id \<Rightarrow> ptr \<Rightarrow> (sim, unit) prog" where
  "sw_kill_egg_by killer_id = kill_egg_with (\<lambda>i now. DeadBug_insert_egg_killed i now killer_id)"

definition sw_kill :: "ptr \<Rightarrow> (sim, unit) prog" where
  "sw_kill = kill_bug_with DeadBug_insert_bug"

definition sw_kill_by :: "row_id \<Rightarrow> ptr \<Rightarrow> (sim, unit) prog" where
  "sw_kill_by killer_id = kill_bug_with (\<lambda>i now. DeadBug_insert_bug_killed i now killer_id)"

section \<open>Actions\<close>

text \<open>Every action begins with its price.\<close>

definition pay :: "(row_id \<Rightarrow> (database, uint32) prog) \<Rightarrow> ptr \<Rightarrow> (sim, unit) prog" where
  "pay price bug = andthen (env price) (sw_substract_energy bug)"

definition sw_nothing :: "ptr \<Rightarrow> (sim, unit) prog" where
  "sw_nothing bug = pay Environment_energy_nothing bug"

definition sw_front :: "ptr \<Rightarrow> (sim, position) prog" where
  "sw_front bug =
     andthen (the_bug bug) (\<lambda>b.
     andthen (row_position (bo_world b)) (\<lambda>position.
     andthen (on_database (World_orientation (bo_world b))) (\<lambda>orientation.
     from_world (\<lambda>w. move_position position orientation MoveForward (w_size w)))))"

datatype info = InfoID | InfoSize | InfoEnergy | InfoPosition | InfoOrientation

text \<open>The result and, for positions, the word \<open>*ypos\<close>.\<close>

definition sw_myself :: "ptr \<Rightarrow> info \<Rightarrow> (sim, cpu_word \<times> cpu_word option) prog" where
  "sw_myself bug info =
     andthen (pay Environment_energy_myself bug) (\<lambda>_.
     andthen (the_bug bug) (\<lambda>b.
     case info of
       InfoID \<Rightarrow> ret (word_of_int (bo_id b), None)
     | InfoSize \<Rightarrow>
         andthen (on_database (AliveBug_memory_id (bo_id b))) (\<lambda>memory_id.
         andthen (code_size memory_id) (\<lambda>n. ret (n, None)))
     | InfoEnergy \<Rightarrow> andthen (on_database (AliveBug_energy (bo_id b))) (\<lambda>n. ret (n, None))
     | InfoPosition \<Rightarrow>
         andthen (on_database (World_position_y (bo_world b))) (\<lambda>y.
         andthen (on_database (World_position_x (bo_world b))) (\<lambda>x. ret (ucast x, Some (ucast y))))
     | InfoOrientation \<Rightarrow>
         andthen (on_database (World_orientation (bo_world b))) (\<lambda>n. ret (n, None))))"

definition sw_detect :: "ptr \<Rightarrow> (sim, element_type) prog" where
  "sw_detect bug =
     andthen (pay Environment_energy_detect bug) (\<lambda>_.
     andthen (sw_front bug) (\<lambda>front.
     try_catch (from_world (\<lambda>w. attempt (world_get w front) (\<lambda>e. Inr (elem_type e)))) (\<lambda>x.
       if is_WorldError x then Some (ret ElementNothing) else None)))"

text \<open>The element in front of the bug; an empty cell is an \<open>ActionError\<close>.\<close>

definition target_at :: "position \<Rightarrow> (sim, element) prog" where
  "target_at front =
     try_catch (from_world (\<lambda>w. world_get w front)) (\<lambda>x.
       if is_WorldError x then Some (throw ActionError) else None)"

definition sw_information :: "ptr \<Rightarrow> info \<Rightarrow> (sim, cpu_word \<times> cpu_word option) prog" where
  "sw_information bug info =
     andthen (pay Environment_energy_info bug) (\<lambda>_.
     andthen (sw_front bug) (\<lambda>front.
     andthen (target_at front) (\<lambda>target.
     let p = elem_id target; type = elem_type target
     in case info of
       InfoID \<Rightarrow>
         if type = ElementEgg then andthen (the_egg p) (\<lambda>(i, _). ret (word_of_int i, None))
         else if type = ElementBug then andthen (the_bug p) (\<lambda>b. ret (word_of_int (bo_id b), None))
         else throw ActionError
     | InfoSize \<Rightarrow>
         if type = ElementFood
         then andthen (the_food p) (\<lambda>(i, _). andthen (on_database (Food_size i)) (\<lambda>n. ret (n, None)))
         else if type = ElementEgg
         then andthen (the_egg p) (\<lambda>(i, _). andthen (on_database (Egg_memory_id i)) (\<lambda>memory_id.
              andthen (code_size memory_id) (\<lambda>n. ret (n, None))))
         else andthen (the_bug p) (\<lambda>b. andthen (on_database (AliveBug_memory_id (bo_id b))) (\<lambda>memory_id.
              andthen (code_size memory_id) (\<lambda>n. ret (n, None))))
     | InfoEnergy \<Rightarrow>
         if type = ElementEgg
         then andthen (the_egg p) (\<lambda>(i, _). andthen (on_database (Egg_energy i)) (\<lambda>n. ret (n, None)))
         else if type = ElementBug
         then andthen (the_bug p) (\<lambda>b. andthen (on_database (AliveBug_energy (bo_id b))) (\<lambda>n. ret (n, None)))
         else throw ActionError
     | InfoPosition \<Rightarrow> ret (ucast (pos_x front), Some (ucast (pos_y front)))
     | InfoOrientation \<Rightarrow>
         if type = ElementEgg
         then andthen (the_egg p) (\<lambda>(_, world_id).
              andthen (on_database (World_orientation world_id)) (\<lambda>n. ret (n, None)))
         else if type = ElementBug
         then andthen (the_bug p) (\<lambda>b.
              andthen (on_database (World_orientation (bo_world b))) (\<lambda>n. ret (n, None)))
         else throw ActionError)))"

text \<open>\<open>catch (const Exception& e) { throw ActionError }\<close>.\<close>

definition as_action_error :: "(sim, 'a) prog \<Rightarrow> (sim, 'a) prog" where
  "as_action_error p = try_catch p (\<lambda>x. if is_Exception x then Some (throw ActionError) else None)"

text \<open>The argument \<open>movement\<close> is not used.\<close>

definition sw_move :: "ptr \<Rightarrow> movement \<Rightarrow> (sim, unit) prog" where
  "sw_move bug movement =
     andthen (pay Environment_energy_move bug) (\<lambda>_.
     as_action_error
       (andthen (the_bug bug) (\<lambda>b.
        andthen (row_position (bo_world b)) (\<lambda>current.
        andthen (sw_front bug) (\<lambda>front.
        andthen (on_world (\<lambda>w. world_move w current front)) (\<lambda>_.
        if pos_x current \<noteq> pos_x front
        then on_database (World_set_position_x (pos_x front) (bo_world b))
        else on_database (World_set_position_y (pos_y front) (bo_world b))))))))"

definition sw_turn :: "ptr \<Rightarrow> turn_side \<Rightarrow> (sim, unit) prog" where
  "sw_turn bug side =
     andthen (pay Environment_energy_turn bug) (\<lambda>_.
     as_action_error
       (andthen (the_bug bug) (\<lambda>b.
        andthen (on_database (World_orientation (bo_world b))) (\<lambda>old.
        andthen (reading (\<lambda>_. turn old side)) (\<lambda>new.
        on_database (World_set_orientation new (bo_world b)))))))"

text \<open>
  The damage \<open>energy * attack_multiplier()\<close>.  Once the target is hit the attacker pays, unless an
  exception the handlers do not catch has left the function.
\<close>

definition damage :: "platform \<Rightarrow> uint32 \<Rightarrow> (sim, uint32) prog" where
  "damage pf energy =
     andthen (env Environment_attack_multiplier) (\<lambda>m. reading (\<lambda>_. pf_scale pf energy m))"

definition sw_attack :: "platform \<Rightarrow> ptr \<Rightarrow> uint32 \<Rightarrow> (sim, unit) prog" where
  "sw_attack pf bug energy =
     andthen (pay Environment_energy_attack bug) (\<lambda>_.
     andthen (sw_front bug) (\<lambda>front.
     andthen (target_at front) (\<lambda>target.
     if elem_type target \<noteq> ElementBug \<and> elem_type target \<noteq> ElementEgg then throw ActionError
     else
       let p = elem_id target
       in andthen
            (if elem_type target = ElementBug
             then try_catch
                 (andthen (damage pf energy) (\<lambda>n.
                  andthen (sw_substract_energy p n) (\<lambda>_. bug_attacked p)))
                 (\<lambda>x. if x = BugDeath
                      then Some (andthen (the_bug bug) (\<lambda>b. sw_kill_by (bo_id b) p)) else None)
             else try_catch
                 (andthen (damage pf energy) (sw_substract_energy_egg p))
                 (\<lambda>x. if x = BugDeath
                      then Some (andthen (the_bug bug) (\<lambda>b. sw_kill_egg_by (bo_id b) p)) else None))
            (\<lambda>_. sw_substract_energy bug energy))))"

definition sw_eat :: "ptr \<Rightarrow> (sim, uint32) prog" where
  "sw_eat bug =
     andthen (pay Environment_energy_eat bug) (\<lambda>_.
     andthen (sw_front bug) (\<lambda>front.
     andthen (target_at front) (\<lambda>target.
     let p = elem_id target
     in if elem_type target = ElementFood
        then
          andthen (the_food p) (\<lambda>(food_id, _).
          andthen (on_database (Food_size food_id)) (\<lambda>energy.
          andthen (the_bug bug) (\<lambda>b.
          andthen (on_database (AliveBug_energy (bo_id b))) (\<lambda>old.
          andthen (on_database (AliveBug_set_energy (old + energy) (bo_id b))) (\<lambda>_.
          andthen (on_database (Food_world_id food_id)) (\<lambda>world_id.
          andthen (on_database (World_remove world_id)) (\<lambda>_.
          andthen (on_database (Food_remove food_id)) (\<lambda>_.
          andthen (clear_cell front) (\<lambda>_.
          andthen (drop_food p) (\<lambda>_.
          andthen (delete_object p) (\<lambda>_.
          ret energy)))))))))))
        else if elem_type target = ElementEgg
        then
          andthen (the_egg p) (\<lambda>(egg_id, _).
          andthen (on_database (Egg_memory_id egg_id)) (\<lambda>memory_id.
          andthen (code_size memory_id) (\<lambda>energy.
          andthen (the_bug bug) (\<lambda>b.
          andthen (sw_kill_egg_by (bo_id b) p) (\<lambda>_.
          ret energy)))))
        else throw ActionError)))"

section \<open>Eggs\<close>

text \<open>A call that may not return.\<close>

definition mutated_code :: "platform \<Rightarrow> row_id \<Rightarrow> (sim, row_id option \<times> mutation list) prog" where
  "mutated_code pf code_id =
     andthen (env Environment_mutations_probability) (\<lambda>probability. \<lambda>s.
     case mutate_new (pf_rand_max pf) (pf_rand pf) (pf_mutation pf) LittleEndian (pf_left pf) (pf_word pf)
            (pf_array pf) (pf_one_in pf probability) code_id (sim_db s) (sim_rand s) of
       None \<Rightarrow> (Inl NoReturn, s)
     | Some (r, db, n) \<Rightarrow> (r, s\<lparr>sim_db := db, sim_rand := n\<rparr>))"

text \<open>The code of a new egg: a mutated copy, recorded as such, or the row \<open>original\<close> copied.\<close>

definition egg_code :: "platform \<Rightarrow> row_id \<Rightarrow> row_id \<Rightarrow> row_id \<Rightarrow> (sim, row_id) prog" where
  "egg_code pf code_id original egg_id =
     andthen (mutated_code pf code_id) (\<lambda>(row, ms).
     case row of
       Some memory_id \<Rightarrow>
         andthen (env Environment_time) (\<lambda>now.
         andthen (on_database (update_mutations ms egg_id now)) (\<lambda>_. ret memory_id))
     | None \<Rightarrow> on_database (Code_copy original))"

text \<open>
  The local \<open>Transaction\<close> is never started: its destructor does nothing, and the savepoint it sets
  stays open when an exception leaves the function.
\<close>

definition on_savepoint :: "(transaction, unit) prog \<Rightarrow> (sim, unit) prog" where
  "on_savepoint p = (\<lambda>s.
     case p (transaction_new (sim_db s)) of (r, t) \<Rightarrow> (r, s\<lparr>sim_db := tx_db t\<rparr>))"

definition sw_egg :: "platform \<Rightarrow> ptr \<Rightarrow> uint32 \<Rightarrow> (sim, unit) prog" where
  "sw_egg pf bug energy =
     andthen (pay Environment_energy_egg bug) (\<lambda>_.
     if energy = 0 then throw ActionError
     else
       andthen (sw_front bug) (\<lambda>front.
       andthen (from_world (\<lambda>w. world_used w front)) (\<lambda>used.
       if used then throw ActionError
       else
         andthen (on_savepoint (transaction_savepoint ''egg;'')) (\<lambda>_.
         andthen (the_bug bug) (\<lambda>b.
         andthen (on_database (World_orientation (bo_world b))) (\<lambda>orientation.
         andthen (reading (\<lambda>_. turn orientation TurnLeft)) (\<lambda>side.
         andthen (reading (\<lambda>_. turn side TurnLeft)) (\<lambda>back.
         andthen (on_database (World_insert (pos_x front) (pos_y front) back)) (\<lambda>world_id.
         andthen (on_database (AliveBug_memory_id (bo_id b))) (\<lambda>bug_code.
         andthen (on_database (Code_copy bug_code)) (\<lambda>code_id.
         andthen (env Environment_time) (\<lambda>now.
         andthen (on_database (Bug_insert_son code_id now (bo_id b))) (\<lambda>egg_id.
         andthen (egg_code pf bug_code code_id egg_id) (\<lambda>memory_id.
         andthen (on_database (AliveBug_energy (bo_id b))) (\<lambda>bug_energy.
         andthen (on_database (Egg_insert egg_id world_id (min bug_energy energy) memory_id)) (\<lambda>_.
         andthen (egg_new egg_id) (\<lambda>egg.
         andthen
           (try_catch
              (andthen (on_database (Egg_memory_id egg_id)) (\<lambda>memory_id.
               andthen (code_size memory_id) (sw_substract_energy bug)))
              (\<lambda>x. if x = BugDeath
                   then Some (andthen (on_savepoint (transaction_rollback_to ''egg;'')) (\<lambda>_. throw BugDeath))
                   else None)) (\<lambda>_.
         andthen (push_egg egg) (\<lambda>_.
         andthen (the_egg egg) (\<lambda>(_, egg_world).
         andthen (row_position egg_world) (\<lambda>position.
         andthen (put_element egg ElementEgg position) (\<lambda>_.
         andthen (sw_substract_energy bug energy) (\<lambda>_.
         on_savepoint (transaction_release ''egg;''))))))))))))))))))))))))"

end
