(* ===== verification/World_Operation.thy ===== *)
theory World_Operation
  imports Simple_World
begin

text \<open>
  \<open>simpleworld/operations_world.cpp\<close>: the instruction \<open>world\<close>, with which a bug acts.  An action begins
  when it is first executed, blocks the bug for its time and takes effect when the time has come.
\<close>

section \<open>The actions\<close>

abbreviation ACTION_NOTHING :: uint16 where "ACTION_NOTHING \<equiv> 0x00"
abbreviation ACTION_MYSELFID :: uint16 where "ACTION_MYSELFID \<equiv> 0x10"
abbreviation ACTION_MYSELFSIZE :: uint16 where "ACTION_MYSELFSIZE \<equiv> 0x11"
abbreviation ACTION_MYSELFENERGY :: uint16 where "ACTION_MYSELFENERGY \<equiv> 0x12"
abbreviation ACTION_MYSELFPOSITION :: uint16 where "ACTION_MYSELFPOSITION \<equiv> 0x13"
abbreviation ACTION_MYSELFORIENTATION :: uint16 where "ACTION_MYSELFORIENTATION \<equiv> 0x14"
abbreviation ACTION_DETECT :: uint16 where "ACTION_DETECT \<equiv> 0x20"
abbreviation ACTION_INFOID :: uint16 where "ACTION_INFOID \<equiv> 0x30"
abbreviation ACTION_INFOSIZE :: uint16 where "ACTION_INFOSIZE \<equiv> 0x31"
abbreviation ACTION_INFOENERGY :: uint16 where "ACTION_INFOENERGY \<equiv> 0x32"
abbreviation ACTION_INFOPOSITION :: uint16 where "ACTION_INFOPOSITION \<equiv> 0x33"
abbreviation ACTION_INFOORIENTATION :: uint16 where "ACTION_INFOORIENTATION \<equiv> 0x34"
abbreviation ACTION_MOVEFORWARD :: uint16 where "ACTION_MOVEFORWARD \<equiv> 0x40"
abbreviation ACTION_MOVEBACKWARD :: uint16 where "ACTION_MOVEBACKWARD \<equiv> 0x41"
abbreviation ACTION_TURNLEFT :: uint16 where "ACTION_TURNLEFT \<equiv> 0x42"
abbreviation ACTION_TURNRIGHT :: uint16 where "ACTION_TURNRIGHT \<equiv> 0x43"
abbreviation ACTION_ATTACK :: uint16 where "ACTION_ATTACK \<equiv> 0x50"
abbreviation ACTION_EAT :: uint16 where "ACTION_EAT \<equiv> 0x60"
abbreviation ACTION_EGG :: uint16 where "ACTION_EGG \<equiv> 0x70"

text \<open>The column of the environment with the time of an action: the first \<open>switch\<close>.\<close>

definition action_duration :: "uint16 \<Rightarrow> (row_id \<Rightarrow> (database, uint32) prog) option" where
  "action_duration action =
     (if action = ACTION_NOTHING then Some Environment_time_nothing
      else if action \<in> {ACTION_MYSELFID, ACTION_MYSELFSIZE, ACTION_MYSELFENERGY, ACTION_MYSELFPOSITION,
          ACTION_MYSELFORIENTATION} then Some Environment_time_myself
      else if action = ACTION_DETECT then Some Environment_time_detect
      else if action \<in> {ACTION_INFOID, ACTION_INFOSIZE, ACTION_INFOENERGY, ACTION_INFOPOSITION,
          ACTION_INFOORIENTATION} then Some Environment_time_info
      else if action \<in> {ACTION_MOVEFORWARD, ACTION_MOVEBACKWARD} then Some Environment_time_move
      else if action \<in> {ACTION_TURNLEFT, ACTION_TURNRIGHT} then Some Environment_time_turn
      else if action = ACTION_ATTACK then Some Environment_time_attack
      else if action = ACTION_EAT then Some Environment_time_eat
      else if action = ACTION_EGG then Some Environment_time_egg
      else None)"

definition bug_action_time :: "ptr \<Rightarrow> (sim, uint32) prog" where
  "bug_action_time p = andthen (the_bug p) (\<lambda>b. on_database (AliveBug_action_time (bo_id b)))"

definition bug_set_action_time :: "uint32 \<Rightarrow> ptr \<Rightarrow> (sim, unit) prog" where
  "bug_set_action_time t p = andthen (the_bug p) (\<lambda>b. on_database (AliveBug_set_action_time t (bo_id b)))"

definition bug_set_time_last_action :: "uint32 \<Rightarrow> ptr \<Rightarrow> (sim, unit) prog" where
  "bug_set_time_last_action t p =
     andthen (the_bug p) (\<lambda>b. on_database (AliveBug_set_time_last_action t (bo_id b)))"

definition begin_action :: "uint16 \<Rightarrow> uint32 \<Rightarrow> (bug_cpu, unit) prog" where
  "begin_action action time =
     (case action_duration action of
        None \<Rightarrow> throw ActionError
      | Some duration \<Rightarrow>
          in_sim (\<lambda>p. andthen (env duration) (\<lambda>d. bug_set_action_time (time + d) p)))"

text \<open>The second \<open>switch\<close>: the effect of the action, and its results in the registers.\<close>

definition finish :: "(bug_cpu, unit) prog" where
  "finish = set_reg LittleEndian REGISTER_G0 ActionSuccess True"

definition answer :: "(ptr \<Rightarrow> (sim, cpu_word \<times> cpu_word option) prog) \<Rightarrow> (bug_cpu, unit) prog" where
  "answer p =
     andthen (in_sim p) (\<lambda>(w, ypos).
     andthen (set_reg LittleEndian REGISTER_G1 w True) (\<lambda>_.
     andthen (case ypos of None \<Rightarrow> ret () | Some y \<Rightarrow> set_reg LittleEndian REGISTER_G2 y True) (\<lambda>_.
     finish)))"

definition info_of :: "uint16 \<Rightarrow> info" where
  "info_of action =
     (let k = action AND 0xF
      in if k = 0 then InfoID else if k = 1 then InfoSize else if k = 2 then InfoEnergy
         else if k = 3 then InfoPosition else InfoOrientation)"

definition perform :: "platform \<Rightarrow> uint16 \<Rightarrow> (bug_cpu, unit) prog" where
  "perform pf action =
     (if action = ACTION_NOTHING then andthen (in_sim sw_nothing) (\<lambda>_. finish)
      else if action \<in> {ACTION_MYSELFID, ACTION_MYSELFSIZE, ACTION_MYSELFENERGY, ACTION_MYSELFPOSITION,
          ACTION_MYSELFORIENTATION} then answer (\<lambda>p. sw_myself p (info_of action))
      else if action = ACTION_DETECT
      then answer (\<lambda>p. andthen (sw_detect p) (\<lambda>type. ret (type, None)))
      else if action \<in> {ACTION_INFOID, ACTION_INFOSIZE, ACTION_INFOENERGY, ACTION_INFOPOSITION,
          ACTION_INFOORIENTATION} then answer (\<lambda>p. sw_information p (info_of action))
      else if action = ACTION_MOVEFORWARD then andthen (in_sim (\<lambda>p. sw_move p MoveForward)) (\<lambda>_. finish)
      else if action = ACTION_MOVEBACKWARD then andthen (in_sim (\<lambda>p. sw_move p MoveBackward)) (\<lambda>_. finish)
      else if action = ACTION_TURNLEFT then andthen (in_sim (\<lambda>p. sw_turn p TurnLeft)) (\<lambda>_. finish)
      else if action = ACTION_TURNRIGHT then andthen (in_sim (\<lambda>p. sw_turn p TurnRight)) (\<lambda>_. finish)
      else if action = ACTION_ATTACK
      then andthen (get_reg LittleEndian REGISTER_G0 True) (\<lambda>energy.
           andthen (in_sim (\<lambda>p. sw_attack pf p energy)) (\<lambda>_. finish))
      else if action = ACTION_EAT
      then answer (\<lambda>p. andthen (sw_eat p) (\<lambda>energy. ret (energy, None)))
      else if action = ACTION_EGG
      then andthen (get_reg LittleEndian REGISTER_G0 True) (\<lambda>energy.
           andthen (in_sim (\<lambda>p. sw_egg pf p energy)) (\<lambda>_. finish))
      else throw ActionError)"

definition world_op :: "platform \<Rightarrow> unit bug_cpu_ext operation" where
  "world_op pf cls inst =
     andthen (in_sim (\<lambda>_. env Environment_time)) (\<lambda>time.
     andthen (in_sim (\<lambda>p. bug_is_null p ''action_time'')) (\<lambda>idle.
     andthen (if idle then begin_action (i_data inst) time else ret ()) (\<lambda>_.
     andthen (in_sim bug_action_time) (\<lambda>t.
     if t > time then throw ActionBlocked
     else
       andthen
         (try_catch (perform pf (i_data inst)) (\<lambda>x.
            if x = ActionError then Some (set_reg LittleEndian REGISTER_G0 ActionFailure True) else None)) (\<lambda>_.
       andthen (in_sim (bug_set_time_last_action time)) (\<lambda>_.
       andthen (in_sim (\<lambda>p. bug_set_null p ''action_time'')) (\<lambda>_.
       ret UpdatePC)))))))"

end
