(* ===== verification/Sim_Run.thy ===== *)
theory Sim_Run
  imports World_Operation Db_Spawn Db_Stats
begin

text \<open>
  \<open>simpleworld/simpleworld.cpp\<close>, the life of a simulation: loading it, adding elements and running it.
\<close>

section \<open>Loading and freeing\<close>

definition load_food :: "row_id \<Rightarrow> (sim, unit) prog" where
  "load_food i =
     andthen (food_new i) (\<lambda>p.
     andthen (push_food p) (\<lambda>_.
     andthen (the_food p) (\<lambda>(_, world_id).
     andthen (row_position world_id) (\<lambda>position.
     put_element p ElementFood position))))"

definition load_egg :: "row_id \<Rightarrow> (sim, unit) prog" where
  "load_egg i =
     andthen (egg_new i) (\<lambda>p.
     andthen (push_egg p) (\<lambda>_.
     andthen (the_egg p) (\<lambda>(_, world_id).
     andthen (row_position world_id) (\<lambda>position.
     put_element p ElementEgg position))))"

definition load_bug :: "row_id \<Rightarrow> (sim, unit) prog" where
  "load_bug i =
     andthen (bug_new i) (\<lambda>p.
     andthen (push_bug p) (\<lambda>_.
     andthen (the_bug p) (\<lambda>b.
     andthen (row_position (bo_world b)) (\<lambda>position.
     put_element p ElementBug position))))"

text \<open>\<open>for\<close> over a list, where nothing is accumulated.\<close>

definition for_all :: "'i list \<Rightarrow> ('i \<Rightarrow> ('s, unit) prog) \<Rightarrow> ('s, unit) prog" where
  "for_all xs body = for_each xs (\<lambda>x _. body x) ()"

definition load_elements :: "(sim, unit) prog" where
  "load_elements =
     andthen (from_database (\<lambda>db. Inr (food db))) (\<lambda>ids.
     andthen (for_all ids load_food) (\<lambda>_.
     andthen (from_database (\<lambda>db. Inr (eggs db))) (\<lambda>ids.
     andthen (for_all ids load_egg) (\<lambda>_.
     andthen (from_database (\<lambda>db. Inr (alive_bugs db))) (\<lambda>ids.
     for_all ids load_bug)))))"

text \<open>An object before its constructor has run.\<close>

definition sim_empty :: "database \<Rightarrow> row_id \<Rightarrow> position \<Rightarrow> sim" where
  "sim_empty db environment dims =
     \<lparr>sim_db = db, sim_env = environment, sim_world = world_new dims, sim_heap = Map.empty, sim_next = 0,
      sim_foods = [], sim_eggs = [], sim_bugs = [], sim_spawns = spawns db, sim_resources = resources db,
      sim_rand = 0\<rparr>"

text \<open>\<open>SimpleWorld(filename)\<close>; nothing of the object is left when the constructor throws.\<close>

definition sw_new :: "db_files \<Rightarrow> string \<Rightarrow> exn + sim" where
  "sw_new files filename =
     attempt (db_open files filename) (\<lambda>db.
     attempt (last_environment db) (\<lambda>environment.
     attempt (fst (Environment_size_x environment db)) (\<lambda>size_x.
     attempt (fst (Environment_size_y environment db)) (\<lambda>size_y.
     case load_elements (sim_empty db environment \<lparr>pos_x = size_x, pos_y = size_y\<rparr>) of
       (Inl x, _) \<Rightarrow> Inl x
     | (Inr _, s) \<Rightarrow> Inr s))))"

text \<open>\<open>~SimpleWorld\<close>.\<close>

definition sw_delete :: "(sim, unit) prog" where
  "sw_delete =
     andthen (reading (\<lambda>s. Inr (sim_foods s @ sim_eggs s @ sim_bugs s))) (\<lambda>ps. for_all ps delete_object)"

section \<open>Transactions\<close>

text \<open>
  A block with a local \<open>Transaction(this, db::Transaction::immediate)\<close> that ends in \<open>commit()\<close>.  When
  an exception leaves the block the destructor runs; if it throws too, the program is terminated.
\<close>

definition abandon :: "exn \<Rightarrow> transaction \<Rightarrow> (sim, unit) prog" where
  "abandon x t = (\<lambda>s.
     if \<not> is_Exception x then (Inl x, s)
     else (case transaction_destroy (t\<lparr>tx_db := sim_db s\<rparr>) of
             (Inl _, t') \<Rightarrow> (Inl Terminated, s\<lparr>sim_db := tx_db t'\<rparr>)
           | (Inr _, t') \<Rightarrow> (Inl x, s\<lparr>sim_db := tx_db t'\<rparr>)))"

definition in_transaction :: "(sim, unit) prog \<Rightarrow> (sim, unit) prog" where
  "in_transaction body = (\<lambda>s.
     case transaction_start Immediate (sim_db s) of
       (Inl x, t) \<Rightarrow> (Inl x, s\<lparr>sim_db := tx_db t\<rparr>)
     | (Inr _, t) \<Rightarrow>
         (case body (s\<lparr>sim_db := tx_db t\<rparr>) of
            (Inl x, s') \<Rightarrow> abandon x t s'
          | (Inr _, s') \<Rightarrow>
              (case transaction_commit (t\<lparr>tx_db := sim_db s'\<rparr>) of
                 (Inl x, t') \<Rightarrow> abandon x t' (s'\<lparr>sim_db := tx_db t'\<rparr>)
               | (Inr _, t') \<Rightarrow> (Inr (), s'\<lparr>sim_db := tx_db t'\<rparr>))))"

section \<open>Adding elements\<close>

text \<open>\<open>catch (const DBException& e) { throw WorldError }\<close>.\<close>

definition as_world_error :: "(sim, 'a) prog \<Rightarrow> (sim, 'a) prog" where
  "as_world_error p = try_catch p (\<lambda>x. if x = DBException then Some (throw WorldError) else None)"

text \<open>The code is copied word by word, as it is in the memory.\<close>

definition words_of :: "memory \<Rightarrow> exn + uint8 list" where
  "words_of code =
     fold_attempt (\<lambda>bytes i.
       attempt (get_word LittleEndian code (of_nat i) False) (\<lambda>w. Inr (bytes @ host_bytes LittleEndian w)))
       [] (filter (\<lambda>i. i mod 4 = 0) [0..<unat (mem_size code)])"

definition sw_add_egg :: "uint32 \<Rightarrow> position \<Rightarrow> orientation \<Rightarrow> memory \<Rightarrow> (sim, unit) prog" where
  "sw_add_egg energy position orientation code =
     in_transaction
       (andthen
          (as_world_error
             (andthen (reading (\<lambda>_. words_of code)) (\<lambda>data.
              andthen (on_database (Code_insert data)) (\<lambda>code_id.
              andthen (env Environment_time) (\<lambda>now.
              andthen (on_database (Bug_insert code_id now)) (\<lambda>i.
              andthen (on_database (World_insert (pos_x position) (pos_y position) orientation)) (\<lambda>world_id.
              andthen (on_database (Code_copy code_id)) (\<lambda>memory_id.
              andthen (on_database (Egg_insert i world_id energy memory_id)) (\<lambda>_.
              ret i))))))))) (\<lambda>i.
        andthen (egg_new i) (\<lambda>egg.
        andthen (push_egg egg) (\<lambda>_.
        put_element egg ElementEgg position))))"

definition sw_add_food :: "position \<Rightarrow> uint32 \<Rightarrow> (sim, unit) prog" where
  "sw_add_food position sz =
     in_transaction
       (andthen
          (as_world_error
             (andthen (on_database (World_insert_unoriented (pos_x position) (pos_y position))) (\<lambda>world_id.
              andthen (env Environment_time) (\<lambda>now.
              on_database (Food_insert now world_id sz))))) (\<lambda>i.
        andthen (food_new i) (\<lambda>food.
        andthen (push_food food) (\<lambda>_.
        put_element food ElementFood position))))"

section \<open>Spawning\<close>

text \<open>\<open>catch (const WorldError& e) {}\<close>: the world is full.\<close>

definition unless_full :: "(sim, unit) prog \<Rightarrow> (sim, unit) prog" where
  "unless_full p = try_catch p (\<lambda>x. if is_WorldError x then Some (ret ()) else None)"

definition random_position :: "platform \<Rightarrow> position \<Rightarrow> position \<Rightarrow> (sim, position) prog" where
  "random_position pf lo hi = (\<lambda>s.
     case unused_position_in (pf_rand_max pf) (pf_rand pf) (sim_world s) lo hi (sim_rand s) of
       None \<Rightarrow> (Inl NoReturn, s)
     | Some (r, n) \<Rightarrow> (r, s\<lparr>sim_rand := n\<rparr>))"

definition random_side :: "platform \<Rightarrow> (sim, orientation) prog" where
  "random_side pf = (\<lambda>s.
     (Inr (random_orientation (pf_rand_max pf) (pf_rand pf (sim_rand s))), s\<lparr>sim_rand := sim_rand s + 1\<rparr>))"

text \<open>\<open>a % b == 0\<close> has no meaning for \<open>b = 0\<close>.\<close>

definition is_multiple :: "uint32 \<Rightarrow> uint32 \<Rightarrow> exn + bool" where
  "is_multiple a b = (if b = 0 then Inl UndefinedBehaviour else Inr (a mod b = 0))"

definition spawn_egg :: "platform \<Rightarrow> row_id \<Rightarrow> position \<Rightarrow> position \<Rightarrow> uint32 \<Rightarrow> (sim, unit) prog" where
  "spawn_egg pf spawn lo hi energy =
     andthen (on_database (Spawn_code_id spawn)) (\<lambda>code_id.
     andthen (env Environment_time) (\<lambda>now.
     andthen (on_database (Bug_insert code_id now)) (\<lambda>i.
     andthen (egg_code pf code_id code_id i) (\<lambda>memory_id.
     andthen (random_position pf lo hi) (\<lambda>position.
     andthen (random_side pf) (\<lambda>orientation.
     andthen (on_database (World_insert (pos_x position) (pos_y position) orientation)) (\<lambda>world_id.
     andthen (on_database (Egg_insert i world_id energy memory_id)) (\<lambda>_.
     andthen (egg_new i) (\<lambda>egg.
     andthen (push_egg egg) (\<lambda>_.
     put_element egg ElementEgg position))))))))))"

text \<open>The region of a spawn or a resource.\<close>

definition corner ::
    "(row_id \<Rightarrow> (database, uint16) prog) \<Rightarrow> (row_id \<Rightarrow> (database, uint16) prog) \<Rightarrow> row_id \<Rightarrow>
      (sim, position) prog" where
  "corner gx gy i =
     andthen (on_database (gx i)) (\<lambda>x.
     andthen (on_database (gy i)) (\<lambda>y. ret \<lparr>pos_x = x, pos_y = y\<rparr>))"

definition sw_spawn_eggs :: "platform \<Rightarrow> (sim, unit) prog" where
  "sw_spawn_eggs pf =
     unless_full
       (andthen (reading (\<lambda>s. Inr (sim_spawns s))) (\<lambda>ids.
        for_all ids (\<lambda>spawn.
          andthen (env Environment_time) (\<lambda>now.
          andthen (on_database (Spawn_frequency spawn)) (\<lambda>frequency.
          andthen (reading (\<lambda>_. is_multiple now frequency)) (\<lambda>due.
          if \<not> due then ret ()
          else
            andthen (corner Spawn_start_x Spawn_start_y spawn) (\<lambda>lo.
            andthen (corner Spawn_end_x Spawn_end_y spawn) (\<lambda>hi.
            andthen (from_world (\<lambda>w. num_elements_type w lo hi ElementBug)) (\<lambda>n.
            andthen (on_database (Spawn_max spawn)) (\<lambda>limit.
            if n < limit
            then andthen (on_database (Spawn_energy spawn)) (\<lambda>energy.
                 for_all [0..<unat limit - unat n] (\<lambda>_. spawn_egg pf spawn lo hi energy))
            else ret ()))))))))))"

definition spawn_one_food :: "platform \<Rightarrow> uint32 \<Rightarrow> position \<Rightarrow> position \<Rightarrow> uint32 \<Rightarrow> (sim, unit) prog" where
  "spawn_one_food pf now lo hi sz =
     andthen (random_position pf lo hi) (\<lambda>position.
     andthen (on_database (World_insert_unoriented (pos_x position) (pos_y position))) (\<lambda>world_id.
     andthen (on_database (Food_insert now world_id sz)) (\<lambda>i.
     andthen (food_new i) (\<lambda>food.
     andthen (push_food food) (\<lambda>_.
     put_element food ElementFood position)))))"

definition sw_spawn_food :: "platform \<Rightarrow> (sim, unit) prog" where
  "sw_spawn_food pf =
     andthen (env Environment_time) (\<lambda>now.
     unless_full
       (andthen (reading (\<lambda>s. Inr (sim_resources s))) (\<lambda>ids.
        for_all ids (\<lambda>resource.
          andthen (on_database (Resource_frequency resource)) (\<lambda>frequency.
          andthen (reading (\<lambda>_. is_multiple now frequency)) (\<lambda>due.
          if \<not> due then ret ()
          else
            andthen (corner Resource_start_x Resource_start_y resource) (\<lambda>lo.
            andthen (corner Resource_end_x Resource_end_y resource) (\<lambda>hi.
            andthen (from_world (\<lambda>w. num_elements_type w lo hi ElementFood)) (\<lambda>n.
            andthen (on_database (Resource_max resource)) (\<lambda>limit.
            andthen (on_database (Resource_size resource)) (\<lambda>sz.
            if n < limit
            then for_all [0..<unat limit - unat n] (\<lambda>_. spawn_one_food pf now lo hi sz)
            else ret ())))))))))))"

section \<open>One cycle of the world\<close>

definition sw_eggs_birth :: "(sim, unit) prog" where
  "sw_eggs_birth =
     andthen (reading (\<lambda>s. Inr (sim_eggs s))) (\<lambda>ps.
     for_all ps (\<lambda>egg.
       andthen (the_egg egg) (\<lambda>(i, _).
       andthen (on_database (Bug_creation i)) (\<lambda>creation.
       andthen (env Environment_time_birth) (\<lambda>time_birth.
       andthen (env Environment_time) (\<lambda>now.
       if creation + time_birth \<le> now then sw_birth egg else ret ()))))))"

definition mutate_code_of :: "platform \<Rightarrow> row_id \<Rightarrow> (sim, bool \<times> mutation list) prog" where
  "mutate_code_of pf code_id =
     andthen (env Environment_mutations_probability) (\<lambda>probability. \<lambda>s.
     case mutate_bug (pf_rand_max pf) (pf_rand pf) (pf_mutation pf) LittleEndian (pf_left pf) (pf_word pf)
            (pf_array pf) (pf_one_in pf probability) code_id (sim_db s) (sim_rand s) of
       None \<Rightarrow> (Inl NoReturn, s)
     | Some (r, db, n) \<Rightarrow> (r, s\<lparr>sim_db := db, sim_rand := n\<rparr>))"

definition sw_bugs_mutate :: "platform \<Rightarrow> (sim, unit) prog" where
  "sw_bugs_mutate pf =
     andthen (env Environment_time_mutate) (\<lambda>time_mutate.
     if time_mutate = 0 then ret ()
     else
       andthen (reading (\<lambda>s. Inr (sim_bugs s))) (\<lambda>ps.
       for_all ps (\<lambda>bug.
         andthen (env Environment_time) (\<lambda>now.
         andthen (the_bug bug) (\<lambda>b.
         andthen (on_database (AliveBug_birth (bo_id b))) (\<lambda>birth.
         let age = now - birth
         in if age > 0
            then andthen (env Environment_time_mutate) (\<lambda>time_mutate.
                 andthen (reading (\<lambda>_. is_multiple age time_mutate)) (\<lambda>due.
                 if \<not> due then ret ()
                 else
                   andthen (on_database (AliveBug_memory_id (bo_id b))) (\<lambda>memory_id.
                   andthen (mutate_code_of pf memory_id) (\<lambda>(mutated, ms).
                   if mutated
                   then andthen (env Environment_time) (\<lambda>now.
                        andthen (on_database (update_mutations ms (bo_id b) now)) (\<lambda>_.
                        bug_mutated bug))
                   else ret ()))))
            else ret ()))))))"

definition sw_bugs_timer :: "(sim, unit) prog" where
  "sw_bugs_timer =
     andthen (reading (\<lambda>s. Inr (sim_bugs s))) (\<lambda>ps.
     for_all ps (\<lambda>bug.
       try_catch (bug_timer_interrupt bug) (\<lambda>x. if is_CPUException x then Some (sw_kill bug) else None)))"

text \<open>\<open>(*bug)->cpu.execute(1024)\<close>.\<close>

definition bug_execute :: "platform \<Rightarrow> ptr \<Rightarrow> (sim, unit) prog" where
  "bug_execute pf bug =
     andthen (on_cpu bug (execute_cycles (bug_next (world_op pf)) 1024)) (\<lambda>_. ret ())"

definition sw_bugs_run :: "platform \<Rightarrow> (sim, unit) prog" where
  "sw_bugs_run pf =
     andthen (reading (\<lambda>s. Inr (sim_bugs s))) (\<lambda>ps.
     for_all ps (\<lambda>bug.
       andthen (reading (\<lambda>s. Inr (bug \<in> set (sim_bugs s)))) (\<lambda>alive.
       if \<not> alive then ret ()
       else try_catch (bug_execute pf bug) (\<lambda>x.
         if x = ActionBlocked then Some (ret ())
         else if is_CPUException x \<or> x = BugDeath then Some (sw_kill bug)
         else None))))"

definition sw_bugs_laziness :: "(sim, unit) prog" where
  "sw_bugs_laziness =
     andthen (reading (\<lambda>s. Inr (sim_bugs s))) (\<lambda>ps.
     for_all ps (\<lambda>bug.
       andthen (bug_is_null bug ''time_last_action'') (\<lambda>never.
       andthen (env Environment_time) (\<lambda>now.
       andthen (the_bug bug) (\<lambda>b.
       andthen (on_database ((if never then AliveBug_birth else AliveBug_time_last_action) (bo_id b))) (\<lambda>since.
       let time = now - since
       in if time > 0
          then andthen (env Environment_time_laziness) (\<lambda>time_laziness.
               andthen (reading (\<lambda>_. is_multiple time time_laziness)) (\<lambda>due.
               if \<not> due then ret ()
               else try_catch (pay Environment_energy_laziness bug) (\<lambda>x.
                 if x = BugDeath then Some (sw_kill bug) else None)))
          else ret ()))))))"

definition sw_food_rot :: "(sim, unit) prog" where
  "sw_food_rot =
     andthen (reading (\<lambda>s. Inr (sim_foods s))) (\<lambda>ps.
     for_all ps (\<lambda>food.
       andthen (env Environment_time) (\<lambda>now.
       andthen (the_food food) (\<lambda>(i, _).
       andthen (on_database (Food_time i)) (\<lambda>time.
       let age = now - time
       in if age > 0
          then andthen (env Environment_time_rot) (\<lambda>time_rot.
               andthen (reading (\<lambda>_. is_multiple age time_rot)) (\<lambda>due.
               if \<not> due then ret ()
               else
                 andthen (on_database (Food_size i)) (\<lambda>sz.
                 andthen (env Environment_size_rot) (\<lambda>size_rot.
                 if sz \<le> size_rot
                 then
                   andthen (on_database (Food_world_id i)) (\<lambda>world_id.
                   andthen (row_position world_id) (\<lambda>position.
                   andthen (on_database (World_remove world_id)) (\<lambda>_.
                   andthen (on_database (Food_remove i)) (\<lambda>_.
                   andthen (clear_cell position) (\<lambda>_.
                   andthen (drop_food food) (\<lambda>_.
                   delete_object food))))))
                 else on_database (Food_set_size (sz - size_rot) i)))))
          else ret ())))))"

text \<open>\<open>db::Stats::insert(this)\<close>.\<close>

definition insert_stats :: "(sim, unit) prog" where
  "insert_stats = (\<lambda>s.
     case Stats_insert_current (sim_db s) of
       None \<Rightarrow> (Inl NoReturn, s)
     | Some (Inl x, db) \<Rightarrow> (Inl x, s\<lparr>sim_db := db\<rparr>)
     | Some (Inr _, db) \<Rightarrow> (Inr (), s\<lparr>sim_db := db\<rparr>))"

definition run_cycle :: "platform \<Rightarrow> uint32 \<Rightarrow> (sim, uint32) prog" where
  "run_cycle pf time =
     andthen (sw_spawn_eggs pf) (\<lambda>_.
     andthen (sw_spawn_food pf) (\<lambda>_.
     let time = time + 1
     in andthen (env (Environment_set_time time)) (\<lambda>_.
        andthen sw_eggs_birth (\<lambda>_.
        andthen (sw_bugs_mutate pf) (\<lambda>_.
        andthen (if time mod 64 = 0 then sw_bugs_timer else ret ()) (\<lambda>_.
        andthen (sw_bugs_run pf) (\<lambda>_.
        andthen sw_bugs_laziness (\<lambda>_.
        andthen sw_food_rot (\<lambda>_.
        andthen (if time mod 1024 = 0 then insert_stats else ret ()) (\<lambda>_.
        ret time))))))))))"

text \<open>\<open>CYCLES_BY_TRANSACTION\<close> of the build, with its default.\<close>

definition CYCLES_BY_TRANSACTION :: nat where
  "CYCLES_BY_TRANSACTION = 1024"

function run_batches :: "platform \<Rightarrow> nat \<Rightarrow> uint32 \<Rightarrow> (sim, unit) prog" where
  "run_batches pf cycles time = (\<lambda>s.
     if cycles = 0 then (Inr (), s)
     else
       let n = min cycles CYCLES_BY_TRANSACTION
       in case in_transaction
            (andthen (for_each [0..<n] (\<lambda>_ time. run_cycle pf time) time) (\<lambda>_. ret ())) s of
            (Inl x, s') \<Rightarrow> (Inl x, s')
          | (Inr _, s') \<Rightarrow> run_batches pf (cycles - n) (time + of_nat n) s')"
  by pat_completeness auto

termination
  by (relation "measure (\<lambda>(_, cycles, _). cycles)") (auto simp: CYCLES_BY_TRANSACTION_def)

declare run_batches.simps [simp del]

definition sw_run :: "platform \<Rightarrow> uint32 \<Rightarrow> (sim, unit) prog" where
  "sw_run pf cycles =
     andthen (env Environment_time) (\<lambda>time. run_batches pf (unat cycles) time)"

end
