(* ===== verification/Sim_Rows.thy ===== *)
theory Sim_Rows
  imports Sim_Run Db_Steps
begin

text \<open>
  Invariants of the parts of a simulation.  The interface \<open>simulation_rows\<close> asks of a property of the
  database that the statements on rows keep it; its lemmas carry it, with the sizes of the memories
  of the bugs, through the elements of \<open>simpleworld.cpp\<close>, the CPUs of the bugs and the actions.
\<close>

section \<open>Simple facts\<close>

text \<open>The grid has the size \<open>dims\<close> and its counter the number of used cells.\<close>

definition grid_ok :: "position \<Rightarrow> world \<Rightarrow> bool" where
  "grid_ok dims w \<longleftrightarrow> w_size w = dims \<and> wf_world w"

lemma grid_steps:
  "world_add w (Some el) p = Inr w' \<Longrightarrow> grid_ok dims w \<Longrightarrow> grid_ok dims w'"
  "world_remove w p = Inr w' \<Longrightarrow> grid_ok dims w \<Longrightarrow> grid_ok dims w'"
  "world_move w p q = Inr w' \<Longrightarrow> grid_ok dims w \<Longrightarrow> grid_ok dims w'"
proof -
  have "w_size w' = w_size w" if "world_add w (Some el) p = Inr w' \<or> world_remove w p = Inr w' \<or> world_move w p q = Inr w'"
    using that by (auto simp: world_add_def world_remove_def world_move_def attempt_eq_Inr split: if_splits)
  then show "world_add w (Some el) p = Inr w' \<Longrightarrow> grid_ok dims w \<Longrightarrow> grid_ok dims w'"
    "world_remove w p = Inr w' \<Longrightarrow> grid_ok dims w \<Longrightarrow> grid_ok dims w'"
    "world_move w p q = Inr w' \<Longrightarrow> grid_ok dims w \<Longrightarrow> grid_ok dims w'"
    by (auto simp: grid_ok_def intro: wf_world_add wf_world_remove wf_world_move)
qed

lemma world_move_target: "world_move w p q = Inr w' \<Longrightarrow> in_world (w_size w) q"
  by (auto simp: world_move_run in_world_def split: sum.splits if_splits)

lemma keeps_option [pres_intros]:
  "(o' = None \<Longrightarrow> keeps X P m) \<Longrightarrow> (\<And>x. o' = Some x \<Longrightarrow> keeps X P (f x)) \<Longrightarrow>
    keeps X P (case o' of None \<Rightarrow> m | Some x \<Rightarrow> f x)"
  by (cases o') simp_all

lemma keeps_prod [pres_intros]: "(\<And>x y. keeps X P (f x y)) \<Longrightarrow> keeps X P (case v of (x, y) \<Rightarrow> f x y)"
  by (cases v) simp

lemma on_database_reading: "on_database (reading f) = from_database f"
  by (simp add: on_database_def from_database_def fun_eq_iff)

lemma on_database_columns:
  "on_database (column_int t c i) = from_database (\<lambda>db. attempt (sql_select t c i db) (\<lambda>v. Inr (word_of_int (integer_of v))))"
  "on_database (column_int64 t c i) = from_database (\<lambda>db. attempt (sql_select t c i db) (\<lambda>v. Inr (integer_of v)))"
  by (simp_all add: column_int_def column_int64_def on_database_reading)

lemma consistent_data:
  assumes "consistent (db_tables db)" and "blob_cell b db = Inr v"
    and "blob_column b = ''data''" and "blob_table b \<in> {''Code'', ''Registers''}"
  shows "\<exists>bs. v = Bytes bs \<and> data_size_ok b (length bs)"
proof -
  obtain d r where row: "map_of schema (blob_table b) = Some d"
    "map_of (db_tables db (blob_table b)) (blob_id b) = Some r" "col r ''data'' = v"
    using assms(2,3) by (auto elim!: blob_cellD)
  then have "row_ok d r"
    using assms(1) by (auto simp: consistent_def tables_ok_def table_ok_def schema_lookup dest!: map_of_SomeD)
  with row(1,3) assms(4) show ?thesis
    by (cases v) (auto simp: schema_def table_defs row_ok_def data_size_ok_def split: if_splits)
qed

lemma data_tables:
  assumes "map_of schema t = Some d" and "t \<in> {''Code'', ''Registers''}"
  shows "td_key d = ''id''"
  using assms by (auto simp: schema_def table_defs split: if_splits)

lemma consistent_memory_row:
  assumes "consistent (db_tables db)" and "blob_column b = ''data''" and "blob_table b \<in> {''Code'', ''Registers''}"
    and "map_of (db_tables db (blob_table b)) (blob_id b) = Some r"
  shows "memory_row b db"
proof -
  obtain d where d: "map_of schema (blob_table b) = Some d"
    using assms(3) by (auto simp: schema_def)
  then have "table_ok d (db_tables db (blob_table b))"
    using assms(1) by (simp add: consistent_def schema_lookup table_okD)
  moreover have "(blob_id b, r) \<in> set (db_tables db (blob_table b))"
    using assms(4) by (rule map_of_SomeD)
  ultimately have "col r (td_key d) = Integer (blob_id b)"
    by (auto simp: table_ok_def)
  then show ?thesis
    using assms(2-4) data_tables [OF d assms(3)] by (auto simp: memory_row_def)
qed

text \<open>Reading the columns.\<close>

lemma keeps_get [pres_intros]:
  "keeps X P (column_int t c i)" "keeps X P (column_int64 t c i)" "keeps X P (column_double t c i)"
  "keeps X P (is_null t c i)"
  unfolding column_int_def column_int64_def column_double_def is_null_def by (rule keeps_reading)+

lemma keeps_columns [pres_intros]:
  "keeps X P (AliveBug_action_time i)" "keeps X P (AliveBug_birth i)"
  "keeps X P (AliveBug_energy i)" "keeps X P (AliveBug_memory_id i)"
  "keeps X P (AliveBug_registers_id i)" "keeps X P (AliveBug_time_last_action i)"
  "keeps X P (AliveBug_world_id i)" "keeps X P (Bug_creation i)" "keeps X P (Egg_energy i)"
  "keeps X P (Egg_memory_id i)" "keeps X P (Egg_world_id i)"
  "keeps X P (Environment_attack_multiplier i)" "keeps X P (Environment_energy_attack i)"
  "keeps X P (Environment_energy_detect i)" "keeps X P (Environment_energy_eat i)"
  "keeps X P (Environment_energy_egg i)" "keeps X P (Environment_energy_info i)"
  "keeps X P (Environment_energy_laziness i)" "keeps X P (Environment_energy_move i)"
  "keeps X P (Environment_energy_myself i)" "keeps X P (Environment_energy_nothing i)"
  "keeps X P (Environment_energy_turn i)" "keeps X P (Environment_mutations_probability i)"
  "keeps X P (Environment_size_rot i)" "keeps X P (Environment_time i)"
  "keeps X P (Environment_time_attack i)" "keeps X P (Environment_time_birth i)"
  "keeps X P (Environment_time_detect i)" "keeps X P (Environment_time_eat i)"
  "keeps X P (Environment_time_egg i)" "keeps X P (Environment_time_info i)"
  "keeps X P (Environment_time_laziness i)" "keeps X P (Environment_time_move i)"
  "keeps X P (Environment_time_mutate i)" "keeps X P (Environment_time_myself i)"
  "keeps X P (Environment_time_nothing i)" "keeps X P (Environment_time_rot i)"
  "keeps X P (Environment_time_turn i)" "keeps X P (Food_size i)" "keeps X P (Food_time i)"
  "keeps X P (Food_world_id i)" "keeps X P (Resource_end_x i)" "keeps X P (Resource_end_y i)"
  "keeps X P (Resource_frequency i)" "keeps X P (Resource_max i)" "keeps X P (Resource_size i)"
  "keeps X P (Resource_start_x i)" "keeps X P (Resource_start_y i)" "keeps X P (Spawn_code_id i)"
  "keeps X P (Spawn_end_x i)" "keeps X P (Spawn_end_y i)" "keeps X P (Spawn_energy i)"
  "keeps X P (Spawn_frequency i)" "keeps X P (Spawn_max i)" "keeps X P (Spawn_start_x i)"
  "keeps X P (Spawn_start_y i)" "keeps X P (World_orientation i)" "keeps X P (World_position_x i)"
  "keeps X P (World_position_y i)"
  unfolding
    AliveBug_action_time_def AliveBug_birth_def AliveBug_energy_def AliveBug_memory_id_def
    AliveBug_registers_id_def AliveBug_time_last_action_def AliveBug_world_id_def Bug_creation_def
    Egg_energy_def Egg_memory_id_def Egg_world_id_def Environment_attack_multiplier_def
    Environment_energy_attack_def Environment_energy_detect_def Environment_energy_eat_def
    Environment_energy_egg_def Environment_energy_info_def Environment_energy_laziness_def
    Environment_energy_move_def Environment_energy_myself_def Environment_energy_nothing_def
    Environment_energy_turn_def Environment_mutations_probability_def Environment_size_rot_def
    Environment_time_def Environment_time_attack_def Environment_time_birth_def
    Environment_time_detect_def Environment_time_eat_def Environment_time_egg_def
    Environment_time_info_def Environment_time_laziness_def Environment_time_move_def
    Environment_time_mutate_def Environment_time_myself_def Environment_time_nothing_def
    Environment_time_rot_def Environment_time_turn_def Food_size_def Food_time_def
    Food_world_id_def Resource_end_x_def Resource_end_y_def Resource_frequency_def Resource_max_def
    Resource_size_def Resource_start_x_def Resource_start_y_def Spawn_code_id_def Spawn_end_x_def
    Spawn_end_y_def Spawn_energy_def Spawn_frequency_def Spawn_max_def Spawn_start_x_def
    Spawn_start_y_def World_orientation_def World_position_x_def World_position_y_def
  by (intro pres_intros)+

lemma keeps_readings [pres_intros]:
  "keeps X P (from_database f)" "keeps X P (from_world g)" "keeps X P (the_egg p)" "keeps X P (the_food p)"
  "keeps X P (the_bug p)" "keeps X P (load_memory b)" "keeps X P (code_size i)"
  unfolding from_database_def from_world_def the_egg_def the_food_def the_bug_def load_memory_def code_size_def
  by (rule keeps_reading)+

text \<open>The registers are those of the CPU and the memory holds whole words.\<close>

definition sizes_ok :: "address \<Rightarrow> address \<Rightarrow> bool" where
  "sizes_ok n k \<longleftrightarrow> n = 544 \<and> k \<noteq> 0 \<and> unat k mod 4 = 0 \<and> unat k \<le> max_length"

definition cpu_ok :: "cpu_state \<Rightarrow> bool" where
  "cpu_ok c \<longleftrightarrow> wf_cpu c \<and> sizes_ok (mem_size (cpu_registers c)) (mem_size (cpu_memory c))"

definition heap_ok :: "(ptr \<rightharpoonup> entity) \<Rightarrow> bool" where
  "heap_ok heap \<longleftrightarrow> (\<forall>p b. heap p = Some (Bug b) \<longrightarrow> cpu_ok (bo_cpu b))"

lemma heap_ok_upd:
  "heap_ok heap \<Longrightarrow> (\<And>b. ent = Bug b \<Longrightarrow> cpu_ok (bo_cpu b)) \<Longrightarrow> heap_ok (heap(p \<mapsto> ent))"
  "heap_ok heap \<Longrightarrow> heap_ok (heap(p := None))"
  by (auto simp: heap_ok_def)

lemma heap_okD: "heap_ok heap \<Longrightarrow> heap p = Some (Bug b) \<Longrightarrow> cpu_ok (bo_cpu b)"
  by (auto simp: heap_ok_def)

text \<open>The simulation a CPU runs in, read from what the record of a bug adds to that of a CPU.\<close>

definition sim_of :: "unit bug_cpu_ext \<Rightarrow> sim" where
  "sim_of m = bc_sim (cpu_state.extend fresh_cpu m)"

lemma sim_of_more [simp]: "sim_of (cpu_state.more c) = bc_sim c"
  by (cases c) (simp add: sim_of_def cpu_state.defs)

lemma enter_cpu_sel [simp]:
  "cpu_registers (enter_cpu c p s) = cpu_registers c" "cpu_memory (enter_cpu c p s) = cpu_memory c"
  "bc_sim (enter_cpu c p s) = s" "bc_bug (enter_cpu c p s) = p" "cpu_running (enter_cpu c p s) = cpu_running c"
  by (simp_all add: enter_cpu_def)

lemma truncate_sel [simp]:
  "cpu_registers (cpu_state.truncate c) = cpu_registers c" "cpu_memory (cpu_state.truncate c) = cpu_memory c"
  "cpu_running (cpu_state.truncate c) = cpu_running c"
  by (simp_all add: cpu_state.defs)

lemma wf_cpu_cong: "cpu_registers c = cpu_registers d \<Longrightarrow> cpu_memory c = cpu_memory d \<Longrightarrow> wf_cpu c = wf_cpu d"
  by (simp add: wf_cpu_def)

text \<open>The instruction set of the simulation: that of the base CPU with one instruction more.\<close>

lemma world_interrupts_run:
  "\<exists>t :: 'z cpu_isa. world_interrupts = Inr t \<and> instructions t = map_of base_instructions"
proof -
  have codes: "map_of base_interrupts INTERRUPT_WORLDACTION = None" "map_of base_interrupts INTERRUPT_WORLDEVENT = None"
    by (simp_all add: base_interrupts_def)
  show ?thesis
    unfolding world_interrupts_def base_isa_facts(1)
    by (simp add: add_interrupt'_def add_interrupt_def base_isa_facts codes)
qed

lemma world_isa_instructions:
  fixes op :: "'z operation"
  shows "instructions (world_isa op) = (map_of base_instructions)
    (0x58 \<mapsto> \<lparr>inst_code = 0x58, inst_name = ''world'', inst_nregs = 0, inst_has_inmediate = True, inst_func = op\<rparr>)"
proof -
  obtain t :: "'z cpu_isa" where t: "world_interrupts = Inr t" "instructions t = map_of base_instructions"
    using world_interrupts_run by blast
  have none: "map_of base_instructions 0x58 = (None :: 'z operation instruction_info option)"
    by (simp add: base_instructions_def base_entries_def)
  show ?thesis
    unfolding world_isa_def world_isa_new_def t(1) add_instruction'_def add_instruction_def
    by (simp add: t none attempt_def)
qed

section \<open>The interface\<close>

text \<open>
  \<open>D\<close> is the property, \<open>X\<close> what may hold instead after an exception of the database, \<open>dims\<close> the size
  of the world and \<open>e\<close> the row of the environment.
\<close>

locale simulation_rows =
  fixes D :: "database \<Rightarrow> bool" and X :: "exn \<Rightarrow> database \<Rightarrow> bool" and dims :: position and e :: row_id
  assumes caught: "x \<noteq> DBException \<Longrightarrow> \<not> X x db"
    and D_consistent: "D db \<Longrightarrow> consistent (db_tables db)"
    and D_insert: "t \<noteq> ''Environment'' \<Longrightarrow> keeps X D (sql_insert t vals)"
    and D_update: "t \<noteq> ''Environment'' \<Longrightarrow> (\<And>d. map_of schema t = Some d \<Longrightarrow> c \<noteq> td_key d) \<Longrightarrow>
      keeps X D (sql_update t c v i)"
    and D_delete: "t \<noteq> ''Environment'' \<Longrightarrow> keeps X D (sql_delete t i)"
    and D_position: "px < pos_x dims \<Longrightarrow> preserves D (sql_update ''World'' ''position_x'' (bind_short px) i)"
      "py < pos_y dims \<Longrightarrow> preserves D (sql_update ''World'' ''position_y'' (bind_short py) i)"
      "preserves D (sql_update ''World'' ''orientation'' v i)"
begin

definition I :: "sim \<Rightarrow> bool" where
  "I s \<longleftrightarrow> D (sim_db s) \<and> grid_ok dims (sim_world s) \<and> sim_env s = e \<and> heap_ok (sim_heap s)"

definition XI :: "exn \<Rightarrow> sim \<Rightarrow> bool" where
  "XI x s = X x (sim_db s)"

lemma I_caught:
  assumes "keeps XI I m" and "\<And>x p. h x = Some p \<Longrightarrow> x \<noteq> DBException \<and> keeps XI I p"
  shows "keeps XI I (try_catch m h)"
  by (rule keeps_try_catch [OF assms(1)]) (use assms(2) caught in \<open>auto simp: XI_def\<close>)

text \<open>The setters and constructors of rows.\<close>

lemma D_rows [pres_intros]:
  "keeps X D (AliveBug_set_energy v i)" "keeps X D (AliveBug_set_action_time v i)"
  "keeps X D (AliveBug_set_time_last_action v i)" "keeps X D (AliveBug_set_world_id w i)"
  "keeps X D (Egg_set_energy v i)" "keeps X D (Food_set_size v i)" "keeps X D (World_set_orientation v i)"
  "keeps X D (set_null ''AliveBug'' ''action_time'' i)"
  unfolding AliveBug_set_energy_def AliveBug_set_action_time_def AliveBug_set_time_last_action_def
    AliveBug_set_world_id_def Egg_set_energy_def Food_set_size_def World_set_orientation_def set_null_def
  by (rule D_update; auto simp: schema_def table_defs)+

lemma D_inserts [pres_intros]:
  "keeps X D (Code_insert bs)" "keeps X D Registers_insert" "keeps X D (World_insert a b c)"
  "keeps X D (World_insert_unoriented a b)" "keeps X D (Food_insert v i w)" "keeps X D (Bug_insert i v)"
  "keeps X D (Bug_insert_son i v j)" "keeps X D (Egg_insert i j v k)"
  "keeps X D (AliveBug_insert i j v w k l)" "keeps X D (DeadBug_insert i v)"
  "keeps X D (DeadBug_insert_born i v w)" "keeps X D (DeadBug_insert_killed i v j)"
  "keeps X D (DeadBug_insert_born_killed i v w j)" "keeps X D (Stats_insert st)"
  "keeps X D (Mutation_insert_mutation i v u w w')" "keeps X D (Mutation_insert_partial i v u w w')"
  "keeps X D (Mutation_insert_permutation i v u w w')" "keeps X D (Mutation_insert_addition i v u w)"
  "keeps X D (Mutation_insert_duplication i v u w)" "keeps X D (Mutation_insert_deletion i v u w)"
  unfolding Code_insert_def Registers_insert_def World_insert_def World_insert_unoriented_def Food_insert_def
    Bug_insert_def Bug_insert_son_def Egg_insert_def AliveBug_insert_def DeadBug_insert_def
    DeadBug_insert_born_def DeadBug_insert_killed_def DeadBug_insert_born_killed_def Stats_insert_def
    Mutation_insert_mutation_def Mutation_insert_partial_def Mutation_insert_permutation_def
    Mutation_insert_addition_def Mutation_insert_duplication_def Mutation_insert_deletion_def
  by (rule D_insert; simp)+

lemma D_put:
  assumes "D db" and "blob_column b = ''data''" and "blob_table b \<in> {''Code'', ''Registers''}"
    and "data_size_ok b (length bs)"
  shows "D (put_bytes b bs db)"
proof (cases "map_of (db_tables db (blob_table b)) (blob_id b)")
  case None
  with assms(1) show ?thesis
    by (simp add: put_bytes_def)
next
  case (Some r)
  have "memory_row b db"
    using D_consistent [OF assms(1)] assms(2,3) Some by (rule consistent_memory_row)
  with assms(2-4) have "sql_update (blob_table b) ''data'' (Bytes bs) (blob_id b) db = (Inr (), put_bytes b bs db)"
    using memory_blob_write [of b db bs] by (simp add: blob_write_def)
  moreover have "keeps X D (sql_update (blob_table b) ''data'' (Bytes bs) (blob_id b))"
    using assms(3) by (intro D_update) (auto dest: data_tables)
  ultimately show ?thesis
    using keepsD(2) assms(1) by metis
qed

lemma D_copy [pres_intros]: "keeps X D (Code_copy i)"
proof (rule keepsI)
  show "D db' \<or> X x db'" if "D db" "Code_copy i db = (Inl x, db')" for db x db'
    using that keepsD(1) [OF D_insert, of "''Code''" db] by (auto simp: Code_copy_def split: option.splits)
  show "D db'" if "D db" "Code_copy i db = (Inr v, db')" for db v db'
    using that keepsD(2) [OF D_insert, of "''Code''" db] by (auto simp: Code_copy_def split: option.splits)
qed

lemma D_removes [pres_intros]:
  "keeps X D (Code_remove i)" "keeps X D (Egg_remove i)" "keeps X D (World_remove i)" "keeps X D (Food_remove i)"
  unfolding Code_remove_def Egg_remove_def World_remove_def Food_remove_def by (rule D_delete; simp)+

lemma D_lives [pres_intros]:
  "keeps X D (AliveBug_insert_egg i v)" "keeps X D (DeadBug_insert_egg i v)"
  "keeps X D (DeadBug_insert_egg_killed i v j)" "keeps X D (DeadBug_insert_bug i v)"
  "keeps X D (DeadBug_insert_bug_killed i v j)"
  unfolding AliveBug_insert_egg_def DeadBug_insert_egg_def DeadBug_insert_egg_killed_def
    DeadBug_insert_bug_def DeadBug_insert_bug_killed_def Egg_world_id_def Egg_energy_def Egg_memory_id_def
    AliveBug_birth_def AliveBug_memory_id_def
  by (intro pres_intros)+

text \<open>Mutations.\<close>

lemma D_blob_write [pres_intros]: "keeps X D (blob_write (code_data i) bs)"
  unfolding blob_write_def code_data_def
  by (simp, rule D_update) (auto simp: schema_def table_defs)

lemma D_update_mutations [pres_intros]: "keeps X D (update_mutations ms i v)"
  unfolding update_mutations_def update_mutation_def
  by (intro pres_intros) (auto split: mutation_type.split intro: pres_intros)

lemma D_mutate_new:
  assumes "D db" and "mutate_new rm rnd mk en l w0 fr pb i db n = Some (r, db', n')"
  shows "D db' \<or> (\<exists>x. r = Inl x \<and> X x db')"
  using assms keepsD [OF D_inserts(1) assms(1)]
  by (fastforce simp: mutate_new_def split: sum.splits option.splits prod.splits if_splits)

lemma D_mutate_bug:
  assumes "D db" and "mutate_bug rm rnd mk en l w0 fr pb i db n = Some (r, db', n')"
  shows "D db' \<or> (\<exists>x. r = Inl x \<and> X x db')"
  using assms keepsD [OF D_blob_write assms(1)]
  by (fastforce simp: mutate_bug_def split: sum.splits option.splits prod.splits if_splits)

section \<open>The parts of the state\<close>

lemma I_D: "I s \<Longrightarrow> D (sim_db s)"
  by (simp add: I_def)

lemma I_db: "I s \<Longrightarrow> D db \<Longrightarrow> I (s\<lparr>sim_db := db\<rparr>)"
  by (simp add: I_def)

lemma I_upd [simp]:
  "I (s\<lparr>sim_foods := ps\<rparr>) = I s" "I (s\<lparr>sim_eggs := ps\<rparr>) = I s" "I (s\<lparr>sim_bugs := ps\<rparr>) = I s"
  "I (s\<lparr>sim_rand := n\<rparr>) = I s" "I (s\<lparr>sim_next := n\<rparr>) = I s"
  by (simp_all add: I_def)

lemma I_on_database [pres_intros]:
  assumes "keeps X D p"
  shows "keeps XI I (on_database p)"
proof (rule keepsI)
  show "I s' \<or> XI x s'" if "I s" "on_database p s = (Inl x, s')" for s x s'
    using that keepsD(1) [OF assms I_D] by (fastforce simp: on_database_def I_def XI_def split: prod.splits)
  show "I s'" if "I s" "on_database p s = (Inr v, s')" for s v s'
    using that keepsD(2) [OF assms I_D] by (auto simp: on_database_def I_def split: prod.splits)
qed

lemma I_on_database_preserves [pres_intros]:
  assumes "preserves D p"
  shows "preserves I (on_database p)"
  unfolding preserves_iff
proof (intro allI impI)
  fix s
  assume "I s"
  then show "I (snd (on_database p s))"
    using preservesD [OF assms I_D] by (cases "p (sim_db s)") (simp add: on_database_def I_def)
qed

lemma I_env [pres_intros]:
  assumes "\<And>i. keeps X D (p i)"
  shows "keeps XI I (env p)"
proof -
  have "keeps XI I (on_database (p i))" for i
    by (intro I_on_database assms)
  then show ?thesis
    by (simp add: env_def keeps_def)
qed

lemma I_lists [pres_intros]:
  "keeps Y I (push_food p)" "keeps Y I (push_egg p)" "keeps Y I (push_bug p)"
  "keeps Y I (drop_food p)" "keeps Y I (drop_egg p)" "keeps Y I (drop_bug p)"
  unfolding push_food_def push_egg_def push_bug_def drop_food_def drop_egg_def drop_bug_def
  by (rule keeps_updating; auto)+

lemma I_delete_object [pres_intros]: "keeps Y I (delete_object p)"
  unfolding delete_object_def by (rule keeps_updating) (auto simp: I_def heap_ok_upd)

lemma I_on_world:
  assumes "\<And>w w'. f w = Inr w' \<Longrightarrow> grid_ok dims w \<Longrightarrow> grid_ok dims w'"
  shows "keeps Y I (on_world f)"
  unfolding on_world_def
  by (rule keeps_updating) (auto simp: attempt_eq_Inr I_def dest: assms)

lemma I_cells [pres_intros]: "keeps Y I (put_element p ty pos)" "keeps Y I (clear_cell pos)"
  unfolding put_element_def clear_cell_def by (rule I_on_world; rule grid_steps; assumption)+

section \<open>The elements\<close>

lemma loaded_memory:
  assumes "D db" and "blob_column b = ''data''" and "blob_table b \<in> {''Code'', ''Registers''}"
    and "dbmemory_new b db = (Inr u, d)"
  shows "wf_memory (dm_memory d) \<and> data_size_ok b (unat (mem_size (dm_memory d)))"
proof (cases "blob_cell b db")
  case (Inl x)
  with assms(4) show ?thesis
    by (simp add: dbmemory_new_def dm_update_def blob_read_missing)
next
  case (Inr v)
  obtain bs where bs: "v = Bytes bs" "data_size_ok b (length bs)"
    using consistent_data [OF D_consistent [OF assms(1)] Inr assms(2,3)] by blast
  then have "length bs < 2 ^ 31"
    by (auto simp: data_size_ok_def max_length_def split: if_splits)
  with load_bytes [OF Inr] assms(4) bs show ?thesis
    by (auto simp: wf_memory_def unat_of_nat_address)
qed

lemma cpu_ok_new:
  assumes "wf_memory regs" and "wf_memory mem" and "data_size_ok (registers_data i) (unat (mem_size regs))"
    and "data_size_ok (code_data j) (unat (mem_size mem))"
  shows "cpu_ok (cpu_new regs mem)"
proof -
  have "unat (mem_size regs) = 544" "mem_size mem \<noteq> 0" "unat (mem_size mem) mod 4 = 0"
    "unat (mem_size mem) \<le> max_length"
    using assms(3,4) by (auto simp: data_size_ok_def registers_data_def code_data_def)
  moreover from this have "mem_size regs = 544"
    by (simp add: word_unat_eq_iff)
  ultimately show ?thesis
    using assms(1,2) by (simp add: cpu_ok_def sizes_ok_def wf_cpu_def cpu_new_def TOTAL_REGISTERS_def)
qed

lemma I_new_object:
  assumes "\<And>b. ent = Bug b \<Longrightarrow> cpu_ok (bo_cpu b)"
  shows "keeps XI I (new_object ent)"
  using assms by (intro keepsI) (auto simp: new_object_def I_def heap_ok_upd)

lemma I_elements [pres_intros]: "keeps XI I (food_new i)" "keeps XI I (egg_new i)"
  unfolding food_new_def egg_new_def Food_world_id_def Egg_world_id_def
  by (intro pres_intros I_new_object; simp)+

lemma load_memory_yields:
  assumes "blob_column b = ''data''" and "blob_table b \<in> {''Code'', ''Registers''}"
    and "\<And>m. wf_memory m \<Longrightarrow> data_size_ok b (unat (mem_size m)) \<Longrightarrow> keeps XI I (f m)"
  shows "keeps XI I (andthen (load_memory b) f)"
proof (rule keeps_andthen_yields)
  fix s m s'
  assume "I s" and "load_memory b s = (Inr m, s')"
  with loaded_memory [OF I_D assms(1,2), of s]
  show "wf_memory m \<and> data_size_ok b (unat (mem_size m))"
    by (auto simp: load_memory_def from_database_def split: prod.splits sum.splits)
qed (use assms(3) in \<open>auto intro: pres_intros\<close>)

lemma I_bug_new [pres_intros]: "keeps XI I (bug_new i)"
  unfolding bug_new_def AliveBug_world_id_def AliveBug_registers_id_def AliveBug_memory_id_def
  by (intro pres_intros load_memory_yields I_new_object)
    (auto simp: registers_data_def code_data_def intro: cpu_ok_new [unfolded registers_data_def code_data_def])

section \<open>The CPU of a bug\<close>

definition J :: "bug_cpu \<Rightarrow> bool" where
  "J = fits (\<lambda>n k m. sizes_ok n k \<and> I (sim_of m))"

lemma J_iff: "J c \<longleftrightarrow> wf_cpu c \<and> sizes_ok (mem_size (cpu_registers c)) (mem_size (cpu_memory c)) \<and> I (bc_sim c)"
  by (simp add: J_def fits_def)

definition XJ :: "exn \<Rightarrow> bug_cpu \<Rightarrow> bool" where
  "XJ x c = X x (sim_db (leave_cpu c))"

lemma J_caught:
  assumes "keeps XJ J m" and "\<And>x p. h x = Some p \<Longrightarrow> x \<noteq> DBException \<and> keeps XJ J p"
  shows "keeps XJ J (try_catch m h)"
  by (rule keeps_try_catch [OF assms(1)]) (use assms(2) caught in \<open>auto simp: XJ_def\<close>)

lemma D_store_changes:
  assumes "D db" and "blob_column b = ''data''" and "blob_table b \<in> {''Code'', ''Registers''}"
    and "data_size_ok b (length (mem_bytes new))"
  shows "D (store_changes b old new db)"
  using D_put [OF assms] assms(1) by (simp add: store_changes_def)

lemma J_leave:
  assumes "J c"
  shows "I (leave_cpu c)"
proof (cases "sim_heap (bc_sim c) (bc_bug c)")
  case (Some ent)
  show ?thesis
  proof (cases ent)
    case (Bug b)
    have J: "wf_cpu c" "sizes_ok (mem_size (cpu_registers c)) (mem_size (cpu_memory c))" "I (bc_sim c)"
      using assms by (auto simp: J_iff)
    then have "length (mem_bytes (cpu_registers c)) = 544"
      "data_size_ok (code_data i) (length (mem_bytes (cpu_memory c)))" for i
      by (auto simp: wf_cpu_def wf_memory_def sizes_ok_def data_size_ok_def code_data_def unat_gt_0)
    then have "D (store_changes (registers_data (bo_registers b)) (cpu_registers (bo_cpu b)) (cpu_registers c)
        (store_changes (code_data (bo_memory b)) (cpu_memory (bo_cpu b)) (cpu_memory c) (sim_db (bc_sim c))))"
      using I_D [OF J(3)]
      by (intro D_store_changes) (simp_all add: code_data_def registers_data_def data_size_ok_def)
    moreover have "cpu_ok (cpu_state.truncate c)"
      using J(1,2) by (simp add: cpu_ok_def wf_cpu_def)
    ultimately show ?thesis
      using J(3) Some Bug by (simp add: leave_cpu_def I_def) (auto intro: heap_ok_upd(1))
  qed (use assms Some in \<open>simp_all add: leave_cpu_def J_iff\<close>)
qed (use assms in \<open>simp add: leave_cpu_def J_iff\<close>)

lemma J_enter: "I s \<Longrightarrow> cpu_ok c \<Longrightarrow> J (enter_cpu c p s)"
  by (simp add: J_iff cpu_ok_def wf_cpu_def)

text \<open>Back in the CPU nothing is left to be stored.\<close>

lemma back_in_cpu:
  fixes c :: bug_cpu and s :: sim
  defines "c' \<equiv> (case sim_heap s (bc_bug c) of Some (Bug b) \<Rightarrow> enter_cpu (bo_cpu b) (bc_bug c) s
      | _ \<Rightarrow> c\<lparr>bc_sim := s\<rparr>)"
  shows "sim_db (leave_cpu c') = sim_db s" and "J c \<Longrightarrow> I s \<Longrightarrow> J c'"
  by (auto simp: c'_def leave_cpu_def store_changes_def J_iff wf_cpu_def I_def cpu_ok_def dest!: heap_okD
      split: option.split entity.split)

lemma J_in_sim [pres_intros]:
  assumes "\<And>p. keeps XI I (f p)"
  shows "keeps XJ J (in_sim f)"
proof (rule keepsI)
  show "J c' \<or> XJ x c'" if "J c" "in_sim f c = (Inl x, c')" for c x c'
    using that keepsD(1) [OF assms J_leave [OF that(1)]] back_in_cpu(2) [OF that(1)]
    by (fastforce simp: in_sim_def XI_def XJ_def back_in_cpu(1) split: prod.splits)
  show "J c'" if "J c" "in_sim f c = (Inr v, c')" for c v c'
    using that keepsD(2) [OF assms J_leave [OF that(1)]] back_in_cpu(2) [OF that(1)]
    by (auto simp: in_sim_def split: prod.splits)
qed

lemma I_on_cpu:
  assumes "keeps XJ J prog"
  shows "keeps XI I (on_cpu p prog)"
proof (rule keepsI)
  have J: "J (enter_cpu (bo_cpu b) p s)" if "I s" "as_bug (sim_heap s p) = Inr b" for s b
    using that by (intro J_enter) (auto simp: I_def as_bug_def dest: heap_okD split: option.splits entity.splits)
  show "I s' \<or> XI x s'" if "I s" "on_cpu p prog s = (Inl x, s')" for s x s'
    using that keepsD(1) [OF assms J [OF that(1)]]
    by (fastforce simp: on_cpu_def XI_def XJ_def intro: J_leave split: prod.splits sum.splits)
  show "I s'" if "I s" "on_cpu p prog s = (Inr v, s')" for s v s'
    using that keepsD(2) [OF assms J [OF that(1)]]
    by (auto simp: on_cpu_def intro: J_leave split: prod.splits sum.splits)
qed

lemma J_registers [pres_intros]:
  "keeps XJ J (get_reg en r b)" "keeps XJ J (set_reg en r w b)" "keeps XJ J (get_mem en a b)"
  "keeps XJ J (interrupt_enabled en code)" "keeps XJ J (cpu_interrupt en isa code g1 g2)"
  unfolding J_def by (intro pres_intros)+

lemma D_nulls [pres_intros]:
  "c = ''father_id'' \<Longrightarrow> keeps X D (set_null ''Bug'' c i)"
  "c = ''time_last_action'' \<or> c = ''action_time'' \<Longrightarrow> keeps X D (set_null ''AliveBug'' c i)"
  "c = ''orientation'' \<Longrightarrow> keeps X D (set_null ''World'' c i)"
  unfolding set_null_def by (rule D_update; auto simp: schema_def table_defs)+

lemma I_null [pres_intros]: "keeps XI I (bug_is_null p c)" "keeps XI I (bug_set_null p c)"
  unfolding bug_is_null_def bug_set_null_def by (intro pres_intros; assumption?)+

section \<open>Interrupts and events\<close>

lemma J_interrupt [pres_intros]: "keeps XJ J (bug_interrupt code g1 g2)"
  unfolding bug_interrupt_def by (intro pres_intros)

lemma I_events [pres_intros]: "keeps XI I (bug_attacked p)" "keeps XI I (bug_timer_interrupt p)"
  unfolding bug_attacked_def bug_timer_interrupt_def timer_interrupt_def bug_class_def
    cpu_class.select_convs
  by (intro pres_intros I_on_cpu)+

lemma I_reload [pres_intros]: "keeps XI I (reload_code p)"
  unfolding reload_code_def
proof (rule keeps_andthen_yields)
  show "cpu_ok (bo_cpu b)" if "I s" "the_bug p s = (Inr b, s')" for s b s'
    using that by (auto simp: the_bug_def as_bug_def I_def dest: heap_okD split: option.splits entity.splits)
  show "keeps XI I (andthen (load_memory (code_data (bo_memory b))) (\<lambda>m.
      updating (\<lambda>s. Inr (s\<lparr>sim_heap := (sim_heap s)(p \<mapsto> Bug (b\<lparr>bo_cpu := (bo_cpu b)\<lparr>cpu_memory := m\<rparr>\<rparr>))\<rparr>))))"
    if b: "cpu_ok (bo_cpu b)" for b
  proof (rule load_memory_yields)
    fix m
    assume "wf_memory m" and "data_size_ok (code_data (bo_memory b)) (unat (mem_size m))"
    with b have "cpu_ok ((bo_cpu b)\<lparr>cpu_memory := m\<rparr>)"
      by (auto simp: cpu_ok_def wf_cpu_def sizes_ok_def data_size_ok_def code_data_def)
    then show "keeps XI I (updating (\<lambda>s. Inr (s\<lparr>sim_heap := (sim_heap s)
        (p \<mapsto> Bug (b\<lparr>bo_cpu := (bo_cpu b)\<lparr>cpu_memory := m\<rparr>\<rparr>))\<rparr>)))"
      by (intro keeps_updating) (auto simp: I_def intro!: heap_ok_upd)
  qed (simp_all add: code_data_def)
qed (rule pres_intros)

lemma I_mutated [pres_intros]: "keeps XI I (bug_mutated p)"
  unfolding bug_mutated_def by (intro pres_intros I_on_cpu)

section \<open>Life and death\<close>

lemma I_energy [pres_intros]:
  "keeps XI I (sw_substract_energy p n)" "keeps XI I (sw_substract_energy_egg p n)"
  unfolding sw_substract_energy_def sw_substract_energy_egg_def by (intro pres_intros)+

lemma I_pay [pres_intros]: "(\<And>i. keeps X D (price i)) \<Longrightarrow> keeps XI I (pay price p)"
  unfolding pay_def by (intro pres_intros)

lemma I_row_position [pres_intros]: "preserves I (row_position i)" "keeps XI I (row_position i)"
  unfolding row_position_def by (intro pres_intros)+

lemma I_front [pres_intros]: "preserves I (sw_front p)" "keeps XI I (sw_front p)"
  unfolding sw_front_def by (intro pres_intros)+

lemma I_birth [pres_intros]: "keeps XI I (sw_birth p)"
  unfolding sw_birth_def by (intro pres_intros)

lemma I_become_food: "keeps X D bury \<Longrightarrow> keeps XI I (become_food now w n bury)"
  unfolding become_food_def by (intro pres_intros)

lemma I_kills [pres_intros]:
  "keeps XI I (sw_kill_egg p)" "keeps XI I (sw_kill_egg_by k p)" "keeps XI I (sw_kill p)" "keeps XI I (sw_kill_by k p)"
  unfolding sw_kill_egg_def sw_kill_egg_by_def sw_kill_def sw_kill_by_def kill_egg_with_def kill_bug_with_def
  by (intro pres_intros I_become_food)+

section \<open>Actions\<close>

lemma I_nothing [pres_intros]: "keeps XI I (sw_nothing p)"
  unfolding sw_nothing_def by (intro pres_intros)

lemma I_myself [pres_intros]: "keeps XI I (sw_myself p f)"
  unfolding sw_myself_def by (cases f; simp only: info.case; intro pres_intros)

lemma I_detect [pres_intros]: "keeps XI I (sw_detect p)"
  unfolding sw_detect_def
  by (intro pres_intros I_caught) (auto split: if_splits intro: pres_intros)

lemma I_target_at [pres_intros]: "keeps XI I (target_at pos)"
  unfolding target_at_def by (intro I_caught) (auto split: if_splits intro: pres_intros)

lemma I_information [pres_intros]: "keeps XI I (sw_information p f)"
  unfolding sw_information_def Let_def by (cases f; simp only: info.case; intro pres_intros)

lemma I_damage [pres_intros]: "keeps XI I (damage pf n)"
  unfolding damage_def by (intro pres_intros)

lemma I_attack [pres_intros]: "keeps XI I (sw_attack pf p n)"
  unfolding sw_attack_def Let_def
  by (intro pres_intros I_caught) (auto split: if_splits intro!: pres_intros)

lemma I_eat [pres_intros]: "keeps XI I (sw_eat p)"
  unfolding sw_eat_def Let_def by (intro pres_intros)

text \<open>Whatever exception is turned into an \<open>ActionError\<close>, the program inside must keep the invariant.\<close>

lemma I_as_action_error:
  assumes "preserves I m"
  shows "keeps XI I (as_action_error m)"
  using assms unfolding as_action_error_def
  by (intro keepsI) (auto split: prod.splits sum.splits if_splits dest: preservesD)

lemma I_turn [pres_intros]: "keeps XI I (sw_turn p side)"
  unfolding sw_turn_def World_set_orientation_def
  by (intro pres_intros I_as_action_error D_position)

lemma I_move_step:
  "preserves I (andthen (on_world (\<lambda>w. world_move w here front)) (\<lambda>_.
      if pos_x here \<noteq> pos_x front
      then on_database (World_set_position_x (pos_x front) i)
      else on_database (World_set_position_y (pos_y front) i)))"
proof (rule keeps_andthen_yields)
  show "in_world dims front" if "I s" "on_world (\<lambda>w. world_move w here front) s = (Inr u, s')" for s u s'
    using that by (auto simp: on_world_def attempt_eq_Inr I_def grid_ok_def dest!: world_move_target split: sum.splits)
  show "preserves I (if pos_x here \<noteq> pos_x front
      then on_database (World_set_position_x (pos_x front) i)
      else on_database (World_set_position_y (pos_y front) i))" if "in_world dims front"
    using that unfolding in_world_def World_set_position_x_def World_set_position_y_def
    by (intro pres_intros D_position) simp_all
qed (rule I_on_world, rule grid_steps)

lemma I_move [pres_intros]: "keeps XI I (sw_move p m)"
  unfolding sw_move_def
  by (rule I_move_step I_as_action_error I_pay keeps_columns keeps_readings I_row_position I_front keeps_andthen)+

section \<open>Eggs\<close>

lemma I_may_not_return:
  assumes "\<And>db n r db' n'. D db \<Longrightarrow> f db n = Some (r, db', n') \<Longrightarrow> D db' \<or> (\<exists>x. r = Inl x \<and> X x db')"
  shows "keeps XI I (\<lambda>s. case f (sim_db s) (sim_rand s) of None \<Rightarrow> (Inl NoReturn, s)
      | Some (r, db, n) \<Rightarrow> (r, s\<lparr>sim_db := db, sim_rand := n\<rparr>))"
proof (rule keepsI)
  fix s s' x
  assume s: "I s"
  note fs = assms [OF I_D [OF s], of "sim_rand s"]
  show "I s' \<or> XI x s'" if "(case f (sim_db s) (sim_rand s) of None \<Rightarrow> (Inl NoReturn, s)
      | Some (r, db, n) \<Rightarrow> (r, s\<lparr>sim_db := db, sim_rand := n\<rparr>)) = (Inl x, s')"
    using that s fs by (fastforce simp: I_def XI_def split: option.splits)
  show "I s'" if "(case f (sim_db s) (sim_rand s) of None \<Rightarrow> (Inl NoReturn, s)
      | Some (r, db, n) \<Rightarrow> (r, s\<lparr>sim_db := db, sim_rand := n\<rparr>)) = (Inr v, s')" for v
    using that s fs by (fastforce simp: I_def split: option.splits)
qed

lemma I_mutated_code [pres_intros]: "keeps XI I (mutated_code pf i)" "keeps XI I (mutate_code_of pf i)"
  unfolding mutated_code_def mutate_code_of_def
  by (intro pres_intros I_may_not_return; erule D_mutate_new D_mutate_bug; assumption)+

lemma I_egg_code [pres_intros]: "keeps XI I (egg_code pf i j k)"
  unfolding egg_code_def by (intro pres_intros)

end

end
