(* ===== verification/Sim_Invariant.thy ===== *)
theory Sim_Invariant
  imports Sim_Rows
begin

text \<open>
  Invariants of a whole simulation.  The interface \<open>simulation_invariant\<close> adds the savepoint of
  \<open>egg\<close> to that of the rows; its lemmas carry the property of the database through every operation
  of \<open>SimpleWorld\<close>, through the CPUs of the bugs and back.
\<close>

text \<open>The cycle after the time of the environment has been set.\<close>

definition after_time :: "platform \<Rightarrow> uint32 \<Rightarrow> (sim, uint32) prog" where
  "after_time pf time =
     andthen sw_eggs_birth (\<lambda>_.
     andthen (sw_bugs_mutate pf) (\<lambda>_.
     andthen (if time mod 64 = 0 then sw_bugs_timer else ret ()) (\<lambda>_.
     andthen (sw_bugs_run pf) (\<lambda>_.
     andthen sw_bugs_laziness (\<lambda>_.
     andthen sw_food_rot (\<lambda>_.
     andthen (if time mod 1024 = 0 then insert_stats else ret ()) (\<lambda>_.
     ret time)))))))"

section \<open>The interface\<close>

text \<open>\<open>D'\<close> is the property while the savepoint is set.\<close>

locale simulation_invariant =
  simulation_rows D X dims e + nested: simulation_rows D' X dims e
  for D X dims e and D' :: "database \<Rightarrow> bool" +
  assumes D_savepoint: "leads X D D' (sql_savepoint ''egg;'')"
    and D_rollback_to: "keeps X D' (sql_rollback_to ''egg;'')"
    and D_release: "leads X D' D (sql_release ''egg;'')"
    and D_nested: "D' db \<Longrightarrow> D db"
begin

section \<open>Eggs\<close>

lemma leads_savepoint:
  assumes "leads X P Q q"
  shows "leads XI (\<lambda>s. P (sim_db s) \<and> R (sim_world s) (sim_env s) (sim_heap s))
    (\<lambda>s. Q (sim_db s) \<and> R (sim_world s) (sim_env s) (sim_heap s))
    (on_savepoint (\<lambda>t. on_connection q (tx_started t) t))"
proof -
  have run: "on_savepoint (\<lambda>t. on_connection q (tx_started t) t) s =
      (case q (sim_db s) of (r, db) \<Rightarrow> (r, s\<lparr>sim_db := db\<rparr>))" for s
    by (auto simp: on_savepoint_def on_connection_def transaction_new_def split: prod.split sum.split)
  show ?thesis
    using assms by (fastforce simp: leads_def run XI_def split: prod.splits sum.splits)
qed

lemma I_fun:
  "I = (\<lambda>s. D (sim_db s) \<and> grid_ok dims (sim_world s) \<and> sim_env s = e \<and> heap_ok (sim_heap s))"
  "nested.I = (\<lambda>s. D' (sim_db s) \<and> grid_ok dims (sim_world s) \<and> sim_env s = e \<and> heap_ok (sim_heap s))"
  by (simp_all add: fun_eq_iff I_def nested.I_def)

lemma I_savepoint:
  "leads XI I nested.I (on_savepoint (transaction_savepoint ''egg;''))"
  "leads XI nested.I I (on_savepoint (transaction_release ''egg;''))"
  "keeps XI nested.I (on_savepoint (transaction_rollback_to ''egg;''))"
  unfolding leads_same [symmetric] transaction_savepoint_def transaction_rollback_to_def
    transaction_release_def I_fun
  by (rule leads_savepoint, rule D_savepoint D_release D_rollback_to [folded leads_same])+

lemma nested_I: "nested.I s \<Longrightarrow> I s"
  by (simp add: I_def nested.I_def D_nested)

text \<open>The egg is paid for by the bug, or the savepoint is restored.\<close>

lemma I_egg_paid [pres_intros]:
  "keeps XI nested.I (try_catch
     (andthen (on_database (Egg_memory_id i)) (\<lambda>memory_id.
      andthen (code_size memory_id) (sw_substract_energy p)))
     (\<lambda>x. if x = BugDeath
          then Some (andthen (on_savepoint (transaction_rollback_to ''egg;'')) (\<lambda>_. throw BugDeath))
          else None))"
  by (intro nested.I_caught) (auto split: if_splits intro!: pres_intros I_savepoint)

lemma I_egg [pres_intros]: "keeps XI I (sw_egg pf p n)"
  unfolding sw_egg_def
  apply (rule keeps_andthen, intro I_pay keeps_columns)
  apply (rule keeps_if, rule keeps_throw)
  apply (rule keeps_andthen, rule I_front(2))
  apply (rule keeps_andthen, rule keeps_readings)
  apply (rule keeps_if, rule keeps_throw)
  apply (rule leads_andthen [where Q = I, OF I_savepoint(1) _ nested_I, unfolded leads_same])
  apply ((rule leads_prod)?, rule leads_then [OF _ _ nested_I], (intro pres_intros)[1])+
  apply (rule I_savepoint(2))
  by assumption+

section \<open>The instruction world\<close>

lemma action_duration_cases:
  assumes "action_duration a = Some g"
  shows "keeps X P (g i)"
  using assms unfolding action_duration_def by (auto intro: pres_intros split: if_splits)

lemma I_action_times [pres_intros]:
  "keeps XI I (bug_action_time p)" "keeps XI I (bug_set_action_time t p)" "keeps XI I (bug_set_time_last_action t p)"
  unfolding bug_action_time_def bug_set_action_time_def bug_set_time_last_action_def by (intro pres_intros)+

lemma J_begin_action [pres_intros]: "keeps XJ J (begin_action a t)"
  unfolding begin_action_def by (intro pres_intros action_duration_cases)

lemma J_answer [pres_intros]: "(\<And>p. keeps XI I (f p)) \<Longrightarrow> keeps XJ J (answer f)"
  unfolding answer_def finish_def by (intro pres_intros)

lemma J_perform [pres_intros]: "keeps XJ J (perform pf a)"
  unfolding perform_def finish_def by (intro pres_intros)

text \<open>An action that succeeds says so in \<open>G0\<close>.\<close>

lemma then_succeeds:
  assumes "keeps XJ J m" and "\<And>y. ends (\<lambda>_ _. True) J (\<lambda>_ c. reg c REGISTER_G0 = ActionSuccess) (f y)"
  shows "ends (\<lambda>_ _. True) J (\<lambda>_ c. reg c REGISTER_G0 = ActionSuccess) (andthen m f)"
  by (rule ends_andthen [OF ends_keeps [OF assms(1)] assms(2)]) simp

lemma finish_succeeds: "ends (\<lambda>_ _. True) J (\<lambda>_ c. reg c REGISTER_G0 = ActionSuccess) finish"
  by (simp add: ends_def finish_def J_iff reg_put_reg)

lemma answer_succeeds:
  "(\<And>p. keeps XI I (f p)) \<Longrightarrow> ends (\<lambda>_ _. True) J (\<lambda>_ c. reg c REGISTER_G0 = ActionSuccess) (answer f)"
  unfolding answer_def
  by (intro then_succeeds pres_intros) (auto split: prod.split intro!: then_succeeds finish_succeeds pres_intros)

lemma perform_succeeds: "ends (\<lambda>_ _. True) J (\<lambda>_ c. reg c REGISTER_G0 = ActionSuccess) (perform pf a)"
proof -
  have "ends (\<lambda>_ _. True) J (\<lambda>_ c. reg c REGISTER_G0 = ActionSuccess) (throw x)" for x
    by (simp add: ends_def)
  then show ?thesis
    unfolding perform_def
    by (auto intro!: then_succeeds answer_succeeds finish_succeeds pres_intros simp del: andthen_apply)
qed

lemma J_world_op: "keeps XJ J (world_op pf cls inst)"
  unfolding world_op_def
  by (intro pres_intros J_caught) (auto split: if_splits intro: pres_intros)

lemma J_machine: "cpu_machine bug_class (world_isa (world_op pf)) XJ J"
proof
  show "\<not> XJ CodeError c" "\<not> XJ (MemoryError a) c" for a c
    unfolding XJ_def by (rule caught; simp)+
  show interrupts: "keeps XJ J (vinterrupt bug_class code g1 g2)" for code g1 g2
    by (simp add: bug_class_def J_interrupt)
  show "keeps XJ J (inst_func info bug_class inst)"
    if "instructions (world_isa (world_op pf)) c = Some info" for c info inst
  proof (cases "c = 0x58")
    case True
    with that show ?thesis
      by (auto simp: world_isa_instructions J_world_op)
  next
    case False
    with that have "(c, info) \<in> set base_instructions"
      by (auto simp: world_isa_instructions dest: map_of_SomeD)
    then show ?thesis
      unfolding J_def by (intro base_operations_keep interrupts [unfolded J_def])
  qed
qed (simp_all add: J_def sized_write_register sized_stop)

lemma J_next [pres_intros]: "keeps XJ J (bug_next (world_op pf))"
  unfolding bug_next_def
  by (intro J_caught cpu_machine.keeps_next J_machine)
    (auto split: if_splits intro: pres_intros)

lemma J_execute_loop: "keeps XJ J (execute_loop (bug_next (world_op pf)) n)"
  by (induction n) (auto simp del: andthen_apply ret_apply intro!: pres_intros)

lemma I_execute [pres_intros]: "keeps XI I (bug_execute pf p)"
  unfolding bug_execute_def execute_cycles_def by (intro pres_intros I_on_cpu J_execute_loop)

section \<open>One cycle of the world\<close>

lemma keeps_for_all [pres_intros]: "(\<And>x. keeps Y P (f x)) \<Longrightarrow> keeps Y P (for_all xs f)"
  unfolding for_all_def by (intro pres_intros)

lemma I_random [pres_intros]: "keeps Y I (random_position pf lo hi)" "keeps Y I (random_side pf)"
  by (auto intro!: keepsI simp: random_position_def random_side_def split: option.splits)

lemma I_corner [pres_intros]:
  "(\<And>i. keeps X D (gx i)) \<Longrightarrow> (\<And>i. keeps X D (gy i)) \<Longrightarrow> keeps XI I (corner gx gy i)"
  unfolding corner_def by (intro pres_intros)

lemma I_unless_full: "keeps XI I m \<Longrightarrow> keeps XI I (unless_full m)"
  unfolding unless_full_def
  by (intro I_caught) (auto split: if_splits intro: pres_intros)

lemma I_spawn_one [pres_intros]:
  "keeps XI I (spawn_egg pf i lo hi n)" "keeps XI I (spawn_one_food pf t lo hi n)"
  unfolding spawn_egg_def spawn_one_food_def by (intro pres_intros)+

lemma I_spawn [pres_intros]: "keeps XI I (sw_spawn_eggs pf)" "keeps XI I (sw_spawn_food pf)"
  unfolding sw_spawn_eggs_def sw_spawn_food_def by (intro pres_intros I_unless_full)+

lemma I_eggs_birth [pres_intros]: "keeps XI I sw_eggs_birth"
  unfolding sw_eggs_birth_def by (intro pres_intros)

lemma I_bugs_mutate [pres_intros]: "keeps XI I (sw_bugs_mutate pf)"
  unfolding sw_bugs_mutate_def by (intro pres_intros)

lemma I_bugs_timer [pres_intros]: "keeps XI I sw_bugs_timer"
  unfolding sw_bugs_timer_def
  by (intro pres_intros I_caught) (auto split: if_splits intro: pres_intros)

lemma I_bugs_run [pres_intros]: "keeps XI I (sw_bugs_run pf)"
  unfolding sw_bugs_run_def
  by (intro pres_intros I_caught) (auto split: if_splits intro: pres_intros)

lemma I_bugs_laziness [pres_intros]: "keeps XI I sw_bugs_laziness"
  unfolding sw_bugs_laziness_def Let_def
  by (intro pres_intros I_caught) (auto split: if_splits intro: pres_intros)

lemma I_food_rot [pres_intros]: "keeps XI I sw_food_rot"
  unfolding sw_food_rot_def by (intro pres_intros)

lemma D_insert_current:
  assumes "D db" and "Stats_insert_current db = Some (r, db')"
  shows "D db' \<or> (\<exists>x. r = Inl x \<and> X x db')"
  using assms keepsD [OF D_inserts(14) assms(1)]
  by (cases r) (auto simp: Stats_insert_current_def split: option.splits sum.splits)

lemma I_insert_stats [pres_intros]: "keeps XI I insert_stats"
proof (rule keepsI)
  fix s s' x
  assume s: "I s"
  note stats = D_insert_current [OF I_D [OF s]]
  show "I s' \<or> XI x s'" if "insert_stats s = (Inl x, s')"
    using that s stats by (fastforce simp: insert_stats_def I_def XI_def split: option.splits prod.splits sum.splits)
  show "I s'" if "insert_stats s = (Inr v, s')" for v
    using that s stats by (fastforce simp: insert_stats_def I_def split: option.splits prod.splits sum.splits)
qed

lemma I_after_time: "keeps XI I (after_time pf time)"
  unfolding after_time_def by (intro pres_intros)

end

end
