(* ===== verification/Sim_Integrity.thy ===== *)
theory Sim_Integrity
  imports Sim_Invariant
begin

text \<open>
  Integrity of a running simulation: no operation of \<open>SimpleWorld\<close>, however it ends, breaks a
  constraint of the database or the memories of a bug.
\<close>

section \<open>The integrity of the database\<close>

lemma preservesI: "(\<And>s r s'. P s \<Longrightarrow> m s = (r, s') \<Longrightarrow> P s') \<Longrightarrow> preserves P m"
  unfolding preserves_iff by (metis prod.collapse)

lemma preserves_statements:
  "preserves database_ok (sql_insert t vals)" "preserves database_ok (sql_delete t i)"
  "(\<And>d. map_of schema t = Some d \<Longrightarrow> c \<noteq> td_key d) \<Longrightarrow> preserves database_ok (sql_update t c v i)"
  "preserves database_ok (sql_savepoint name)" "preserves database_ok (sql_release name)"
  "preserves database_ok (sql_rollback_to name)" "preserves database_ok sql_begin"
  "preserves database_ok sql_commit" "preserves database_ok sql_rollback"
  by (rule preservesI, erule row_step_ok transaction_step_ok,
    erule row_step.intros transaction_step.intros, (assumption | blast)?)+

lemma world_columns:
  "map_of schema ''World'' = Some d \<Longrightarrow> td_key d = ''id''"
  "map_of schema ''Environment'' = Some d \<Longrightarrow> td_key d = ''id''"
  by (auto simp: schema_def table_defs)

interpretation sound: simulation_invariant database_ok "\<lambda>_ _. False" dims e database_ok for dims e
  by unfold_locales
    (auto simp: database_ok_def [of db for db] intro!: preserves_statements dest: world_columns)

text \<open>The simulation of the integrity property.\<close>

definition sim_ok :: "position \<Rightarrow> row_id \<Rightarrow> sim \<Rightarrow> bool" where
  "sim_ok dims e s \<longleftrightarrow>
     database_ok (sim_db s) \<and> grid_ok dims (sim_world s) \<and> sim_env s = e \<and> heap_ok (sim_heap s)"

lemma sim_ok_I: "sim_ok dims e = sound.I dims e"
  by (simp add: fun_eq_iff sim_ok_def sound.I_def)

lemma sound_preserves:
  assumes "keeps sound.XI (sound.I dims e) m"
  shows "preserves (sim_ok dims e) m"
proof -
  have "sound.XI = (\<lambda>_ _. False)"
    by (simp add: fun_eq_iff sound.XI_def)
  with assms show ?thesis
    by (simp add: sim_ok_I)
qed

lemma ok_database:
  "preserves database_ok p \<Longrightarrow> preserves (sim_ok dims e) (on_database p)"
  unfolding sim_ok_I by (rule sound.I_on_database_preserves)

lemma ok_env: "(\<And>i. preserves database_ok (p i)) \<Longrightarrow> preserves (sim_ok dims e) (env p)"
  unfolding sim_ok_I by (rule sound_preserves [OF sound.I_env, unfolded sim_ok_I])

section \<open>Transactions around a program\<close>

lemma preserves_connection:
  assumes "preserves database_ok p"
  shows "preserves (\<lambda>t. database_ok (tx_db t)) (on_connection p b)"
proof (rule preservesI)
  fix t r t'
  assume "database_ok (tx_db t)" and "on_connection p b t = (r, t')"
  then show "database_ok (tx_db t')"
    using preservesD [OF assms] by (cases "p (tx_db t)") (auto simp: on_connection_def split: sum.splits)
qed

lemma ok_transactions:
  "transaction_start type db = (r, t) \<Longrightarrow> database_ok db \<Longrightarrow> database_ok (tx_db t)"
  "transaction_commit t = (r', t') \<Longrightarrow> database_ok (tx_db t) \<Longrightarrow> database_ok (tx_db t')"
  "transaction_destroy t = (r', t') \<Longrightarrow> database_ok (tx_db t) \<Longrightarrow> database_ok (tx_db t')"
proof -
  note step = preservesD [OF preserves_connection]
  show "transaction_start type db = (r, t) \<Longrightarrow> database_ok db \<Longrightarrow> database_ok (tx_db t)"
    unfolding transaction_start_def transaction_begin_def
    by (rule step [OF preserves_statements(7)]) (simp_all add: transaction_new_def)
  show "transaction_commit t = (r', t') \<Longrightarrow> database_ok (tx_db t) \<Longrightarrow> database_ok (tx_db t')"
    unfolding transaction_commit_def by (rule step [OF preserves_statements(8)])
  show "transaction_destroy t = (r', t') \<Longrightarrow> database_ok (tx_db t) \<Longrightarrow> database_ok (tx_db t')"
    using step [OF preserves_statements(9), of t False r' t']
    by (auto simp: transaction_destroy_def transaction_rollback_def split: if_splits)
qed

lemma sim_ok_db: "sim_ok dims e s \<Longrightarrow> database_ok db \<Longrightarrow> sim_ok dims e (s\<lparr>sim_db := db\<rparr>)"
  "sim_ok dims e s \<Longrightarrow> database_ok (sim_db s)"
  by (auto simp: sim_ok_def)

lemma ok_abandon: "preserves (sim_ok dims e) (abandon x t)"
proof (rule preservesI)
  fix s r s'
  assume "sim_ok dims e s" and "abandon x t s = (r, s')"
  then show "sim_ok dims e s'"
    by (auto simp: abandon_def intro!: sim_ok_db dest: ok_transactions(3) split: if_splits prod.splits sum.splits)
qed

lemma ok_in_transaction:
  assumes "preserves (sim_ok dims e) body"
  shows "preserves (sim_ok dims e) (in_transaction body)"
proof (rule preservesI)
  fix s r s'
  assume s: "sim_ok dims e s" and run: "in_transaction body s = (r, s')"
  obtain r1 t where start: "transaction_start Immediate (sim_db s) = (r1, t)"
    by fastforce
  have t: "sim_ok dims e (s\<lparr>sim_db := tx_db t\<rparr>)"
    using s start by (auto intro!: sim_ok_db dest: ok_transactions)
  obtain r2 u where body: "body (s\<lparr>sim_db := tx_db t\<rparr>) = (r2, u)"
    by fastforce
  with assms t have u: "sim_ok dims e u"
    by (auto dest: preservesD)
  obtain r3 v where commit: "transaction_commit (t\<lparr>tx_db := sim_db u\<rparr>) = (r3, v)"
    by fastforce
  then have v: "sim_ok dims e (u\<lparr>sim_db := tx_db v\<rparr>)"
    using u by (auto intro!: sim_ok_db dest: ok_transactions)
  show "sim_ok dims e s'"
    using run start body commit t u v
    by (auto simp: in_transaction_def intro: preservesD [OF ok_abandon] split: sum.splits)
qed

section \<open>The whole program\<close>

lemma ok_cycle: "preserves (sim_ok dims e) (run_cycle pf time)"
proof -
  have "run_cycle pf time = andthen (sw_spawn_eggs pf) (\<lambda>_. andthen (sw_spawn_food pf) (\<lambda>_.
      andthen (env (Environment_set_time (time + 1))) (\<lambda>_. after_time pf (time + 1))))"
    by (simp add: run_cycle_def after_time_def Let_def)
  moreover have "preserves (sim_ok dims e) (env (Environment_set_time v))" for v
    by (intro ok_env) (auto simp: Environment_set_time_def intro!: preserves_statements dest: world_columns)
  moreover note sound_preserves [OF sound.I_spawn(1)] sound_preserves [OF sound.I_spawn(2)]
    sound_preserves [OF sound.I_after_time]
  ultimately show ?thesis
    by (auto intro!: keeps_andthen simp del: andthen_apply)
qed

lemma ok_batches: "preserves (sim_ok dims e) (run_batches pf cycles time)"
proof (rule preservesI)
  show "sim_ok dims e s'" if "sim_ok dims e s" "run_batches pf cycles time s = (r, s')" for s r s'
    using that
  proof (induction pf cycles time arbitrary: s r rule: run_batches.induct)
    case (1 pf cycles time)
    let ?batch = "in_transaction
      (andthen (for_each [0..<min cycles CYCLES_BY_TRANSACTION] (\<lambda>_ time. run_cycle pf time) time) (\<lambda>_. ret ()))"
    have "preserves (sim_ok dims e) ?batch"
      by (intro ok_in_transaction pres_intros ok_cycle)
    then have batch: "sim_ok dims e t" if "?batch s = (x, t)" for x t
      using that "1.prems"(1) by (auto dest: preservesD)
    show ?case
    proof (cases "cycles = 0")
      case True
      with "1.prems" show ?thesis
        by (simp add: run_batches.simps)
    next
      case False
      obtain x t where t: "?batch s = (x, t)"
        by fastforce
      with False "1.prems"(2) "1.IH" [OF False refl t [symmetric]] batch [OF t] show ?thesis
        by (cases x) (simp_all add: run_batches.simps [of pf cycles] Let_def)
    qed
  qed
qed

lemma ok_run: "preserves (sim_ok dims e) (sw_run pf cycles)"
  unfolding sw_run_def Environment_time_def column_int_def
  by (intro keeps_andthen ok_env ok_batches keeps_reading)

lemma ok_world_error: "preserves (sim_ok dims e) m \<Longrightarrow> preserves (sim_ok dims e) (as_world_error m)"
  unfolding as_world_error_def by (intro preserves_try_catch) (auto split: if_splits intro: keeps_throw)

lemma ok_reading: "preserves database_ok (reading f)"
  by (rule keeps_reading)

lemmas ok_steps = keeps_andthen keeps_ret ok_database ok_env sound_preserves [OF sound.I_elements(1)]
  sound_preserves [OF sound.I_elements(2)] sound_preserves [OF sound.I_lists(1)]
  sound_preserves [OF sound.I_lists(2)] sound_preserves [OF sound.I_cells(1)]

lemma ok_add_egg: "preserves (sim_ok dims e) (sw_add_egg energy position orientation code)"
  unfolding sw_add_egg_def
  by (intro ok_in_transaction ok_world_error ok_steps keeps_reading sound.D_inserts sound.D_copy keeps_columns)

lemma ok_add_food: "preserves (sim_ok dims e) (sw_add_food position sz)"
  unfolding sw_add_food_def
  by (intro ok_in_transaction ok_world_error ok_steps keeps_reading sound.D_inserts keeps_columns)

lemma ok_load: "preserves (sim_ok dims e) load_elements"
  unfolding load_elements_def for_all_def load_food_def load_egg_def load_bug_def
  by (rule sound_preserves) (intro pres_intros)

lemma sw_new_loads:
  assumes "sw_new files name = Inr s"
  obtains db e p where "db_open files name = Inr db" and "load_elements (sim_empty db e p) = (Inr (), s)"
proof -
  obtain db e x y where db: "db_open files name = Inr db"
    and load: "(case load_elements (sim_empty db e \<lparr>pos_x = x, pos_y = y\<rparr>) of
      (Inl x, _) \<Rightarrow> Inl x | (Inr _, s) \<Rightarrow> Inr s) = Inr s"
    using assms unfolding sw_new_def attempt_eq_Inr by blast
  obtain r s' where "load_elements (sim_empty db e \<lparr>pos_x = x, pos_y = y\<rparr>) = (r, s')"
    by fastforce
  with load db that show ?thesis
    by (cases r) simp_all
qed

text \<open>
  C1: no operation of a simulation breaks the database or a bug.  Loading a consistent database gives
  a simulation whose database satisfies every constraint and in which every bug has registers of
  544 bytes and a memory of whole words; running it for any number of cycles, adding an egg and
  adding food keep this, whether they return, throw or meet a case without a meaning, and leave the
  size of the grid and the environment as they were.
\<close>

theorem simulation_integrity:
  "((\<forall>version db. files name = Some (version, db) \<longrightarrow> consistent db) \<and> sw_new files name = Inr s \<longrightarrow>
      sim_ok (w_size (sim_world s)) (sim_env s) s) \<and>
    preserves (sim_ok dims e) (sw_run pf cycles) \<and>
    preserves (sim_ok dims e) (sw_add_egg energy position orientation code) \<and>
    preserves (sim_ok dims e) (sw_add_food position sz)"
proof (intro conjI impI ok_run ok_add_egg ok_add_food, elim conjE)
  assume files: "\<forall>version db. files name = Some (version, db) \<longrightarrow> consistent db"
    and load: "sw_new files name = Inr s"
  obtain db e' p where db: "db_open files name = Inr db" "load_elements (sim_empty db e' p) = (Inr (), s)"
    using load by (rule sw_new_loads)
  then have "database_ok db"
    using files by (auto simp: db_open_def database_ok_def connection_def split: option.splits if_splits)
  then have "sim_ok p e' (sim_empty db e' p)"
    by (simp add: sim_ok_def sim_empty_def heap_ok_def grid_ok_def wf_world_new) (simp add: world_new_def)
  with ok_load db(2) have "sim_ok p e' s"
    by (blast dest: preservesD)
  then show "sim_ok (w_size (sim_world s)) (sim_env s) s"
    by (simp add: sim_ok_def grid_ok_def)
qed

section \<open>A concrete simulation\<close>

text \<open>The database \<open>create\<close> makes at the time \<open>t\<close>, and its simulation.\<close>

definition default_row :: "uint32 \<Rightarrow> row" where
  "default_row t = new_row environment_table 1 (environment_columns t default_environment)"

definition new_tables :: "uint32 \<Rightarrow> tables" where
  "new_tables t = (\<lambda>_. [])(''Environment'' := [(1, default_row t)])"

definition new_world :: "uint32 \<Rightarrow> sim" where
  "new_world t = sim_empty (connection (new_tables t)) 1 \<lparr>pos_x = 16, pos_y = 16\<rparr>"

lemmas default_row_defs = default_row_def new_row_def environment_table_def plain_table_def
  environment_columns_def col_def bind_int_def bind_short_def default_environment_def

lemma default_row_columns:
  "col (default_row t) ''time'' = Integer (sint t)" "col (default_row t) ''size_x'' = Integer 16"
  "col (default_row t) ''size_y'' = Integer 16" "col (default_row t) ''time_mutate'' = Integer 1024"
  by (simp_all add: default_row_defs)

lemma created:
  assumes "0 \<le> sint t"
  shows "Environment_insert t default_environment (connection (\<lambda>_. [])) =
    (Inr 1, (connection (new_tables t))\<lparr>db_last_id := 1\<rparr>)"
proof -
  have id: "insert_id environment_table (environment_columns t default_environment) [] = 1"
    by (simp add: insert_id_def environment_columns_def environment_table_def plain_table_def next_row_id_def)
  have check: "row_ok environment_table (default_row t)"
    using assms by (simp add: row_ok_def default_row_defs at_least_def)
  have cols: "set (map fst (environment_columns t default_environment)) \<subseteq> set (td_columns environment_table)"
    by (simp add: environment_columns_def environment_table_def plain_table_def)
  have raise: "\<not> td_raise_insert environment_table (\<lambda>_. []) (default_row t)"
    by (simp add: environment_table_def max_time_def)
  have keys: "unique_ok environment_table 1 (default_row t) []" "foreign_ok environment_table (default_row t) db" for db
    by (simp_all add: environment_table_def plain_table_def unique_ok_def foreign_ok_def)
  have "map_of schema ''Environment'' = Some environment_table"
    by (simp add: schema_def)
  then show ?thesis
    using cols by (simp add: Environment_insert_def sql_insert_def connection_def Let_def id check raise keys
        row_ids_def new_tables_def default_row_def [symmetric])
qed

lemma create_new_world:
  "0 \<le> sint t \<Longrightarrow> db_create ''w'' t default_environment Map.empty = (Inr (), [''w'' \<mapsto> (database_version, new_tables t)])"
  by (simp add: db_create_def created) (simp add: connection_def)

lemma new_tables_simps [simp]:
  "new_tables t ''Environment'' = [(1, default_row t)]" "u \<noteq> ''Environment'' \<Longrightarrow> new_tables t u = []"
  by (simp_all add: new_tables_def)

lemma load_new_world: "sw_new [''w'' \<mapsto> (database_version, new_tables t)] ''w'' = Inr (new_world t)"
  by (simp add: sw_new_def db_open_def last_environment_def max_time_def default_row_columns
      Environment_size_x_def Environment_size_y_def column_int_def sql_select_def connection_def schema_def
      environment_table_def plain_table_def load_elements_def new_world_def for_all_def
      from_database_def food_def eggs_def alive_bugs_def ids_of_def ids_by_def sim_empty_def)

lemma consistent_new_tables:
  assumes "0 \<le> sint t"
  shows "consistent (new_tables t)"
proof -
  have "database_ok (connection (\<lambda>_. []))"
    by (auto simp: database_ok_def connection_def consistent_def tables_ok_def references_ok_def
        table_ok_def unique_set_def)
  from preservesD [OF preserves_statements(1) this created [OF assms, unfolded Environment_insert_def]]
  show ?thesis
    by (simp add: database_ok_def connection_def)
qed

theorem simulation_integrity_witness:
  "sim_ok \<lparr>pos_x = 16, pos_y = 16\<rparr> 1 (snd (sw_add_food \<lparr>pos_x = 3, pos_y = 4\<rparr> 10 (new_world 0)))"
proof -
  have "sim_ok (w_size (sim_world (new_world 0))) (sim_env (new_world 0)) (new_world 0)"
    using simulation_integrity [of "[''w'' \<mapsto> (database_version, new_tables 0)]" "''w''" "new_world 0"]
      load_new_world consistent_new_tables [of 0] by auto
  then have "sim_ok \<lparr>pos_x = 16, pos_y = 16\<rparr> 1 (new_world 0)"
    by (simp add: new_world_def sim_empty_def world_new_def)
  then show ?thesis
    using simulation_integrity by (blast dest: preservesD [OF _ _ surjective_pairing])
qed

end
