(* ===== verification/Sim_Example.thy ===== *)
theory Sim_Example
  imports Sim_Integrity
begin

text \<open>A world of 16 x 16 cells with one bug at (3, 4), for concrete runs.\<close>

section \<open>A concrete bug\<close>

definition the_world_row :: row where
  "the_world_row = new_row world_table 1
     [(''position_x'', bind_short 3), (''position_y'', bind_short 4), (''orientation'', bind_int 0)]"

definition the_bug_row :: row where
  "the_bug_row = new_row bug_table 1 [(''code_id'', Integer 1), (''creation'', bind_int 0)]"

definition the_alive_row :: "sql_value \<Rightarrow> row" where
  "the_alive_row action_time = new_row alivebug_table 1
     [(''world_id'', Integer 1), (''birth'', bind_int 0), (''energy'', bind_int 100),
      (''action_time'', action_time), (''registers_id'', Integer 1), (''memory_id'', Integer 2)]"

definition data_row :: "row_id \<Rightarrow> nat \<Rightarrow> row" where
  "data_row i n = new_row codes_table i [(''data'', Bytes (replicate n 0))]"

definition bug_tables :: "uint32 \<Rightarrow> sql_value \<Rightarrow> tables" where
  "bug_tables now action_time = (new_tables now)
     (''World'' := [(1, the_world_row)], ''Bug'' := [(1, the_bug_row)],
      ''Code'' := [(1, data_row 1 16), (2, data_row 2 1024)], ''Registers'' := [(1, data_row 1 544)],
      ''AliveBug'' := [(1, the_alive_row action_time)])"

lemmas bug_row_defs = the_world_row_def the_bug_row_def the_alive_row_def data_row_def new_row_def table_defs
  col_def bind_int_def bind_short_def

lemma the_row_columns:
  "col (the_alive_row a) ''bug_id'' = Integer 1" "col (the_alive_row a) ''world_id'' = Integer 1"
  "col (the_alive_row a) ''energy'' = Integer 100" "col (the_alive_row a) ''time_last_action'' = Null"
  "col (the_alive_row a) ''action_time'' = a" "col (the_alive_row a) ''registers_id'' = Integer 1"
  "col (the_alive_row a) ''memory_id'' = Integer 2"
  "col the_world_row ''position_x'' = Integer 3" "col the_world_row ''position_y'' = Integer 4"
  "col the_world_row ''orientation'' = Integer 0" "col the_world_row ''id'' = Integer 1"
  "col the_bug_row ''id'' = Integer 1" "col the_bug_row ''code_id'' = Integer 1"
  "col the_bug_row ''father_id'' = Null"
  "col (data_row i n) ''data'' = Bytes (replicate n 0)" "col (data_row i n) ''id'' = Integer i"
  by (simp_all add: bug_row_defs)

lemma bug_rows_ok:
  "a = Null \<or> (\<exists>k \<ge> 1. a = Integer k) \<Longrightarrow> row_ok alivebug_table (the_alive_row a)"
  "row_ok world_table the_world_row" "row_ok bug_table the_bug_row"
  "0 < n \<Longrightarrow> n mod 4 = 0 \<Longrightarrow> n \<le> max_length \<Longrightarrow> row_ok codes_table (data_row i n)"
  "row_ok registers_table (data_row i 544)"
  by (auto simp: row_ok_def bug_row_defs at_least_def max_length_def)

lemma consistent_bug_tables:
  assumes "a = Null \<or> (\<exists>k \<ge> 1. a = Integer k)" and "0 \<le> sint now"
  shows "consistent (bug_tables now a)"
proof -
  have env: "table_ok environment_table [(1, default_row now)]"
    using consistent_new_tables [OF assms(2)] by (auto simp: consistent_def tables_ok_def schema_def)
  have empty: "table_ok d []" for d
    by (simp add: table_ok_def unique_set_def)
  have "tables_ok (bug_tables now a)"
    using env empty bug_rows_ok assms
    unfolding tables_ok_def schema_def bug_tables_def
    by (simp add: table_ok_def unique_set_def the_row_columns max_length_def)
     (simp add: table_defs the_row_columns)
  moreover have "references_ok (bug_tables now a)"
    unfolding references_ok_def schema_def bug_tables_def
    by (simp add: foreign_ok_def table_defs the_row_columns row_ids_def)
  ultimately show ?thesis
    by (simp add: consistent_def)
qed

text \<open>The simulation of this database, with \<open>cpu\<close> as the CPU of the bug.\<close>

definition bug_world :: "uint32 \<Rightarrow> sql_value \<Rightarrow> cpu_state \<Rightarrow> sim" where
  "bug_world now action_time cpu =
     \<lparr>sim_db = connection (bug_tables now action_time), sim_env = 1,
      sim_world = put_cell ((world_new \<lparr>pos_x = 16, pos_y = 16\<rparr>)\<lparr>w_elements := 1\<rparr>) \<lparr>pos_x = 3, pos_y = 4\<rparr>
        (Some (element_new 0 ElementBug)),
      sim_heap = [0 \<mapsto> Bug \<lparr>bo_id = 1, bo_world = 1, bo_registers = 1, bo_memory = 2, bo_cpu = cpu\<rparr>],
      sim_next = 1, sim_foods = [], sim_eggs = [], sim_bugs = [0], sim_spawns = [], sim_resources = [],
      sim_rand = 0\<rparr>"

lemma bug_world_ok:
  assumes "action_time = Null \<or> (\<exists>k \<ge> 1. action_time = Integer k)" and "0 \<le> sint now" and "cpu_ok cpu"
  shows "sim_ok \<lparr>pos_x = 16, pos_y = 16\<rparr> 1 (bug_world now action_time cpu)"
proof -
  let ?w = "world_new \<lparr>pos_x = 16, pos_y = 16\<rparr>" and ?p = "\<lparr>pos_x = 3, pos_y = 4\<rparr> :: position"
  have "world_add ?w (Some (element_new 0 ElementBug)) ?p =
      Inr (put_cell (?w\<lparr>w_elements := 1\<rparr>) ?p (Some (element_new 0 ElementBug)))"
    by (simp add: world_add_run) (simp add: world_new_def)
  then have "grid_ok \<lparr>pos_x = 16, pos_y = 16\<rparr> (put_cell (?w\<lparr>w_elements := 1\<rparr>) ?p (Some (element_new 0 ElementBug)))"
    by (rule grid_steps) (simp add: grid_ok_def wf_world_new, simp add: world_new_def)
  with consistent_bug_tables [OF assms(1,2)] assms(3) show ?thesis
    by (simp add: sim_ok_def bug_world_def database_ok_def connection_def heap_ok_def)
qed

end
