(* ===== verification/Sim_Actions.thy ===== *)
theory Sim_Actions
  imports Sim_Example
begin

text \<open>
  The actions of a bug: how one begins, waits, takes effect and is interrupted, what it costs and what
  it changes.
\<close>

section \<open>Rows that are updated\<close>

lemma update_accepted:
  assumes "consistent (db_tables s)" and "map_of schema t = Some d" and "map_of (db_tables s t) i = Some r"
    and "c \<in> set (td_columns d)" "c \<noteq> td_key d" "\<forall>cs \<in> set (td_unique d). c \<notin> set cs"
      "\<forall>(c', _) \<in> set (td_foreign d). c' \<noteq> c"
    and "row_ok d (r(c \<mapsto> v))" and "\<not> td_raise_update d (db_tables s) c (r(c \<mapsto> v))"
  shows "sql_update t c v i s =
    (Inr (), s\<lparr>db_tables := (db_tables s)(t := replace_row i (r(c \<mapsto> v)) (db_tables s t))\<rparr>)"
proof -
  let ?new = "r(c \<mapsto> v)" and ?rows = "db_tables s t"
  have t: "(t, d) \<in> set schema" and r: "(i, r) \<in> set ?rows"
    using assms(2,3) by (auto simp: schema_lookup map_of_SomeD)
  have table: "table_ok d ?rows"
    using assms(1) t by (auto simp: consistent_def dest: table_okD)
  have "\<not> same_on cs q ?new" if "cs \<in> set (td_unique d)" "(j, q) \<in> set ?rows" "j \<noteq> i" for cs j q
  proof -
    have "\<not> same_on cs q r"
      using table that r unfolding table_ok_def unique_set_def by blast
    moreover have "c \<notin> set cs"
      using assms(6) that(1) by blast
    ultimately show ?thesis
      by (auto simp: same_on_def)
  qed
  then have "unique_ok d i ?new ?rows"
    by (auto simp: unique_ok_iff)
  moreover have "foreign_ok d r (db_tables s)"
    using assms(1) t r by (auto simp: consistent_def references_ok_def)
  then have "foreign_ok d ?new ((db_tables s)(t := replace_row i ?new ?rows))"
    using assms(7) by (fastforce simp: foreign_ok_iff refers_to_def split: sql_value.splits)
  ultimately show ?thesis
    using assms(2-4,8,9) by (simp add: sql_update_def Let_def)
qed

lemma alive_schema: "map_of schema ''AliveBug'' = Some alivebug_table"
  by (simp add: schema_def)

lemma alive_row_ok:
  assumes "consistent db" and "map_of (db ''AliveBug'') i = Some r"
  shows "row_ok alivebug_table r"
  using assms by (auto simp: consistent_def tables_ok_def schema_def table_ok_def dest: map_of_SomeD)

text \<open>The columns of a living bug that its life changes.\<close>

lemma alive_update:
  assumes "consistent (db_tables s)" and "map_of (db_tables s ''AliveBug'') i = Some r"
    and "c \<in> {''energy'', ''time_last_action'', ''action_time''}"
    and "row_ok alivebug_table (r(c \<mapsto> v))" and "\<not> td_raise_update alivebug_table (db_tables s) c (r(c \<mapsto> v))"
  shows "sql_update ''AliveBug'' c v i s =
    (Inr (), s\<lparr>db_tables := (db_tables s)(''AliveBug'' := replace_row i (r(c \<mapsto> v)) (db_tables s ''AliveBug''))\<rparr>)"
  by (rule update_accepted [OF assms(1) alive_schema assms(2)])
    (use assms(3-5) in \<open>auto simp: alivebug_table_def plain_table_def\<close>)

lemma alive_update_null:
  assumes "consistent (db_tables s)" and "map_of (db_tables s ''AliveBug'') i = Some r"
  shows "sql_update ''AliveBug'' ''action_time'' Null i s = (Inr (), s\<lparr>db_tables := (db_tables s)
    (''AliveBug'' := replace_row i (r(''action_time'' \<mapsto> Null)) (db_tables s ''AliveBug''))\<rparr>)"
  by (rule alive_update [OF assms])
    (use alive_row_ok [OF assms] in \<open>auto simp: row_ok_def alivebug_table_def plain_table_def at_least_def\<close>)

section \<open>A CPU in its simulation\<close>

definition bug_cpu_ok :: "position \<Rightarrow> row_id \<Rightarrow> bug_cpu \<Rightarrow> bool" where
  "bug_cpu_ok dims e c \<longleftrightarrow>
     wf_cpu c \<and> sizes_ok (mem_size (cpu_registers c)) (mem_size (cpu_memory c)) \<and> sim_ok dims e (bc_sim c)"

lemma bug_cpu_ok_J: "bug_cpu_ok dims e c \<longleftrightarrow> sound.J dims e c"
  by (simp add: bug_cpu_ok_def sound.J_iff sim_ok_I)

lemma leave_cpu_ok: "bug_cpu_ok dims e c \<Longrightarrow> sim_ok dims e (leave_cpu c)"
  unfolding bug_cpu_ok_J sim_ok_I by (rule sound.J_leave)

lemma sim_ok_consistent: "sim_ok dims e s \<Longrightarrow> consistent (db_tables (sim_db s))"
  by (simp add: sim_ok_def database_ok_def)

lemma store_changes_other: "t \<noteq> blob_table b \<Longrightarrow> db_tables (store_changes b old new db) t = db_tables db t"
  by (simp add: store_changes_def put_bytes_def split: option.split)

lemma leave_cpu_tables:
  "t \<notin> {''Code'', ''Registers''} \<Longrightarrow> db_tables (sim_db (leave_cpu c)) t = db_tables (sim_db (bc_sim c)) t"
  by (auto simp: leave_cpu_def store_changes_other code_data_def registers_data_def split: option.split entity.split)

lemma enter_truncate: "enter_cpu (cpu_state.truncate c) (bc_bug c) s = c\<lparr>bc_sim := s\<rparr>"
  by (simp add: enter_cpu_def)

text \<open>The bug that runs: its object, and the simulation when it calls it.\<close>

lemma leave_cpu_bug:
  assumes "sim_heap (bc_sim c) (bc_bug c) = Some (Bug b)"
  shows "sim_heap (leave_cpu c) (bc_bug c) = Some (Bug (b\<lparr>bo_cpu := cpu_state.truncate c\<rparr>))"
  using assms by (simp add: leave_cpu_def)

lemma in_sim_run:
  assumes "sim_heap (bc_sim c) (bc_bug c) = Some (Bug b)" and "f (bc_bug c) (leave_cpu c) = (r, s)"
    and "sim_heap s = sim_heap (leave_cpu c)"
  shows "in_sim f c = (r, c\<lparr>bc_sim := s\<rparr>)"
  using assms leave_cpu_bug [OF assms(1)] by (simp add: in_sim_def enter_truncate)

text \<open>The row of the bug that runs, after its CPU has stored its memories.\<close>

definition alive_row :: "bug_cpu \<Rightarrow> row option" where
  "alive_row c =
     (case sim_heap (bc_sim c) (bc_bug c) of
        Some (Bug b) \<Rightarrow> map_of (db_tables (sim_db (bc_sim c)) ''AliveBug'') (bo_id b)
      | _ \<Rightarrow> None)"

lemma alive_rowE:
  assumes "alive_row c = Some r"
  obtains b where "sim_heap (bc_sim c) (bc_bug c) = Some (Bug b)"
    and "map_of (db_tables (sim_db (leave_cpu c)) ''AliveBug'') (bo_id b) = Some r"
  using assms by (auto simp: alive_row_def leave_cpu_tables split: option.splits entity.splits)

text \<open>A simulation that differs in the database only, and the CPU in it.\<close>

definition with_db :: "bug_cpu \<Rightarrow> database \<Rightarrow> bug_cpu" where
  "with_db c db = c\<lparr>bc_sim := (leave_cpu c)\<lparr>sim_db := db\<rparr>\<rparr>"

lemma with_db_sel [simp]:
  "cpu_registers (with_db c db) = cpu_registers c" "cpu_memory (with_db c db) = cpu_memory c"
  "cpu_running (with_db c db) = cpu_running c" "bc_bug (with_db c db) = bc_bug c"
  "wf_cpu (with_db c db) = wf_cpu c" "reg (with_db c db) r = reg c r"
  by (simp_all add: with_db_def wf_cpu_def reg_def reg_index_def preg_def)

lemma leave_settled:
  assumes "sim_heap s (bc_bug c) = Some (Bug b)" and "bo_cpu b = cpu_state.truncate c"
  shows "leave_cpu (c\<lparr>bc_sim := s\<rparr>) = s"
proof -
  have "cpu_state.truncate (c\<lparr>bc_sim := s\<rparr>) = cpu_state.truncate c"
    by (simp add: cpu_state.defs)
  moreover have "b\<lparr>bo_cpu := cpu_state.truncate c\<rparr> = b"
    using assms(2) by (cases b) simp
  ultimately show ?thesis
    using assms by (simp add: leave_cpu_def store_changes_def fun_upd_idem)
qed

lemma leave_with_db:
  assumes "sim_heap (bc_sim c) (bc_bug c) = Some (Bug b)"
  shows "leave_cpu (with_db c db) = (leave_cpu c)\<lparr>sim_db := db\<rparr>"
  unfolding with_db_def
  by (rule leave_settled [where b = "b\<lparr>bo_cpu := cpu_state.truncate c\<rparr>"])
    (use leave_cpu_bug [OF assms] in simp_all)

lemma alive_with_db:
  assumes "sim_heap (bc_sim c) (bc_bug c) = Some (Bug b)"
  shows "alive_row (with_db c db) = map_of (db_tables db ''AliveBug'') (bo_id b)"
  using leave_cpu_bug [OF assms] by (simp add: alive_row_def with_db_def)

lemma bug_with_db:
  assumes "sim_heap (bc_sim c) (bc_bug c) = Some (Bug b)"
  shows "\<exists>b'. sim_heap (bc_sim (with_db c db)) (bc_bug (with_db c db)) = Some (Bug b') \<and> bo_id b' = bo_id b"
  using leave_cpu_bug [OF assms] by (simp add: with_db_def)

text \<open>Programs on the row of the bug that runs.\<close>

lemma in_sim_database:
  assumes "sim_heap (bc_sim c) (bc_bug c) = Some (Bug b)" and "p (bo_id b) (sim_db (leave_cpu c)) = (r, db)"
  shows "in_sim (\<lambda>p'. andthen (the_bug p') (\<lambda>b. on_database (p (bo_id b)))) c = (r, with_db c db)"
proof -
  have "andthen (the_bug (bc_bug c)) (\<lambda>b. on_database (p (bo_id b))) (leave_cpu c) = (r, (leave_cpu c)\<lparr>sim_db := db\<rparr>)"
    using leave_cpu_bug [OF assms(1)] assms(2) by (simp add: the_bug_def as_bug_def on_database_def)
  from in_sim_run [of c b "\<lambda>p'. andthen (the_bug p') (\<lambda>b. on_database (p (bo_id b)))", OF assms(1) this]
  show ?thesis
    by (simp add: with_db_def)
qed

lemma put_reg_more [simp]: "bc_sim (put_reg c r w) = bc_sim c" "bc_bug (put_reg c r w) = bc_bug c"
  by (simp_all add: put_reg_def set_preg_def)

lemma alive_row_put_reg [simp]: "alive_row (put_reg c r w) = alive_row c"
  by (simp add: alive_row_def split: option.split entity.split)

lemma is_null_row:
  "map_of (db_tables s ''AliveBug'') i = Some r \<Longrightarrow>
    is_null ''AliveBug'' ''action_time'' i s = (Inr (col r ''action_time'' = Null), s)"
  by (simp add: is_null_def sql_select_def schema_def alivebug_table_def plain_table_def)

lemma action_time_row:
  "map_of (db_tables s ''AliveBug'') i = Some r \<Longrightarrow>
    AliveBug_action_time i s = (Inr (word_of_int (integer_of (col r ''action_time''))), s)"
  by (simp add: AliveBug_action_time_def column_int_def sql_select_def schema_def alivebug_table_def plain_table_def)

lemma bug_null_action:
  assumes "alive_row c = Some r"
  shows "in_sim (\<lambda>p. bug_is_null p ''action_time'') c =
    (Inr (col r ''action_time'' = Null), with_db c (sim_db (leave_cpu c)))"
  using assms
  by (elim alive_rowE) (simp add: bug_is_null_def in_sim_database [where p = "is_null ''AliveBug'' ''action_time''"] is_null_row)

section \<open>Interrupted actions\<close>

text \<open>
  C12: an interrupt that is enabled and meets an action in progress cancels the action and is itself
  lost: the time of the action becomes null, \<open>G0\<close> says that the action was interrupted, and no
  handler is entered - the program counter, the other registers and the memory stay as they are.
\<close>

theorem interrupt_cancels_action:
  assumes "bug_cpu_ok dims e c" and "interrupt_enabled LittleEndian code c = (Inr True, c)"
    and "alive_row c = Some r" and "col r ''action_time'' \<noteq> Null"
  shows "\<exists>c'. bug_interrupt code g1 g2 c = (Inr (), c') \<and>
    reg c' REGISTER_G0 = ActionInterrupted \<and>
    (\<forall>k. unat k < 16 \<longrightarrow> k \<noteq> REGISTER_G0 \<longrightarrow> reg c' k = reg c k) \<and>
    cpu_memory c' = cpu_memory c \<and> cpu_running c' = cpu_running c \<and>
    (\<exists>r'. alive_row c' = Some r' \<and> col r' ''action_time'' = Null \<and>
      (\<forall>k. k \<noteq> ''action_time'' \<longrightarrow> col r' k = col r k))"
proof -
  obtain b where b: "sim_heap (bc_sim c) (bc_bug c) = Some (Bug b)"
    "map_of (db_tables (sim_db (leave_cpu c)) ''AliveBug'') (bo_id b) = Some r"
    using alive_rowE [OF assms(3)] .
  let ?db = "sim_db (leave_cpu c)"
  let ?db' = "?db\<lparr>db_tables := (db_tables ?db)
    (''AliveBug'' := replace_row (bo_id b) (r(''action_time'' \<mapsto> Null)) (db_tables ?db ''AliveBug''))\<rparr>"
  obtain b' where b': "sim_heap (bc_sim (with_db c ?db)) (bc_bug (with_db c ?db)) = Some (Bug b')" "bo_id b' = bo_id b"
    using bug_with_db [OF b(1)] by blast
  have "consistent (db_tables ?db)"
    using leave_cpu_ok [OF assms(1)] by (rule sim_ok_consistent)
  from alive_update_null [OF this b(2)]
  have "set_null ''AliveBug'' ''action_time'' (bo_id b') (sim_db (leave_cpu (with_db c ?db))) = (Inr (), ?db')"
    by (simp add: set_null_def b'(2) leave_with_db [OF b(1)])
  from in_sim_database [where p = "set_null ''AliveBug'' ''action_time''", OF b'(1) this]
  have "in_sim (\<lambda>p. bug_set_null p ''action_time'') (with_db c ?db) = (Inr (), with_db (with_db c ?db) ?db')"
    by (simp add: bug_set_null_def)
  moreover have wf: "wf_cpu c"
    using assms(1) by (simp add: bug_cpu_ok_def)
  ultimately have run: "bug_interrupt code g1 g2 c =
      (Inr (), put_reg (with_db (with_db c ?db) ?db') REGISTER_G0 ActionInterrupted)"
    using assms(2-4) by (simp add: bug_interrupt_def bug_null_action)
  have "alive_row (put_reg (with_db (with_db c ?db) ?db') REGISTER_G0 ActionInterrupted) = Some (r(''action_time'' \<mapsto> Null))"
    using b(2) by (simp add: alive_with_db [OF b'(1)] b'(2) del: fun_upd_apply) (simp add: map_of_replace_row)
  then show ?thesis
    unfolding run using wf by (auto simp: reg_put_reg)
qed

lemma cpu_ok_handling: "cpu_ok handling_cpu"
proof -
  have "unat (mem_size (cpu_memory handling_cpu)) = 1024"
    using handling_cpu_facts(2) by (simp add: msize_def)
  moreover have "mem_size (cpu_registers fresh_cpu) = 544"
    by (simp add: fresh_cpu_def cpu_new_def Let_def TOTAL_REGISTERS_def word_less_nat_alt)
  then have "mem_size (cpu_registers handling_cpu) = 544"
    by (simp add: handling_cpu_def put_mword_def)
  ultimately show ?thesis
    by (auto simp: cpu_ok_def sizes_ok_def max_length_def)
qed

text \<open>A bug that has begun an action at 5 o'clock, and handles the stack errors.\<close>

definition acting_cpu :: bug_cpu where
  "acting_cpu = enter_cpu handling_cpu 0 (bug_world 0 (Integer 5) handling_cpu)"

lemma acting_cpu_facts:
  "bug_cpu_ok \<lparr>pos_x = 16, pos_y = 16\<rparr> 1 acting_cpu"
  "interrupt_enabled LittleEndian 1 acting_cpu = (Inr True, acting_cpu)"
  "alive_row acting_cpu = Some (the_alive_row (Integer 5))"
proof -
  have regs: "cpu_registers acting_cpu = cpu_registers handling_cpu" "cpu_memory acting_cpu = cpu_memory handling_cpu"
    by (simp_all add: acting_cpu_def enter_cpu_def)
  then have wf: "wf_cpu acting_cpu"
    using handling_cpu_facts(1) by (simp add: wf_cpu_def)
  show "bug_cpu_ok \<lparr>pos_x = 16, pos_y = 16\<rparr> 1 acting_cpu"
    using wf cpu_ok_handling regs bug_world_ok [of "Integer 5" 0, OF _ _ cpu_ok_handling]
    by (simp add: bug_cpu_ok_def cpu_ok_def) (simp add: acting_cpu_def enter_cpu_def)
  have "reg acting_cpu REGISTER_IP = 100" "msize acting_cpu = 1024" "mword acting_cpu 104 = 64"
    using handling_cpu_facts regs by (simp_all add: reg_def reg_index_def preg_def msize_def mword_def)
  then show "interrupt_enabled LittleEndian 1 acting_cpu = (Inr True, acting_cpu)"
    using wf by (simp add: interrupt_enabled_run vector_ok_def handler_of_def ADDRESS_def)
  show "alive_row acting_cpu = Some (the_alive_row (Integer 5))"
    by (simp add: alive_row_def acting_cpu_def enter_cpu_def bug_world_def connection_def bug_tables_def)
qed

theorem interrupt_cancels_action_witness:
  "\<exists>c'. bug_interrupt 1 7 9 acting_cpu = (Inr (), c') \<and> reg c' REGISTER_G0 = ActionInterrupted \<and>
    cpu_memory c' = cpu_memory acting_cpu"
  using interrupt_cancels_action [OF acting_cpu_facts, of 7 9] by (auto simp: the_row_columns)

end
