(* ===== verification/Sim_Transaction.thy ===== *)
theory Sim_Transaction
  imports Sim_Integrity
begin

text \<open>
  A simulation while its transaction is open: every operation leaves the environments alone and the
  transaction open, unless an exception of the database has undone it.
\<close>

section \<open>The environment while a transaction is open\<close>

text \<open>Every environment has the size of the grid, and the current one exists.\<close>

definition env_ok :: "position \<Rightarrow> row_id \<Rightarrow> table \<Rightarrow> bool" where
  "env_ok dims e rows \<longleftrightarrow> e \<in> row_ids rows \<and>
     (\<forall>(i, r) \<in> set rows. col r ''size_x'' = Integer (uint (pos_x dims)) \<and>
       col r ''size_y'' = Integer (uint (pos_y dims)))"

text \<open>
  The transaction began with the tables \<open>B\<close>, and the environments are \<open>E\<close>, in the savepoint of an egg
  as well; or the transaction is still open or was rolled back.
\<close>

definition working :: "position \<Rightarrow> row_id \<Rightarrow> table \<Rightarrow> tables \<Rightarrow> database \<Rightarrow> bool" where
  "working dims e E B db \<longleftrightarrow> database_ok db \<and> env_ok dims e E \<and> db_tables db ''Environment'' = E \<and>
     db_begun db = Some B \<and> \<not> db_by_savepoint db"

definition saved :: "position \<Rightarrow> row_id \<Rightarrow> table \<Rightarrow> tables \<Rightarrow> database \<Rightarrow> bool" where
  "saved dims e E B db \<longleftrightarrow> working dims e E B db \<and>
     (\<exists>n t older. from_savepoint ''egg;'' db = (n, t) # older \<and> n = savepoint_name ''egg;'' \<and>
       t ''Environment'' = E)"

definition undone :: "tables \<Rightarrow> exn \<Rightarrow> database \<Rightarrow> bool" where
  "undone B x db \<longleftrightarrow> x = DBException \<and> \<not> db_by_savepoint db \<and>
     (db_begun db = Some B \<or> db_begun db = None \<and> db_tables db = B \<and> db_savepoints db = [])"

lemma working_rolled_back: "working dims e E B db \<Longrightarrow> undone B DBException (rolled_back db)"
  by (simp add: working_def undone_def rolled_back_def)

lemma working_frame:
  assumes "working dims e E B s" and "database_ok s'"
    and "db_tables s' ''Environment'' = db_tables s ''Environment''"
    and "db_begun s' = db_begun s" "db_by_savepoint s' = db_by_savepoint s" "db_savepoints s' = db_savepoints s"
  shows "working dims e E B s'"
  using assms by (simp add: working_def)

lemma working_ok: "working dims e E B s \<Longrightarrow> database_ok s"
  by (simp add: working_def)

lemma cascade_environment:
  "(\<forall>(t, i) \<in> set work. t \<noteq> ''Environment'') \<Longrightarrow> cascade work db ''Environment'' = db ''Environment''"
proof (induction work db rule: cascade.induct)
  case (2 t i work db)
  show ?case
  proof (cases "find_row t i db")
    case (Some dr)
    then obtain d r where dr: "find_row t i db = Some (d, r)" "(t, d) \<in> set schema"
      by (cases dr) (auto simp: find_row_def schema_lookup split: option.splits)
    have "\<forall>(u, j) \<in> set (td_after_delete d r). u \<noteq> ''Environment''"
      using dr(2) by (auto simp: schema_def table_defs split: sql_value.splits)
    moreover have "\<forall>(u, j) \<in> set (referring t i db). u \<noteq> ''Environment''"
      by (auto simp: referring_def schema_def environment_table_def plain_table_def)
    moreover have "null_references t i (drop_row t i db) ''Environment'' = db ''Environment''"
      using 2(3) by (auto simp: null_references_def schema_def environment_table_def plain_table_def drop_row_def)
    ultimately have all: "\<forall>(u, j) \<in> set (referring t i db @ td_after_delete d r @ work). u \<noteq> ''Environment''"
        and null: "null_references t i (drop_row t i db) ''Environment'' = db ''Environment''"
      using 2(3) by auto
    from "2.IH"(2) [OF dr(1) refl all] null dr(1) show ?thesis
      by simp
  qed (use 2 in simp)
qed simp

lemma insert_frame:
  assumes "t \<noteq> ''Environment''"
  shows "keeps (undone B) (working dims e E B) (sql_insert t vals)"
proof (rule keepsI)
  fix s x s' v
  assume s: "working dims e E B s"
  have ok: "database_ok s'" if "sql_insert t vals s = (r, s')" for r
    using preservesD [OF preserves_statements(1) working_ok [OF s] that] .
  show "working dims e E B s' \<or> undone B x s'" if "sql_insert t vals s = (Inl x, s')"
    using that s ok [OF that] working_rolled_back [OF s]
    by (auto simp: sql_insert_def Let_def split: option.splits if_splits)
  show "working dims e E B s'" if "sql_insert t vals s = (Inr v, s')"
    by (rule working_frame [OF s ok [OF that]])
      (use that assms in \<open>auto simp: sql_insert_def Let_def split: option.splits if_splits\<close>)
qed

lemma update_frame:
  assumes "t \<noteq> ''Environment''" and "\<And>d. map_of schema t = Some d \<Longrightarrow> c \<noteq> td_key d"
  shows "keeps (undone B) (working dims e E B) (sql_update t c v i)"
    and "(\<And>d db new. working dims e E B db \<Longrightarrow> map_of schema t = Some d \<Longrightarrow> col new c = v \<Longrightarrow>
        \<not> td_raise_update d (db_tables db) c new) \<Longrightarrow>
      preserves (working dims e E B) (sql_update t c v i)"
proof -
  have frame: "working dims e E B s'" if s: "working dims e E B s" and run: "sql_update t c v i s = (Inr u, s')" for s u s'
    by (rule working_frame [OF s])
      (use run assms(1) preservesD [OF preserves_statements(3) [OF assms(2)] working_ok [OF s] run]
        in \<open>auto simp: sql_update_def Let_def split: option.splits if_splits\<close>)
  show "keeps (undone B) (working dims e E B) (sql_update t c v i)"
  proof (rule keepsI)
    show "working dims e E B s' \<or> undone B x s'"
      if s: "working dims e E B s" and "sql_update t c v i s = (Inl x, s')" for s x s'
      using that working_rolled_back [OF s]
      by (auto simp: sql_update_def Let_def split: option.splits if_splits)
  qed (rule frame)
  show "preserves (working dims e E B) (sql_update t c v i)"
    if quiet: "\<And>d db new. working dims e E B db \<Longrightarrow> map_of schema t = Some d \<Longrightarrow> col new c = v \<Longrightarrow>
        \<not> td_raise_update d (db_tables db) c new"
  proof (rule keepsI)
    show "working dims e E B s' \<or> False"
      if s: "working dims e E B s" and "sql_update t c v i s = (Inl x, s')" for s x s'
      using that quiet [OF s]
      by (auto simp: sql_update_def Let_def col_def split: option.splits if_splits)
  qed (rule frame)
qed

lemma delete_frame:
  assumes "t \<noteq> ''Environment''"
  shows "keeps X (working dims e E B) (sql_delete t i)"
proof (rule keeps_preserves, rule preservesI)
  fix s r s'
  assume s: "working dims e E B s" and run: "sql_delete t i s = (r, s')"
  show "working dims e E B s'"
    by (rule working_frame [OF s])
      (use run assms preservesD [OF preserves_statements(2) working_ok [OF s] run]
        in \<open>auto simp: sql_delete_def cascade_environment simp del: cascade.simps split: if_splits\<close>)
qed

lemma working_savepoints:
  "working dims e E B s \<Longrightarrow> database_ok (s\<lparr>db_tables := t, db_savepoints := sps\<rparr>) \<Longrightarrow>
    t ''Environment'' = E \<Longrightarrow> working dims e E B (s\<lparr>db_tables := t, db_savepoints := sps\<rparr>)"
  "working dims e E B s \<Longrightarrow> database_ok (s\<lparr>db_savepoints := sps\<rparr>) \<Longrightarrow>
    working dims e E B (s\<lparr>db_savepoints := sps\<rparr>)"
  by (simp_all add: working_def)

lemma savepoint_frame: "leads X (working dims e E B) (saved dims e E B) (sql_savepoint ''egg;'')"
proof -
  have "saved dims e E B s'" if s: "working dims e E B s" and run: "sql_savepoint ''egg;'' s = (r, s')" for s r s'
  proof -
    note ok = preservesD [OF preserves_statements(4) working_ok [OF s] run]
    have s': "s' = s\<lparr>db_savepoints := (savepoint_name ''egg;'', db_tables s) # db_savepoints s\<rparr>"
      using s run by (simp add: sql_savepoint_def working_def Let_def)
    show ?thesis
      using working_savepoints(2) [OF s ok [unfolded s']] s
      by (simp add: saved_def s' from_savepoint_def working_def)
  qed
  then show ?thesis
    by (fastforce simp: leads_def split: prod.split sum.split)
qed

lemma rollback_to_frame: "keeps X (saved dims e E B) (sql_rollback_to ''egg;'')"
proof (rule keeps_preserves, rule preservesI)
  fix s r s'
  assume "saved dims e E B s" and run: "sql_rollback_to ''egg;'' s = (r, s')"
  then obtain n t older where s: "working dims e E B s" and sp: "from_savepoint ''egg;'' s = (n, t) # older"
      "n = savepoint_name ''egg;''" "t ''Environment'' = E"
    by (auto simp: saved_def)
  note ok = preservesD [OF preserves_statements(6) working_ok [OF s] run]
  have s': "s' = s\<lparr>db_tables := t, db_savepoints := (n, t) # older\<rparr>"
    using run sp by (simp add: sql_rollback_to_def)
  show "saved dims e E B s'"
    using working_savepoints(1) [OF s ok [unfolded s'] sp(3)] sp(2,3)
    by (simp add: saved_def s' from_savepoint_def)
qed

lemma release_frame: "leads X (saved dims e E B) (working dims e E B) (sql_release ''egg;'')"
proof -
  have "working dims e E B s'" if saved: "saved dims e E B s" and run: "sql_release ''egg;'' s = (r, s')" for s r s'
  proof -
    obtain n t older where s: "working dims e E B s" and sp: "from_savepoint ''egg;'' s = (n, t) # older"
      using saved by (auto simp: saved_def)
    note ok = preservesD [OF preserves_statements(5) working_ok [OF s] run]
    have s': "s' = s\<lparr>db_savepoints := older\<rparr>"
      using s run sp by (simp add: sql_release_def working_def)
    show ?thesis
      unfolding s' by (rule working_savepoints(2) [OF s ok [unfolded s']])
  qed
  then show ?thesis
    by (fastforce simp: leads_def split: prod.split sum.split)
qed

text \<open>A statement on rows that keeps the transaction open leaves the savepoints alone.\<close>

lemma saved_frame:
  assumes "keeps (undone B) (working dims e E B) m"
    and "\<And>s r s'. m s = (r, s') \<Longrightarrow> s' = rolled_back s \<and> r = Inl DBException \<or> db_savepoints s' = db_savepoints s"
  shows "keeps (undone B) (saved dims e E B) m"
proof (rule keepsI)
  fix s s' x v
  assume "saved dims e E B s"
  then obtain n t older where s: "working dims e E B s" and sp: "from_savepoint ''egg;'' s = (n, t) # older"
      "n = savepoint_name ''egg;''" "t ''Environment'' = E"
    by (auto simp: saved_def)
  have saved: "saved dims e E B s'" if "working dims e E B s'" "db_savepoints s' = db_savepoints s"
    using that sp by (simp add: saved_def from_savepoint_def)
  show "saved dims e E B s' \<or> undone B x s'" if "m s = (Inl x, s')"
    using keepsD(1) [OF assms(1) s that] assms(2) [OF that] working_rolled_back [OF s] saved by auto
  show "saved dims e E B s'" if "m s = (Inr v, s')"
    using keepsD(2) [OF assms(1) s that] assms(2) [OF that] saved by auto
qed

text \<open>A position inside the grid is accepted: the sizes the triggers compare with are those of the grid.\<close>

lemma current_size:
  assumes "env_ok dims e (db ''Environment'')"
  shows "current ''size_x'' db \<in> {Null, Integer (uint (pos_x dims))}"
    and "current ''size_y'' db \<in> {Null, Integer (uint (pos_y dims))}"
  using assms by (auto simp: current_def env_ok_def filter_eq_Cons_iff split: list.split)

lemma position_frame:
  "px < pos_x dims \<Longrightarrow> preserves (working dims e E B) (sql_update ''World'' ''position_x'' (bind_short px) i)"
  "py < pos_y dims \<Longrightarrow> preserves (working dims e E B) (sql_update ''World'' ''position_y'' (bind_short py) i)"
  "preserves (working dims e E B) (sql_update ''World'' ''orientation'' v i)"
proof -
  have quiet: "\<not> td_raise_update d (db_tables db) ''position_x'' new"
    if "px < pos_x dims" "working dims e E B db" "map_of schema ''World'' = Some d" "col new ''position_x'' = bind_short px"
    for d db new
    using that current_size(1) [of dims e "db_tables db"]
    by (auto simp: working_def schema_def world_table_def beyond_def bind_short_def word_less_def)
  show "px < pos_x dims \<Longrightarrow> preserves (working dims e E B) (sql_update ''World'' ''position_x'' (bind_short px) i)"
    by (rule update_frame(2)) (auto dest: world_columns quiet)
  have quiet: "\<not> td_raise_update d (db_tables db) ''position_y'' new"
    if "py < pos_y dims" "working dims e E B db" "map_of schema ''World'' = Some d" "col new ''position_y'' = bind_short py"
    for d db new
    using that current_size(2) [of dims e "db_tables db"]
    by (auto simp: working_def schema_def world_table_def beyond_def bind_short_def word_less_def)
  show "py < pos_y dims \<Longrightarrow> preserves (working dims e E B) (sql_update ''World'' ''position_y'' (bind_short py) i)"
    by (rule update_frame(2)) (auto dest: world_columns quiet)
  show "preserves (working dims e E B) (sql_update ''World'' ''orientation'' v i)"
    by (rule update_frame(2)) (auto dest: world_columns simp: schema_def world_table_def plain_table_def)
qed

lemma saved_preserves:
  assumes "preserves (working dims e E B) m"
    and "\<And>s r s'. m s = (r, s') \<Longrightarrow> s' = rolled_back s \<and> r = Inl DBException \<or> db_savepoints s' = db_savepoints s"
  shows "preserves (saved dims e E B) m"
proof (rule preservesI)
  fix s r s'
  assume saved: "saved dims e E B s" and run: "m s = (r, s')"
  then have s: "working dims e E B s"
    by (simp add: saved_def)
  have s': "working dims e E B s'"
    by (rule preservesD [OF assms(1) s run])
  then have "db_savepoints s' = db_savepoints s"
    using assms(2) [OF run] s by (auto simp: working_def rolled_back_def)
  with saved s' show "saved dims e E B s'"
    by (simp add: saved_def from_savepoint_def)
qed

lemma statement_savepoints:
  "sql_insert t vals s = (r, s') \<Longrightarrow> s' = rolled_back s \<and> r = Inl DBException \<or> db_savepoints s' = db_savepoints s"
  "sql_update t c v i s = (u, s') \<Longrightarrow> s' = rolled_back s \<and> u = Inl DBException \<or> db_savepoints s' = db_savepoints s"
  "sql_delete t i s = (u, s') \<Longrightarrow> s' = rolled_back s \<and> u = Inl DBException \<or> db_savepoints s' = db_savepoints s"
  by (auto simp: sql_insert_def sql_update_def sql_delete_def Let_def simp del: cascade.simps
      split: option.splits if_splits)

interpretation open_transaction:
  simulation_invariant "working dims e E B" "undone B" dims e "saved dims e E B" for dims e E B
proof unfold_locales
  show "consistent (db_tables db)" if "working dims e E B db" for db
    using that by (simp add: working_def database_ok_def)
  show "consistent (db_tables db)" if "saved dims e E B db" for db
    using that by (simp add: saved_def working_def database_ok_def)
  show "working dims e E B db" if "saved dims e E B db" for db
    using that by (simp add: saved_def)
  show "\<not> undone B x db" if "x \<noteq> DBException" for x db
    using that by (simp add: undone_def)
qed (intro insert_frame update_frame(1) delete_frame position_frame savepoint_frame rollback_to_frame release_frame
    saved_frame saved_preserves statement_savepoints; assumption | blast)+

end
