(* ===== verification/Sim_Clock.thy ===== *)
theory Sim_Clock
  imports Sim_Transaction
begin

text \<open>
  The time of a simulation and its transactions: what a run that returns has done, and what a run
  that throws leaves in the database.
\<close>

section \<open>The clock\<close>

text \<open>The time in the row \<open>e\<close> of the environments.\<close>

definition clock :: "row_id \<Rightarrow> table \<Rightarrow> uint32" where
  "clock e rows = (case map_of rows e of None \<Rightarrow> 0 | Some r \<Rightarrow> word_of_int (integer_of (col r ''time'')))"

lemma env_row: "env_ok dims e rows \<Longrightarrow> \<exists>r. map_of rows e = Some r"
  using weak_map_of_SomeI [of e _ rows] by (fastforce simp: env_ok_def row_ids_def)

lemma Environment_time_clock:
  assumes "env_ok dims e (db_tables db ''Environment'')"
  shows "Environment_time e db = (Inr (clock e (db_tables db ''Environment'')), db)"
  using env_row [OF assms]
  by (auto simp: Environment_time_def column_int_def sql_select_def schema_def environment_table_def
      plain_table_def clock_def)

lemma environment_update:
  assumes "working dims e E B db" and "Environment_set_time v e db = (r, db')"
  shows "(r = Inr () \<and> 0 \<le> sint v \<and> (\<exists>E'. working dims e E' B db' \<and> clock e E' = v)) \<or>
    (\<exists>x. r = Inl x \<and> (working dims e E B db' \<or> undone B x db'))"
proof -
  have E: "db_tables db ''Environment'' = E" "env_ok dims e E"
    using assms(1) by (simp_all add: working_def)
  obtain row where row: "map_of E e = Some row"
    using env_row [OF E(2)] by blast
  let ?new = "row(''time'' \<mapsto> bind_int v)"
  let ?E = "replace_row e ?new E"
  have ok: "database_ok db'"
    using preservesD [OF preserves_statements(3) working_ok [OF assms(1)] assms(2) [unfolded Environment_set_time_def]]
      world_columns(2) by auto
  have "(r = Inl DBException \<and> db' = rolled_back db) \<or> (r = Inl DBException \<and> db' = db) \<or>
      (r = Inr () \<and> row_ok environment_table ?new \<and> db' = db\<lparr>db_tables := (db_tables db)(''Environment'' := ?E)\<rparr>)"
    using assms(2) row E(1) unfolding Environment_set_time_def sql_update_def
    by (auto simp: schema_def Let_def split: if_splits)
  then consider "r = Inl DBException" "db' = rolled_back db" | "r = Inl DBException" "db' = db"
    | "r = Inr ()" "row_ok environment_table ?new" "db' = db\<lparr>db_tables := (db_tables db)(''Environment'' := ?E)\<rparr>"
    by blast
  then show ?thesis
  proof cases
    case 1
    then show ?thesis
      using working_rolled_back [OF assms(1)] by simp
  next
    case 2
    then show ?thesis
      using assms(1) by simp
  next
    case 3
    have "0 \<le> sint v"
      using 3(2) by (simp add: row_ok_def environment_table_def at_least_def bind_int_def col_def)
    moreover have "(e, row) \<in> set E"
      using row by (rule map_of_SomeD)
    then have "env_ok dims e ?E"
      using E(2) by (fastforce simp: env_ok_def set_replace_row col_def split: if_splits)
    moreover have "clock e ?E = v"
      using row by (simp add: clock_def col_def bind_int_def)
    ultimately show ?thesis
      using 3 ok assms(1) by (simp add: working_def)
  qed
qed

section \<open>One cycle\<close>

text \<open>The transaction that began with \<open>B\<close> is open, and it is \<open>t\<close> o'clock.\<close>

definition in_run :: "position \<Rightarrow> row_id \<Rightarrow> tables \<Rightarrow> uint32 \<Rightarrow> sim \<Rightarrow> bool" where
  "in_run dims e B t s \<longleftrightarrow> (\<exists>E. open_transaction.I dims e E B s \<and> clock e E = t)"

definition broken_run :: "position \<Rightarrow> row_id \<Rightarrow> tables \<Rightarrow> exn \<Rightarrow> sim \<Rightarrow> bool" where
  "broken_run dims e B x s \<longleftrightarrow> (\<exists>t. in_run dims e B t s) \<or> undone B x (sim_db s)"

lemma broken_run_intros:
  "open_transaction.I dims e E B s \<Longrightarrow> broken_run dims e B x s"
  "undone B x (sim_db s) \<Longrightarrow> broken_run dims e B x s"
  by (auto simp: broken_run_def in_run_def)

lemma run_step:
  assumes "keeps (open_transaction.XI B) (open_transaction.I dims e E B) m"
  shows "ends (broken_run dims e B) (open_transaction.I dims e E B) (\<lambda>_. open_transaction.I dims e E B) m"
  using assms by (rule ends_keeps) (auto simp: open_transaction.XI_def intro: broken_run_intros)

lemma set_time_step:
  "ends (broken_run dims e B) (open_transaction.I dims e E B)
    (\<lambda>_ s. 0 \<le> sint v \<and> (\<exists>E'. open_transaction.I dims e E' B s \<and> clock e E' = v)) (env (Environment_set_time v))"
  unfolding ends_def
proof (intro allI impI)
  fix s
  assume I: "open_transaction.I dims e E B s"
  obtain r db where run: "Environment_set_time v e (sim_db s) = (r, db)"
    by fastforce
  have env: "env (Environment_set_time v) s = (r, s\<lparr>sim_db := db\<rparr>)"
    using I run by (simp add: env_def on_database_def open_transaction.I_def)
  have I': "open_transaction.I dims e E' B (s\<lparr>sim_db := db\<rparr>)" if "working dims e E' B db" for E'
    using I that by (simp add: open_transaction.I_def)
  have "working dims e E B (sim_db s)"
    using I by (simp add: open_transaction.I_def)
  from environment_update [OF this run]
  show "case env (Environment_set_time v) s of (Inl x, s') \<Rightarrow> broken_run dims e B x s'
    | (Inr _, s') \<Rightarrow> 0 \<le> sint v \<and> (\<exists>E'. open_transaction.I dims e E' B s' \<and> clock e E' = v)"
    unfolding env using broken_run_intros(1) [OF I'] broken_run_intros(2) [of B _ "s\<lparr>sim_db := db\<rparr>" dims e]
    by (elim disjE conjE exE) (simp_all, blast intro: I')
qed

lemma after_time_returns:
  assumes "after_time pf time s = (Inr y, s')"
  shows "y = time"
proof -
  have "ends (\<lambda>_ _. True) (\<lambda>_. True) (\<lambda>y _. y = time) (after_time pf time)"
    unfolding after_time_def
    by (rule ends_andthen [where R = "\<lambda>_ _. True"], simp add: ends_def split: prod.split sum.split)+
      (simp add: ends_def)
  then show ?thesis
    using assms by (auto dest: endsD)
qed

lemma cycle_step:
  "ends (broken_run dims e B) (in_run dims e B t) (\<lambda>t' s. t' = t + 1 \<and> 0 \<le> sint t' \<and> in_run dims e B t' s)
    (run_cycle pf t)"
proof -
  have cycle: "run_cycle pf t = andthen (sw_spawn_eggs pf) (\<lambda>_. andthen (sw_spawn_food pf) (\<lambda>_.
      andthen (env (Environment_set_time (t + 1))) (\<lambda>_. after_time pf (t + 1))))"
    by (simp add: run_cycle_def after_time_def Let_def)
  have after: "ends (broken_run dims e B)
      (\<lambda>s. 0 \<le> sint (t + 1) \<and> (\<exists>E'. open_transaction.I dims e E' B s \<and> clock e E' = t + 1))
      (\<lambda>t' s. t' = t + 1 \<and> 0 \<le> sint t' \<and> in_run dims e B t' s) (after_time pf (t + 1))"
  proof -
    have time: "y = t + 1" if "after_time pf (t + 1) s = (Inr y, s')" for s y s'
      using after_time_returns [OF that] .
    show ?thesis
      unfolding ends_def
    proof (intro allI impI, elim conjE exE)
      fix s E'
      assume I: "0 \<le> sint (t + 1)" "open_transaction.I dims e E' B s" "clock e E' = t + 1"
      obtain r s' where run: "after_time pf (t + 1) s = (r, s')"
        by fastforce
      from endsD [OF run_step [OF open_transaction.I_after_time] I(2)] run time [of s] I(1,3)
      show "case after_time pf (t + 1) s of (Inl x, s') \<Rightarrow> broken_run dims e B x s'
        | (Inr t', s') \<Rightarrow> t' = t + 1 \<and> 0 \<le> sint t' \<and> in_run dims e B t' s'"
        by (cases r) (auto simp: in_run_def intro: exI [of _ E'])
    qed
  qed
  have "ends (broken_run dims e B) (open_transaction.I dims e E B)
      (\<lambda>t' s. t' = t + 1 \<and> 0 \<le> sint t' \<and> in_run dims e B t' s) (run_cycle pf t)" for E
    unfolding cycle
    by (rule ends_andthen [OF run_step [OF open_transaction.I_spawn(1)]]
        ends_andthen [OF run_step [OF open_transaction.I_spawn(2)]] ends_andthen [OF set_time_step] after)+
  note run = this
  show ?thesis
    unfolding ends_def
  proof (intro allI impI)
    fix s
    assume "in_run dims e B t s"
    then obtain E where "open_transaction.I dims e E B s"
      by (auto simp: in_run_def)
    then show "case run_cycle pf t s of (Inl x, s') \<Rightarrow> broken_run dims e B x s'
      | (Inr t', s') \<Rightarrow> t' = t + 1 \<and> 0 \<le> sint t' \<and> in_run dims e B t' s'"
      by (rule spec [OF run [of E, unfolded ends_def], THEN mp])
  qed
qed

lemma cycles_step:
  "ends (broken_run dims e B) (in_run dims e B t)
    (\<lambda>t' s. t' = t + of_nat (length is) \<and> (is \<noteq> [] \<longrightarrow> 0 \<le> sint t') \<and> in_run dims e B t' s)
    (for_each is (\<lambda>_ time. run_cycle pf time) t)"
proof (induction "is" arbitrary: t)
  case Nil
  show ?case
    by (simp add: ends_def)
next
  case (Cons i "is")
  have "ends (broken_run dims e B) (\<lambda>s. t' = t + 1 \<and> 0 \<le> sint t' \<and> in_run dims e B t' s)
      (\<lambda>u s. u = t + of_nat (length (i # is)) \<and> (i # is \<noteq> [] \<longrightarrow> 0 \<le> sint u) \<and> in_run dims e B u s)
      (for_each is (\<lambda>_ time. run_cycle pf time) t')" for t'
    using Cons.IH [of "t + 1"] by (cases "is = []") (auto simp: ends_def algebra_simps)
  then show ?case
    unfolding for_each.simps by (rule ends_andthen [OF cycle_step])
qed

section \<open>Transactions\<close>

text \<open>Between two transactions, at \<open>t\<close> o'clock.\<close>

definition sim_ready :: "position \<Rightarrow> row_id \<Rightarrow> uint32 \<Rightarrow> sim \<Rightarrow> bool" where
  "sim_ready dims e t s \<longleftrightarrow> sim_ok dims e s \<and> db_begun (sim_db s) = None \<and> db_savepoints (sim_db s) = [] \<and>
     env_ok dims e (db_tables (sim_db s) ''Environment'') \<and> clock e (db_tables (sim_db s) ''Environment'') = t"

lemma env_time_ready: "sim_ready dims e t s \<Longrightarrow> env Environment_time s = (Inr t, s)"
  using Environment_time_clock [of dims e "sim_db s"]
  by (simp add: sim_ready_def sim_ok_def env_def on_database_def)

text \<open>The database is closed on the tables \<open>B\<close>.\<close>

definition closed_on :: "tables \<Rightarrow> database \<Rightarrow> bool" where
  "closed_on B db \<longleftrightarrow> db_tables db = B \<and> db_begun db = None \<and> db_savepoints db = []"

lemma start_in_run:
  assumes "sim_ready dims e t s"
  obtains tx where "transaction_start Immediate (sim_db s) = (Inr (), tx)" and "tx_started tx"
    and "in_run dims e (db_tables (sim_db s)) t (s\<lparr>sim_db := tx_db tx\<rparr>)"
proof -
  let ?B = "db_tables (sim_db s)" and ?db = "(sim_db s)\<lparr>db_begun := Some (db_tables (sim_db s)), db_by_savepoint := False\<rparr>"
  have start: "sql_begin (sim_db s) = (Inr (), ?db)"
    using assms by (simp add: sim_ready_def sql_begin_def)
  then have "transaction_start Immediate (sim_db s) = (Inr (), \<lparr>tx_counter = 0, tx_started = True, tx_db = ?db\<rparr>)"
    by (simp add: transaction_start_def transaction_begin_def on_connection_def transaction_new_def)
  moreover have "database_ok ?db"
    using preservesD [OF preserves_statements(7) _ start] assms by (auto simp: sim_ready_def sim_ok_def)
  then have "in_run dims e ?B t (s\<lparr>sim_db := ?db\<rparr>)"
    using assms by (simp add: in_run_def open_transaction.I_def working_def sim_ready_def sim_ok_def)
  ultimately show ?thesis
    using that by simp
qed

text \<open>A transaction whose body returns commits; one whose body throws is rolled back.\<close>

lemma in_transaction_step:
  assumes "sim_ready dims e t s"
    and "ends (broken_run dims e (db_tables (sim_db s))) (in_run dims e (db_tables (sim_db s)) t)
      (\<lambda>_ s'. c \<and> in_run dims e (db_tables (sim_db s)) u s') body"
  shows "in_transaction body s = (Inr (), s') \<Longrightarrow> c \<and> sim_ready dims e u s'"
    and "in_transaction body s = (Inl x, s') \<Longrightarrow> is_Exception x \<Longrightarrow> closed_on (db_tables (sim_db s)) (sim_db s')"
proof -
  let ?B = "db_tables (sim_db s)"
  obtain tx where tx: "transaction_start Immediate (sim_db s) = (Inr (), tx)" "tx_started tx"
    "in_run dims e ?B t (s\<lparr>sim_db := tx_db tx\<rparr>)"
    using start_in_run [OF assms(1)] by blast
  obtain r s1 where body: "body (s\<lparr>sim_db := tx_db tx\<rparr>) = (r, s1)"
    by fastforce
  have commit: "in_transaction body s = (Inr (), s1\<lparr>sim_db := finished (sim_db s1)\<rparr>) \<and>
      c \<and> sim_ready dims e u (s1\<lparr>sim_db := finished (sim_db s1)\<rparr>)" if y: "r = Inr y" for y
  proof -
    obtain E where E: "open_transaction.I dims e E ?B s1" "clock e E = u" "c"
      using endsD(2) [OF assms(2) tx(3) body [unfolded y]] by (auto simp: in_run_def)
    then have "database_ok (finished (sim_db s1))"
      by (auto simp: open_transaction.I_def working_def database_ok_def finished_def)
    with E tx(1) body y show ?thesis
      by (simp add: in_transaction_def transaction_commit_def on_connection_def sql_commit_def sim_ready_def
          open_transaction.I_def working_def finished_def sim_ok_def)
  qed
  have rollback: "in_transaction body s = (Inl x', s') \<and> is_Exception x' \<longrightarrow> closed_on ?B (sim_db s')"
    if "r = Inl x" for x x' s'
  proof -
    have "broken_run dims e ?B x s1"
      using endsD(1) [OF assms(2) tx(3) body [unfolded that]] .
    then have "db_begun (sim_db s1) = Some ?B \<or>
        db_begun (sim_db s1) = None \<and> db_tables (sim_db s1) = ?B \<and> db_savepoints (sim_db s1) = []"
      by (auto simp: broken_run_def in_run_def open_transaction.I_def working_def undone_def)
    with tx(1,2) body that show ?thesis
      by (auto simp: in_transaction_def abandon_def transaction_destroy_def transaction_rollback_def
          on_connection_def sql_rollback_def rolled_back_def closed_on_def)
  qed
  have thrown: "in_transaction body s \<noteq> (Inr (), s')" if "r = Inl x" for x
    using that tx(1) body by (auto simp: in_transaction_def abandon_def split: prod.split sum.split)
  show "in_transaction body s = (Inr (), s') \<Longrightarrow> c \<and> sim_ready dims e u s'"
    using commit thrown by (cases r) auto
  show "in_transaction body s = (Inl x, s') \<Longrightarrow> is_Exception x \<Longrightarrow> closed_on ?B (sim_db s')"
    using commit rollback by (cases r) auto
qed

text \<open>A whole batch of cycles.\<close>

abbreviation batch :: "platform \<Rightarrow> nat \<Rightarrow> uint32 \<Rightarrow> (sim, unit) prog" where
  "batch pf n t \<equiv> in_transaction (andthen (for_each [0..<n] (\<lambda>_ time. run_cycle pf time) t) (\<lambda>_. ret ()))"

lemma batch_step:
  assumes "sim_ready dims e t s"
  shows "batch pf n t s = (Inr (), s') \<Longrightarrow> (0 < n \<longrightarrow> 0 \<le> sint (t + of_nat n)) \<and> sim_ready dims e (t + of_nat n) s'"
    and "batch pf n t s = (Inl x, s') \<Longrightarrow> is_Exception x \<Longrightarrow> closed_on (db_tables (sim_db s)) (sim_db s')"
proof -
  let ?B = "db_tables (sim_db s)"
  have "ends (broken_run dims e ?B) (in_run dims e ?B t)
      (\<lambda>_ s. (0 < n \<longrightarrow> 0 \<le> sint (t + of_nat n)) \<and> in_run dims e ?B (t + of_nat n) s)
      (andthen (for_each [0..<n] (\<lambda>_ time. run_cycle pf time) t) (\<lambda>_. ret ()))"
    by (rule ends_andthen [OF cycles_step ends_ret]) auto
  from in_transaction_step [OF assms this]
  show "batch pf n t s = (Inr (), s') \<Longrightarrow> (0 < n \<longrightarrow> 0 \<le> sint (t + of_nat n)) \<and> sim_ready dims e (t + of_nat n) s'"
      "batch pf n t s = (Inl x, s') \<Longrightarrow> is_Exception x \<Longrightarrow> closed_on ?B (sim_db s')"
    by blast+
qed

lemma run_batches_step:
  "run_batches pf cycles t s =
    (if cycles = 0 then (Inr (), s)
     else (case batch pf (min cycles CYCLES_BY_TRANSACTION) t s of
        (Inl x, s') \<Rightarrow> (Inl x, s')
      | (Inr _, s') \<Rightarrow> run_batches pf (cycles - min cycles CYCLES_BY_TRANSACTION)
          (t + of_nat (min cycles CYCLES_BY_TRANSACTION)) s'))"
  by (subst run_batches.simps) (simp add: Let_def)

lemma batches_returned:
  assumes "sim_ready dims e t s" and "run_batches pf cycles t s = (Inr (), s')"
  shows "(0 < cycles \<longrightarrow> 0 \<le> sint (t + of_nat cycles)) \<and> sim_ready dims e (t + of_nat cycles) s'"
  using assms
proof (induction cycles arbitrary: t s rule: less_induct)
  case (less cycles)
  let ?n = "min cycles CYCLES_BY_TRANSACTION"
  show ?case
  proof (cases "cycles = 0")
    case True
    with less.prems show ?thesis
      by (simp add: run_batches_step [of pf 0])
  next
    case False
    obtain r s1 where b: "batch pf ?n t s = (r, s1)"
      by fastforce
    with less.prems(2) False have r: "r = Inr ()" and rest: "run_batches pf (cycles - ?n) (t + of_nat ?n) s1 = (Inr (), s')"
      by (subst (asm) run_batches_step, cases r, simp_all)+
    have n: "0 < ?n" "?n \<le> cycles"
      using False by (simp_all add: CYCLES_BY_TRANSACTION_def)
    note s1 = batch_step(1) [OF less.prems(1) b [unfolded r]]
    have "t + of_nat ?n + of_nat (cycles - ?n) = t + of_nat cycles"
      using n(2) by (simp add: of_nat_diff)
    with less.IH [OF _ s1 [THEN conjunct2] rest] s1 n show ?thesis
      by (cases "cycles = ?n") auto
  qed
qed

lemma batches_thrown:
  assumes "sim_ready dims e t s" and "run_batches pf cycles t s = (Inl x, s')" and "is_Exception x"
  shows "\<exists>k s0. k * CYCLES_BY_TRANSACTION < cycles \<and> run_batches pf (k * CYCLES_BY_TRANSACTION) t s = (Inr (), s0) \<and>
    closed_on (db_tables (sim_db s0)) (sim_db s')"
  using assms
proof (induction cycles arbitrary: t s rule: less_induct)
  case (less cycles)
  let ?c = CYCLES_BY_TRANSACTION
  let ?n = "min cycles ?c"
  have c: "0 < ?c"
    by (simp add: CYCLES_BY_TRANSACTION_def)
  have pos: "cycles \<noteq> 0"
    using less.prems(2) by (metis Inl_Inr_False prod.inject run_batches_step)
  obtain r s1 where b: "batch pf ?n t s = (r, s1)"
    by fastforce
  show ?case
  proof (cases r)
    case (Inl y)
    with less.prems(2) b pos have "y = x" "s1 = s'"
      by (subst (asm) run_batches_step, simp)+
    with batch_step(2) [OF less.prems(1) b [unfolded Inl]] less.prems(3) pos show ?thesis
      by (intro exI [of _ 0] exI [of _ s]) (simp add: run_batches_step [of pf 0])
  next
    case (Inr y)
    then have r: "r = Inr ()" by simp
    with less.prems(2) b pos have rest: "run_batches pf (cycles - ?n) (t + of_nat ?n) s1 = (Inl x, s')"
      by (subst (asm) run_batches_step) simp
    then have "cycles - ?n \<noteq> 0"
      by (metis Inl_Inr_False prod.inject run_batches_step)
    then have n: "?n = ?c" "?c < cycles"
      by simp_all
    have "cycles - ?c < cycles"
      using c n by simp
    from less.IH [OF this batch_step(1) [OF less.prems(1) b [unfolded r], THEN conjunct2, unfolded n]
        rest [unfolded n] less.prems(3)]
    obtain k s0 where k: "k * ?c < cycles - ?c" "run_batches pf (k * ?c) (t + of_nat ?c) s1 = (Inr (), s0)"
      "closed_on (db_tables (sim_db s0)) (sim_db s')"
      by blast
    have "run_batches pf (Suc k * ?c) t s = (Inr (), s0)"
      using b r n k(2) c by (subst run_batches_step) simp
    with k show ?thesis
      by (intro exI [of _ "Suc k"] exI [of _ s0]) simp
  qed
qed

section \<open>A concrete run\<close>

lemma new_world_ready: "0 \<le> sint t \<Longrightarrow> sim_ready \<lparr>pos_x = 16, pos_y = 16\<rparr> 1 t (new_world t)"
proof -
  assume "0 \<le> sint t"
  then have "database_ok (connection (new_tables t))"
    using consistent_new_tables by (simp add: database_ok_def connection_def)
  then show ?thesis
    by (simp add: sim_ready_def sim_ok_def new_world_def sim_empty_def heap_ok_def connection_def
        grid_ok_def wf_world_new env_ok_def row_ids_def clock_def default_row_columns)
      (simp add: world_new_def)
qed

definition one_oclock :: row where
  "one_oclock = (default_row 0)(''time'' \<mapsto> Integer 1)"

lemma one_oclock_ok: "row_ok environment_table one_oclock"
  by (simp add: one_oclock_def row_ok_def default_row_defs at_least_def)

lemma col_one_oclock:
  "c \<noteq> ''time'' \<Longrightarrow> col one_oclock c = col (default_row 0) c" "col one_oclock ''time'' = Integer 1"
  by (simp_all add: one_oclock_def col_def)

lemma first_tick:
  assumes "db_tables s = new_tables 0"
  shows "Environment_set_time 1 1 s = (Inr (), s\<lparr>db_tables := (new_tables 0)(''Environment'' := [(1, one_oclock)])\<rparr>)"
proof -
  have "\<not> td_raise_update environment_table (new_tables 0) ''time'' one_oclock"
    by (simp add: environment_table_def max_time_def default_row_columns col_one_oclock)
  moreover have "unique_ok environment_table i one_oclock rows" "foreign_ok environment_table one_oclock db" for i rows db
    by (simp_all add: unique_ok_def foreign_ok_def environment_table_def plain_table_def)
  moreover have "map_of schema ''Environment'' = Some environment_table" "''time'' \<in> set (td_columns environment_table)"
    by (simp_all add: schema_def environment_table_def plain_table_def)
  moreover have "(default_row 0)(''time'' \<mapsto> bind_int 1) = one_oclock"
    by (simp add: one_oclock_def bind_int_def)
  ultimately show ?thesis
    using one_oclock_ok assms by (simp add: Environment_set_time_def sql_update_def Let_def replace_row_def)
qed

lemma single_environment:
  assumes "db_tables s ''Environment'' = [(1, r)]"
  shows "Environment_time 1 s = (Inr (word_of_int (integer_of (col r ''time''))), s)"
    and "Environment_time_mutate 1 s = (Inr (word_of_int (integer_of (col r ''time_mutate''))), s)"
  using assms by (simp_all add: Environment_time_def Environment_time_mutate_def column_int_def sql_select_def
     schema_def environment_table_def plain_table_def)

lemma no_food: "db_tables s ''Food'' = [] \<Longrightarrow> Food_time i s = (Inl DBException, s)"
  by (simp add: Food_time_def column_int_def sql_select_def schema_def food_table_def plain_table_def)

lemma new_world_simps:
  "sim_env (new_world t) = 1" "sim_db (new_world t) = connection (new_tables t)" "sim_spawns (new_world t) = []"
  "sim_resources (new_world t) = []" "sim_eggs (new_world t) = []" "sim_bugs (new_world t) = []"
  "sim_foods (new_world t) = []"
  by (simp_all add: new_world_def sim_empty_def spawns_def resources_def ids_of_def ids_by_def connection_def)

lemmas first_cycle = sw_run_def env_def on_database_def new_world_simps single_environment default_row_columns
  col_one_oclock connection_def run_batches_step CYCLES_BY_TRANSACTION_def
  in_transaction_def transaction_start_def transaction_begin_def on_connection_def transaction_new_def
  sql_begin_def run_cycle_def Let_def sw_spawn_eggs_def sw_spawn_food_def unless_full_def for_all_def
  first_tick sw_eggs_birth_def sw_bugs_mutate_def sw_bugs_timer_def sw_bugs_run_def sw_bugs_laziness_def
  sw_food_rot_def transaction_commit_def sql_commit_def finished_def

text \<open>The simulation with food that is missing in the database.\<close>

definition ghost_food :: sim where
  "ghost_food = (new_world 0)\<lparr>sim_heap := [0 \<mapsto> Food 7 7], sim_foods := [0]\<rparr>"

section \<open>Properties\<close>

text \<open>
  C3: a run that returns has done what it was asked for: the clock of the environment has advanced by
  exactly the number of cycles and is not beyond 2^31 - 1, every transaction is committed, no savepoint
  is left open, and the simulation is ready for the next run.
\<close>

theorem run_advances_time:
  assumes "sim_ready dims e t s" and "sw_run pf cycles s = (Inr (), s')"
  shows "sim_ready dims e (t + cycles) s' \<and> env Environment_time s' = (Inr (t + cycles), s') \<and>
    (cycles \<noteq> 0 \<longrightarrow> uint (t + cycles) < 2 ^ 31)"
proof -
  have "run_batches pf (unat cycles) t s = (Inr (), s')"
    using assms(2) env_time_ready [OF assms(1)] by (simp add: sw_run_def)
  from batches_returned [OF assms(1) this]
  have ready: "sim_ready dims e (t + cycles) s'" and sint: "cycles \<noteq> 0 \<longrightarrow> 0 \<le> sint (t + cycles)"
    by (simp_all add: unat_gt_0)
  have "uint (t + cycles) < 2 ^ 31" if "0 \<le> sint (t + cycles)"
    using that sint_large [of "t + cycles"] by linarith
  with ready sint env_time_ready [OF ready] show ?thesis
    by blast
qed

text \<open>
  C2: a run that fails with an exception leaves the database on disk as its last complete batch of
  1024 cycles left it: the tables are those of a run of some number of whole batches, nothing of the
  failed batch is kept and no transaction is left open.
\<close>

theorem failed_run_rolls_back:
  assumes "sim_ready dims e t s" and "sw_run pf cycles s = (Inl x, s')" and "is_Exception x"
  shows "\<exists>k s0. k * CYCLES_BY_TRANSACTION < unat cycles \<and>
    sw_run pf (of_nat (k * CYCLES_BY_TRANSACTION)) s = (Inr (), s0) \<and>
    sim_ready dims e (t + of_nat (k * CYCLES_BY_TRANSACTION)) s0 \<and>
    closed_on (db_tables (sim_db s0)) (sim_db s')"
proof -
  have "run_batches pf (unat cycles) t s = (Inl x, s')"
    using assms(2) env_time_ready [OF assms(1)] by (simp add: sw_run_def)
  from batches_thrown [OF assms(1) this assms(3)] obtain k s0
    where k: "k * CYCLES_BY_TRANSACTION < unat cycles"
      "run_batches pf (k * CYCLES_BY_TRANSACTION) t s = (Inr (), s0)" "closed_on (db_tables (sim_db s0)) (sim_db s')"
    by blast
  have "unat (of_nat n :: uint32) = n" if "n < unat cycles" for n
    using that unsigned_less [of cycles, where ?'a = nat] by (simp add: unsigned_of_nat take_bit_nat_eq_self)
  note this [OF k(1)]
  then have "sw_run pf (of_nat (k * CYCLES_BY_TRANSACTION)) s = (Inr (), s0)"
    using k(2) env_time_ready [OF assms(1)] by (simp add: sw_run_def)
  with k batches_returned [OF assms(1) k(2)] show ?thesis
    by blast
qed

text \<open>
  C26: the clock stops at 2^31 - 1: times are bound as signed integers, the next one is negative and the
  trigger of the environments rejects it, so that no run of any number of cycles can return any more.
\<close>

theorem clock_stops:
  assumes "sim_ready dims e 0x7FFFFFFF s" and "cycles \<noteq> 0"
  shows "fst (sw_run pf cycles s) \<noteq> Inr ()"
proof
  assume "fst (sw_run pf cycles s) = Inr ()"
  then obtain s' where "run_batches pf (unat cycles) 0x7FFFFFFF s = (Inr (), s')"
    using env_time_ready [OF assms(1)] by (cases "sw_run pf cycles s") (simp add: sw_run_def)
  moreover have "unat cycles \<noteq> 0"
    using assms(2) by (simp add: unat_eq_0)
  ultimately obtain s1 where b: "batch pf (min (unat cycles) CYCLES_BY_TRANSACTION) 0x7FFFFFFF s = (Inr (), s1)"
    (is "batch pf ?n _ s = _")
    by (subst (asm) run_batches_step) (auto split: prod.splits sum.splits)
  have n: "0 < ?n" "?n \<le> 1024"
    using \<open>unat cycles \<noteq> 0\<close> by (simp_all add: CYCLES_BY_TRANSACTION_def)
  then have "0 \<le> sint (0x7FFFFFFF + of_nat ?n :: uint32)"
    using batch_step(1) [OF assms(1) b] by simp
  moreover have "uint (0x7FFFFFFF + of_nat ?n :: uint32) = 0x7FFFFFFF + int ?n"
    using n by (simp add: uint_word_ariths unsigned_of_nat take_bit_eq_mod)
  ultimately show False
    using n sint_large [of "0x7FFFFFFF + of_nat ?n :: uint32"] by simp
qed

theorem run_advances_time_witness:
  "\<forall>pf. \<exists>s'. sw_run pf 1 (new_world 0) = (Inr (), s') \<and> sim_ready \<lparr>pos_x = 16, pos_y = 16\<rparr> 1 1 s'"
proof
  fix pf
  obtain s' where run: "sw_run pf 1 (new_world 0) = (Inr (), s')"
    by (simp add: first_cycle)
  have "sim_ready \<lparr>pos_x = 16, pos_y = 16\<rparr> 1 0 (new_world 0)"
    by (rule new_world_ready) simp
  with run_advances_time [OF this run] run
  show "\<exists>s'. sw_run pf 1 (new_world 0) = (Inr (), s') \<and> sim_ready \<lparr>pos_x = 16, pos_y = 16\<rparr> 1 1 s'"
    by simp
qed

theorem failed_run_rolls_back_witness:
  "\<forall>pf. \<exists>s'. sw_run pf 1 ghost_food = (Inl DBException, s') \<and> db_tables (sim_db s') = new_tables 0"
proof
  fix pf
  have ready: "sim_ready \<lparr>pos_x = 16, pos_y = 16\<rparr> 1 0 ghost_food"
    using new_world_ready [of 0] by (simp add: ghost_food_def sim_ready_def sim_ok_def heap_ok_def)
  obtain s' where run: "sw_run pf 1 ghost_food = (Inl DBException, s')"
    by (simp add: ghost_food_def first_cycle the_food_def as_food_def no_food abandon_def
        transaction_destroy_def transaction_rollback_def sql_rollback_def rolled_back_def)
  from failed_run_rolls_back [OF ready run] obtain k s0
    where k: "k * CYCLES_BY_TRANSACTION < 1" "sw_run pf (of_nat (k * CYCLES_BY_TRANSACTION)) ghost_food = (Inr (), s0)"
      "closed_on (db_tables (sim_db s0)) (sim_db s')"
    by auto
  then have "k = 0"
    by (simp add: CYCLES_BY_TRANSACTION_def)
  with k have "s0 = ghost_food"
    using env_time_ready [OF ready] by (simp add: sw_run_def run_batches_step)
  with run k(3) show "\<exists>s'. sw_run pf 1 ghost_food = (Inl DBException, s') \<and> db_tables (sim_db s') = new_tables 0"
    by (simp add: closed_on_def ghost_food_def new_world_simps connection_def)
qed

theorem clock_stops_witness: "\<forall>pf. fst (sw_run pf 1 (new_world 0x7FFFFFFF)) \<noteq> Inr ()"
proof
  fix pf
  have "sim_ready \<lparr>pos_x = 16, pos_y = 16\<rparr> 1 0x7FFFFFFF (new_world 0x7FFFFFFF)"
    by (rule new_world_ready) simp
  then show "fst (sw_run pf 1 (new_world 0x7FFFFFFF)) \<noteq> Inr ()"
    by (rule clock_stops) simp
qed

end
