(* ===== verification/Sim_Protocol.thy ===== *)
theory Sim_Protocol
  imports Sim_Actions Sim_Clock
begin

text \<open>
  The protocol of the instruction \<open>world\<close>: an action is begun, waited for and finished.
\<close>

section \<open>Calls of the simulation on a settled CPU\<close>

lemma with_db_again:
  assumes "sim_heap (bc_sim c) (bc_bug c) = Some (Bug b)"
  shows "with_db (with_db c db) db' = with_db c db'"
  unfolding with_db_def [of "with_db c db"] leave_with_db [OF assms] by (simp add: with_db_def)

lemma sim_env_leave [simp]: "sim_env (leave_cpu c) = sim_env (bc_sim c)"
  by (simp add: leave_cpu_def split: option.split entity.split)

lemma leave_again:
  assumes "sim_heap (bc_sim c) (bc_bug c) = Some (Bug b)"
  shows "sim_db (leave_cpu (with_db c db)) = db" "sim_env (bc_sim (with_db c db)) = sim_env (bc_sim c)"
  using leave_with_db [OF assms] by (simp_all add: with_db_def)

text \<open>The database that a call of the bug \<open>c\<close> meets, and the programs it runs there.\<close>

abbreviation call_db :: "bug_cpu \<Rightarrow> database" where
  "call_db c \<equiv> sim_db (leave_cpu c)"

lemma call_env:
  assumes "sim_heap (bc_sim c) (bc_bug c) = Some (Bug b)" and "f (sim_env (bc_sim c)) (call_db c) = (r, db)"
  shows "in_sim (\<lambda>_. env f) c = (r, with_db c db)"
  using in_sim_run [of c b "\<lambda>_. env f" r "(leave_cpu c)\<lparr>sim_db := db\<rparr>", OF assms(1)] assms(2)
  by (simp add: env_def on_database_def with_db_def)

lemma call_bug:
  assumes "sim_heap (bc_sim c) (bc_bug c) = Some (Bug b)" and "p (bo_id b) (call_db c) = (r, db)"
  shows "in_sim (\<lambda>p'. andthen (the_bug p') (\<lambda>b. on_database (p (bo_id b)))) c = (r, with_db c db)"
  using assms by (rule in_sim_database [where p = p])

text \<open>A bug that runs with its row \<open>r\<close>, in a consistent simulation at the time \<open>t\<close>.\<close>

definition at_time :: "bug_cpu \<Rightarrow> uint32 \<Rightarrow> bool" where
  "at_time c t \<longleftrightarrow>
     Environment_time (sim_env (bc_sim c)) (sim_db (bc_sim c)) = (Inr t, sim_db (bc_sim c)) \<and>
     max_time (db_tables (sim_db (bc_sim c))) = Integer (uint t) \<and> uint t < 2 ^ 31"

lemma column_int_frame:
  assumes "db_tables db t = db_tables db' t" and "column_int t c i db = (r, db)"
  shows "column_int t c i db' = (r, db')"
  using assms by (auto simp: column_int_def sql_select_def split: option.splits)

lemma call_environment: "db_tables (call_db c) ''Environment'' = db_tables (sim_db (bc_sim c)) ''Environment''"
  by (rule leave_cpu_tables) simp

lemma at_time_call:
  assumes "at_time c t"
  shows "Environment_time (sim_env (bc_sim c)) (call_db c) = (Inr t, call_db c)"
    and "max_time (db_tables (call_db c)) = Integer (uint t)"
proof -
  have "column_int ''Environment'' ''time'' (sim_env (bc_sim c)) (sim_db (bc_sim c)) = (Inr t, sim_db (bc_sim c))"
    using assms by (simp add: at_time_def Environment_time_def)
  from column_int_frame [OF call_environment [symmetric] this]
  show "Environment_time (sim_env (bc_sim c)) (call_db c) = (Inr t, call_db c)"
    by (simp add: Environment_time_def)
  show "max_time (db_tables (call_db c)) = Integer (uint t)"
    using assms by (simp add: at_time_def max_time_def call_environment)
qed

lemma at_time_with_db:
  assumes "sim_heap (bc_sim c) (bc_bug c) = Some (Bug b)" and "at_time c t"
    and "db_tables db ''Environment'' = db_tables (call_db c) ''Environment''"
  shows "at_time (with_db c db) t"
proof -
  have "Environment_time (sim_env (bc_sim c)) db = (Inr t, db)"
    using at_time_call(1) [OF assms(2)] column_int_frame [OF assms(3) [symmetric]]
    by (simp add: Environment_time_def)
  moreover have "max_time (db_tables db) = Integer (uint t)"
    using at_time_call(2) [OF assms(2)] assms(3) by (simp add: max_time_def)
  moreover have "sim_db (bc_sim (with_db c db)) = db"
    by (simp add: with_db_def)
  ultimately show ?thesis
    using assms(2) leave_again(2) [OF assms(1)] by (simp add: at_time_def)
qed

section \<open>Waiting\<close>

lemma call_time:
  assumes "sim_heap (bc_sim c) (bc_bug c) = Some (Bug b)" and "at_time c t"
  shows "in_sim (\<lambda>_. env Environment_time) c = (Inr t, with_db c (call_db c))"
  using assms(1) at_time_call(1) [OF assms(2)] by (rule call_env [where f = Environment_time])

lemma call_null_action:
  assumes "sim_heap (bc_sim c) (bc_bug c) = Some (Bug b)"
    and "map_of (db_tables (call_db c) ''AliveBug'') (bo_id b) = Some r"
  shows "in_sim (\<lambda>p. bug_is_null p ''action_time'') c =
    (Inr (col r ''action_time'' = Null), with_db c (call_db c))"
  using call_bug [where p = "is_null ''AliveBug'' ''action_time''", OF assms(1) is_null_row [OF assms(2)]]
  by (simp add: bug_is_null_def)

lemma call_action_time:
  assumes "sim_heap (bc_sim c) (bc_bug c) = Some (Bug b)"
    and "map_of (db_tables (call_db c) ''AliveBug'') (bo_id b) = Some r"
  shows "in_sim bug_action_time c =
    (Inr (word_of_int (integer_of (col r ''action_time''))), with_db c (call_db c))"
  using call_bug [where p = AliveBug_action_time, OF assms(1) action_time_row [OF assms(2)]]
  unfolding bug_action_time_def .

text \<open>The execution of \<open>world\<close>, once it is known at what time the action ends.\<close>

definition due :: "platform \<Rightarrow> uint16 \<Rightarrow> uint32 \<Rightarrow> (bug_cpu, update) prog" where
  "due pf action time =
     andthen
       (try_catch (perform pf action) (\<lambda>x.
          if x = ActionError then Some (set_reg LittleEndian REGISTER_G0 ActionFailure True) else None)) (\<lambda>_.
     andthen (in_sim (bug_set_time_last_action time)) (\<lambda>_.
     andthen (in_sim (\<lambda>p. bug_set_null p ''action_time'')) (\<lambda>_.
     ret UpdatePC)))"

lemma world_op_acting:
  assumes "at_time c now" and "alive_row c = Some r" and "col r ''action_time'' \<noteq> Null"
  shows "world_op pf cls inst c =
    (if now < word_of_int (integer_of (col r ''action_time''))
     then (Inl ActionBlocked, with_db c (call_db c))
     else due pf (i_data inst) now (with_db c (call_db c)))"
proof -
  obtain b where b: "sim_heap (bc_sim c) (bc_bug c) = Some (Bug b)"
    "map_of (db_tables (call_db c) ''AliveBug'') (bo_id b) = Some r"
    using alive_rowE [OF assms(2)] .
  let ?c = "with_db c (call_db c)"
  obtain b' where b': "sim_heap (bc_sim ?c) (bc_bug ?c) = Some (Bug b')" "bo_id b' = bo_id b"
    using bug_with_db [OF b(1)] by blast
  have row: "map_of (db_tables (call_db ?c) ''AliveBug'') (bo_id b') = Some r"
    using b(2) b'(2) leave_again(1) [OF b(1)] by simp
  have again: "with_db ?c (call_db ?c) = ?c"
    using leave_again(1) [OF b(1)] with_db_again [OF b(1)] by simp
  show ?thesis
    using assms(3) call_time [OF b(1) assms(1)]
      call_null_action [OF b'(1) row] call_action_time [OF b'(1) row]
    by (simp add: world_op_def due_def again)
qed

text \<open>
  C11: an action that has begun blocks its bug until its time has come: before, the instruction
  throws \<open>ActionBlocked\<close>; the registers and the memory of the bug, its row and every table but
  those with the memories of the bugs are what they were.
\<close>

theorem action_waits:
  assumes "alive_row c = Some r" and "col r ''action_time'' = Integer t" and "at_time c now"
    and "now < word_of_int t"
  shows "\<exists>c'. world_op pf cls inst c = (Inl ActionBlocked, c') \<and>
    cpu_registers c' = cpu_registers c \<and> cpu_memory c' = cpu_memory c \<and> alive_row c' = Some r \<and>
    (\<forall>t. t \<notin> {''Code'', ''Registers''} \<longrightarrow>
      db_tables (sim_db (bc_sim c')) t = db_tables (sim_db (bc_sim c)) t)"
proof -
  obtain b where b: "sim_heap (bc_sim c) (bc_bug c) = Some (Bug b)"
    "map_of (db_tables (call_db c) ''AliveBug'') (bo_id b) = Some r"
    using alive_rowE [OF assms(1)] .
  have "world_op pf cls inst c = (Inl ActionBlocked, with_db c (call_db c))"
    using world_op_acting [OF assms(3,1)] assms(2,4) by simp
  moreover have "alive_row (with_db c (call_db c)) = Some r"
    using alive_with_db [OF b(1)] b(2) by simp
  moreover have "db_tables (sim_db (bc_sim (with_db c (call_db c)))) t = db_tables (sim_db (bc_sim c)) t"
    if "t \<notin> {''Code'', ''Registers''}" for t
    using that by (simp add: with_db_def leave_cpu_tables)
  ultimately show ?thesis
    by auto
qed

section \<open>Beginning\<close>

text \<open>The durations are columns of the environment.\<close>

lemma duration_column:
  "action_duration a = Some f \<Longrightarrow> \<exists>k. \<forall>i. f i = column_int ''Environment'' k i"
  by (auto simp: action_duration_def Environment_time_nothing_def Environment_time_myself_def
      Environment_time_detect_def Environment_time_info_def Environment_time_move_def
      Environment_time_turn_def Environment_time_attack_def Environment_time_eat_def
      Environment_time_egg_def split: if_splits)

text \<open>The new values of a living bug that its table accepts.\<close>

lemma alive_row_upd:
  assumes "row_ok alivebug_table r" and "c = ''energy'' \<or> c = ''action_time'' \<Longrightarrow> 1 \<le> sint v"
    and "c = ''time_last_action'' \<Longrightarrow> 0 \<le> sint v" and "c \<in> {''energy'', ''time_last_action'', ''action_time''}"
  shows "row_ok alivebug_table (r(c \<mapsto> bind_int v))"
  using assms by (auto simp: row_ok_def alivebug_table_def plain_table_def at_least_def bind_int_def)

text \<open>The row \<open>i\<close> of the living bugs with the number \<open>v\<close> in the column \<open>c\<close>.\<close>

definition alive_set :: "string \<Rightarrow> sql_value \<Rightarrow> row_id \<Rightarrow> row \<Rightarrow> database \<Rightarrow> database" where
  "alive_set c v i r db = db\<lparr>db_tables := (db_tables db)
     (''AliveBug'' := replace_row i (r(c \<mapsto> v)) (db_tables db ''AliveBug''))\<rparr>"

lemma alive_set_sel [simp]:
  "t \<noteq> ''AliveBug'' \<Longrightarrow> db_tables (alive_set c v i r db) t = db_tables db t"
  "map_of (db_tables db ''AliveBug'') i = Some r \<Longrightarrow>
    map_of (db_tables (alive_set c v i r db) ''AliveBug'') i = Some (r(c \<mapsto> v))"
  by (simp_all add: alive_set_def map_of_replace_row)

lemma set_time_accepted:
  assumes "consistent (db_tables db)" and "map_of (db_tables db ''AliveBug'') i = Some r"
    and "max_time (db_tables db) = Integer m"
  shows "1 \<le> sint v \<Longrightarrow> m \<le> sint v \<Longrightarrow>
      AliveBug_set_action_time v i db = (Inr (), alive_set ''action_time'' (bind_int v) i r db)"
    and "0 \<le> sint v \<Longrightarrow> sint v \<le> m \<Longrightarrow>
      AliveBug_set_time_last_action v i db = (Inr (), alive_set ''time_last_action'' (bind_int v) i r db)"
    and "1 \<le> sint v \<Longrightarrow>
      AliveBug_set_energy v i db = (Inr (), alive_set ''energy'' (bind_int v) i r db)"
proof -
  have raise_if: "td_raise_update alivebug_table (db_tables db) c (r(c \<mapsto> bind_int v)) \<longleftrightarrow>
      c = ''time_last_action'' \<and> m < sint v \<or> c = ''action_time'' \<and> sint v < m" for c v
    by (auto simp: alivebug_table_def plain_table_def assms(3) bind_int_def)
  have accept: "sql_update ''AliveBug'' c (bind_int v) i db = (Inr (), alive_set c (bind_int v) i r db)"
    if "c \<in> {''energy'', ''time_last_action'', ''action_time''}"
      and "c = ''energy'' \<or> c = ''action_time'' \<Longrightarrow> 1 \<le> sint v" and "c = ''time_last_action'' \<Longrightarrow> 0 \<le> sint v"
      and "\<not> (c = ''time_last_action'' \<and> m < sint v \<or> c = ''action_time'' \<and> sint v < m)" for c v
    unfolding alive_set_def
    by (rule alive_update [OF assms(1,2) that(1) alive_row_upd [OF alive_row_ok [OF assms(1,2)] that(2,3,1)]])
      (use that(4) in \<open>simp_all only: raise_if not_False_eq_True\<close>)
  show "1 \<le> sint v \<Longrightarrow> m \<le> sint v \<Longrightarrow>
      AliveBug_set_action_time v i db = (Inr (), alive_set ''action_time'' (bind_int v) i r db)"
    "0 \<le> sint v \<Longrightarrow> sint v \<le> m \<Longrightarrow>
      AliveBug_set_time_last_action v i db = (Inr (), alive_set ''time_last_action'' (bind_int v) i r db)"
    "1 \<le> sint v \<Longrightarrow>
      AliveBug_set_energy v i db = (Inr (), alive_set ''energy'' (bind_int v) i r db)"
    unfolding AliveBug_set_action_time_def AliveBug_set_time_last_action_def AliveBug_set_energy_def
    by (rule accept; simp)+
qed

lemma settled_row:
  assumes "alive_row c = Some r" and "bug_cpu_ok dims e c"
  obtains b where "sim_heap (bc_sim c) (bc_bug c) = Some (Bug b)"
    and "map_of (db_tables (call_db c) ''AliveBug'') (bo_id b) = Some r"
    and "consistent (db_tables (call_db c))"
  using alive_rowE [OF assms(1)] sim_ok_consistent [OF leave_cpu_ok [OF assms(2)]] by metis

lemma settled_ok:
  assumes "bug_cpu_ok dims e c"
  shows "bug_cpu_ok dims e (with_db c (call_db c))"
proof -
  have "sim_ok dims e (bc_sim (with_db c (call_db c)))"
    using leave_cpu_ok [OF assms] by (simp add: with_db_def)
  then show ?thesis
    using assms unfolding bug_cpu_ok_def by simp
qed

lemma begin_action_run:
  assumes ok: "bug_cpu_ok dims e c" and row: "alive_row c = Some r" and time: "at_time c now"
    and dur: "action_duration a = Some f" "f (sim_env (bc_sim c)) (sim_db (bc_sim c)) = (Inr d, sim_db (bc_sim c))"
    and range: "0 < d" "uint now + uint d < 2 ^ 31"
    and b: "sim_heap (bc_sim c) (bc_bug c) = Some (Bug b)"
  shows "begin_action a now c =
    (Inr (), with_db c (alive_set ''action_time'' (bind_int (now + d)) (bo_id b) r (call_db c)))"
proof -
  obtain b' where b': "sim_heap (bc_sim c) (bc_bug c) = Some (Bug b')"
    "map_of (db_tables (call_db c) ''AliveBug'') (bo_id b') = Some r"
    and con: "consistent (db_tables (call_db c))"
    using settled_row [OF row ok] .
  then have row': "map_of (db_tables (call_db c) ''AliveBug'') (bo_id b) = Some r"
    using b by simp
  obtain k where k: "\<And>i. f i = column_int ''Environment'' k i"
    using duration_column [OF dur(1)] by blast
  have "f (sim_env (bc_sim c)) (call_db c) = (Inr d, call_db c)"
    using column_int_frame [OF call_environment [symmetric]] dur(2) unfolding k by blast
  then have env: "env f (leave_cpu c) = (Inr d, leave_cpu c)"
    by (simp add: env_def on_database_def)
  have sum: "uint (now + d) = uint now + uint d"
    using range(2) by (simp add: uint_plus_if')
  then have sint: "sint (now + d) = uint now + uint d"
    using range(2) by (simp add: sint_small)
  have "0 < uint d"
    using range(1) by (simp add: word_less_def)
  then have pos: "1 \<le> uint now + uint d"
    using uint_ge_0 [of now] by linarith
  have "AliveBug_set_action_time (now + d) (bo_id b) (call_db c) =
      (Inr (), alive_set ''action_time'' (bind_int (now + d)) (bo_id b) r (call_db c))"
    using range(1) by (intro set_time_accepted(1) [OF con row' at_time_call(2) [OF time]])
      (use pos in \<open>simp_all add: sint\<close>)
  then have "andthen (env f) (\<lambda>d. bug_set_action_time (now + d) (bc_bug c)) (leave_cpu c) =
      (Inr (), (leave_cpu c)\<lparr>sim_db := alive_set ''action_time'' (bind_int (now + d)) (bo_id b) r (call_db c)\<rparr>)"
    using leave_cpu_bug [OF b] env
    by (simp add: bug_set_action_time_def the_bug_def as_bug_def on_database_def)
  from in_sim_run [of c b "\<lambda>p. andthen (env f) (\<lambda>d. bug_set_action_time (now + d) p)", OF b this]
  show ?thesis
    by (simp add: begin_action_def dur(1) with_db_def)
qed

text \<open>
  C10: a bug that is idle begins the action: the row of the bug gets the time at which the action
  ends, and the bug is blocked, its registers and its memory untouched.
\<close>

theorem action_begins:
  assumes "bug_cpu_ok dims e c" and "alive_row c = Some r" and "col r ''action_time'' = Null"
    and "at_time c now" and "action_duration (i_data inst) = Some f"
    and "f (sim_env (bc_sim c)) (sim_db (bc_sim c)) = (Inr d, sim_db (bc_sim c))"
    and "0 < d" and "uint now + uint d < 2 ^ 31"
  shows "\<exists>c'. world_op pf cls inst c = (Inl ActionBlocked, c') \<and>
    cpu_registers c' = cpu_registers c \<and> cpu_memory c' = cpu_memory c \<and>
    alive_row c' = Some (r(''action_time'' \<mapsto> Integer (uint now + uint d)))"
proof -
  obtain b where b: "sim_heap (bc_sim c) (bc_bug c) = Some (Bug b)"
    "map_of (db_tables (call_db c) ''AliveBug'') (bo_id b) = Some r"
    using settled_row [OF assms(2,1)] .
  let ?c = "with_db c (call_db c)"
  let ?db = "alive_set ''action_time'' (bind_int (now + d)) (bo_id b) r (call_db c)"
  obtain b' where b': "sim_heap (bc_sim ?c) (bc_bug ?c) = Some (Bug b')" "bo_id b' = bo_id b"
    using bug_with_db [OF b(1)] by blast
  obtain b'' where b'': "sim_heap (bc_sim (with_db c ?db)) (bc_bug (with_db c ?db)) = Some (Bug b'')" "bo_id b'' = bo_id b"
    using bug_with_db [OF b(1)] by blast
  have call: "call_db ?c = call_db c" "call_db (with_db c ?db) = ?db"
    by (rule leave_again(1) [OF b(1)])+
  have sum: "uint (now + d) = uint now + uint d" "sint (now + d) = uint now + uint d"
    using assms(8) sint_small [of "now + d"] by (simp_all add: uint_plus_if')
  have "begin_action (i_data inst) now ?c = (Inr (), with_db ?c (alive_set ''action_time'' (bind_int (now + d)) (bo_id b') r (call_db ?c)))"
  proof (rule begin_action_run)
    show "bug_cpu_ok dims e ?c"
      by (rule settled_ok [OF assms(1)])
    show "alive_row ?c = Some r"
      using alive_with_db [OF b(1)] b(2) by simp
    show "at_time ?c now"
      using at_time_with_db [OF b(1) assms(4)] by simp
    obtain k where k: "\<And>i. f i = column_int ''Environment'' k i"
      using duration_column [OF assms(5)] by blast
    show "f (sim_env (bc_sim ?c)) (sim_db (bc_sim ?c)) = (Inr d, sim_db (bc_sim ?c))"
      using column_int_frame [OF call_environment [symmetric]] assms(6) unfolding k
      by (simp add: with_db_def) blast
  qed (fact assms b'(1))+
  then have begun: "begin_action (i_data inst) now ?c = (Inr (), with_db c ?db)"
    by (simp add: call(1) b'(2) with_db_again [OF b(1)])
  have row: "map_of (db_tables ?db ''AliveBug'') (bo_id b) = Some (r(''action_time'' \<mapsto> bind_int (now + d)))"
    using b(2) by simp
  have null: "in_sim (\<lambda>p. bug_is_null p ''action_time'') ?c = (Inr True, ?c)"
    using call_null_action [OF b'(1), of r] b(2) b'(2) assms(3) by (simp add: call(1) with_db_again [OF b(1)])
  have t: "in_sim bug_action_time (with_db c ?db) = (Inr (now + d), with_db c ?db)"
    using call_action_time [OF b''(1), unfolded b''(2) call(2), OF row]
    by (simp add: with_db_again [OF b(1)]) (simp add: bind_int_def)
  have "now < now + d"
    using assms(7) by (simp add: word_less_def sum)
  then have "world_op pf cls inst c = (Inl ActionBlocked, with_db c ?db)"
    by (simp add: world_op_def call_time [OF b(1) assms(4)] null begun t)
  moreover have "alive_row (with_db c ?db) = Some (r(''action_time'' \<mapsto> Integer (uint now + uint d)))"
    using alive_with_db [OF b(1)] row by (simp add: bind_int_def sum)
  ultimately show ?thesis
    by auto
qed

section \<open>Completing\<close>

text \<open>A bug that runs in the transaction of a run, in which the environments are \<open>E\<close>.\<close>

definition bug_in_run :: "position \<Rightarrow> row_id \<Rightarrow> table \<Rightarrow> tables \<Rightarrow> bug_cpu \<Rightarrow> bool" where
  "bug_in_run dims e E B c \<longleftrightarrow>
     wf_cpu c \<and> sizes_ok (mem_size (cpu_registers c)) (mem_size (cpu_memory c)) \<and>
     working dims e E B (sim_db (bc_sim c)) \<and> grid_ok dims (sim_world (bc_sim c)) \<and>
     sim_env (bc_sim c) = e \<and> heap_ok (sim_heap (bc_sim c))"

lemma bug_in_run_J: "bug_in_run dims e E B c \<longleftrightarrow> open_transaction.J dims e E B c"
  by (simp add: bug_in_run_def open_transaction.J_iff open_transaction.I_def)

lemma bug_in_run_ok: "bug_in_run dims e E B c \<Longrightarrow> bug_cpu_ok dims e c"
  by (auto simp: bug_in_run_def bug_cpu_ok_def sim_ok_def working_def)

lemma bug_in_run_env:
  "bug_in_run dims e E B c \<Longrightarrow> sim_env (bc_sim c) = e \<and> db_tables (sim_db (bc_sim c)) ''Environment'' = E"
  by (simp add: bug_in_run_def working_def)

lemma at_time_iff:
  assumes "sim_env (bc_sim c) = sim_env (bc_sim c')"
    and "db_tables (sim_db (bc_sim c)) ''Environment'' = db_tables (sim_db (bc_sim c')) ''Environment''"
  shows "at_time c t \<longleftrightarrow> at_time c' t"
proof -
  have "sql_select ''Environment'' ''time'' (sim_env (bc_sim c)) (sim_db (bc_sim c)) =
      sql_select ''Environment'' ''time'' (sim_env (bc_sim c')) (sim_db (bc_sim c'))"
    by (simp add: sql_select_def assms cong: option.case_cong if_cong)
  then show ?thesis
    by (simp add: at_time_def max_time_def Environment_time_def column_int_def assms(2))
qed

definition settled :: "bug_cpu \<Rightarrow> bug_cpu" where
  "settled c = with_db c (call_db c)"

lemma settled_in_run: "bug_in_run dims e E B c \<Longrightarrow> bug_in_run dims e E B (settled c)"
  using open_transaction.J_leave [of dims e E B c]
  unfolding bug_in_run_J open_transaction.J_iff by (simp add: settled_def) (simp add: with_db_def)

lemma perform_in_run:
  assumes "bug_in_run dims e E B c" and "perform pf a c = (res, c')" and "res \<noteq> Inl DBException"
  shows "bug_in_run dims e E B c'"
proof (cases res)
  case (Inl x)
  with assms have "open_transaction.J dims e E B c' \<or> open_transaction.XJ B x c'"
    using keepsD(1) [OF open_transaction.J_perform] by (simp add: bug_in_run_J)
  with Inl assms(3) show ?thesis
    by (auto simp: bug_in_run_J open_transaction.XJ_def undone_def)
next
  case (Inr u)
  with assms show ?thesis
    using keepsD(2) [OF open_transaction.J_perform] by (simp add: bug_in_run_J)
qed

text \<open>What the instruction does once the action has had its effect.\<close>

lemma close_action:
  assumes "bug_cpu_ok dims e c" and "alive_row c = Some r" and "at_time c now"
  shows "\<exists>db. andthen (in_sim (bug_set_time_last_action now)) (\<lambda>_.
      andthen (in_sim (\<lambda>p. bug_set_null p ''action_time'')) (\<lambda>_. ret UpdatePC)) c = (Inr UpdatePC, with_db c db) \<and>
    alive_row (with_db c db) = Some (r(''time_last_action'' \<mapsto> Integer (uint now), ''action_time'' \<mapsto> Null))"
proof -
  obtain b where b: "sim_heap (bc_sim c) (bc_bug c) = Some (Bug b)"
    "map_of (db_tables (call_db c) ''AliveBug'') (bo_id b) = Some r"
    and con: "consistent (db_tables (call_db c))"
    using settled_row [OF assms(2,1)] .
  have now: "uint now < 2 ^ 31"
    using assms(3) by (simp add: at_time_def)
  let ?db = "alive_set ''time_last_action'' (bind_int now) (bo_id b) r (call_db c)"
  let ?r = "r(''time_last_action'' \<mapsto> bind_int now)"
  have first: "AliveBug_set_time_last_action now (bo_id b) (call_db c) = (Inr (), ?db)"
    by (rule set_time_accepted(2) [OF con b(2) at_time_call(2) [OF assms(3)]])
      (simp_all add: sint_small [OF now])
  from call_bug [where p = "AliveBug_set_time_last_action now", OF b(1) this]
  have one: "in_sim (bug_set_time_last_action now) c = (Inr (), with_db c ?db)"
    by (simp add: bug_set_time_last_action_def [abs_def])
  obtain b' where b': "sim_heap (bc_sim (with_db c ?db)) (bc_bug (with_db c ?db)) = Some (Bug b')" "bo_id b' = bo_id b"
    using bug_with_db [OF b(1)] by blast
  have call: "call_db (with_db c ?db) = ?db"
    by (rule leave_again(1) [OF b(1)])
  have "database_ok (call_db c)"
    using leave_cpu_ok [OF assms(1)] by (simp add: sim_ok_def)
  then have con': "consistent (db_tables ?db)"
    using preservesD [OF preserves_statements(3) _ first [unfolded AliveBug_set_time_last_action_def]]
    by (simp add: alive_schema alivebug_table_def plain_table_def database_ok_def)
  have row': "map_of (db_tables ?db ''AliveBug'') (bo_id b') = Some ?r"
    using b(2) b'(2) by simp
  let ?db' = "alive_set ''action_time'' Null (bo_id b') ?r ?db"
  have "set_null ''AliveBug'' ''action_time'' (bo_id b') ?db = (Inr (), ?db')"
    unfolding set_null_def alive_set_def [of "''action_time''"] by (rule alive_update_null [OF con' row'])
  from call_bug [where p = "set_null ''AliveBug'' ''action_time''", OF b'(1), unfolded call, OF this]
  have "in_sim (\<lambda>p. bug_set_null p ''action_time'') (with_db c ?db) = (Inr (), with_db c ?db')"
    by (simp add: bug_set_null_def with_db_again [OF b(1)])
  moreover have "alive_row (with_db c ?db') = Some (r(''time_last_action'' \<mapsto> Integer (uint now), ''action_time'' \<mapsto> Null))"
    using alive_with_db [OF b(1)] b'(2) row' by (simp add: bind_int_def sint_small [OF now])
  ultimately show ?thesis
    using one by (intro exI [of _ ?db']) simp
qed

text \<open>
  C9: an action whose time has come takes effect, and then, whether it succeeded or failed, the bug
  is idle again: the row of the bug has lost the time of the action and has the present time as that
  of the last action.  \<open>G0\<close> tells success from failure; the other registers and the memory are what the
  action left.
\<close>

theorem action_completes:
  assumes "bug_in_run dims e E B c" and "at_time c now" and "alive_row c = Some r"
    and "col r ''action_time'' = Integer t" and "word_of_int t \<le> now"
    and "perform pf (i_data inst) (settled c) = (res, c1)" and "res = Inr () \<or> res = Inl ActionError"
    and "alive_row c1 = Some r1"
  shows "\<exists>c2. world_op pf cls inst c = (Inr UpdatePC, c2) \<and>
    alive_row c2 = Some (r1(''time_last_action'' \<mapsto> Integer (uint now), ''action_time'' \<mapsto> Null)) \<and>
    cpu_memory c2 = cpu_memory c1 \<and>
    reg c2 REGISTER_G0 = (if res = Inr () then ActionSuccess else ActionFailure) \<and>
    (\<forall>k. unat k < 16 \<and> k \<noteq> REGISTER_G0 \<longrightarrow> reg c2 k = reg c1 k)"
proof -
  have run: "world_op pf cls inst c = due pf (i_data inst) now (settled c)"
    using world_op_acting [OF assms(2,3)] assms(4) leD [OF assms(5)] by (simp add: settled_def)
  have in_run: "bug_in_run dims e E B c1"
    using perform_in_run [OF settled_in_run [OF assms(1)] assms(6)] assms(7) by auto
  then have wf: "wf_cpu c1"
    by (simp add: bug_in_run_def)
  define d where "d = (if res = Inr () then c1 else put_reg c1 REGISTER_G0 ActionFailure)"
  have same: "bc_sim d = bc_sim c1" "alive_row d = Some r1" "cpu_memory d = cpu_memory c1"
      "mem_size (cpu_registers d) = mem_size (cpu_registers c1)" "wf_cpu d"
    using assms(8) wf by (simp_all add: d_def)
  have regs: "reg d k = (if k = REGISTER_G0 \<and> res \<noteq> Inr () then ActionFailure else reg c1 k)" if "unat k < 16" for k
    using wf that by (auto simp: d_def reg_put_reg)
  have ok: "bug_cpu_ok dims e d"
    using bug_in_run_ok [OF in_run] same by (simp add: bug_cpu_ok_def)
  have "at_time c1 now"
    using assms(2) bug_in_run_env [OF assms(1)] bug_in_run_env [OF in_run] by (metis at_time_iff)
  then have "at_time d now"
    using same(1) by (simp add: at_time_def)
  from close_action [OF ok same(2) this] obtain db where
    "due pf (i_data inst) now (settled c) = (Inr UpdatePC, with_db d db)"
    and "alive_row (with_db d db) = Some (r1(''time_last_action'' \<mapsto> Integer (uint now), ''action_time'' \<mapsto> Null))"
    using assms(6,7) wf unfolding due_def d_def by (auto simp: try_catch_def)
  moreover have "reg c1 REGISTER_G0 = ActionSuccess" if "res = Inr ()"
    using endsD(2) [OF open_transaction.perform_succeeds settled_in_run [OF assms(1), unfolded bug_in_run_J]]
      assms(6) that by blast
  ultimately show ?thesis
    using regs same(3) unfolding run by auto
qed

section \<open>The price of an action\<close>

lemma substract_energy_run:
  assumes "consistent (db_tables (sim_db s))" and "sim_heap s p = Some (Bug b)"
    and "map_of (db_tables (sim_db s) ''AliveBug'') (bo_id b) = Some r"
    and "col r ''energy'' = Integer k" and "1 \<le> k" and "k < 2 ^ 31"
  shows "sw_substract_energy p n s =
    (if k \<le> uint n then (Inl BugDeath, s)
     else (Inr (), s\<lparr>sim_db := alive_set ''energy'' (Integer (k - uint n)) (bo_id b) r (sim_db s)\<rparr>))"
proof -
  let ?e = "word_of_int k :: uint32"
  have e: "uint ?e = k"
    using assms(5,6) by (simp add: uint_word_of_int take_bit_eq_mod)
  have old: "AliveBug_energy (bo_id b) (sim_db s) = (Inr ?e, sim_db s)"
    using assms(3,4)
    by (simp add: AliveBug_energy_def column_int_def sql_select_def schema_def alivebug_table_def plain_table_def)
  show ?thesis
  proof (cases "k \<le> uint n")
    case True
    then have "?e \<le> n"
      by (simp add: word_le_def e)
    with True assms(2) old show ?thesis
      by (simp add: sw_substract_energy_def the_bug_def as_bug_def on_database_def)
  next
    case False
    then have less: "\<not> ?e \<le> n"
      by (simp add: word_le_def e)
    have diff: "uint (?e - n) = k - uint n"
      using False e by (simp add: uint_sub_if')
    moreover have "k - uint n < 2 ^ 31"
      using assms(6) uint_ge_0 [of n] by linarith
    ultimately have sint: "sint (?e - n) = k - uint n"
      using sint_small [of "?e - n"] by simp
    have "AliveBug_set_energy (?e - n) (bo_id b) (sim_db s) =
        (Inr (), alive_set ''energy'' (bind_int (?e - n)) (bo_id b) r (sim_db s))"
      unfolding AliveBug_set_energy_def alive_set_def
      by (rule alive_update [OF assms(1,3) _ alive_row_upd [OF alive_row_ok [OF assms(1,3)]]])
        (use False in \<open>simp_all add: sint alivebug_table_def plain_table_def\<close>)
    with False less assms(2) old show ?thesis
      by (simp add: sw_substract_energy_def the_bug_def as_bug_def on_database_def bind_int_def sint)
  qed
qed

section \<open>What actions cost\<close>

text \<open>The column of the environment with the price of an action.\<close>

definition action_price :: "uint16 \<Rightarrow> (row_id \<Rightarrow> (database, uint32) prog) option" where
  "action_price a =
     (if a = ACTION_NOTHING then Some Environment_energy_nothing
      else if a \<in> {ACTION_MYSELFID, ACTION_MYSELFSIZE, ACTION_MYSELFENERGY, ACTION_MYSELFPOSITION,
          ACTION_MYSELFORIENTATION} then Some Environment_energy_myself
      else if a = ACTION_DETECT then Some Environment_energy_detect
      else if a \<in> {ACTION_INFOID, ACTION_INFOSIZE, ACTION_INFOENERGY, ACTION_INFOPOSITION,
          ACTION_INFOORIENTATION} then Some Environment_energy_info
      else if a \<in> {ACTION_MOVEFORWARD, ACTION_MOVEBACKWARD} then Some Environment_energy_move
      else if a \<in> {ACTION_TURNLEFT, ACTION_TURNRIGHT} then Some Environment_energy_turn
      else if a = ACTION_ATTACK then Some Environment_energy_attack
      else if a = ACTION_EAT then Some Environment_energy_eat
      else if a = ACTION_EGG then Some Environment_energy_egg
      else None)"

lemma price_column: "action_price a = Some f \<Longrightarrow> \<exists>k. \<forall>i. f i = column_int ''Environment'' k i"
  by (auto simp: action_price_def Environment_energy_nothing_def Environment_energy_myself_def
      Environment_energy_detect_def Environment_energy_info_def Environment_energy_move_def
      Environment_energy_turn_def Environment_energy_attack_def Environment_energy_eat_def
      Environment_energy_egg_def split: if_splits)

section \<open>Frames\<close>

text \<open>Programs that leave the row of the bug alone, as far as they succeed.\<close>

definition bug_row :: "(ptr \<rightharpoonup> entity) \<Rightarrow> row_id \<Rightarrow> row \<Rightarrow> sim \<Rightarrow> bool" where
  "bug_row H i r s \<longleftrightarrow> sim_heap s = H \<and> map_of (db_tables (sim_db s) ''AliveBug'') i = Some r"

abbreviation framed :: "(ptr \<rightharpoonup> entity) \<Rightarrow> row_id \<Rightarrow> row \<Rightarrow> (sim, 'a) prog \<Rightarrow> bool" where
  "framed H i r \<equiv> keeps (\<lambda>_ _. True) (bug_row H i r)"

lemma framed_database:
  "keeps (\<lambda>_ _. True) (\<lambda>db. map_of (db_tables db ''AliveBug'') i = Some r) p \<Longrightarrow> framed H i r (on_database p)"
  by (fastforce simp: keeps_def on_database_def bug_row_def split: prod.splits sum.splits)

lemma framed_world_row:
  "keeps (\<lambda>_ _. True) (\<lambda>db. map_of (db_tables db ''AliveBug'') i = Some r) (sql_update ''World'' c v j)"
  by (rule keepsI) (auto simp: sql_update_def Let_def split: option.splits if_splits)

lemma framed_on_world: "framed H i r (on_world f)"
  unfolding on_world_def by (rule keeps_updating) (auto simp: attempt_eq_Inr bug_row_def)

lemma framed_action_error: "framed H i r m \<Longrightarrow> framed H i r (as_action_error m)"
  by (fastforce simp: keeps_def as_action_error_def split: prod.splits sum.splits)

lemmas frames = framed_database keeps_columns framed_on_world framed_action_error keeps_readings

lemma framed_front: "framed H i r (sw_front p)"
  unfolding sw_front_def row_position_def by (intro pres_intros frames)

text \<open>From the simulation \<open>s\<close>, once the price is paid.\<close>

lemma then_framed:
  assumes "pay price p s = (Inr (), s')" and "bug_row H i r s'" and "framed H i r (f ())"
  shows "leads (\<lambda>_ _. True) (\<lambda>t. t = s) (bug_row H i r) (andthen (pay price p) f)"
  using assms by (auto simp: leads_def keeps_def split: prod.splits sum.splits)

lemma paid_actions:
  assumes "pay price p s = (Inr (), s')" and "bug_row H i r s'"
  shows "price = Environment_energy_nothing \<Longrightarrow> leads (\<lambda>_ _. True) (\<lambda>t. t = s) (bug_row H i r) (sw_nothing p)"
    and "price = Environment_energy_myself \<Longrightarrow> leads (\<lambda>_ _. True) (\<lambda>t. t = s) (bug_row H i r) (sw_myself p info)"
    and "price = Environment_energy_detect \<Longrightarrow> leads (\<lambda>_ _. True) (\<lambda>t. t = s) (bug_row H i r) (sw_detect p)"
    and "price = Environment_energy_info \<Longrightarrow> leads (\<lambda>_ _. True) (\<lambda>t. t = s) (bug_row H i r) (sw_information p info)"
    and "price = Environment_energy_move \<Longrightarrow> leads (\<lambda>_ _. True) (\<lambda>t. t = s) (bug_row H i r) (sw_move p movement)"
    and "price = Environment_energy_turn \<Longrightarrow> leads (\<lambda>_ _. True) (\<lambda>t. t = s) (bug_row H i r) (sw_turn p side)"
proof -
  note paid = then_framed [OF assms]
  show "leads (\<lambda>_ _. True) (\<lambda>t. t = s) (bug_row H i r) (sw_nothing p)" if "price = Environment_energy_nothing"
    using assms that by (simp add: leads_def sw_nothing_def)
  show "leads (\<lambda>_ _. True) (\<lambda>t. t = s) (bug_row H i r) (sw_myself p info)" if "price = Environment_energy_myself"
    unfolding sw_myself_def that [symmetric] code_size_def
    by (rule paid; cases info; simp only: info.case; intro pres_intros frames)
  have "preserves (bug_row H i r) (try_catch (from_world f) (\<lambda>x. if is_WorldError x then Some (throw ActionError) else None))"
    "preserves (bug_row H i r) (try_catch (from_world g) (\<lambda>x. if is_WorldError x then Some (ret ElementNothing) else None))"
    for f :: "world \<Rightarrow> exn + element" and g :: "world \<Rightarrow> exn + element_type"
    by (intro pres_intros keeps_readings; auto intro: pres_intros split: if_splits)+
  note tries = keeps_preserves [OF this(1)] keeps_preserves [OF this(2)]
  show "leads (\<lambda>_ _. True) (\<lambda>t. t = s) (bug_row H i r) (sw_detect p)" if "price = Environment_energy_detect"
    unfolding sw_detect_def that [symmetric] by (rule paid) (intro pres_intros framed_front tries)
  show "leads (\<lambda>_ _. True) (\<lambda>t. t = s) (bug_row H i r) (sw_information p info)" if "price = Environment_energy_info"
    unfolding sw_information_def that [symmetric] target_at_def code_size_def Let_def
    by (rule paid; cases info; simp only: info.case; intro pres_intros framed_front tries frames)
  show "leads (\<lambda>_ _. True) (\<lambda>t. t = s) (bug_row H i r) (sw_move p movement)" if "price = Environment_energy_move"
    unfolding sw_move_def that [symmetric] row_position_def World_set_position_x_def World_set_position_y_def
    by (rule paid) (intro framed_action_error pres_intros framed_front frames framed_world_row)
  show "leads (\<lambda>_ _. True) (\<lambda>t. t = s) (bug_row H i r) (sw_turn p side)" if "price = Environment_energy_turn"
    unfolding sw_turn_def that [symmetric] World_set_orientation_def
    by (rule paid) (intro framed_action_error pres_intros frames framed_world_row)
qed

lemma unpaid_actions:
  assumes "pay price p s = (Inl x, s)"
  shows "price = Environment_energy_nothing \<Longrightarrow> sw_nothing p s = (Inl x, s)"
    and "price = Environment_energy_myself \<Longrightarrow> sw_myself p info s = (Inl x, s)"
    and "price = Environment_energy_detect \<Longrightarrow> sw_detect p s = (Inl x, s)"
    and "price = Environment_energy_info \<Longrightarrow> sw_information p info s = (Inl x, s)"
    and "price = Environment_energy_move \<Longrightarrow> sw_move p movement s = (Inl x, s)"
    and "price = Environment_energy_turn \<Longrightarrow> sw_turn p side s = (Inl x, s)"
    and "price = Environment_energy_attack \<Longrightarrow> sw_attack pf p energy s = (Inl x, s)"
    and "price = Environment_energy_eat \<Longrightarrow> sw_eat p s = (Inl x, s)"
    and "price = Environment_energy_egg \<Longrightarrow> sw_egg pf p energy s = (Inl x, s)"
  using assms by (simp_all add: sw_nothing_def sw_myself_def sw_detect_def sw_information_def sw_move_def sw_turn_def
      sw_attack_def sw_eat_def sw_egg_def)

section \<open>Actions of a CPU\<close>

lemma in_sim_fails:
  assumes "sim_heap (bc_sim c) (bc_bug c) = Some (Bug b)" and "q (bc_bug c) (leave_cpu c) = (Inl x, leave_cpu c)"
  shows "in_sim q c = (Inl x, settled c)"
  using in_sim_run [where f = q, OF assms refl] by (simp add: settled_def with_db_def)

lemma in_sim_leads:
  assumes "sim_heap (bc_sim c) (bc_bug c) = Some (Bug b)"
    and "leads (\<lambda>_ _. True) (\<lambda>t. t = leave_cpu c) (bug_row (sim_heap (leave_cpu c)) (bo_id b) r) (q (bc_bug c))"
  shows "leads (\<lambda>_ _. True) (\<lambda>d. d = c) (\<lambda>d. alive_row d = Some r) (in_sim q)"
proof -
  have "alive_row c' = Some r" if run: "in_sim q c = (Inr y, c')" for y c'
  proof -
    obtain s where s: "q (bc_bug c) (leave_cpu c) = (Inr y, s)"
      using run by (auto simp: in_sim_def split: prod.splits)
    then have "bug_row (sim_heap (leave_cpu c)) (bo_id b) r s"
      using assms(2) by (simp add: leads_def)
    then have row: "sim_heap s = sim_heap (leave_cpu c)" "map_of (db_tables (sim_db s) ''AliveBug'') (bo_id b) = Some r"
      by (simp_all add: bug_row_def)
    then have "c' = c\<lparr>bc_sim := s\<rparr>"
      using in_sim_run [where f = q, OF assms(1) s row(1)] run by simp
    with row leave_cpu_bug [OF assms(1)] show ?thesis
      by (simp add: alive_row_def)
  qed
  then show ?thesis
    by (auto simp: leads_def split: prod.splits sum.splits)
qed

lemma alive_row_registers [simp]: "alive_row (c\<lparr>cpu_registers := m\<rparr>) = alive_row c"
  by (simp add: alive_row_def cong: option.case_cong entity.case_cong)

lemma set_reg_alive: "keeps (\<lambda>_ _. True) (\<lambda>c. alive_row c = Some r) (set_reg e k w se)"
  by (auto simp: keeps_def set_reg_def select_register_def read_register_def write_register_def
      attempt_eq_Inr split: sum.splits)

lemma perform_fails:
  assumes b: "sim_heap (bc_sim c) (bc_bug c) = Some (Bug b)" and "wf_cpu c" and "action_price a = Some price"
    and "pay price (bc_bug c) (leave_cpu c) = (Inl x, leave_cpu c)"
  shows "perform pf a c = (Inl x, settled c)"
  using assms(2,3) unpaid_actions [OF assms(4)]
  by (auto simp: action_price_def perform_def answer_def in_sim_fails [OF b] split: if_splits)

lemma then_alive:
  assumes "leads (\<lambda>_ _. True) (\<lambda>d. d = c) (\<lambda>d. alive_row d = Some r) m"
    and "\<And>y. keeps (\<lambda>_ _. True) (\<lambda>d. alive_row d = Some r) (f y)"
  shows "leads (\<lambda>_ _. True) (\<lambda>d. d = c) (\<lambda>d. alive_row d = Some r) (andthen m f)"
  by (rule leads_andthen [OF assms(1)]) (simp_all add: assms(2))

lemma perform_pays:
  assumes b: "sim_heap (bc_sim c) (bc_bug c) = Some (Bug b)" and "action_price a = Some price"
    and "pay price (bc_bug c) (leave_cpu c) = (Inr (), s)" and "bug_row (sim_heap (leave_cpu c)) (bo_id b) r s"
    and "a \<notin> {ACTION_ATTACK, ACTION_EAT, ACTION_EGG}"
  shows "leads (\<lambda>_ _. True) (\<lambda>d. d = c) (\<lambda>d. alive_row d = Some r) (perform pf a)"
proof -
  note paid = paid_actions [OF assms(3,4)]
  have answer: "leads (\<lambda>_ _. True) (\<lambda>d. d = c) (\<lambda>d. alive_row d = Some r) (answer q)"
    if "leads (\<lambda>_ _. True) (\<lambda>t. t = leave_cpu c) (bug_row (sim_heap (leave_cpu c)) (bo_id b) r) (q (bc_bug c))" for q
    unfolding answer_def finish_def
    by (intro then_alive in_sim_leads [where q = q, OF b that] pres_intros) (auto split: option.split intro!: pres_intros set_reg_alive)
  have detect: "leads (\<lambda>_ _. True) (\<lambda>t. t = leave_cpu c) (bug_row (sim_heap (leave_cpu c)) (bo_id b) r)
      (andthen (sw_detect (bc_bug c)) (\<lambda>type. ret (type, None)))" if "price = Environment_energy_detect"
    by (rule leads_andthen [OF paid(3) [OF that]]) (simp_all add: keeps_ret)
  show ?thesis
    using assms(2,5) unfolding action_price_def perform_def finish_def
    by (auto intro!: then_alive in_sim_leads [OF b] paid answer detect set_reg_alive split: if_splits simp del: andthen_apply)
qed

text \<open>
  C13: every action begins with its own price in the environment.  A bug whose energy is no more than
  that dies, by the exception \<open>BugDeath\<close>, before the action has had any effect.  An action other than
  attacking, eating and laying an egg, when it succeeds, has changed the row of the bug by its price and
  by nothing else.
\<close>

theorem actions_priced:
  assumes "bug_cpu_ok dims e c" and "alive_row c = Some r"
    and "col r ''energy'' = Integer k" and "1 \<le> k" and "k < 2 ^ 31"
    and "action_price a = Some price" and "price (sim_env (bc_sim c)) (sim_db (bc_sim c)) = (Inr n, sim_db (bc_sim c))"
  shows "(k \<le> uint n \<longrightarrow> perform pf a c = (Inl BugDeath, settled c)) \<and>
    (\<forall>c'. uint n < k \<and> a \<notin> {ACTION_ATTACK, ACTION_EAT, ACTION_EGG} \<and> perform pf a c = (Inr (), c') \<longrightarrow>
      alive_row c' = Some (r(''energy'' \<mapsto> Integer (k - uint n))))"
proof -
  obtain b where b: "sim_heap (bc_sim c) (bc_bug c) = Some (Bug b)"
    "map_of (db_tables (call_db c) ''AliveBug'') (bo_id b) = Some r"
    and con: "consistent (db_tables (call_db c))"
    using settled_row [OF assms(2,1)] .
  obtain col where "\<And>i. price i = column_int ''Environment'' col i"
    using price_column [OF assms(6)] by blast
  then have price: "price (sim_env (bc_sim c)) (call_db c) = (Inr n, call_db c)"
    using column_int_frame [OF call_environment [symmetric]] assms(7) by simp
  note run = substract_energy_run [OF con leave_cpu_bug [OF b(1)] _ assms(3-5), of n]
  have "wf_cpu c"
    using assms(1) by (simp add: bug_cpu_ok_def)
  have "perform pf a c = (Inl BugDeath, settled c)" if "k \<le> uint n"
    by (rule perform_fails [OF b(1) \<open>wf_cpu c\<close> assms(6)])
      (use run b(2) price that in \<open>simp add: pay_def env_def on_database_def\<close>)
  moreover have "alive_row c' = Some (r(''energy'' \<mapsto> Integer (k - uint n)))"
    if "uint n < k" "a \<notin> {ACTION_ATTACK, ACTION_EAT, ACTION_EGG}" "perform pf a c = (Inr (), c')" for c'
  proof -
    let ?s = "(leave_cpu c)\<lparr>sim_db := alive_set ''energy'' (Integer (k - uint n)) (bo_id b) r (call_db c)\<rparr>"
    have "pay price (bc_bug c) (leave_cpu c) = (Inr (), ?s)"
      using run b(2) price that(1) by (simp add: pay_def env_def on_database_def)
    moreover have "bug_row (sim_heap (leave_cpu c)) (bo_id b) (r(''energy'' \<mapsto> Integer (k - uint n))) ?s"
      using b(2) by (simp add: bug_row_def)
    ultimately show ?thesis
      using perform_pays [OF b(1) assms(6) _ _ that(2), where pf = pf] that(3) by (simp add: leads_def)
  qed
  ultimately show ?thesis by blast
qed

section \<open>Concrete actions\<close>

text \<open>A bug at the time \<open>now\<close>, whose action ends at \<open>a\<close>.\<close>

definition example_cpu :: "uint32 \<Rightarrow> sql_value \<Rightarrow> bug_cpu" where
  "example_cpu now a = enter_cpu handling_cpu 0 (bug_world now a handling_cpu)"

definition nothing_inst :: instruction where
  "nothing_inst = \<lparr>i_code = 0x58, i_first = 0, i_second = 0, i_data = ACTION_NOTHING\<rparr>"

lemma example_sel [simp]:
  "bc_sim (example_cpu now a) = bug_world now a handling_cpu" "bc_bug (example_cpu now a) = 0"
  "cpu_registers (example_cpu now a) = cpu_registers handling_cpu"
  "cpu_memory (example_cpu now a) = cpu_memory handling_cpu"
  by (simp_all add: example_cpu_def enter_cpu_def)

lemma example_ok:
  assumes "a = Null \<or> (\<exists>k \<ge> 1. a = Integer k)" and "0 \<le> sint now"
  shows "bug_cpu_ok \<lparr>pos_x = 16, pos_y = 16\<rparr> 1 (example_cpu now a)"
  using bug_world_ok [OF assms cpu_ok_handling] cpu_ok_handling
  by (simp add: bug_cpu_ok_def cpu_ok_def wf_cpu_def)

lemma example_row: "alive_row (example_cpu now a) = Some (the_alive_row a)"
  by (simp add: alive_row_def bug_world_def connection_def bug_tables_def)

lemma example_environment: "db_tables (sim_db (bug_world now a cpu)) ''Environment'' = [(1, default_row now)]"
  "sim_env (bug_world now a cpu) = 1"
  by (simp_all add: bug_world_def connection_def bug_tables_def)

lemma example_time:
  assumes "uint now < 2 ^ 31"
  shows "at_time (example_cpu now a) now"
  using assms sint_small [OF assms]
  by (simp add: at_time_def Environment_time_def column_int_def sql_select_def example_environment
      schema_def environment_table_def plain_table_def max_time_def default_row_columns)

theorem action_waits_witness:
  "\<forall>pf cls. \<exists>c'. world_op pf cls nothing_inst (example_cpu 3 (Integer 5)) = (Inl ActionBlocked, c') \<and>
    alive_row c' = Some (the_alive_row (Integer 5))"
proof (intro allI)
  fix pf cls
  show "\<exists>c'. world_op pf cls nothing_inst (example_cpu 3 (Integer 5)) = (Inl ActionBlocked, c') \<and>
      alive_row c' = Some (the_alive_row (Integer 5))"
    using action_waits [where c = "example_cpu 3 (Integer 5)" and now = 3 and t = 5
        and inst = nothing_inst and pf = pf and cls = cls, OF example_row _ example_time]
    by (auto simp: the_row_columns)
qed

theorem action_begins_witness:
  "\<forall>pf cls. \<exists>c'. world_op pf cls nothing_inst (example_cpu 3 Null) = (Inl ActionBlocked, c') \<and>
    alive_row c' = Some ((the_alive_row Null)(''action_time'' \<mapsto> Integer 4))"
proof (intro allI)
  fix pf cls
  have dur: "action_duration (i_data nothing_inst) = Some Environment_time_nothing"
    by (simp add: action_duration_def nothing_inst_def)
  have one: "Environment_time_nothing (sim_env (bc_sim (example_cpu 3 Null))) (sim_db (bc_sim (example_cpu 3 Null))) =
      (Inr 1, sim_db (bc_sim (example_cpu 3 Null)))"
    by (simp add: Environment_time_nothing_def column_int_def sql_select_def example_environment schema_def default_row_defs)
  show "\<exists>c'. world_op pf cls nothing_inst (example_cpu 3 Null) = (Inl ActionBlocked, c') \<and>
      alive_row c' = Some ((the_alive_row Null)(''action_time'' \<mapsto> Integer 4))"
    using action_begins [OF example_ok example_row _ example_time dur one]
    by (auto simp: the_row_columns)
qed

lemma example_price:
  "Environment_energy_myself (sim_env (bug_world now a cpu)) (sim_db (bug_world now a cpu)) = (Inr 1, sim_db (bug_world now a cpu))"
  by (simp add: Environment_energy_myself_def column_int_def sql_select_def example_environment schema_def default_row_defs)

lemma pay_run:
  assumes "bug_cpu_ok dims e c" and "alive_row c = Some r" and "col r ''energy'' = Integer k" "1 \<le> k" "k < 2 ^ 31"
    and "action_price a = Some price" and "price (sim_env (bc_sim c)) (sim_db (bc_sim c)) = (Inr n, sim_db (bc_sim c))"
    and "uint n < k"
  obtains b db where "sim_heap (bc_sim c) (bc_bug c) = Some (Bug b)"
    and "pay price (bc_bug c) (leave_cpu c) = (Inr (), (leave_cpu c)\<lparr>sim_db := db\<rparr>)"
    and "alive_row (with_db c db) = Some (r(''energy'' \<mapsto> Integer (k - uint n)))"
proof -
  obtain b where b: "sim_heap (bc_sim c) (bc_bug c) = Some (Bug b)"
    "map_of (db_tables (call_db c) ''AliveBug'') (bo_id b) = Some r"
    and con: "consistent (db_tables (call_db c))"
    using settled_row [OF assms(2,1)] .
  let ?db = "alive_set ''energy'' (Integer (k - uint n)) (bo_id b) r (call_db c)"
  obtain col where "\<And>i. price i = column_int ''Environment'' col i"
    using price_column [OF assms(6)] by blast
  then have "price (sim_env (bc_sim c)) (call_db c) = (Inr n, call_db c)"
    using column_int_frame [OF call_environment [symmetric]] assms(7) by simp
  then have "pay price (bc_bug c) (leave_cpu c) = (Inr (), (leave_cpu c)\<lparr>sim_db := ?db\<rparr>)"
    using substract_energy_run [OF con leave_cpu_bug [OF b(1)] _ assms(3-5), of n] b(2) assms(8)
    by (simp add: pay_def env_def on_database_def)
  moreover have "alive_row (with_db c ?db) = Some (r(''energy'' \<mapsto> Integer (k - uint n)))"
    using alive_with_db [OF b(1), of ?db] b(2) by simp
  ultimately show ?thesis
    using that b(1) by blast
qed

theorem actions_priced_witness:
  "\<forall>pf. \<exists>c. perform pf ACTION_MYSELFID (example_cpu 3 Null) = (Inr (), c) \<and>
    alive_row c = Some ((the_alive_row Null)(''energy'' \<mapsto> Integer 99))"
proof
  fix pf
  let ?c = "example_cpu 3 Null" and ?r = "the_alive_row Null"
  have ok: "bug_cpu_ok \<lparr>pos_x = 16, pos_y = 16\<rparr> 1 ?c"
    by (rule example_ok) simp_all
  have energy: "col ?r ''energy'' = Integer 100"
    by (simp add: the_row_columns)
  have price: "action_price ACTION_MYSELFID = Some Environment_energy_myself"
    by (simp add: action_price_def)
  have one: "Environment_energy_myself (sim_env (bc_sim ?c)) (sim_db (bc_sim ?c)) = (Inr 1, sim_db (bc_sim ?c))"
    using example_price by simp
  have range: "(1 :: int) \<le> 100" "(100 :: int) < 2 ^ 31" "uint (1 :: uint32) < 100"
    by simp_all
  obtain b db where b: "sim_heap (bc_sim ?c) (bc_bug ?c) = Some (Bug b)"
    "pay Environment_energy_myself (bc_bug ?c) (leave_cpu ?c) = (Inr (), (leave_cpu ?c)\<lparr>sim_db := db\<rparr>)"
    using pay_run [OF ok example_row energy range(1,2) price one range(3)] by blast
  then have "sw_myself (bc_bug ?c) InfoID (leave_cpu ?c) = (Inr (word_of_int (bo_id b), None), (leave_cpu ?c)\<lparr>sim_db := db\<rparr>)"
    using leave_cpu_bug [OF b(1)] by (simp add: sw_myself_def the_bug_def as_bug_def)
  from in_sim_run [where f = "\<lambda>p. sw_myself p InfoID", OF b(1) this]
  have "in_sim (\<lambda>p. sw_myself p InfoID) ?c = (Inr (word_of_int (bo_id b), None), with_db ?c db)"
    by (simp add: with_db_def)
  moreover have "wf_cpu (with_db ?c db)"
    using ok by (simp add: bug_cpu_ok_def)
  ultimately obtain c where c: "perform pf ACTION_MYSELFID ?c = (Inr (), c)"
    by (simp add: perform_def answer_def finish_def info_of_def)
  then show "\<exists>c. perform pf ACTION_MYSELFID ?c = (Inr (), c) \<and> alive_row c = Some (?r(''energy'' \<mapsto> Integer 99))"
    using actions_priced [OF ok example_row energy _ _ price one, of pf] by simp
qed

text \<open>The same bug in a run: its transaction is open.\<close>

definition running_cpu :: bug_cpu where
  "running_cpu = (example_cpu 5 (Integer 5))
     \<lparr>bc_sim := (bug_world 5 (Integer 5) handling_cpu)
       \<lparr>sim_db := (connection (bug_tables 5 (Integer 5)))\<lparr>db_begun := Some (bug_tables 5 (Integer 5))\<rparr>\<rparr>\<rparr>"

lemma perform_nothing:
  assumes "bug_cpu_ok dims e c" and "alive_row c = Some r" and "col r ''energy'' = Integer k" "1 \<le> k" "k < 2 ^ 31"
    and "Environment_energy_nothing (sim_env (bc_sim c)) (sim_db (bc_sim c)) = (Inr n, sim_db (bc_sim c))"
    and "uint n < k"
  shows "\<exists>db. perform pf ACTION_NOTHING c = (Inr (), put_reg (with_db c db) REGISTER_G0 ActionSuccess) \<and>
    alive_row (with_db c db) = Some (r(''energy'' \<mapsto> Integer (k - uint n)))"
proof -
  have "action_price ACTION_NOTHING = Some Environment_energy_nothing"
    by (simp add: action_price_def)
  from pay_run [OF assms(1-5) this assms(6,7)] obtain b db where b: "sim_heap (bc_sim c) (bc_bug c) = Some (Bug b)"
    and pay: "sw_nothing (bc_bug c) (leave_cpu c) = (Inr (), (leave_cpu c)\<lparr>sim_db := db\<rparr>)"
    and row: "alive_row (with_db c db) = Some (r(''energy'' \<mapsto> Integer (k - uint n)))"
    unfolding sw_nothing_def by blast
  from in_sim_run [of c b sw_nothing, OF b pay] have "in_sim sw_nothing c = (Inr (), with_db c db)"
    by (simp add: with_db_def)
  moreover have "wf_cpu (with_db c db)"
    using assms(1) by (simp add: bug_cpu_ok_def)
  ultimately show ?thesis
    using row by (auto simp: perform_def finish_def)
qed

theorem action_completes_witness:
  "\<forall>pf cls. \<exists>c. world_op pf cls nothing_inst running_cpu = (Inr UpdatePC, c) \<and> reg c REGISTER_G0 = ActionSuccess \<and>
    (\<exists>r. alive_row c = Some r \<and> col r ''action_time'' = Null \<and> col r ''time_last_action'' = Integer 5)"
proof (intro allI)
  fix pf cls
  let ?c = running_cpu and ?B = "bug_tables 5 (Integer 5)" and ?E = "[(1, default_row 5)]"
  have ok: "bug_cpu_ok \<lparr>pos_x = 16, pos_y = 16\<rparr> 1 (example_cpu 5 (Integer 5))"
    by (rule example_ok) simp_all
  then have run: "bug_in_run \<lparr>pos_x = 16, pos_y = 16\<rparr> 1 ?E ?B ?c"
    by (simp add: bug_in_run_def running_cpu_def bug_cpu_ok_def sim_ok_def working_def database_ok_def
        bug_world_def connection_def env_ok_def row_ids_def default_row_columns wf_cpu_def)
     (simp add: bug_tables_def)
  have same: "bc_sim ?c = (bug_world 5 (Integer 5) handling_cpu)\<lparr>sim_db := sim_db (bc_sim ?c)\<rparr>"
    "db_tables (sim_db (bc_sim ?c)) = ?B" "sim_env (bc_sim ?c) = 1"
    by (simp_all add: running_cpu_def bug_world_def connection_def)
  have row: "alive_row ?c = Some (the_alive_row (Integer 5))"
    by (simp add: alive_row_def running_cpu_def bug_world_def bug_tables_def connection_def)
  have time: "at_time ?c 5"
    using example_time [of 5 "Integer 5"] at_time_iff [of ?c "example_cpu 5 (Integer 5)"] same(2,3)
    by (simp add: example_environment) (simp add: bug_tables_def)
  obtain b where b: "sim_heap (bc_sim ?c) (bc_bug ?c) = Some (Bug b)"
    "map_of (db_tables (call_db ?c) ''AliveBug'') (bo_id b) = Some (the_alive_row (Integer 5))"
    using alive_rowE [OF row] .
  have set: "bug_cpu_ok \<lparr>pos_x = 16, pos_y = 16\<rparr> 1 (settled ?c)" "alive_row (settled ?c) = Some (the_alive_row (Integer 5))"
    using bug_in_run_ok [OF settled_in_run [OF run]] alive_with_db [OF b(1)] b(2) by (simp_all add: settled_def)
  have env: "db_tables (sim_db (bc_sim (settled ?c))) ''Environment'' = ?E" "sim_env (bc_sim (settled ?c)) = 1"
    using bug_in_run_env [OF settled_in_run [OF run]] by simp_all
  have "Environment_energy_nothing (sim_env (bc_sim (settled ?c))) (sim_db (bc_sim (settled ?c))) = (Inr 0, sim_db (bc_sim (settled ?c)))"
    by (simp add: Environment_energy_nothing_def column_int_def sql_select_def env schema_def default_row_defs)
  from perform_nothing [OF set _ _ _ this, of 100 pf] obtain db where
    perf: "perform pf ACTION_NOTHING (settled ?c) = (Inr (), put_reg (with_db (settled ?c) db) REGISTER_G0 ActionSuccess)"
    and alive: "alive_row (with_db (settled ?c) db) = Some ((the_alive_row (Integer 5))(''energy'' \<mapsto> Integer 100))"
    by (auto simp: the_row_columns)
  have "wf_cpu (with_db (settled ?c) db)"
    using set(1) by (simp add: bug_cpu_ok_def)
  moreover from perf have "perform pf (i_data nothing_inst) (settled ?c) =
      (Inr (), put_reg (with_db (settled ?c) db) REGISTER_G0 ActionSuccess)"
    by (simp add: nothing_inst_def)
  from action_completes [where cls = cls, OF run time row the_row_columns(5) _ this] alive
  show "\<exists>c. world_op pf cls nothing_inst running_cpu = (Inr UpdatePC, c) \<and> reg c REGISTER_G0 = ActionSuccess \<and>
      (\<exists>r. alive_row c = Some r \<and> col r ''action_time'' = Null \<and> col r ''time_last_action'' = Integer 5)"
    by auto
qed

end
