(* ===== verification/Regex.thy ===== *)
theory Regex
  imports Prelude
begin

text \<open>
  The regular expressions of \<open>simpleworld/cpu/source.cpp\<close> and what \<open>boost::regex_match\<close> documents
  about them.  The library is not part of the sources: the assembler takes its functions as
  parameters, and this theory says which results the documentation allows.  The matcher \<open>backtrack\<close> is
  one library that follows it, for concrete runs.
\<close>

section \<open>Expressions\<close>

text \<open>
  The expressions are sequences.  \<open>regex_match\<close> has to match the whole text, so that \<open>BEGIN_LINE\<close> and
  \<open>END_LINE\<close>, which stand at its ends, add nothing.
\<close>

datatype char_class = Blank | Word | Xdigit | Any

datatype regex =
    Literal string
  | Chars char_class nat "nat option"
  | Capture "regex list"
  | Maybe "regex list"

text \<open>\<open>[[:blank:]]\<close>, \<open>[[:word:]]\<close>, \<open>[[:xdigit:]]\<close> and \<open>.\<close>\<close>

definition between :: "char \<Rightarrow> char \<Rightarrow> char \<Rightarrow> bool" where
  "between lo hi c \<longleftrightarrow> (of_char lo :: nat) \<le> of_char c \<and> (of_char c :: nat) \<le> of_char hi"

fun in_class :: "char_class \<Rightarrow> char \<Rightarrow> bool" where
  "in_class Blank c = (c = CHR '' '' \<or> c = CHR 0x09)"
| "in_class Word c = (between (CHR ''a'') (CHR ''z'') c \<or> between (CHR ''A'') (CHR ''Z'') c \<or>
     between (CHR ''0'') (CHR ''9'') c \<or> c = CHR ''_'')"
| "in_class Xdigit c = (between (CHR ''0'') (CHR ''9'') c \<or> between (CHR ''a'') (CHR ''f'') c \<or>
     between (CHR ''A'') (CHR ''F'') c)"
| "in_class Any c = True"

definition SPACE :: regex where "SPACE = Chars Blank 1 None"
definition OPTIONAL_SPACE :: regex where "OPTIONAL_SPACE = Chars Blank 0 None"
definition ANYTHING :: regex where "ANYTHING = Chars Any 0 None"
definition KEYWORD :: regex where "KEYWORD = Chars Word 1 None"
definition NUMBER16 :: "regex list" where "NUMBER16 = [Literal ''0x'', Chars Xdigit 1 (Some 4)]"
definition NUMBER32 :: "regex list" where "NUMBER32 = [Literal ''0x'', Chars Xdigit 1 (Some 8)]"
definition COMMENT :: "regex list" where "COMMENT = [Literal ''#'', ANYTHING]"
definition OPTIONAL_COMMENT :: regex where "OPTIONAL_COMMENT = Maybe COMMENT"

section \<open>Matches\<close>

text \<open>
  \<open>matches rs s gs\<close>: the sequence \<open>rs\<close> can match the whole of \<open>s\<close> with the captured texts \<open>gs\<close>.
\<close>

inductive matches :: "regex list \<Rightarrow> string \<Rightarrow> string list \<Rightarrow> bool" where
  nothing: "matches [] [] []"
| literal: "matches rs s gs \<Longrightarrow> matches (Literal t # rs) (t @ s) gs"
| chars: "lo \<le> length u \<Longrightarrow> (\<forall>n. hi = Some n \<longrightarrow> length u \<le> n) \<Longrightarrow> list_all (in_class k) u \<Longrightarrow>
    matches rs s gs \<Longrightarrow> matches (Chars k lo hi # rs) (u @ s) gs"
| capture: "matches inner u us \<Longrightarrow> matches rs s gs \<Longrightarrow> matches (Capture inner # rs) (u @ s) (u # us @ gs)"
| present: "matches inner u us \<Longrightarrow> matches rs s gs \<Longrightarrow> matches (Maybe inner # rs) (u @ s) (us @ gs)"
| absent: "matches rs s gs \<Longrightarrow> matches (Maybe inner # rs) s gs"

inductive_simps matches_nil [simp]: "matches [] s gs"

text \<open>The contract of \<open>regex_match\<close>.\<close>

definition match_documented :: "(regex list \<Rightarrow> string \<Rightarrow> string list option) \<Rightarrow> bool" where
  "match_documented f \<longleftrightarrow>
     (\<forall>rs s. case f rs s of None \<Rightarrow> \<nexists>gs. matches rs s gs | Some gs \<Rightarrow> matches rs s gs)"

lemma documented_iff:
  assumes "match_documented f"
  shows "f rs s = None \<longleftrightarrow> (\<nexists>gs. matches rs s gs)" "f rs s = Some gs \<Longrightarrow> matches rs s gs"
  using assms unfolding match_documented_def by (metis option.exhaust option.simps(4,5))+

section \<open>A library\<close>

text \<open>The first result of \<open>f\<close> at \<open>n\<close>, \<open>n - 1\<close> and so on: longest first.\<close>

fun longest :: "(nat \<Rightarrow> 'a option) \<Rightarrow> nat \<Rightarrow> 'a option" where
  "longest f 0 = f 0"
| "longest f (Suc n) = (case f (Suc n) of None \<Rightarrow> longest f n | Some x \<Rightarrow> Some x)"

lemma longest_cong [fundef_cong]:
  "n = m \<Longrightarrow> (\<And>k. f k = g k) \<Longrightarrow> longest f n = longest g m"
proof (induction n arbitrary: m)
  case (Suc n)
  then show ?case by (cases m) simp_all
qed auto

lemma longest_eq_Some: "longest f n = Some x \<Longrightarrow> \<exists>k \<le> n. f k = Some x"
proof (induction n)
  case (Suc n)
  then show ?case by (cases "f (Suc n)") (auto intro: le_SucI)
qed simp

lemma longest_eq_None: "longest f n = None \<longleftrightarrow> (\<forall>k \<le> n. f k = None)"
  by (induction n) (auto simp: le_Suc_eq split: option.splits)

lemma longest_found: "k \<le> n \<Longrightarrow> f k = Some x \<Longrightarrow> \<exists>y. longest f n = Some y"
  using longest_eq_None [of f n] by fastforce

definition chars_fit :: "char_class \<Rightarrow> nat \<Rightarrow> nat option \<Rightarrow> string \<Rightarrow> bool" where
  "chars_fit k lo hi u \<longleftrightarrow> lo \<le> length u \<and> (case hi of None \<Rightarrow> True | Some n \<Rightarrow> length u \<le> n) \<and> list_all (in_class k) u"

fun backtrack :: "regex list \<Rightarrow> string \<Rightarrow> string list option" where
  "backtrack [] s = (if s = [] then Some [] else None)"
| "backtrack (Literal t # rs) s = (if take (length t) s = t then backtrack rs (drop (length t) s) else None)"
| "backtrack (Chars k lo hi # rs) s =
     longest (\<lambda>n. if chars_fit k lo hi (take n s) then backtrack rs (drop n s) else None) (length s)"
| "backtrack (Capture inner # rs) s =
     longest (\<lambda>n. case backtrack inner (take n s) of
         None \<Rightarrow> None
       | Some us \<Rightarrow> map_option (\<lambda>gs. take n s # us @ gs) (backtrack rs (drop n s))) (length s)"
| "backtrack (Maybe inner # rs) s =
     (case longest (\<lambda>n. case backtrack inner (take n s) of
         None \<Rightarrow> None
       | Some us \<Rightarrow> map_option (\<lambda>gs. us @ gs) (backtrack rs (drop n s))) (length s) of
        None \<Rightarrow> backtrack rs s
      | Some gs \<Rightarrow> Some gs)"

lemma backtrack_sound: "backtrack rs s = Some gs \<Longrightarrow> matches rs s gs"
proof (induction rs s arbitrary: gs rule: backtrack.induct)
  case (2 t rs s)
  then have "matches rs (drop (length t) s) gs" "s = t @ drop (length t) s"
    by (auto split: if_splits) (metis append_take_drop_id)
  then show ?case by (metis matches.literal)
next
  case (3 k lo hi rs s)
  then obtain n where "chars_fit k lo hi (take n s)" "matches rs (drop n s) gs"
    by (auto dest!: longest_eq_Some split: if_splits)
  then show ?case
    using matches.chars [of lo "take n s" hi k rs "drop n s" gs] by (auto simp: chars_fit_def split: option.splits)
next
  case (4 inner rs s)
  from 4(3) obtain n us gs' where run: "backtrack inner (take n s) = Some us"
    "backtrack rs (drop n s) = Some gs'" "gs = take n s # us @ gs'"
    by (auto dest!: longest_eq_Some split: option.splits)
  then have "matches inner (take n s) us" "matches rs (drop n s) gs'"
    using 4(1,2) by blast+
  with run(3) show ?case
    using matches.capture [of inner "take n s" us rs "drop n s" gs'] by simp
next
  case (5 inner rs s)
  let ?inside = "longest (\<lambda>n. case backtrack inner (take n s) of
         None \<Rightarrow> None
       | Some us \<Rightarrow> map_option (\<lambda>gs. us @ gs) (backtrack rs (drop n s))) (length s)"
  show ?case
  proof (cases ?inside)
    case None
    with 5 show ?thesis by (auto intro: matches.absent)
  next
    case (Some gs')
    with 5(4) have "?inside = Some gs"
      by simp
    then obtain n us gs' where run: "backtrack inner (take n s) = Some us"
      "backtrack rs (drop n s) = Some gs'" "gs = us @ gs'"
      by (auto dest!: longest_eq_Some split: option.splits)
    then have "matches inner (take n s) us" "matches rs (drop n s) gs'"
      using 5(1,2) by blast+
    with run(3) show ?thesis
      using matches.present [of inner "take n s" us rs "drop n s" gs'] by simp
  qed
qed (auto split: if_splits intro: matches.nothing)

lemma backtrack_complete: "matches rs s gs \<Longrightarrow> backtrack rs s \<noteq> None"
proof (induction rule: matches.induct)
  case (chars lo u hi k rs s gs)
  then have "chars_fit k lo hi u"
    by (auto simp: chars_fit_def split: option.split)
  with chars show ?case
    by (auto simp: longest_eq_None intro!: exI [of _ "length u"])
next
  case (capture inner u us rs s gs)
  then obtain a b where "backtrack inner u = Some a" "backtrack rs s = Some b"
    by auto
  then show ?case
    using longest_found [of "length u" "length (u @ s)" "\<lambda>n. case backtrack inner (take n (u @ s)) of
         None \<Rightarrow> None
       | Some us \<Rightarrow> map_option (\<lambda>gs. take n (u @ s) # us @ gs) (backtrack rs (drop n (u @ s)))"] by simp
next
  case (present inner u us rs s gs)
  then obtain a b where "backtrack inner u = Some a" "backtrack rs s = Some b"
    by auto
  then have "\<exists>y. longest (\<lambda>n. case backtrack inner (take n (u @ s)) of
         None \<Rightarrow> None
       | Some us \<Rightarrow> map_option (\<lambda>gs. us @ gs) (backtrack rs (drop n (u @ s)))) (length (u @ s)) = Some y"
    by (intro longest_found [of "length u"]) auto
  then show ?case
    by (auto split: option.split)
next
  case (absent rs s gs inner)
  then show ?case
    by (auto split: option.split)
qed auto

lemma backtrack_documented: "match_documented backtrack"
  unfolding match_documented_def
proof (intro allI)
  fix rs s
  show "case backtrack rs s of None \<Rightarrow> \<nexists>gs. matches rs s gs | Some gs \<Rightarrow> matches rs s gs"
    using backtrack_sound [of rs s] backtrack_complete [of rs s] by (cases "backtrack rs s") auto
qed

text \<open>The first match inside a text: its captures and the text after it.\<close>

fun search_from :: "regex list \<Rightarrow> string \<Rightarrow> (string list \<times> string) option" where
  "search_from rs s =
     (case longest (\<lambda>n. map_option (\<lambda>gs. (gs, drop n s)) (backtrack rs (take n s))) (length s) of
        Some r \<Rightarrow> Some r
      | None \<Rightarrow> (case s of [] \<Rightarrow> None | _ # cs \<Rightarrow> search_from rs cs))"

declare search_from.simps [simp del]

text \<open>Replacing: the text \<open>old\<close>, or the word \<open>old\<close> when the pattern has the signs for the ends of a word.\<close>

definition BEGIN_WORD :: string where "BEGIN_WORD = [CHR 0x5C, CHR ''<'']"
definition END_WORD :: string where "END_WORD = [CHR 0x5C, CHR ''>'']"

definition whole_word :: "string \<Rightarrow> string" where
  "whole_word name = BEGIN_WORD @ name @ END_WORD"

function replace_all :: "bool \<Rightarrow> string \<Rightarrow> string \<Rightarrow> bool \<Rightarrow> string \<Rightarrow> string" where
  "replace_all word old new inside s =
     (case s of
        [] \<Rightarrow> []
      | c # cs \<Rightarrow>
          if old \<noteq> [] \<and> take (length old) s = old \<and>
            (word \<longrightarrow> \<not> inside \<and> (case drop (length old) s of [] \<Rightarrow> True | d # _ \<Rightarrow> \<not> in_class Word d))
          then new @ replace_all word old new (in_class Word (last old)) (drop (length old) s)
          else c # replace_all word old new (in_class Word c) cs)"
  by pat_completeness auto
termination
  by (relation "measure (\<lambda>(word, old, new, inside, s). length s)") (auto simp: neq_Nil_conv)

declare replace_all.simps [simp del]

definition replace_text :: "string \<Rightarrow> string \<Rightarrow> string \<Rightarrow> exn + string" where
  "replace_text pattern new s =
     (if take 2 pattern = BEGIN_WORD
      then Inr (replace_all True (take (length pattern - 4) (drop 2 pattern)) new False s)
      else Inr (replace_all False pattern new False s))"

end
