(* ===== verification/Source.thy ===== *)
theory Source
  imports Object Regex
begin

text \<open>
  \<open>simpleworld/cpu/source.cpp\<close>: the assembler of the Simple World Language.  The lines of a source
  go through five passes - includes, macros, defines, blocks of memory, labels - and what is left is
  compiled line by line.

  A pass walks over the lines from the first to the last and changes lines only where it stands; the
  model recurses over the lines it has not reached.  Boost.Regex, Boost.Filesystem and the files are
  parameters (\<open>libs\<close>).  After an exception the code does not go on with the object, so a function
  that throws gives the exception only.
\<close>

section \<open>What the assembler is given\<close>

record libs =
  rx_match :: "regex list \<Rightarrow> string \<Rightarrow> string list option"
  rx_search :: "regex list \<Rightarrow> string \<Rightarrow> (string list \<times> string) option"
  rx_replace :: "string \<Rightarrow> string \<Rightarrow> string \<Rightarrow> exn + string"
  fs_exists :: "string \<Rightarrow> bool"
  fs_join :: "string \<Rightarrow> string \<Rightarrow> string"
  fs_absolute :: "string \<Rightarrow> string"
  fs_text :: "string \<rightharpoonup> string"

text \<open>
  What the compilation of a line meets that C++ does not determine: \<open>stale\<close> says what is found in the
  characters of a \<open>std::string\<close> that has been destroyed, \<open>garbage\<close> is what an \<open>Instruction\<close> holds
  that its constructor does not initialise.  A run has its own for every word it compiles.
\<close>

record leftovers =
  stale :: "string \<Rightarrow> string"
  garbage :: instruction

section \<open>Kinds of lines\<close>

definition quote :: string where "quote = [CHR 0x22]"

definition re_keyword :: "regex list" where
  "re_keyword = [Capture [KEYWORD], OPTIONAL_SPACE, OPTIONAL_COMMENT]"
definition re_blank :: "regex list" where
  "re_blank = [OPTIONAL_SPACE]"
definition re_comment :: "regex list" where
  "re_comment = [OPTIONAL_SPACE, Capture COMMENT]"
definition re_include :: "regex list" where
  "re_include = [OPTIONAL_SPACE, Literal ''.include'', SPACE, Literal quote, Capture [ANYTHING], Literal quote,
     OPTIONAL_SPACE, OPTIONAL_COMMENT]"
definition re_macro :: "regex list" where
  "re_macro = [OPTIONAL_SPACE, Literal ''.macro'', SPACE, Capture [KEYWORD], OPTIONAL_SPACE,
     Capture [ANYTHING], OPTIONAL_COMMENT]"
definition re_endmacro :: "regex list" where
  "re_endmacro = [OPTIONAL_SPACE, Literal ''.endmacro'', OPTIONAL_SPACE, OPTIONAL_COMMENT]"
definition re_define :: "regex list" where
  "re_define = [OPTIONAL_SPACE, Literal ''.define'', SPACE, Capture [KEYWORD], SPACE, Capture [ANYTHING],
     OPTIONAL_SPACE, OPTIONAL_COMMENT]"
definition re_ifdef :: "regex list" where
  "re_ifdef = [OPTIONAL_SPACE, Literal ''.ifdef'', SPACE, Capture [KEYWORD], OPTIONAL_SPACE, OPTIONAL_COMMENT]"
definition re_ifndef :: "regex list" where
  "re_ifndef = [OPTIONAL_SPACE, Literal ''.ifndef'', SPACE, Capture [KEYWORD], OPTIONAL_SPACE, OPTIONAL_COMMENT]"
definition re_endif :: "regex list" where
  "re_endif = [OPTIONAL_SPACE, Literal ''.endif'', OPTIONAL_SPACE, OPTIONAL_COMMENT]"
definition re_block :: "regex list" where
  "re_block = [OPTIONAL_SPACE, Literal ''.block'', SPACE, Capture NUMBER32, OPTIONAL_SPACE, OPTIONAL_COMMENT]"
definition re_label :: "regex list" where
  "re_label = [OPTIONAL_SPACE, Literal ''.label'', SPACE, Capture [KEYWORD], OPTIONAL_SPACE, OPTIONAL_COMMENT]"
definition re_label_as_data :: "regex list" where
  "re_label_as_data = [OPTIONAL_SPACE, Capture [KEYWORD], OPTIONAL_SPACE, OPTIONAL_COMMENT]"
definition re_warning :: "regex list" where
  "re_warning = [OPTIONAL_SPACE, Literal ''.warning'', SPACE, Literal quote, Capture [ANYTHING], Literal quote,
     OPTIONAL_SPACE, OPTIONAL_COMMENT]"
definition re_error :: "regex list" where
  "re_error = [OPTIONAL_SPACE, Literal ''.error'', SPACE, Literal quote, Capture [ANYTHING], Literal quote,
     OPTIONAL_SPACE, OPTIONAL_COMMENT]"
definition re_data :: "regex list" where
  "re_data = [OPTIONAL_SPACE, Capture NUMBER32, OPTIONAL_SPACE, OPTIONAL_COMMENT]"
definition re_inst0 :: "regex list" where
  "re_inst0 = [OPTIONAL_SPACE, Capture [KEYWORD], OPTIONAL_SPACE, OPTIONAL_COMMENT]"
definition re_inst0i :: "regex list" where
  "re_inst0i = [OPTIONAL_SPACE, Capture [KEYWORD], SPACE, Capture NUMBER16, OPTIONAL_SPACE, OPTIONAL_COMMENT]"
definition re_inst1 :: "regex list" where
  "re_inst1 = [OPTIONAL_SPACE, Capture [KEYWORD], SPACE, Capture [KEYWORD], OPTIONAL_SPACE, OPTIONAL_COMMENT]"
definition re_inst1i :: "regex list" where
  "re_inst1i = [OPTIONAL_SPACE, Capture [KEYWORD], SPACE, Capture [KEYWORD], SPACE, Capture NUMBER16,
     OPTIONAL_SPACE, OPTIONAL_COMMENT]"
definition re_inst2 :: "regex list" where
  "re_inst2 = [OPTIONAL_SPACE, Capture [KEYWORD], SPACE, Capture [KEYWORD], SPACE, Capture [KEYWORD],
     OPTIONAL_SPACE, OPTIONAL_COMMENT]"
definition re_inst2i :: "regex list" where
  "re_inst2i = [OPTIONAL_SPACE, Capture [KEYWORD], SPACE, Capture [KEYWORD], SPACE, Capture [KEYWORD], SPACE,
     Capture NUMBER16, OPTIONAL_SPACE, OPTIONAL_COMMENT]"
definition re_inst3 :: "regex list" where
  "re_inst3 = [OPTIONAL_SPACE, Capture [KEYWORD], SPACE, Capture [KEYWORD], SPACE, Capture [KEYWORD], SPACE,
     Capture [KEYWORD], OPTIONAL_SPACE, OPTIONAL_COMMENT]"

text \<open>\<open>regex_match\<close>, and the first text it captured.\<close>

definition is_line :: "libs \<Rightarrow> regex list \<Rightarrow> string \<Rightarrow> bool" where
  "is_line L re line \<longleftrightarrow> rx_match L re line \<noteq> None"

definition captured :: "libs \<Rightarrow> regex list \<Rightarrow> string \<Rightarrow> string" where
  "captured L re line = (case rx_match L re line of Some (g # _) \<Rightarrow> g | _ \<Rightarrow> [])"

text \<open>A search that finds nothing but the empty text would find it again for ever.\<close>

function get_keywords :: "libs \<Rightarrow> string \<Rightarrow> exn + string list" where
  "get_keywords L line =
     (case rx_search L re_keyword line of
        None \<Rightarrow> Inr []
      | Some (gs, rest) \<Rightarrow>
          if length rest < length line then attempt (get_keywords L rest) (\<lambda>ks. Inr (gs @ ks))
          else Inl NoReturn)"
  by pat_completeness auto
termination
  by (relation "measure (\<lambda>(L, line). length line)") auto

declare get_keywords.simps [simp del]

definition is_blank :: "libs \<Rightarrow> string \<Rightarrow> bool" where "is_blank L = is_line L re_blank"
definition is_comment :: "libs \<Rightarrow> string \<Rightarrow> bool" where "is_comment L = is_line L re_comment"
definition is_include :: "libs \<Rightarrow> string \<Rightarrow> bool" where "is_include L = is_line L re_include"
definition get_include :: "libs \<Rightarrow> string \<Rightarrow> string" where "get_include L = captured L re_include"
definition is_macro :: "libs \<Rightarrow> string \<Rightarrow> bool" where "is_macro L = is_line L re_macro"
definition is_endmacro :: "libs \<Rightarrow> string \<Rightarrow> bool" where "is_endmacro L = is_line L re_endmacro"
definition is_define :: "libs \<Rightarrow> string \<Rightarrow> bool" where "is_define L = is_line L re_define"
definition is_ifdef :: "libs \<Rightarrow> string \<Rightarrow> bool" where "is_ifdef L = is_line L re_ifdef"
definition get_ifdef :: "libs \<Rightarrow> string \<Rightarrow> string" where "get_ifdef L = captured L re_ifdef"
definition is_ifndef :: "libs \<Rightarrow> string \<Rightarrow> bool" where "is_ifndef L = is_line L re_ifndef"
definition get_ifndef :: "libs \<Rightarrow> string \<Rightarrow> string" where "get_ifndef L = captured L re_ifndef"
definition is_endif :: "libs \<Rightarrow> string \<Rightarrow> bool" where "is_endif L = is_line L re_endif"
definition is_block :: "libs \<Rightarrow> string \<Rightarrow> bool" where "is_block L = is_line L re_block"
definition is_label :: "libs \<Rightarrow> string \<Rightarrow> bool" where "is_label L = is_line L re_label"
definition get_label :: "libs \<Rightarrow> string \<Rightarrow> string" where "get_label L = captured L re_label"
definition is_warning :: "libs \<Rightarrow> string \<Rightarrow> bool" where "is_warning L = is_line L re_warning"
definition get_warning :: "libs \<Rightarrow> string \<Rightarrow> string" where "get_warning L = captured L re_warning"
definition is_error :: "libs \<Rightarrow> string \<Rightarrow> bool" where "is_error L = is_line L re_error"
definition is_data :: "libs \<Rightarrow> string \<Rightarrow> bool" where "is_data L = is_line L re_data"

definition get_define :: "libs \<Rightarrow> string \<Rightarrow> string list" where
  "get_define L line = (case rx_match L re_define line of Some gs \<Rightarrow> gs | None \<Rightarrow> [])"

definition is_label_as_data :: "libs \<Rightarrow> (string \<rightharpoonup> address) \<Rightarrow> string \<Rightarrow> bool" where
  "is_label_as_data L labels line \<longleftrightarrow> labels (captured L re_label_as_data line) \<noteq> None"

definition is_instruction :: "libs \<Rightarrow> string \<Rightarrow> bool" where
  "is_instruction L line \<longleftrightarrow>
     is_line L re_inst0 line \<or> is_line L re_inst0i line \<or> is_line L re_inst1 line \<or> is_line L re_inst1i line \<or>
     is_line L re_inst2 line \<or> is_line L re_inst2i line \<or> is_line L re_inst3 line"

definition first_match :: "libs \<Rightarrow> string \<Rightarrow> regex list list \<Rightarrow> string list" where
  "first_match L line res =
     (case List.map_filter (\<lambda>re. rx_match L re line) res of [] \<Rightarrow> [] | gs # _ \<Rightarrow> gs)"

definition get_instruction :: "libs \<Rightarrow> string \<Rightarrow> string list" where
  "get_instruction L line =
     first_match L line [re_inst0, re_inst0i, re_inst1, re_inst1i, re_inst2, re_inst2i, re_inst3]"

section \<open>Numbers\<close>

text \<open>\<open>std::strtoul\<close> with base 16 and a 64-bit \<open>unsigned long\<close>: \<open>None\<close> when it converts nothing.\<close>

definition xdigit_value :: "char \<Rightarrow> nat option" where
  "xdigit_value c =
     (if between (CHR ''0'') (CHR ''9'') c then Some (of_char c - 48)
      else if between (CHR ''A'') (CHR ''F'') c then Some (of_char c - 55)
      else if between (CHR ''a'') (CHR ''f'') c then Some (of_char c - 87)
      else None)"

fun hex_prefix :: "nat \<Rightarrow> string \<Rightarrow> nat" where
  "hex_prefix n [] = n"
| "hex_prefix n (c # cs) = (case xdigit_value c of None \<Rightarrow> n | Some d \<Rightarrow> hex_prefix (16 * n + d) cs)"

definition unsigned_hex :: "string \<Rightarrow> nat option" where
  "unsigned_hex s =
     (let s = (case s of CHR ''0'' # x # d # _ \<Rightarrow>
                 if (x = CHR ''x'' \<or> x = CHR ''X'') \<and> xdigit_value d \<noteq> None then drop 2 s else s | _ \<Rightarrow> s)
      in case s of
           [] \<Rightarrow> None
         | c # cs \<Rightarrow> map_option (\<lambda>d. hex_prefix d cs) (xdigit_value c))"

definition strtoul :: "string \<Rightarrow> uint64 option" where
  "strtoul s =
     (case dropWhile (\<lambda>c. c = CHR '' '' \<or> between (CHR 0x09) (CHR 0x0D) c) s of
        [] \<Rightarrow> None
      | c # cs \<Rightarrow>
          map_option (\<lambda>n. if 2 ^ 64 \<le> n then - 1 else if c = CHR ''-'' then - of_nat n else of_nat n)
            (unsigned_hex (if c = CHR ''-'' \<or> c = CHR ''+'' then cs else c # cs)))"

text \<open>\<open>sscanf\<close> with \<open>%x\<close> converts as \<open>strtoul\<close> does.\<close>

definition get_block :: "libs \<Rightarrow> string \<Rightarrow> address" where
  "get_block L line = (case strtoul (captured L re_block line) of None \<Rightarrow> 0 | Some n \<Rightarrow> ucast n)"

text \<open>The number is read through a pointer into a string that is destroyed already.\<close>

definition get_data :: "libs \<Rightarrow> leftovers \<Rightarrow> string \<Rightarrow> cpu_word" where
  "get_data L u line =
     (if is_data L line
      then case strtoul (stale u (captured L re_data line)) of None \<Rightarrow> 0 | Some n \<Rightarrow> ucast n
      else 0)"

section \<open>The class Source\<close>

record macro =
  mac_params :: "string list"
  mac_code :: "string list"

record source =
  src_lines :: "string list"
  src_path :: "string list"
  src_includes :: "string set"
  src_macros :: "string \<rightharpoonup> macro"
  src_defines :: "string \<rightharpoonup> string"
  src_labels :: "string \<rightharpoonup> address"
  src_warnings :: "string list"

definition source_new :: source where
  "source_new = \<lparr>src_lines = [], src_path = [], src_includes = {}, src_macros = Map.empty,
     src_defines = Map.empty, src_labels = Map.empty, src_warnings = []\<rparr>"

definition source_from_file :: "text_file \<Rightarrow> source" where
  "source_from_file f = source_new\<lparr>src_lines := file_lines f\<rparr>"

text \<open>The constructor \<open>File(filename)\<close>, for the lines of a file.\<close>

definition lines_of :: "libs \<Rightarrow> string \<Rightarrow> exn + string list" where
  "lines_of L filename =
     (case file_load (fs_text L) filename file_new of
        (Inl x, _) \<Rightarrow> Inl x | (Inr _, f) \<Rightarrow> Inr (file_lines f))"

definition source_open :: "libs \<Rightarrow> string \<Rightarrow> exn + source" where
  "source_open L filename =
     attempt (lines_of L filename) (\<lambda>ls.
     Inr (source_new\<lparr>src_lines := ls, src_includes := {fs_absolute L filename}\<rparr>))"

text \<open>The warnings stay.\<close>

definition source_clear :: "source \<Rightarrow> source" where
  "source_clear s = source_new\<lparr>src_warnings := src_warnings s\<rparr>"

definition source_load_lines :: "text_file \<Rightarrow> source \<Rightarrow> source" where
  "source_load_lines f s = (source_clear s)\<lparr>src_lines := file_lines f\<rparr>"

definition source_load :: "libs \<Rightarrow> string \<Rightarrow> source \<Rightarrow> exn + source" where
  "source_load L filename s =
     attempt (lines_of L filename) (\<lambda>ls.
     Inr ((source_clear s)\<lparr>src_lines := ls, src_includes := {fs_absolute L filename}\<rparr>))"

definition reset_warnings :: "source \<Rightarrow> source" where
  "reset_warnings s = s\<lparr>src_warnings := []\<rparr>"

definition add_include_path :: "string \<Rightarrow> source \<Rightarrow> source" where
  "add_include_path path s =
     (if path \<in> set (src_path s) then s else s\<lparr>src_path := src_path s @ [path]\<rparr>)"

definition add_define :: "string \<Rightarrow> string \<Rightarrow> source \<Rightarrow> exn + source" where
  "add_define name v s =
     (if src_defines s name \<noteq> None then Inl CPUException
      else Inr (s\<lparr>src_defines := (src_defines s)(name \<mapsto> v)\<rparr>))"

definition add_macro :: "string \<Rightarrow> macro \<Rightarrow> source \<Rightarrow> exn + source" where
  "add_macro name v s =
     (if src_macros s name \<noteq> None then Inl CPUException
      else Inr (s\<lparr>src_macros := (src_macros s)(name \<mapsto> v)\<rparr>))"

section \<open>Includes\<close>

fun find_file :: "libs \<Rightarrow> string list \<Rightarrow> string \<Rightarrow> string" where
  "find_file L [] filename = []"
| "find_file L (dir # dirs) filename =
     (let path = fs_join L dir filename in if fs_exists L path then path else find_file L dirs filename)"

text \<open>
  One step of \<open>replace_includes\<close> at the line \<open>l\<close>: the lines it passes, the lines it goes on with and the
  files included.  After it has put the lines of a file in place of the directive the loop goes on with
  the line after the first of them.  A directive in that first line is left as it is, and when the file
  is empty that line is the one after the directive.
\<close>

definition include_step ::
    "libs \<Rightarrow> string list \<Rightarrow> string set \<Rightarrow> string \<Rightarrow> string list \<Rightarrow> exn + string list \<times> string list \<times> string set" where
  "include_step L path included l rest =
     (if \<not> is_include L l then Inr ([l], rest, included)
      else
        let filename = find_file L path (get_include L l); file = fs_absolute L filename
        in if filename = [] then Inl IOError
           else if file \<in> included then Inr ([], rest, included)
           else attempt (lines_of L file) (\<lambda>new.
             Inr (take 1 (new @ rest), drop 1 (new @ rest), insert file included)))"

partial_function (option) includes_from ::
    "libs \<Rightarrow> string list \<Rightarrow> string set \<Rightarrow> string list \<Rightarrow> string list \<Rightarrow> (exn + string list \<times> string set) option" where
  "includes_from L path included passed ls =
     (case ls of
        [] \<Rightarrow> Some (Inr (passed, included))
      | l # rest \<Rightarrow>
          (case include_step L path included l rest of
             Inl x \<Rightarrow> Some (Inl x)
           | Inr (out, ls, included) \<Rightarrow> includes_from L path included (passed @ out) ls))"

definition or_no_return :: "(exn + 'a) option \<Rightarrow> exn + 'a" where
  "or_no_return r = (case r of None \<Rightarrow> Inl NoReturn | Some x \<Rightarrow> x)"

definition replace_includes :: "libs \<Rightarrow> source \<Rightarrow> exn + source" where
  "replace_includes L s =
     attempt (or_no_return (includes_from L (src_path s) (src_includes s) [] (src_lines s))) (\<lambda>(ls, inc).
     Inr (s\<lparr>src_lines := ls, src_includes := inc\<rparr>))"

section \<open>Comments\<close>

fun strip_from :: "libs \<Rightarrow> string list \<Rightarrow> string list" where
  "strip_from L [] = []"
| "strip_from L (l # ls) = (if is_blank L l \<or> is_comment L l then strip_from L ls else l # strip_from L ls)"

definition strip :: "libs \<Rightarrow> source \<Rightarrow> source" where
  "strip L s = s\<lparr>src_lines := strip_from L (src_lines s)\<rparr>"

section \<open>Macros\<close>

text \<open>\<open>get_macro\<close>: the name and the macro, and the lines after \<open>.endmacro\<close>.\<close>

definition get_macro :: "libs \<Rightarrow> string \<Rightarrow> string list \<Rightarrow> exn + string \<times> macro \<times> string list" where
  "get_macro L text below =
     attempt (get_keywords L text) (\<lambda>keywords.
     case keywords of
       _ # name # params \<Rightarrow>
         (case dropWhile (\<lambda>l. \<not> is_endmacro L l) below of
            [] \<Rightarrow> Inl ParserError
          | _ # after \<Rightarrow>
              Inr (name, \<lparr>mac_params = params, mac_code = takeWhile (\<lambda>l. \<not> is_endmacro L l) below\<rparr>, after))
     | _ \<Rightarrow> Inl UndefinedBehaviour)"

lemma get_macro_shorter: "get_macro L text below = Inr (name, m, after) \<Longrightarrow> length after \<le> length below"
proof -
  assume "get_macro L text below = Inr (name, m, after)"
  then have "\<exists>l. dropWhile (\<lambda>l. \<not> is_endmacro L l) below = l # after"
    unfolding get_macro_def attempt_def by (auto split: sum.split_asm list.split_asm)
  then show ?thesis
    using length_dropWhile_le [of "\<lambda>l. \<not> is_endmacro L l" below] by auto
qed

text \<open>
  The search for macros.  The name is looked for among the defines; \<open>map::insert\<close> keeps a macro of the
  same name.
\<close>

function collect_macros ::
    "libs \<Rightarrow> (string \<rightharpoonup> string) \<Rightarrow> (string \<rightharpoonup> macro) \<Rightarrow> string list \<Rightarrow> exn + string list \<times> (string \<rightharpoonup> macro)" where
  "collect_macros L defines macros [] = Inr ([], macros)"
| "collect_macros L defines macros (l # below) =
     (if is_macro L l
      then (case get_macro L l below of
              Inl x \<Rightarrow> Inl x
            | Inr (name, m, after) \<Rightarrow>
                if defines name \<noteq> None then Inl ParserError
                else collect_macros L defines (map_insert macros name m) after)
      else attempt (collect_macros L defines macros below) (\<lambda>(ls, macros). Inr (l # ls, macros)))"
  by pat_completeness auto
termination
  by (relation "measure (\<lambda>(L, d, m, ls). length ls)") (auto dest: get_macro_shorter)

text \<open>The parameters are replaced one after the other, wherever their text occurs.\<close>

fun substitute :: "libs \<Rightarrow> (string \<times> string) list \<Rightarrow> string \<Rightarrow> exn + string" where
  "substitute L [] line = Inr line"
| "substitute L ((param, arg) # ps) line = attempt (rx_replace L param arg line) (substitute L ps)"

fun map_attempt :: "('a \<Rightarrow> exn + 'b) \<Rightarrow> 'a list \<Rightarrow> exn + 'b list" where
  "map_attempt f [] = Inr []"
| "map_attempt f (x # xs) = attempt (f x) (\<lambda>y. attempt (map_attempt f xs) (\<lambda>ys. Inr (y # ys)))"

text \<open>
  The replacement of macros.  The new lines are not looked at again; when the macro has none the loop
  passes over the next line.
\<close>

fun expand_macros :: "libs \<Rightarrow> (string \<rightharpoonup> macro) \<Rightarrow> string list \<Rightarrow> exn + string list" where
  "expand_macros L macros [] = Inr []"
| "expand_macros L macros (l # rest) =
     (if is_blank L l \<or> is_comment L l then attempt (expand_macros L macros rest) (\<lambda>ls. Inr (l # ls))
      else
        attempt (get_keywords L l) (\<lambda>keywords.
        case keywords of
          [] \<Rightarrow> Inl UndefinedBehaviour
        | name # args \<Rightarrow>
            (case macros name of
               None \<Rightarrow> attempt (expand_macros L macros rest) (\<lambda>ls. Inr (l # ls))
             | Some m \<Rightarrow>
                 if length (mac_params m) \<noteq> length args then Inl ParserError
                 else
                   attempt (map_attempt (substitute L (zip (mac_params m) args)) (mac_code m)) (\<lambda>code.
                   case code of
                     _ # _ \<Rightarrow> attempt (expand_macros L macros rest) (\<lambda>ls. Inr (code @ ls))
                   | [] \<Rightarrow>
                       (case rest of
                          [] \<Rightarrow> Inr []
                        | next # rest \<Rightarrow> attempt (expand_macros L macros rest) (\<lambda>ls. Inr (next # ls)))))))"

definition replace_macros :: "libs \<Rightarrow> source \<Rightarrow> exn + source" where
  "replace_macros L s =
     attempt (collect_macros L (src_defines s) (src_macros s) (src_lines s)) (\<lambda>(ls, macros).
     attempt (expand_macros L macros ls) (\<lambda>ls.
     Inr (s\<lparr>src_lines := ls, src_macros := macros\<rparr>)))"

section \<open>Defines\<close>

text \<open>
  The search for defines.  A block goes to the next \<open>.endif\<close>, whatever blocks begin inside it; its
  lines stay, without the two directives, or go.
\<close>

definition conditional :: "libs \<Rightarrow> bool \<Rightarrow> string list \<Rightarrow> exn + string list" where
  "conditional L keep below =
     (case dropWhile (\<lambda>l. \<not> is_endif L l) below of
        [] \<Rightarrow> Inl ParserError
      | _ # after \<Rightarrow> Inr (if keep then takeWhile (\<lambda>l. \<not> is_endif L l) below @ after else after))"

lemma conditional_shorter: "conditional L keep below = Inr ls \<Longrightarrow> length ls < length below"
proof -
  assume "conditional L keep below = Inr ls"
  moreover have "length below = length (takeWhile (\<lambda>l. \<not> is_endif L l) below) + length (dropWhile (\<lambda>l. \<not> is_endif L l) below)"
    by (metis length_append takeWhile_dropWhile_id)
  ultimately show ?thesis
    by (auto simp: conditional_def split: list.splits)
qed

text \<open>A line is never the beginning of a block and its end.\<close>

function collect_defines ::
    "libs \<Rightarrow> (string \<rightharpoonup> string) \<Rightarrow> string list \<Rightarrow> exn + string list \<times> (string \<rightharpoonup> string)" where
  "collect_defines L defines [] = Inr ([], defines)"
| "collect_defines L defines (l # below) =
     (if is_define L l
      then (case get_define L l of
              name # v # _ \<Rightarrow>
                if defines name \<noteq> None then Inl ParserError
                else collect_defines L (defines(name \<mapsto> v)) below
            | _ \<Rightarrow> Inl UndefinedBehaviour)
      else if is_ifdef L l
      then (case conditional L (defines (get_ifdef L l) \<noteq> None) below of
              Inl x \<Rightarrow> Inl x | Inr ls \<Rightarrow> collect_defines L defines ls)
      else if is_ifndef L l
      then (case conditional L (defines (get_ifndef L l) = None) below of
              Inl x \<Rightarrow> Inl x | Inr ls \<Rightarrow> collect_defines L defines ls)
      else attempt (collect_defines L defines below) (\<lambda>(ls, defines). Inr (l # ls, defines)))"
  by pat_completeness auto
termination
  by (relation "measure (\<lambda>(L, d, ls). length ls)") (auto dest: conditional_shorter)

text \<open>Replacing words by what a map says of them, for the words \<open>keywords\<close> of the line.\<close>

fun replace_keys :: "libs \<Rightarrow> (string \<rightharpoonup> string) \<Rightarrow> string list \<Rightarrow> string \<Rightarrow> exn + string" where
  "replace_keys L m [] line = Inr line"
| "replace_keys L m (key # keys) line =
     (case m key of
        None \<Rightarrow> replace_keys L m keys line
      | Some v \<Rightarrow> attempt (rx_replace L (whole_word key) v line) (replace_keys L m keys))"

text \<open>The values are replaced again as long as the line has defined words.\<close>

partial_function (option) define_line :: "libs \<Rightarrow> (string \<rightharpoonup> string) \<Rightarrow> string \<Rightarrow> (exn + string) option" where
  "define_line L defines line =
     (case get_keywords L line of
        Inl x \<Rightarrow> Some (Inl x)
      | Inr keywords \<Rightarrow>
          if list_all (\<lambda>key. defines key = None) keywords then Some (Inr line)
          else (case replace_keys L defines keywords line of
                  Inl x \<Rightarrow> Some (Inl x)
                | Inr line \<Rightarrow> define_line L defines line))"

definition replace_define :: "libs \<Rightarrow> (string \<rightharpoonup> string) \<Rightarrow> string \<Rightarrow> exn + string" where
  "replace_define L defines line =
     (if is_blank L line \<or> is_comment L line then Inr line else or_no_return (define_line L defines line))"

definition replace_defines :: "libs \<Rightarrow> source \<Rightarrow> exn + source" where
  "replace_defines L s =
     attempt (collect_defines L (src_defines s) (src_lines s)) (\<lambda>(ls, defines).
     attempt (map_attempt (replace_define L defines) ls) (\<lambda>ls.
     Inr (s\<lparr>src_lines := ls, src_defines := defines\<rparr>)))"

section \<open>Blocks of memory\<close>

definition zero_line :: string where "zero_line = ''0x00000000''"

text \<open>
  A block becomes as many lines of data as it needs words; a block of no bytes stays.  The loop looks at
  the new lines too, and finds no block in them.
\<close>

definition block_words :: "address \<Rightarrow> nat" where
  "block_words sz = unat ((sz - 1) div 4 + 1)"

fun blocks_from :: "libs \<Rightarrow> string list \<Rightarrow> string list" where
  "blocks_from L [] = []"
| "blocks_from L (l # ls) =
     (if is_block L l \<and> get_block L l > 0
      then replicate (block_words (get_block L l)) zero_line @ blocks_from L ls
      else l # blocks_from L ls)"

definition replace_blocks :: "libs \<Rightarrow> source \<Rightarrow> source" where
  "replace_blocks L s = s\<lparr>src_lines := blocks_from L (src_lines s)\<rparr>"

section \<open>Labels\<close>

text \<open>The search for labels: \<open>n\<close> lines of code come before the lines given.\<close>

fun collect_labels ::
    "libs \<Rightarrow> nat \<Rightarrow> (string \<rightharpoonup> address) \<Rightarrow> string list \<Rightarrow> exn + string list \<times> (string \<rightharpoonup> address)" where
  "collect_labels L n labels [] = Inr ([], labels)"
| "collect_labels L n labels (l # ls) =
     (if is_label L l
      then if labels (get_label L l) \<noteq> None then Inl ParserError
           else collect_labels L n (labels(get_label L l \<mapsto> of_nat (4 * n))) ls
      else
        attempt (collect_labels L (if is_instruction L l \<or> is_data L l then n + 1 else n) labels ls)
          (\<lambda>(ls, labels). Inr (l # ls, labels)))"

text \<open>\<open>boost::format\<close> with \<open>0x%08X\<close> and \<open>0x%04X\<close>.\<close>

definition address_text :: "address \<Rightarrow> string" where
  "address_text a = ''0x'' @ format_hex 8 (unat a)"

definition offset_text :: "nat \<Rightarrow> address \<Rightarrow> string" where
  "offset_text n a = ''0x'' @ format_hex 4 (unat (ucast (a - of_nat (4 * n)) :: uint16))"

fun use_labels :: "libs \<Rightarrow> (string \<rightharpoonup> address) \<Rightarrow> nat \<Rightarrow> string list \<Rightarrow> exn + string list" where
  "use_labels L labels n [] = Inr []"
| "use_labels L labels n (l # ls) =
     (if is_label_as_data L labels l
      then
        attempt (attempt (get_keywords L l) (\<lambda>keys. replace_keys L (map_option address_text \<circ> labels) keys l)) (\<lambda>l.
        attempt (use_labels L labels (n + 1) ls) (\<lambda>ls. Inr (l # ls)))
      else if is_instruction L l
      then
        attempt (attempt (get_keywords L l) (\<lambda>keys. replace_keys L (map_option (offset_text n) \<circ> labels) keys l)) (\<lambda>l.
        attempt (use_labels L labels (n + 1) ls) (\<lambda>ls. Inr (l # ls)))
      else attempt (use_labels L labels (if is_data L l then n + 1 else n) ls) (\<lambda>ls. Inr (l # ls)))"

definition replace_labels :: "libs \<Rightarrow> source \<Rightarrow> exn + source" where
  "replace_labels L s =
     attempt (collect_labels L 0 (src_labels s) (src_lines s)) (\<lambda>(ls, labels).
     attempt (use_labels L labels 0 ls) (\<lambda>ls.
     Inr (s\<lparr>src_lines := ls, src_labels := labels\<rparr>)))"

definition preprocess :: "libs \<Rightarrow> bool \<Rightarrow> source \<Rightarrow> exn + source" where
  "preprocess L stripping s =
     attempt (replace_includes L s) (\<lambda>s.
     attempt (replace_macros L (if stripping then strip L s else s)) (\<lambda>s.
     attempt (replace_defines L s) (\<lambda>s. replace_labels L (replace_blocks L s))))"

section \<open>Compilation\<close>

text \<open>\<open>catch (const CPUException& e) { throw ParserError }\<close>.\<close>

definition as_parser_error :: "exn + 'a \<Rightarrow> exn + 'a" where
  "as_parser_error r = (case r of Inl x \<Rightarrow> Inl (if is_CPUException x then ParserError else x) | Inr y \<Rightarrow> Inr y)"

text \<open>The fields of an instruction that its description does not name stay as the constructor left them.\<close>

definition operands :: "'f isa \<Rightarrow> 'f instruction_info \<Rightarrow> string list \<Rightarrow> instruction \<Rightarrow> exn + instruction" where
  "operands isa info args inst =
     (let inst = inst\<lparr>i_code := inst_code info\<rparr>
      in attempt (if inst_nregs info \<ge> 1
                  then attempt (get_register_code isa (args ! 0)) (\<lambda>r. Inr (inst\<lparr>i_first := ucast r\<rparr>))
                  else Inr inst) (\<lambda>inst.
         attempt (if inst_nregs info \<ge> 2
                  then attempt (get_register_code isa (args ! 1)) (\<lambda>r. Inr (inst\<lparr>i_second := ucast r\<rparr>))
                  else Inr inst) (\<lambda>inst.
         if inst_nregs info = 3
         then attempt (get_register_code isa (args ! 2)) (\<lambda>r. Inr (inst\<lparr>i_data := ucast r\<rparr>))
         else if inst_has_inmediate info
         then (case strtoul (args ! unat (inst_nregs info)) of
                 None \<Rightarrow> Inl ParserError
               | Some n \<Rightarrow> Inr (inst\<lparr>i_data := ucast n\<rparr>))
         else Inr inst)))"

text \<open>
  \<open>compile(line)\<close>.  What the word of the instruction holds before it is encoded makes no difference
  (\<open>encode_host_word\<close>).
\<close>

definition compile_line :: "libs \<Rightarrow> leftovers \<Rightarrow> endian \<Rightarrow> 'f isa \<Rightarrow> string \<Rightarrow> exn + cpu_word" where
  "compile_line L u e isa line =
     (if is_data L line
      then Inr (case e of BigEndian \<Rightarrow> get_data L u line | LittleEndian \<Rightarrow> change_byte_order (get_data L u line))
      else
        case get_instruction L line of
          [] \<Rightarrow> Inl ParserError
        | name # args \<Rightarrow>
            attempt (as_parser_error (attempt (get_instruction_code isa name) (get_instruction_info isa))) (\<lambda>info.
            if unat (inst_nregs info) + of_bool (inst_has_inmediate info) \<noteq> length args then Inl ParserError
            else attempt (as_parser_error (operands isa info args (garbage u))) (encode e 0)))"

fun compile_into ::
    "libs \<Rightarrow> (nat \<Rightarrow> leftovers) \<Rightarrow> endian \<Rightarrow> 'f isa \<Rightarrow> string list \<Rightarrow> address \<Rightarrow> memory \<Rightarrow> string list \<Rightarrow>
      exn + memory \<times> address \<times> string list" where
  "compile_into L u e isa [] addr mem warnings = Inr (mem, addr, warnings)"
| "compile_into L u e isa (l # ls) addr mem warnings =
     (if is_blank L l \<or> is_comment L l then compile_into L u e isa ls addr mem warnings
      else if is_warning L l then compile_into L u e isa ls addr mem (warnings @ [get_warning L l])
      else if is_error L l then Inl ErrorDirective
      else attempt (compile_line L (u (unat addr)) e isa l) (\<lambda>w.
           attempt (set_word e mem addr w False) (\<lambda>mem.
           compile_into L u e isa ls (addr + 4) mem warnings)))"

definition source_compile :: "libs \<Rightarrow> (nat \<Rightarrow> leftovers) \<Rightarrow> endian \<Rightarrow> 'f isa \<Rightarrow> memory \<Rightarrow> source \<Rightarrow> exn + memory \<times> source" where
  "source_compile L u e isa mem s =
     attempt (preprocess L True s) (\<lambda>s.
     attempt
       (compile_into L u e isa (src_lines s) 0 (memory_resize mem (4 * of_nat (length (src_lines s)))) (src_warnings s))
       (\<lambda>(mem, addr, warnings). Inr (memory_resize mem addr, s\<lparr>src_warnings := warnings\<rparr>)))"

text \<open>The file written so far is the state; \<open>write_ok n\<close>: the stream is good after \<open>n\<close> bytes.\<close>

fun compile_out ::
    "libs \<Rightarrow> (nat \<Rightarrow> leftovers) \<Rightarrow> endian \<Rightarrow> 'f isa \<Rightarrow> (nat \<Rightarrow> bool) \<Rightarrow> string list \<Rightarrow> string list \<Rightarrow> (uint8 list, string list) prog" where
  "compile_out L u e isa write_ok [] warnings = ret warnings"
| "compile_out L u e isa write_ok (l # ls) warnings =
     (if is_blank L l \<or> is_comment L l then compile_out L u e isa write_ok ls warnings
      else if is_warning L l then compile_out L u e isa write_ok ls (warnings @ [get_warning L l])
      else if is_error L l then throw ErrorDirective
      else
        andthen (reading (\<lambda>out. compile_line L (u (length out)) e isa l)) (\<lambda>w.
        andthen (updating (\<lambda>out. Inr (out @ host_bytes e w))) (\<lambda>_.
        andthen (reading (\<lambda>out. if write_ok (length out) then Inr () else Inl IOError)) (\<lambda>_.
        compile_out L u e isa write_ok ls warnings))))"

definition source_compile_file ::
    "libs \<Rightarrow> (nat \<Rightarrow> leftovers) \<Rightarrow> endian \<Rightarrow> 'f isa \<Rightarrow> (string \<Rightarrow> bool) \<Rightarrow> (nat \<Rightarrow> bool) \<Rightarrow> string \<Rightarrow> source \<Rightarrow>
      (string \<rightharpoonup> uint8 list, source) prog" where
  "source_compile_file L u e isa writable write_ok filename s = (\<lambda>files.
     case preprocess L True s of
       Inl x \<Rightarrow> (Inl x, files)
     | Inr s \<Rightarrow>
         if \<not> writable filename then (Inl IOError, files)
         else (case compile_out L u e isa write_ok (src_lines s) (src_warnings s) [] of
                 (r, out) \<Rightarrow> (attempt r (\<lambda>warnings. Inr (s\<lparr>src_warnings := warnings\<rparr>)), files(filename \<mapsto> out))))"

end
