(* ===== verification/Line_Syntax.thy ===== *)
theory Line_Syntax
  imports Source
begin

text \<open>
  What the expressions of the assembler say, for a library that does what is documented: the lines of
  code are words between blanks, with a comment at the end.
\<close>

section \<open>Matching the items of an expression\<close>

inductive_simps matches_items:
  "matches (Literal t # rs) s gs" "matches (Capture inner # rs) s gs" "matches (Maybe inner # rs) s gs"

lemma matches_chars: "matches (Chars k lo hi # rs) s gs \<longleftrightarrow>
    (\<exists>u s'. s = u @ s' \<and> lo \<le> length u \<and> (\<forall>n. hi = Some n \<longrightarrow> length u \<le> n) \<and> list_all (in_class k) u \<and>
      matches rs s' gs)"
  by (subst matches.simps) auto

text \<open>The words of a line of code: \<open>None\<close> when it is none.\<close>

definition ends_word :: "string \<Rightarrow> bool" where
  "ends_word s \<longleftrightarrow> s = [] \<or> in_class Blank (hd s) \<or> hd s = CHR ''#''"

function line_words :: "string \<Rightarrow> string list option" where
  "line_words s =
     (let t = dropWhile (in_class Blank) s; w = takeWhile (in_class Word) t; r = dropWhile (in_class Word) t
      in if t = [] \<or> hd t = CHR ''#'' then Some []
         else if w = [] \<or> \<not> ends_word r then None
         else map_option ((#) w) (line_words r))"
  by pat_completeness auto
termination
proof (relation "measure length", goal_cases)
  case (2 s t w r)
  have "length t = length w + length r"
    unfolding 2(2,3) by (metis length_append takeWhile_dropWhile_id)
  moreover have "length t \<le> length s"
    unfolding 2(1) by (rule length_dropWhile_le)
  moreover have "0 < length w"
    using 2(5) by simp
  ultimately have "length r < length s"
    by linarith
  then show ?case by simp
qed simp

declare line_words.simps [simp del]

definition is_word :: "string \<Rightarrow> bool" where
  "is_word w \<longleftrightarrow> w \<noteq> [] \<and> list_all (in_class Word) w"

lemma blank_no_word: "in_class Blank c \<Longrightarrow> \<not> in_class Word c" "\<not> in_class Word (CHR ''#'')" "\<not> in_class Blank (CHR ''#'')"
  by (auto simp: between_def)

lemma blank_space [simp]: "in_class Blank (CHR '' '')"
  by simp

declare in_class.simps [simp del]

lemma line_words_blank [simp]: "in_class Blank c \<Longrightarrow> line_words (c # s) = line_words s"
  by (subst (1 2) line_words.simps) simp

lemma line_words_blanks [simp]: "list_all (in_class Blank) u \<Longrightarrow> line_words (u @ s) = line_words s"
  by (induction u) auto

lemma line_words_end [simp]: "line_words [] = Some []" "line_words (CHR ''#'' # s) = Some []"
  by (simp add: line_words.simps [of "[]"], simp add: line_words.simps [of "CHR ''#'' # s"] blank_no_word)

lemma line_words_word:
  assumes "is_word w" and "ends_word r"
  shows "line_words (w @ r) = map_option ((#) w) (line_words r)"
proof -
  have w: "w \<noteq> []" "\<forall>c \<in> set w. in_class Word c"
    using assms(1) by (auto simp: is_word_def list_all_iff)
  have no_word: "\<not> in_class Word c" if "in_class Blank c \<or> c = CHR ''#''" for c
    using that blank_no_word(1) blank_no_word(2) by metis
  have hd_w: "in_class Word (hd w)" "hd (w @ r) = hd w" "w @ r \<noteq> []"
    using w by simp_all
  then have start: "\<not> in_class Blank (hd w)" "hd w \<noteq> CHR ''#''"
    using no_word by metis+
  have drop: "dropWhile (in_class Blank) (w @ r) = w @ r"
    using w(1) start(1) by (cases w) simp_all
  have "r = [] \<or> \<not> in_class Word (hd r)"
    using assms(2) no_word unfolding ends_word_def by metis
  then have "takeWhile (in_class Word) r = []" "dropWhile (in_class Word) r = r"
    by (cases r, simp, simp)+
  with w(2) have cut: "takeWhile (in_class Word) (w @ r) = w" "dropWhile (in_class Word) (w @ r) = r"
    by (simp_all only: takeWhile_append2 dropWhile_append2 append_Nil2)
  show ?thesis
    by (subst line_words.simps) (simp only: Let_def drop cut hd_w start w(1) assms(2) simp_thms if_False)
qed

lemma line_words_Cons:
  assumes "line_words s = Some (w # ws)"
  obtains u r where "s = u @ w @ r" "list_all (in_class Blank) u" "is_word w" "ends_word r" "line_words r = Some ws"
proof -
  let ?t = "dropWhile (in_class Blank) s"
  have "w = takeWhile (in_class Word) ?t" "w \<noteq> []" "ends_word (dropWhile (in_class Word) ?t)"
    "line_words (dropWhile (in_class Word) ?t) = Some ws"
    using assms by (subst (asm) line_words.simps, auto simp: Let_def split: if_splits)+
  moreover have "s = takeWhile (in_class Blank) s @ takeWhile (in_class Word) ?t @ dropWhile (in_class Word) ?t"
    by simp
  moreover have "list_all P (takeWhile P xs)" for P :: "char \<Rightarrow> bool" and xs
    by (auto simp: list_all_iff dest: set_takeWhileD)
  ultimately show ?thesis
    using that [of "takeWhile (in_class Blank) s" "dropWhile (in_class Word) ?t"] by (simp add: is_word_def)
qed

lemma line_words_words: "line_words s = Some ws \<Longrightarrow> list_all is_word ws"
proof (induction ws arbitrary: s)
  case (Cons w ws)
  then show ?case by (auto elim: line_words_Cons)
qed simp

lemma line_words_unwords:
  "list_all is_word ws \<Longrightarrow> line_words (unwords ws) = Some ws"
proof (induction ws rule: unwords.induct)
  case (2 w)
  then show ?case
    using line_words_word [of w "[]"] by (simp add: ends_word_def)
next
  case (3 w v ws)
  then show ?case
    using line_words_word [of w "'' '' @ unwords (v # ws)"] by (simp add: ends_word_def)
qed simp

section \<open>Lines of words\<close>

text \<open>The expressions of the instructions, by the number of words after the first.\<close>

fun more_words :: "nat \<Rightarrow> regex list" where
  "more_words 0 = [OPTIONAL_SPACE, OPTIONAL_COMMENT]"
| "more_words (Suc n) = SPACE # Capture [KEYWORD] # more_words n"

lemma re_instructions:
  "re_inst0 = OPTIONAL_SPACE # Capture [KEYWORD] # more_words 0"
  "re_inst1 = OPTIONAL_SPACE # Capture [KEYWORD] # more_words 1"
  "re_inst2 = OPTIONAL_SPACE # Capture [KEYWORD] # more_words 2"
  "re_inst3 = OPTIONAL_SPACE # Capture [KEYWORD] # more_words 3"
  by (simp_all add: re_inst0_def re_inst1_def re_inst2_def re_inst3_def numeral_2_eq_2 numeral_3_eq_3)

lemma matches_space: "matches (SPACE # rs) s gs \<longleftrightarrow>
    (\<exists>u s'. s = u @ s' \<and> u \<noteq> [] \<and> list_all (in_class Blank) u \<and> matches rs s' gs)"
  by (auto simp: SPACE_def matches_chars Suc_le_eq)

lemma matches_optional_space: "matches (OPTIONAL_SPACE # rs) s gs \<longleftrightarrow>
    (\<exists>u s'. s = u @ s' \<and> list_all (in_class Blank) u \<and> matches rs s' gs)"
  by (auto simp: OPTIONAL_SPACE_def matches_chars)

lemma matches_keyword: "matches (Capture [KEYWORD] # rs) s gs \<longleftrightarrow>
    (\<exists>w s' gs'. s = w @ s' \<and> gs = w # gs' \<and> is_word w \<and> matches rs s' gs')"
  by (auto simp: KEYWORD_def matches_items matches_chars is_word_def Suc_le_eq)

lemma matches_comment: "matches [OPTIONAL_COMMENT] s gs \<longleftrightarrow> gs = [] \<and> (s = [] \<or> hd s = CHR ''#'')"
proof -
  have "matches [ANYTHING] s gs \<longleftrightarrow> gs = []" for s gs
    by (auto simp: ANYTHING_def matches_chars list_all_iff in_class.simps)
  then show ?thesis
    by (auto simp: OPTIONAL_COMMENT_def COMMENT_def matches_items neq_Nil_conv)
qed

lemma line_words_nil: "line_words s = Some [] \<longleftrightarrow> (let t = dropWhile (in_class Blank) s in t = [] \<or> hd t = CHR ''#'')"
  by (subst line_words.simps) (simp add: Let_def)

lemma line_words_nil_ends: "line_words s = Some [] \<Longrightarrow> ends_word s"
  by (cases s) (auto simp: line_words_nil ends_word_def Let_def split: if_splits)

lemma matches_more_words:
  "matches (more_words n) s gs \<longleftrightarrow>
    line_words s = Some gs \<and> length gs = n \<and> (n = 0 \<or> (s \<noteq> [] \<and> in_class Blank (hd s)))"
proof (induction n arbitrary: s gs)
  case 0
  have "(\<exists>u s'. s = u @ s' \<and> list_all (in_class Blank) u \<and> (s' = [] \<or> hd s' = CHR ''#'')) \<longleftrightarrow> line_words s = Some []"
  proof
    assume "line_words s = Some []"
    then have "dropWhile (in_class Blank) s = [] \<or> hd (dropWhile (in_class Blank) s) = CHR ''#''"
      by (simp add: line_words_nil Let_def)
    then show "\<exists>u s'. s = u @ s' \<and> list_all (in_class Blank) u \<and> (s' = [] \<or> hd s' = CHR ''#'')"
      by (intro exI [of _ "takeWhile (in_class Blank) s"] exI [of _ "dropWhile (in_class Blank) s"])
        (auto simp: list_all_iff dest: set_takeWhileD)
  next
    assume "\<exists>u s'. s = u @ s' \<and> list_all (in_class Blank) u \<and> (s' = [] \<or> hd s' = CHR ''#'')"
    then obtain u s' where "s = u @ s'" "list_all (in_class Blank) u" "s' = [] \<or> hd s' = CHR ''#''"
      by blast
    then show "line_words s = Some []"
      using line_words_blanks [of u s'] by (cases s') auto
  qed
  then show ?case
    by (auto simp: matches_optional_space matches_comment)
next
  case (Suc n)
  show ?case
  proof
    assume "matches (more_words (Suc n)) s gs"
    then obtain u w r gs' where s: "s = u @ w @ r" "u \<noteq> []" "list_all (in_class Blank) u" "is_word w"
      "gs = w # gs'" "matches (more_words n) r gs'"
      by (auto simp: matches_space matches_keyword)
    have r: "line_words r = Some gs'" "length gs' = n" "n = 0 \<or> (r \<noteq> [] \<and> in_class Blank (hd r))"
      using s(6) by (simp_all add: Suc.IH)
    have "ends_word r"
      using r line_words_nil_ends [of r] by (auto simp: ends_word_def)
    then have "line_words s = Some gs"
      using s(1,3,4,5) r(1) by (simp add: line_words_word)
    moreover have "s \<noteq> [] \<and> in_class Blank (hd s)"
      using s(1-3) by (cases u) auto
    ultimately show "line_words s = Some gs \<and> length gs = Suc n \<and> (Suc n = 0 \<or> (s \<noteq> [] \<and> in_class Blank (hd s)))"
      using s(5) r(2) by simp
  next
    assume rhs: "line_words s = Some gs \<and> length gs = Suc n \<and> (Suc n = 0 \<or> (s \<noteq> [] \<and> in_class Blank (hd s)))"
    then obtain w gs' where gs: "gs = w # gs'" "length gs' = n"
      by (cases gs) auto
    with rhs have "line_words s = Some (w # gs')"
      by simp
    then obtain u r where s: "s = u @ w @ r" "list_all (in_class Blank) u" "is_word w" "ends_word r"
        "line_words r = Some gs'"
      by (rule line_words_Cons)
    have "u \<noteq> []"
      using rhs s(1,3) blank_no_word(1) by (cases w) (auto simp: is_word_def)
    moreover have "n = 0 \<or> (r \<noteq> [] \<and> in_class Blank (hd r))"
    proof (cases r)
      case (Cons c cs)
      then show ?thesis
        using s(4,5) gs(2) by (cases "c = CHR ''#''") (auto simp: ends_word_def)
    qed (use s(5) gs(2) in simp)
    ultimately show "matches (more_words (Suc n)) s gs"
      using s gs by (auto simp: matches_space matches_keyword Suc.IH)
  qed
qed

lemma matches_words:
  "matches (OPTIONAL_SPACE # Capture [KEYWORD] # more_words n) s gs \<longleftrightarrow> line_words s = Some gs \<and> length gs = n + 1"
proof
  assume "matches (OPTIONAL_SPACE # Capture [KEYWORD] # more_words n) s gs"
  then obtain u w r gs' where s: "s = u @ w @ r" "list_all (in_class Blank) u" "is_word w" "gs = w # gs'"
    "matches (more_words n) r gs'"
    by (auto simp: matches_optional_space matches_keyword)
  then have "matches (more_words (Suc n)) ('' '' @ w @ r) gs"
    unfolding more_words.simps matches_space
    by (intro exI [of _ "'' ''"] exI [of _ "w @ r"]) (auto simp: matches_keyword)
  then have "line_words ('' '' @ w @ r) = Some gs" "length gs = n + 1"
    by (simp_all add: matches_more_words del: more_words.simps)
  then show "line_words s = Some gs \<and> length gs = n + 1"
    using s(1,2) by simp
next
  assume rhs: "line_words s = Some gs \<and> length gs = n + 1"
  then have "matches (more_words (Suc n)) ('' '' @ s) gs"
    by (simp add: matches_more_words del: more_words.simps)
  then obtain u w r gs' where s: "'' '' @ s = u @ w @ r" "u \<noteq> []" "list_all (in_class Blank) u" "is_word w"
      "gs = w # gs'" "matches (more_words n) r gs'"
    by (auto simp: matches_space matches_keyword)
  then have "s = tl u @ w @ r" "list_all (in_class Blank) (tl u)"
    by (cases u; simp)+
  with s show "matches (OPTIONAL_SPACE # Capture [KEYWORD] # more_words n) s gs"
    by (auto simp: matches_optional_space matches_keyword)
qed

text \<open>Numbers are words too.\<close>

definition is_number :: "nat \<Rightarrow> string \<Rightarrow> bool" where
  "is_number n w \<longleftrightarrow> take 2 w = ''0x'' \<and> list_all (in_class Xdigit) (drop 2 w) \<and> 3 \<le> length w \<and> length w \<le> n + 2"

lemma matches_number:
  "matches (Capture [Literal ''0x'', Chars Xdigit (Suc 0) (Some n)] # rs) s gs \<longleftrightarrow>
    (\<exists>w s' gs'. s = w @ s' \<and> gs = w # gs' \<and> is_number n w \<and> matches rs s' gs')"
proof -
  have "matches [Literal ''0x'', Chars Xdigit (Suc 0) (Some n)] w us \<longleftrightarrow> us = [] \<and> is_number n w" for w us
    by (auto simp: matches_items matches_chars is_number_def)
      (metis One_nat_def Suc_le_lessD append_take_drop_id diff_diff_cancel length_0_conv length_drop
        list.size(3) nat_less_le numeral_3_eq_3 not_less_eq_eq zero_less_diff Suc_1 diff_is_0_eq add_2_eq_Suc'
        le_diff_conv Cons_eq_appendI eq_Nil_appendI)
  then show ?thesis
    by (auto simp: matches_items)
qed

lemma number_is_word: "is_number n w \<Longrightarrow> is_word w"
proof -
  assume n: "is_number n w"
  then have "w = ''0x'' @ drop 2 w"
    unfolding is_number_def by (metis append_take_drop_id)
  moreover have "list_all (in_class Word) ''0x''"
    by (simp add: in_class.simps between_def)
  moreover have "list_all (in_class Word) (drop 2 w)"
    using n by (auto simp: is_number_def list_all_iff in_class.simps between_def)
  ultimately have "list_all (in_class Word) w"
    by (metis list_all_append)
  with n show ?thesis
    by (auto simp: is_word_def is_number_def)
qed

lemma matches_mono:
  assumes "matches (r # rs) s gs" and "\<And>s gs. matches rs s gs \<Longrightarrow> matches rs' s gs"
  shows "matches (r # rs') s gs"
  using assms by (cases r) (auto simp: matches_items matches_chars, blast+)

lemma matches_with_number:
  "matches re_inst0i s gs \<Longrightarrow> matches re_inst1 s gs"
  "matches re_inst1i s gs \<Longrightarrow> matches re_inst2 s gs"
  "matches re_inst2i s gs \<Longrightarrow> matches re_inst3 s gs"
proof -
  have number: "matches (Capture NUMBER16 # rs) s gs \<Longrightarrow> matches (Capture [KEYWORD] # rs) s gs" for rs s gs
    by (auto simp: NUMBER16_def matches_number matches_keyword intro: number_is_word)
  note expressions = re_inst0i_def re_inst1_def re_inst1i_def re_inst2_def re_inst2i_def re_inst3_def
  show "matches re_inst0i s gs \<Longrightarrow> matches re_inst1 s gs" "matches re_inst1i s gs \<Longrightarrow> matches re_inst2 s gs"
    "matches re_inst2i s gs \<Longrightarrow> matches re_inst3 s gs"
    unfolding expressions by ((erule matches_mono)+, erule number)+
qed

lemma matches_instructions:
  "matches re_inst0 s gs \<longleftrightarrow> line_words s = Some gs \<and> length gs = 1"
  "matches re_inst1 s gs \<longleftrightarrow> line_words s = Some gs \<and> length gs = 2"
  "matches re_inst2 s gs \<longleftrightarrow> line_words s = Some gs \<and> length gs = 3"
  "matches re_inst3 s gs \<longleftrightarrow> line_words s = Some gs \<and> length gs = 4"
  unfolding re_instructions matches_words by (simp_all add: eval_nat_numeral)

definition instruction_res :: "regex list list" where
  "instruction_res = [re_inst0, re_inst0i, re_inst1, re_inst1i, re_inst2, re_inst2i, re_inst3]"

lemma instruction_res_match:
  assumes "re \<in> set instruction_res" and "matches re s gs"
  shows "line_words s = Some gs" "gs \<noteq> []" "length gs \<le> 4"
  using assms matches_with_number [of s gs] by (auto simp: instruction_res_def matches_instructions)

lemma instruction_res_complete:
  assumes "line_words s = Some ws" and "ws \<noteq> []" and "length ws \<le> 4"
  shows "\<exists>re \<in> set instruction_res. matches re s ws"
proof -
  have "length ws = 1 \<or> length ws = 2 \<or> length ws = 3 \<or> length ws = 4"
    using assms(2,3) by (cases "length ws") auto
  with assms(1) show ?thesis
    by (auto simp: instruction_res_def matches_instructions)
qed

text \<open>The code of a line: its words, when they are one to four.\<close>

definition code_words :: "string \<Rightarrow> string list" where
  "code_words line = (case line_words line of None \<Rightarrow> [] | Some ws \<Rightarrow> if length ws \<le> 4 then ws else [])"

lemma instruction_words:
  assumes "match_documented (rx_match L)"
  shows "get_instruction L line = code_words line" "is_instruction L line \<longleftrightarrow> code_words line \<noteq> []"
proof -
  note doc = documented_iff [OF assms]
  have some: "rx_match L re line = Some gs \<Longrightarrow> re \<in> set instruction_res \<Longrightarrow> gs = code_words line \<and> gs \<noteq> []" for re gs
    using doc(2) [of re line gs] instruction_res_match [of re line gs] by (auto simp: code_words_def)
  have found: "\<exists>re \<in> set instruction_res. rx_match L re line \<noteq> None" if "code_words line \<noteq> []"
  proof -
    have "line_words line = Some (code_words line)" "length (code_words line) \<le> 4"
      using that by (auto simp: code_words_def split: option.splits if_splits)
    with that obtain re where "re \<in> set instruction_res" "matches re line (code_words line)"
      using instruction_res_complete by blast
    then show ?thesis
      using doc(1) [of re line] by blast
  qed
  let ?found = "List.map_filter (\<lambda>re. rx_match L re line) instruction_res"
  have res: "set ?found \<subseteq> {code_words line}" "code_words line \<noteq> [] \<Longrightarrow> ?found \<noteq> []" "code_words line = [] \<Longrightarrow> ?found = []"
    using some found by (force simp: map_filter_def filter_empty_conv)+
  show "get_instruction L line = code_words line"
    unfolding get_instruction_def first_match_def instruction_res_def [symmetric]
  proof (cases "code_words line = []")
    case False
    with res obtain gs rest where "?found = gs # rest" "gs = code_words line"
      by (cases ?found) auto
    then show "(case ?found of [] \<Rightarrow> [] | gs # _ \<Rightarrow> gs) = code_words line"
      by simp
  qed (simp add: res(3))
  have "is_instruction L line \<longleftrightarrow> (\<exists>re \<in> set instruction_res. rx_match L re line \<noteq> None)"
    by (auto simp: is_instruction_def is_line_def instruction_res_def)
  then show "is_instruction L line \<longleftrightarrow> code_words line \<noteq> []"
    using some found by blast
qed

section \<open>Other lines\<close>

lemma matches_data: "matches re_data s gs \<longleftrightarrow> (\<exists>w. gs = [w] \<and> line_words s = Some [w] \<and> is_number 8 w)"
proof -
  have "matches (Capture NUMBER32 # rs) s gs \<longleftrightarrow> (\<exists>w. hd gs = w \<and> gs \<noteq> [] \<and> is_number 8 w) \<and> matches (Capture [KEYWORD] # rs) s gs" for rs s gs
    by (auto simp: NUMBER32_def matches_number matches_keyword intro: number_is_word)
  then have "matches re_data s gs \<longleftrightarrow> gs \<noteq> [] \<and> is_number 8 (hd gs) \<and> matches re_inst0 s gs"
    by (auto simp: re_data_def re_inst0_def matches_optional_space [of "Capture k # rs" for k rs])
  then show ?thesis
    by (auto simp: matches_instructions length_Suc_conv)
qed

lemma data_words:
  assumes "match_documented (rx_match L)"
  shows "is_data L line \<longleftrightarrow> (\<exists>w. line_words line = Some [w] \<and> is_number 8 w)"
    and "line_words line = Some [w] \<Longrightarrow> is_number 8 w \<Longrightarrow> captured L re_data line = w"
proof -
  note doc = documented_iff [OF assms]
  show "is_data L line \<longleftrightarrow> (\<exists>w. line_words line = Some [w] \<and> is_number 8 w)"
    by (simp add: is_data_def is_line_def doc(1) [of re_data] matches_data del: not_None_eq)
  assume "line_words line = Some [w]" "is_number 8 w"
  then have "matches re_data line [w]"
    by (simp add: matches_data)
  then obtain gs where "rx_match L re_data line = Some gs"
    using doc(1) [of re_data line] by auto
  with doc(2) [OF this] \<open>line_words line = Some [w]\<close> show "captured L re_data line = w"
    by (auto simp: captured_def matches_data)
qed

text \<open>A directive is no line of words, and a line without words is a blank line or a comment.\<close>

definition directives :: "regex list list" where
  "directives = [re_include, re_macro, re_endmacro, re_define, re_ifdef, re_ifndef, re_endif, re_block,
     re_label, re_warning, re_error]"

lemma directive_no_words:
  assumes "re \<in> set directives" and "matches re s gs"
  shows "line_words s = None"
proof -
  have "\<exists>t rs. re = OPTIONAL_SPACE # Literal (CHR ''.'' # t) # rs"
    using assms(1) by (auto simp: directives_def re_include_def re_macro_def re_endmacro_def re_define_def re_ifdef_def
        re_ifndef_def re_endif_def re_block_def re_label_def re_warning_def re_error_def)
  then obtain t rs where "matches (OPTIONAL_SPACE # Literal (CHR ''.'' # t) # rs) s gs"
    using assms(2) by blast
  then obtain u r where s: "s = u @ CHR ''.'' # r" "list_all (in_class Blank) u"
    by (auto simp: matches_optional_space matches_items)
  have dot: "\<not> in_class Blank (CHR ''.'')" "\<not> in_class Word (CHR ''.'')"
    by (simp_all add: in_class.simps between_def)
  show ?thesis
    unfolding s(1) line_words_blanks [OF s(2)] by (subst line_words.simps) (simp add: dot)
qed

lemma line_kinds:
  assumes "match_documented (rx_match L)"
  shows "line_words line \<noteq> None \<Longrightarrow> re \<in> set directives \<Longrightarrow> \<not> is_line L re line"
    and "is_blank L line \<or> is_comment L line \<longleftrightarrow> line_words line = Some []"
proof -
  note doc = documented_iff [OF assms]
  show "line_words line \<noteq> None \<Longrightarrow> re \<in> set directives \<Longrightarrow> \<not> is_line L re line"
    using doc(2) directive_no_words by (fastforce simp: is_line_def)
  have comment: "matches [Capture COMMENT] s gs \<longleftrightarrow> gs = [s] \<and> s \<noteq> [] \<and> hd s = CHR ''#''" for s gs
    by (cases s) (auto simp: COMMENT_def ANYTHING_def matches_items matches_chars list_all_iff in_class.simps)
  have "is_blank L line \<longleftrightarrow> list_all (in_class Blank) line"
    unfolding is_blank_def is_line_def doc(1) re_blank_def by (auto simp: matches_optional_space)
  moreover have "is_comment L line \<longleftrightarrow> (\<exists>u s'. line = u @ s' \<and> list_all (in_class Blank) u \<and> s' \<noteq> [] \<and> hd s' = CHR ''#'')"
    unfolding is_comment_def is_line_def doc(1) re_comment_def by (auto simp: matches_optional_space comment)
  ultimately show "is_blank L line \<or> is_comment L line \<longleftrightarrow> line_words line = Some []"
  proof -
    have "list_all (in_class Blank) line \<longleftrightarrow> (\<exists>u s'. line = u @ s' \<and> list_all (in_class Blank) u \<and> s' = [])"
      by simp
    moreover have "line_words line = Some [] \<longleftrightarrow>
        (\<exists>u s'. line = u @ s' \<and> list_all (in_class Blank) u \<and> (s' = [] \<or> hd s' = CHR ''#''))"
      using matches_more_words [of 0 line "[]"] by (simp add: matches_optional_space matches_comment)
    ultimately show ?thesis
      using \<open>is_blank L line \<longleftrightarrow> _\<close> \<open>is_comment L line \<longleftrightarrow> _\<close> by blast
  qed
qed

end
