(* ===== verification/Assembler.thy ===== *)
theory Assembler
  imports Line_Syntax Bug_CPU
begin

text \<open>
  Single lines of the assembler: numbers, the instruction sets whose names can be written, and what a
  line that names an instruction or a number is compiled to.
\<close>

section \<open>Numbers\<close>

lemma xdigit_value_digit: "n < 16 \<Longrightarrow> xdigit_value (hex_digit n) = Some n"
proof -
  assume "n < 16"
  moreover have "list_all (\<lambda>n. xdigit_value (hex_digit n) = Some n) [0..<16]"
    by code_simp
  ultimately show ?thesis
    by (simp add: list_all_iff)
qed

lemma hex_prefix_digits: "hex_prefix 0 (hex_digits n) = n"
proof -
  have append: "hex_prefix k (hex_digits n @ s) = hex_prefix (k * 16 ^ length (hex_digits n) + n) s" for k s
  proof (induction n arbitrary: k s rule: hex_digits.induct)
    case (1 n)
    show ?case
    proof (cases "n < 16")
      case True
      then show ?thesis
        by (simp add: hex_digits.simps xdigit_value_digit mult.commute)
    next
      case False
      then have split: "hex_digits n = hex_digits (n div 16) @ [hex_digit (n mod 16)]"
        by (simp add: hex_digits.simps [of n])
      have "16 * (k * 16 ^ length (hex_digits (n div 16)) + n div 16) + n mod 16 =
          k * 16 ^ length (hex_digits n) + n"
        by (simp add: split algebra_simps)
      with 1 [OF False] show ?thesis
        unfolding split by (simp add: xdigit_value_digit algebra_simps)
    qed
  qed
  show ?thesis
    using append [where k = 0 and s = "[]"] by simp
qed

lemma hex_digit_class: "n < 16 \<Longrightarrow> in_class Xdigit (hex_digit n)"
proof -
  assume "n < 16"
  moreover have "list_all (\<lambda>n. in_class Xdigit (hex_digit n)) [0..<16]"
    by code_simp
  ultimately show ?thesis
    by (simp add: list_all_iff)
qed

lemma hex_digits_class: "list_all (in_class Xdigit) (hex_digits n)" "hex_digits n \<noteq> []"
proof -
  show "list_all (in_class Xdigit) (hex_digits n)"
    by (induction n rule: hex_digits.induct) (subst hex_digits.simps, simp add: hex_digit_class)
  show "hex_digits n \<noteq> []"
    by (subst hex_digits.simps) simp
qed

lemma length_hex_digits: "n < 16 ^ k \<Longrightarrow> 0 < k \<Longrightarrow> length (hex_digits n) \<le> k"
proof (induction k arbitrary: n)
  case (Suc k)
  show ?case
  proof (cases "n < 16")
    case False
    then have "0 < k"
      using Suc.prems(1) by (cases k) auto
    moreover have "n div 16 < 16 ^ k"
      using Suc.prems(1) by (simp add: less_mult_imp_div_less mult.commute)
    ultimately show ?thesis
      using Suc.IH [of "n div 16"] False by (simp add: hex_digits.simps [of n])
  qed (simp add: hex_digits.simps)
qed simp

lemma format_hex_class: "list_all (in_class Xdigit) (format_hex k n)" "format_hex k n \<noteq> []"
  using hex_digits_class [of n]
  by (auto simp: format_hex_def Let_def list_all_iff in_class.simps between_def)

lemma number_format:
  assumes "n < 16 ^ k" and "0 < k"
  shows "is_number k (''0x'' @ format_hex k n)" and "length (format_hex k n) = k"
proof -
  show "length (format_hex k n) = k"
    using length_hex_digits [OF assms] by (simp add: format_hex_def Let_def)
  with assms(2) show "is_number k (''0x'' @ format_hex k n)"
    using format_hex_class by (auto simp: is_number_def)
qed

lemma strtoul_format:
  assumes "n < 2 ^ 64"
  shows "strtoul (''0x'' @ format_hex k n) = Some (of_nat n)"
proof -
  obtain c cs where ds: "format_hex k n = c # cs"
    using format_hex_class(2) by (cases "format_hex k n") auto
  have "hex_prefix 0 (replicate j (CHR ''0'') @ s) = hex_prefix 0 s" for j s
    by (induction j) (simp_all add: xdigit_value_def between_def)
  then have "hex_prefix 0 (format_hex k n) = n"
    by (simp add: format_hex_def Let_def hex_prefix_digits)
  moreover have "in_class Xdigit c"
    using format_hex_class(1) [of k n] ds by simp
  then have "xdigit_value c \<noteq> None"
    by (auto simp: in_class.simps xdigit_value_def)
  then obtain d where d: "xdigit_value c = Some d"
    by blast
  ultimately have "hex_prefix d cs = n"
    using ds by simp
  then show ?thesis
    using assms d by (simp add: strtoul_def unsigned_hex_def ds between_def)
qed

lemma unat_bounds: "unat (d :: uint16) < 65536" "unat (w :: uint32) < 4294967296"
  by (rule order_less_le_trans [OF unsigned_less], simp)+

lemma ucast_wide: "ucast (ucast (d :: uint16) :: uint64) = d" "ucast (ucast (w :: uint32) :: uint64) = w"
  by (auto intro!: bit_word_eqI simp: bit_simps)

section \<open>Instruction sets with names that can be written\<close>

text \<open>
  Specification: the names are words, none is a number of data, and what an instruction takes fits the
  format.
\<close>

definition assemblable :: "'f isa \<Rightarrow> bool" where
  "assemblable isa \<longleftrightarrow> itab.consistent isa \<and> rtab.consistent isa \<and>
     (\<forall>c i. instructions isa c = Some i \<longrightarrow> inst_code i = c \<and> is_word (inst_name i) \<and>
       \<not> is_number 8 (inst_name i) \<and> inst_nregs i \<le> 3 \<and> (inst_nregs i = 3 \<longrightarrow> \<not> inst_has_inmediate i)) \<and>
     (\<forall>c n. registers_map isa c = Some n \<longrightarrow> is_word n)"

lemma base_assemblable: "assemblable (base_isa :: 'z cpu_isa)"
proof -
  have "list_all (\<lambda>n. is_word n) (map snd base_registers)"
    by (simp add: base_registers_def is_word_def in_class.simps between_def)
  moreover have "list_all (\<lambda>n. is_word n \<and> \<not> is_number 8 n) (map (inst_name \<circ> snd) (base_instructions :: (uint8 \<times> 'z operation instruction_info) list))"
    by (simp add: base_instructions_def base_entries_def is_word_def is_number_def in_class.simps between_def)
  moreover have "list_all (\<lambda>(c, i). inst_code i = c \<and> inst_nregs i \<le> 3 \<and> (inst_nregs i = 3 \<longrightarrow> \<not> inst_has_inmediate i))
      (base_instructions :: (uint8 \<times> 'z operation instruction_info) list)"
    by (simp add: base_instructions_def base_entries_def)
  ultimately show ?thesis
    unfolding assemblable_def base_isa_facts(5,6) using base_isa_facts(2,3)
    by (fastforce simp: list_all_iff dest: map_of_SomeD)
qed

lemma assemblable_add_interrupt:
  "assemblable isa \<Longrightarrow> add_interrupt' isa c n b = Inr isa' \<Longrightarrow>
    assemblable isa' \<and> instructions isa' = instructions isa"
proof -
  assume isa: "assemblable isa" and "add_interrupt' isa c n b = Inr isa'"
  then have same: "instructions isa' = instructions isa" "instruction_names isa' = instruction_names isa"
    "registers_map isa' = registers_map isa" "register_names isa' = register_names isa"
    by (auto simp: add_interrupt'_def add_interrupt_def split: option.splits)
  show ?thesis
    using isa unfolding assemblable_def consistent_cong(1) [OF same(1,2)] consistent_cong(2) [OF same(3,4)] same
    by simp
qed

lemma assemblable_add_instruction:
  assumes "assemblable isa" and "instructions isa c = None" and "instruction_names isa n = None"
    and "is_word n" and "\<not> is_number 8 n" and "k \<le> 3" and "k = 3 \<longrightarrow> \<not> imm"
  shows "\<exists>isa'. add_instruction' isa c n k imm f = Inr isa' \<and> assemblable isa'"
proof -
  let ?i = "\<lparr>inst_code = c, inst_name = n, inst_nregs = k, inst_has_inmediate = imm, inst_func = f\<rparr>"
  have cons: "itab.consistent isa" "rtab.consistent isa"
    using assms(1) by (simp_all add: assemblable_def)
  obtain isa' where isa': "add_instruction isa ?i = Inr isa'" "itab.consistent isa'"
    "instructions isa' = (instructions isa)(c \<mapsto> ?i)"
    using itab.add_consistent [of isa c ?i] cons(1) assms(2,3) by auto
  then have same: "registers_map isa' = registers_map isa" "register_names isa' = register_names isa"
    by (auto simp: add_instruction_def split: option.splits)
  have "assemblable isa'"
    using assms isa'(2) unfolding assemblable_def consistent_cong(2) [OF same] same isa'(3) by auto
  with isa'(1) show ?thesis
    by (simp add: add_instruction'_def)
qed

lemma world_assemblable:
  fixes op :: "'z operation"
  shows "assemblable (world_isa op)"
proof -
  obtain t :: "'z cpu_isa" where t: "world_interrupts = Inr t" "assemblable t" "instructions t = map_of base_instructions"
  proof -
    have codes: "map_of base_interrupts INTERRUPT_WORLDACTION = None" "map_of base_interrupts INTERRUPT_WORLDEVENT = None"
      by (simp_all add: base_interrupts_def)
    have "\<exists>t :: 'z cpu_isa. world_interrupts = Inr t"
      unfolding world_interrupts_def base_isa_facts(1)
      by (simp add: add_interrupt'_def add_interrupt_def base_isa_facts(7) codes)
    then obtain t :: "'z cpu_isa" where t: "world_interrupts = Inr t"
      by blast
    then obtain u where "add_interrupt' base_isa INTERRUPT_WORLDACTION ''InvalidWorldCommand'' True = Inr u"
      "add_interrupt' u INTERRUPT_WORLDEVENT ''WorldEvent'' False = Inr t"
      by (auto simp: world_interrupts_def base_isa_facts(1) attempt_eq_Inr)
    with that t show ?thesis
      using assemblable_add_interrupt base_assemblable base_isa_facts(5) by metis
  qed
  have free: "map_of base_instructions 0x58 = (None :: 'z operation instruction_info option)"
    "list_all (\<lambda>(c, i). inst_name i \<noteq> ''world'') (base_instructions :: (uint8 \<times> 'z operation instruction_info) list)"
    by (simp_all add: base_instructions_def base_entries_def)
  have "instruction_names t ''world'' = None"
  proof (rule ccontr)
    assume "instruction_names t ''world'' \<noteq> None"
    then obtain c i where "instructions t c = Some i" "inst_name i = ''world''"
      using t(2) itab.name_of_code unfolding assemblable_def by blast
    then show False
      using free(2) t(3) by (fastforce simp: list_all_iff dest: map_of_SomeD)
  qed
  moreover have "is_word ''world''" "\<not> is_number 8 ''world''"
    by (simp_all add: is_word_def is_number_def in_class.simps between_def)
  ultimately obtain u where "add_instruction' t 0x58 ''world'' 0 True op = Inr u" "assemblable u"
    using assemblable_add_instruction [of t "0x58" "''world''" 0 True op] t(2,3) free(1) by auto
  then show ?thesis
    by (simp add: world_isa_def world_isa_new_def t(1))
qed

section \<open>Lines of instructions\<close>

lemma assembly_words:
  assumes "assemblable isa" and "assembly isa i = Some ws"
  obtains info rs ns where "instructions isa (i_code i) = Some info" "rs = operand_codes info i"
    "map (registers_map isa) rs = map Some ns"
    "ws = inst_name info # ns @ (if inst_has_inmediate info then [''0x'' @ format_hex 4 (unat (i_data i))] else [])"
proof -
  obtain info where info: "instructions isa (i_code i) = Some info"
    using assms(2) by (auto simp: assembly_def split: option.splits)
  have "inst_nregs info \<le> 2 \<and> inst_has_inmediate info \<longleftrightarrow> inst_has_inmediate info"
  proof -
    have "inst_nregs info = 3" if "\<not> inst_nregs info \<le> 2"
      using that assms(1) info word_le_less_eq[of "inst_nregs info" 3]
      by (auto simp: assemblable_def word_less_nat_alt word_le_nat_alt word_unat_eq_iff)
    then show ?thesis
      using assms(1) info by (auto simp: assemblable_def)
  qed
  then have ws: "None \<notin> set (map (registers_map isa) (operand_codes info i))"
    "ws = inst_name info # map the (map (registers_map isa) (operand_codes info i)) @
      (if inst_has_inmediate info then [''0x'' @ format_hex 4 (unat (i_data i))] else [])"
    using assms(2) info by (simp_all add: assembly_def Let_def split: if_split_asm)
  have "map (registers_map isa) rs = map Some (map the (map (registers_map isa) rs))"
    if "None \<notin> set (map (registers_map isa) rs)" for rs
    using that by (induction rs) auto
  from that [OF info refl this [OF ws(1)] ws(2)] show ?thesis .
qed

lemma assembly_cong:
  assumes "instructions isa (i_code i) = Some info" and "i_code j = i_code i"
    and "operand_codes info j = operand_codes info i" and "inst_has_inmediate info \<longrightarrow> i_data j = i_data i"
  shows "assembly isa j = assembly isa i"
  using assms by (simp add: assembly_def Let_def)

lemma small_word: "(n :: uint8) \<le> 3 \<Longrightarrow> n = 0 \<or> n = 1 \<or> n = 2 \<or> n = 3"
proof -
  assume "n \<le> 3"
  then have "unat n \<le> 3"
    by (simp add: word_le_nat_alt)
  then have "unat n = 0 \<or> unat n = 1 \<or> unat n = 2 \<or> unat n = 3"
    by linarith
  then show ?thesis
    by (simp add: word_unat_eq_iff)
qed

lemma operands_run:
  fixes isa :: "'f isa"
  assumes isa: "assemblable isa" and info: "instructions isa (i_code i) = Some info"
    and ns: "map (registers_map isa) (operand_codes info i) = map Some ns"
  shows "\<exists>j. operands isa info (ns @ (if inst_has_inmediate info then [''0x'' @ format_hex 4 (unat (i_data i))] else []))
      inst0 = Inr j \<and> assembly isa j = assembly isa i"
proof -
  have code: "inst_code info = i_code i" "inst_nregs info \<le> 3" "inst_nregs info = 3 \<longrightarrow> \<not> inst_has_inmediate info"
    using isa info by (auto simp: assemblable_def)
  have name: "get_register_code isa n = Inr c" if "registers_map isa c = Some n" for c n
    using that isa rtab.code_of_name [of isa c n] by (simp add: get_register_code_def assemblable_def)
  have data: "strtoul (''0x'' @ format_hex 4 (unat (i_data i))) = Some (ucast (i_data i))"
    using unat_bounds(1) [of "i_data i"] strtoul_format [of "unat (i_data i)" 4] by simp
  note data = data data [simplified]
  have fields: "ucast (ucast (i_first i) :: uint8) = i_first i" "ucast (ucast (i_second i) :: uint8) = i_second i"
    "ucast (ucast (r :: uint8) :: uint16) = r" for r
    by (auto intro!: bit_word_eqI simp: bit_simps)
  have two: "\<not> (2 :: uint8) \<le> 1"
    by (simp add: word_le_nat_alt)
  note fields = fields two ucast_wide(1) [of "i_data i"]
  have "inst_nregs info = 0 \<or> inst_nregs info = 1 \<or> inst_nregs info = 2 \<or> inst_nregs info = 3"
    using code(2) by (rule small_word)
  then obtain j where "operands isa info (ns @ (if inst_has_inmediate info then [''0x'' @ format_hex 4 (unat (i_data i))] else []))
      inst0 = Inr j" "i_code j = i_code i" "operand_codes info j = operand_codes info i"
      "inst_has_inmediate info \<longrightarrow> i_data j = i_data i"
  proof (elim disjE)
    assume n: "inst_nregs info = 0"
    with ns have "ns = []"
      by (simp add: operand_codes_def)
    with n that show ?thesis
      by (cases "inst_has_inmediate info") (simp_all add: operands_def data fields code(1) operand_codes_def)
  next
    assume n: "inst_nregs info = 1"
    with ns obtain n1 where "ns = [n1]" "registers_map isa (ucast (i_first i)) = Some n1"
      by (auto simp: operand_codes_def)
    with n that name show ?thesis
      by (cases "inst_has_inmediate info") (simp_all add: operands_def data fields code(1) operand_codes_def)
  next
    assume n: "inst_nregs info = 2"
    with ns obtain n1 n2 where "ns = [n1, n2]" "registers_map isa (ucast (i_first i)) = Some n1"
        "registers_map isa (ucast (i_second i)) = Some n2"
      by (auto simp: operand_codes_def)
    with n that name show ?thesis
      by (cases "inst_has_inmediate info") (simp_all add: operands_def data fields code(1) operand_codes_def)
  next
    assume n: "inst_nregs info = 3"
    with ns obtain n1 n2 n3 where "ns = [n1, n2, n3]" "registers_map isa (ucast (i_first i)) = Some n1"
        "registers_map isa (ucast (i_second i)) = Some n2" "registers_map isa (ucast (i_data i)) = Some n3"
      by (auto simp: operand_codes_def)
    with n that name code(3) show ?thesis
      by (simp add: operands_def fields code(1) operand_codes_def)
  qed
  then show ?thesis
    using assembly_cong [OF info] by blast
qed

lemma compile_assembly:
  assumes doc: "match_documented (rx_match L)" and isa: "assemblable isa"
    and ws: "assembly isa i = Some ws"
  shows "\<exists>j. compile_line L u e isa (unwords ws) = Inr (host_word e (inst_bytes j)) \<and> assembly isa j = Some ws"
    and "line_words (unwords ws) = Some ws" and "ws \<noteq> []" and "\<not> is_data L (unwords ws)"
    and "length ws \<le> 4"
proof -
  obtain info ns where info: "instructions isa (i_code i) = Some info"
    and ns: "map (registers_map isa) (operand_codes info i) = map Some ns"
    and parts: "ws = inst_name info # ns @ (if inst_has_inmediate info then [''0x'' @ format_hex 4 (unat (i_data i))] else [])"
    using assembly_words [OF isa ws] by metis
  have facts: "is_word (inst_name info)" "\<not> is_number 8 (inst_name info)" "inst_nregs info \<le> 3"
    "inst_nregs info = 3 \<longrightarrow> \<not> inst_has_inmediate info" "inst_code info = i_code i"
    using isa info by (auto simp: assemblable_def)
  have "is_word n" if n: "n \<in> set ns" for n
  proof -
    obtain c where "registers_map isa c = Some n"
      using n ns by (metis (no_types, lifting) in_set_conv_nth length_map nth_map)
    with isa show ?thesis
      by (auto simp: assemblable_def)
  qed
  moreover have "is_word (''0x'' @ format_hex 4 (unat (i_data i)))"
    using number_is_word [OF number_format(1) [of "unat (i_data i)" 4]] unat_bounds(1) [of "i_data i"] by simp
  ultimately have "list_all is_word ws"
    unfolding parts list_all_iff using facts(1) by auto
  then show words: "line_words (unwords ws) = Some ws"
    by (rule line_words_unwords)
  show "ws \<noteq> []"
    by (simp add: parts)
  have len: "length ns = unat (inst_nregs info)"
  proof -
    have "length ns = length (operand_codes info i)"
      using ns by (metis length_map)
    also have "\<dots> = unat (inst_nregs info)"
      using facts(3) by (simp add: operand_codes_def word_le_nat_alt)
    finally show ?thesis .
  qed
  show no_data: "\<not> is_data L (unwords ws)"
  proof
    assume "is_data L (unwords ws)"
    then obtain w where "ws = [w]" "is_number 8 w"
      unfolding data_words(1) [OF doc] words by auto
    with facts(2) show False
      by (simp add: parts)
  qed
  show short: "length ws \<le> 4"
    using small_word [OF facts(3)] facts(4) len by (auto simp: parts)
  obtain j where j: "operands isa info (ns @ (if inst_has_inmediate info then [''0x'' @ format_hex 4 (unat (i_data i))] else []))
      (garbage u) = Inr j" "assembly isa j = assembly isa i"
    using operands_run [OF isa info ns] by blast
  have "get_instruction_code isa (inst_name info) = Inr (i_code i)"
    using isa info itab.code_of_name [of isa "i_code i" info] by (simp add: get_instruction_code_def assemblable_def)
  then have "compile_line L u e isa (unwords ws) = Inr (host_word e (inst_bytes j))"
    using no_data short j(1) len info unfolding compile_line_def instruction_words(1) [OF doc] code_words_def words
    by (simp add: parts get_instruction_info_def as_parser_error_def encode_host_word)
  with j(2) ws show "\<exists>j. compile_line L u e isa (unwords ws) = Inr (host_word e (inst_bytes j)) \<and> assembly isa j = Some ws"
    by auto
qed

lemma compile_data:
  assumes doc: "match_documented (rx_match L)"
  shows "is_data L (''0x'' @ format_hex 8 (unat (w :: cpu_word)))"
    and "line_words (''0x'' @ format_hex 8 (unat w)) = Some [''0x'' @ format_hex 8 (unat w)]"
    and "\<exists>v. compile_line L u e isa (''0x'' @ format_hex 8 (unat w)) = Inr v"
    and "stale u = id \<Longrightarrow> compile_line L u e isa (''0x'' @ format_hex 8 (unat w)) =
      Inr (case e of BigEndian \<Rightarrow> w | LittleEndian \<Rightarrow> change_byte_order w)"
proof -
  let ?n = "''0x'' @ format_hex 8 (unat w)"
  have w: "unat w < 2 ^ 32"
    using unat_bounds(2) [of w] by simp
  then have number: "is_number 8 ?n"
    using number_format(1) [of "unat w" 8] by simp
  then show words: "line_words ?n = Some [?n]"
    using line_words_unwords [of "[?n]"] number_is_word by simp
  show data: "is_data L ?n"
    unfolding data_words(1) [OF doc] using number words by blast
  then show "\<exists>v. compile_line L u e isa ?n = Inr v"
    unfolding compile_line_def by (simp only: if_True) blast
  assume "stale u = id"
  moreover have "strtoul ?n = Some (of_nat (unat w))"
    using w strtoul_format [of "unat w" 8] by simp
  ultimately have "get_data L u ?n = w"
    using data number words by (simp add: get_data_def data_words(2) [OF doc] ucast_wide(2))
  with data show "compile_line L u e isa ?n = Inr (case e of BigEndian \<Rightarrow> w | LittleEndian \<Rightarrow> change_byte_order w)"
    unfolding compile_line_def by (simp only: if_True)
qed

section \<open>What is left over\<close>

text \<open>Two words of object code that are the same instruction, up to the fields it does not use.\<close>

definition same_code :: "'f isa \<Rightarrow> uint8 list \<Rightarrow> uint8 list \<Rightarrow> bool" where
  "same_code isa bs cs \<longleftrightarrow> (\<exists>info. instructions isa (i_code (bytes_inst bs)) = Some info \<and>
     i_code (bytes_inst cs) = i_code (bytes_inst bs) \<and>
     operand_codes info (bytes_inst cs) = operand_codes info (bytes_inst bs) \<and>
     (inst_has_inmediate info \<longrightarrow> i_data (bytes_inst cs) = i_data (bytes_inst bs)))"

lemma attempt_eq_Inl: "attempt r f = Inl x \<longleftrightarrow> r = Inl x \<or> (\<exists>y. r = Inr y \<and> f y = Inl x)"
  by (cases r) simp_all

lemma operands_leftovers:
  assumes "inst_nregs info \<le> 3" and "inst_nregs info = 3 \<longrightarrow> \<not> inst_has_inmediate info"
  shows "operands isa info args g = Inl x \<Longrightarrow> operands isa info args h = Inl x"
    and "operands isa info args g = Inr j \<Longrightarrow> \<exists>k. operands isa info args h = Inr k \<and>
      i_code j = inst_code info \<and> i_code k = inst_code info \<and> operand_codes info k = operand_codes info j \<and>
      (inst_has_inmediate info \<longrightarrow> i_data k = i_data j)"
proof -
  have two: "\<not> (2 :: uint8) \<le> 1"
    by (simp add: word_le_nat_alt)
  have n: "inst_nregs info = 0 \<or> inst_nregs info = 1 \<or> inst_nregs info = 2 \<or> inst_nregs info = 3"
    using assms(1) by (rule small_word)
  show "operands isa info args g = Inl x \<Longrightarrow> operands isa info args h = Inl x"
    using n assms(2) two by (elim disjE) (auto simp: operands_def Let_def attempt_eq_Inl attempt_eq_Inr split: option.splits if_splits)
  show "operands isa info args g = Inr j \<Longrightarrow> \<exists>k. operands isa info args h = Inr k \<and>
      i_code j = inst_code info \<and> i_code k = inst_code info \<and> operand_codes info k = operand_codes info j \<and>
      (inst_has_inmediate info \<longrightarrow> i_data k = i_data j)"
    using n assms(2) two
    by (cases "inst_has_inmediate info"; cases "strtoul (args ! unat (inst_nregs info))"; elim disjE)
      (auto simp: operands_def Let_def operand_codes_def attempt_eq_Inr split: if_splits)
qed

lemma compile_line_leftovers:
  assumes "assemblable isa"
  shows "compile_line L u e isa l = Inl x \<Longrightarrow> compile_line L v e isa l = Inl x"
    and "compile_line L u e isa l = Inr w \<Longrightarrow> \<exists>w'. compile_line L v e isa l = Inr w' \<and>
      (is_data L l \<or> same_code isa (host_bytes e w) (host_bytes e w'))"
proof -
  have "case compile_line L u e isa l of
      Inl x \<Rightarrow> compile_line L v e isa l = Inl x
    | Inr w \<Rightarrow> \<exists>w'. compile_line L v e isa l = Inr w' \<and> (is_data L l \<or> same_code isa (host_bytes e w) (host_bytes e w'))"
  proof (cases "is_data L l \<or> get_instruction L l = []")
    case True
    then show ?thesis
      by (auto simp: compile_line_def)
  next
    case False
    then obtain name args where name: "get_instruction L l = name # args"
      by (cases "get_instruction L l") auto
    let ?info = "as_parser_error (attempt (get_instruction_code isa name) (get_instruction_info isa))"
    have line: "compile_line L u e isa l = attempt ?info (\<lambda>info.
        if unat (inst_nregs info) + of_bool (inst_has_inmediate info) \<noteq> length args then Inl ParserError
        else attempt (as_parser_error (operands isa info args (garbage u))) (encode e 0))" for u
      using False name by (simp add: compile_line_def)
    show ?thesis
    proof (cases ?info)
      case (Inr info)
      then have info: "instructions isa (inst_code info) = Some info" "inst_nregs info \<le> 3"
          "inst_nregs info = 3 \<longrightarrow> \<not> inst_has_inmediate info"
        using assms by (auto simp: as_parser_error_def attempt_eq_Inr get_instruction_info_def assemblable_def
            split: sum.splits option.splits)
      note left = operands_leftovers [OF info(2,3), of isa args "garbage u" _ "garbage v"]
      show ?thesis
      proof (cases "operands isa info args (garbage u)")
        case (Inl x)
        with left(1) Inr show ?thesis
          by (simp add: line as_parser_error_def)
      next
        case (Inr j)
        then obtain k where k: "operands isa info args (garbage v) = Inr k" "i_code j = inst_code info"
            "i_code k = inst_code info" "operand_codes info k = operand_codes info j"
            "inst_has_inmediate info \<longrightarrow> i_data k = i_data j"
          using left(2) by blast
        then have "same_code isa (inst_bytes j) (inst_bytes k)"
          using info(1) by (auto simp: same_code_def)
        with Inr k(1) \<open>?info = Inr info\<close> show ?thesis
          by (simp add: line as_parser_error_def encode_host_word)
      qed
    qed (simp add: line)
  qed
  then show "compile_line L u e isa l = Inl x \<Longrightarrow> compile_line L v e isa l = Inl x"
    and "compile_line L u e isa l = Inr w \<Longrightarrow> \<exists>w'. compile_line L v e isa l = Inr w' \<and>
      (is_data L l \<or> same_code isa (host_bytes e w) (host_bytes e w'))"
    by simp_all
qed

end
