(* ===== verification/Reassembly.thy ===== *)
theory Reassembly
  imports Assembler
begin

text \<open>
  Whole programs: the two functions that compile a program agree, and a program the decompiler has written
  is compiled to object code in which every instruction decompiles to the same line.  Both hold for any
  leftovers, what the compilation finds in memory that C++ does not determine.
\<close>

section \<open>The words of a program\<close>

text \<open>Specification: the words of the object code from the address \<open>k\<close> on, and the warnings.\<close>

fun object_words ::
    "libs \<Rightarrow> (nat \<Rightarrow> leftovers) \<Rightarrow> endian \<Rightarrow> 'f isa \<Rightarrow> nat \<Rightarrow> string list \<Rightarrow> exn + cpu_word list \<times> string list" where
  "object_words L u e isa k [] = Inr ([], [])"
| "object_words L u e isa k (l # ls) =
     (if is_blank L l \<or> is_comment L l then object_words L u e isa k ls
      else if is_warning L l
      then attempt (object_words L u e isa k ls) (\<lambda>(ws, warnings). Inr (ws, get_warning L l # warnings))
      else if is_error L l then Inl ErrorDirective
      else attempt (compile_line L (u k) e isa l) (\<lambda>w.
           attempt (object_words L u e isa (k + 4) ls) (\<lambda>(ws, warnings). Inr (w # ws, warnings))))"

definition object_bytes :: "endian \<Rightarrow> cpu_word list \<Rightarrow> uint8 list" where
  "object_bytes e ws = concat (map (host_bytes e) ws)"

lemma object_bytes_simps [simp]:
  "object_bytes e [] = []" "object_bytes e (w # ws) = host_bytes e w @ object_bytes e ws"
  "length (object_bytes e ws) = 4 * length ws"
  by (simp_all add: object_bytes_def, induction ws) simp_all

lemma object_words_length: "object_words L u e isa k ls = Inr (ws, warnings) \<Longrightarrow> length ws \<le> length ls"
  by (induction ls arbitrary: k ws warnings) (fastforce simp: attempt_eq_Inr split: if_splits)+

lemma compile_into_run:
  assumes "wf_memory mem" and "unat addr + 4 * length ls \<le> unat (mem_size mem)"
  shows "compile_into L u e isa ls addr mem warnings =
    attempt (object_words L u e isa (unat addr) ls) (\<lambda>(ws, wn). Inr
      (mem\<lparr>mem_bytes := blit (mem_bytes mem) (unat addr) (object_bytes e ws)\<rparr>,
       addr + 4 * of_nat (length ws), warnings @ wn))"
  using assms
proof (induction ls arbitrary: addr mem warnings)
  case Nil
  then show ?case
    by (cases mem) (simp add: blit_def)
next
  case (Cons l ls)
  show ?case
  proof (cases "is_blank L l \<or> is_comment L l \<or> is_warning L l \<or> is_error L l")
    case True
    with Cons show ?thesis
      by (cases "object_words L u e isa (unat addr) ls") auto
  next
    case False
    show ?thesis
    proof (cases "compile_line L (u (unat addr)) e isa l")
      case (Inr w)
      let ?mem = "mem\<lparr>mem_bytes := blit (mem_bytes mem) (unat addr) (host_bytes e w)\<rparr>"
      have next_addr: "unat (addr + 4) = unat addr + 4"
      proof -
        have "unat addr + 4 < 4294967296"
          using order_le_less_trans [OF Cons.prems(2) unat_size_bound] by simp
        then show ?thesis
          by (intro unat_add_le [where n = 4, simplified]) simp
      qed
      have "wf_memory ?mem"
        using Cons.prems by simp
      then have rest: "compile_into L u e isa ls (addr + 4) ?mem warnings =
          attempt (object_words L u e isa (unat addr + 4) ls) (\<lambda>(ws, wn). Inr
            (?mem\<lparr>mem_bytes := blit (mem_bytes ?mem) (unat addr + 4) (object_bytes e ws)\<rparr>,
             addr + 4 + 4 * of_nat (length ws), warnings @ wn))"
        using Cons.IH [of ?mem "addr + 4" warnings] Cons.prems(2) next_addr by simp
      have join: "blit (blit (mem_bytes mem) (unat addr) (host_bytes e w)) (unat addr + 4) (object_bytes e ws) =
          blit (mem_bytes mem) (unat addr) (host_bytes e w @ object_bytes e ws)" if "length ws \<le> length ls" for ws
        using that Cons.prems by (intro nth_equalityI) (auto simp: nth_blit wf_memory_def nth_append)
      have set: "set_word e mem addr w False = Inr ?mem"
        using Cons.prems(2) by (simp add: set_word_raw)
      show ?thesis
      proof (cases "object_words L u e isa (unat addr + 4) ls")
        case (Inr r)
        obtain ws wn where r: "r = (ws, wn)"
          by fastforce
        with Inr have "length ws \<le> length ls"
          using object_words_length by fastforce
        from join [OF this] show ?thesis
          using Inr r \<open>compile_line L (u (unat addr)) e isa l = _\<close> False by (simp add: set rest)
      qed (use \<open>compile_line L (u (unat addr)) e isa l = _\<close> False in \<open>simp add: set rest\<close>)
    qed (use False in simp)
  qed
qed

lemma compile_out_run:
  assumes "\<And>n. write_ok n"
  shows "case object_words L u e isa (length out) ls of
      Inl x \<Rightarrow> fst (compile_out L u e isa write_ok ls warnings out) = Inl x
    | Inr (ws, wn) \<Rightarrow> compile_out L u e isa write_ok ls warnings out = (Inr (warnings @ wn), out @ object_bytes e ws)"
proof (induction ls arbitrary: warnings out)
  case (Cons l ls)
  show ?case
  proof (cases "is_blank L l \<or> is_comment L l \<or> is_warning L l \<or> is_error L l")
    case True
    with Cons.IH [of warnings out] Cons.IH [of "warnings @ [get_warning L l]" out] show ?thesis
      by (cases "object_words L u e isa (length out) ls") (auto split: prod.splits)
  next
    case False
    show ?thesis
    proof (cases "compile_line L (u (length out)) e isa l")
      case (Inr w)
      with False assms Cons.IH [of warnings "out @ host_bytes e w"] show ?thesis
        by (cases "object_words L u e isa (length out + 4) ls") (auto split: prod.splits)
    qed (use False in simp)
  qed
qed simp

section \<open>Lines of code only\<close>

text \<open>
  The contract of \<open>regex_search\<close>: a part of the text that matches, and the text after it.
\<close>

definition search_documented :: "(regex list \<Rightarrow> string \<Rightarrow> (string list \<times> string) option) \<Rightarrow> bool" where
  "search_documented f \<longleftrightarrow>
     (\<forall>rs s. case f rs s of
        None \<Rightarrow> \<nexists>u m r gs. s = u @ m @ r \<and> matches rs m gs
      | Some (gs, r) \<Rightarrow> \<exists>u m. s = u @ m @ r \<and> matches rs m gs)"

lemma search_from_documented: "search_documented search_from"
  unfolding search_documented_def
proof (intro allI)
  fix rs s
  show "case search_from rs s of
      None \<Rightarrow> \<nexists>u m r gs. s = u @ m @ r \<and> matches rs m gs
    | Some (gs, r) \<Rightarrow> \<exists>u m. s = u @ m @ r \<and> matches rs m gs"
  proof (induction rs s rule: search_from.induct)
    case (1 rs s)
    let ?here = "longest (\<lambda>n. map_option (\<lambda>gs. (gs, drop n s)) (backtrack rs (take n s))) (length s)"
    show ?case
    proof (cases ?here)
      case (Some r)
      then obtain n gs where "backtrack rs (take n s) = Some gs" "r = (gs, drop n s)"
        by (auto dest: longest_eq_Some)
      then have "matches rs (take n s) gs" "s = [] @ take n s @ drop n s"
        by (simp_all add: backtrack_sound)
      then have "\<exists>u m. s = u @ m @ drop n s \<and> matches rs m gs"
        by blast
      with \<open>r = _\<close> show ?thesis
        unfolding search_from.simps [of rs s] Some by simp
    next
      case None
      have here: "\<not> matches rs m gs" if "s = m @ r" for m r gs
      proof
        assume "matches rs m gs"
        then have "backtrack rs (take (length m) s) \<noteq> None"
          using that backtrack_complete by simp
        with None that show False
          unfolding longest_eq_None by (auto dest: spec [of _ "length m"])
      qed
      show ?thesis
      proof (cases s)
        case Nil
        then have "search_from rs s = None"
          using None by (simp add: search_from.simps [of rs "[]"])
        with Nil here show ?thesis
          by simp
      next
        case (Cons c cs)
        have step: "search_from rs s = search_from rs cs"
          unfolding search_from.simps [of rs s] None by (simp add: Cons)
        show ?thesis
        proof (cases "search_from rs cs")
          case None
          have "\<not> (s = u @ m @ r \<and> matches rs m gs)" for u m r gs
            using "1.IH" [OF \<open>?here = None\<close> Cons] None here [of m r gs] Cons by (cases u) auto
          then have "\<nexists>u m r gs. s = u @ m @ r \<and> matches rs m gs"
            by blast
          then show ?thesis
            unfolding step None by (simp only: option.case simp_thms)
        next
          case (Some r)
          obtain gs rest where r: "r = (gs, rest)"
            by fastforce
          then obtain u m where "cs = u @ m @ rest" "matches rs m gs"
            using "1.IH" [OF \<open>?here = None\<close> Cons] Some by auto
          then have "s = (c # u) @ m @ rest \<and> matches rs m gs"
            by (simp add: Cons)
          then have "\<exists>u m. s = u @ m @ rest \<and> matches rs m gs"
            by blast
          then show ?thesis
            unfolding step Some r by (simp only: option.case prod.case)
        qed
      qed
    qed
  qed
qed

lemma matches_re_keyword: "matches re_keyword m gs \<Longrightarrow> \<exists>w. gs = [w] \<and> is_word w \<and> m \<noteq> []"
  by (auto simp: re_keyword_def matches_keyword matches_optional_space matches_comment is_word_def)

lemma keywords_found:
  assumes doc: "search_documented (rx_search L)"
  shows "\<exists>ks. get_keywords L line = Inr ks \<and> (line_words line \<noteq> Some [] \<and> line_words line \<noteq> None \<longrightarrow> ks \<noteq> [])"
proof (induction "length line" arbitrary: line rule: less_induct)
  case less
  have found: "case rx_search L re_keyword line of
      None \<Rightarrow> \<nexists>u m r gs. line = u @ m @ r \<and> matches re_keyword m gs
    | Some (gs, r) \<Rightarrow> \<exists>u m. line = u @ m @ r \<and> matches re_keyword m gs"
    using doc unfolding search_documented_def by blast
  show ?case
  proof (cases "rx_search L re_keyword line")
    case None
    have "line_words line = Some [] \<or> line_words line = None"
    proof (rule ccontr)
      assume "\<not> ?thesis"
      then obtain w ws where "line_words line = Some (w # ws)"
        by (cases "line_words line") (auto simp: neq_Nil_conv)
      then obtain u r where "line = u @ w @ r" "is_word w"
        by (rule line_words_Cons)
      moreover from this have "matches re_keyword w [w]"
        by (simp add: re_keyword_def matches_keyword matches_optional_space matches_comment)
      ultimately show False
        using found None by auto
    qed
    with None show ?thesis
      by (subst get_keywords.simps) auto
  next
    case (Some r)
    obtain gs rest where r: "r = (gs, rest)"
      by fastforce
    then obtain u m where m: "line = u @ m @ rest" "matches re_keyword m gs"
      using found Some by auto
    then have short: "length rest < length line" and "gs \<noteq> []"
      using matches_re_keyword [OF m(2)] by auto
    moreover obtain ks where "get_keywords L rest = Inr ks"
      using less [OF short] by blast
    ultimately show ?thesis
      using Some r by (subst get_keywords.simps) simp
  qed
qed

text \<open>A program without directives, macros and labels: the preprocessor leaves it as it is.\<close>

definition code_only :: "string list \<Rightarrow> bool" where
  "code_only ls \<longleftrightarrow> list_all (\<lambda>l. \<exists>w ws. line_words l = Some (w # ws)) ls"

locale documented_library =
  fixes L :: libs
  assumes documented_match: "match_documented (rx_match L)"
    and documented_search: "search_documented (rx_search L)"
begin

lemma code_line_kind:
  assumes "line_words l = Some (w # ws)"
  shows "\<not> is_include L l" "\<not> is_macro L l" "\<not> is_define L l" "\<not> is_ifdef L l" "\<not> is_ifndef L l"
    "\<not> is_block L l" "\<not> is_label L l" "\<not> is_warning L l" "\<not> is_error L l" "\<not> is_blank L l" "\<not> is_comment L l"
proof -
  have "re \<in> set directives \<Longrightarrow> \<not> is_line L re l" for re
    using line_kinds(1) [OF documented_match, of l] assms by simp
  then show "\<not> is_include L l" "\<not> is_macro L l" "\<not> is_define L l" "\<not> is_ifdef L l" "\<not> is_ifndef L l"
    "\<not> is_block L l" "\<not> is_label L l" "\<not> is_warning L l" "\<not> is_error L l"
    by (simp_all add: directives_def is_include_def is_macro_def is_define_def is_ifdef_def is_ifndef_def
        is_block_def is_label_def is_warning_def is_error_def)
  show "\<not> is_blank L l" "\<not> is_comment L l"
    using line_kinds(2) [OF documented_match, of l] assms by auto
qed

lemma code_keywords: "line_words l = Some (w # ws) \<Longrightarrow> \<exists>k ks. get_keywords L l = Inr (k # ks)"
  using keywords_found [OF documented_search, of l] by (metis list.distinct(1) list.exhaust option.distinct(1) option.inject)

lemma no_keys: "replace_keys L (\<lambda>_. None) keys line = Inr line"
  by (induction keys) simp_all

lemma includes_code_only:
  "code_only ls \<Longrightarrow> includes_from L path included passed ls = Some (Inr (passed @ ls, included))"
proof (induction ls arbitrary: passed)
  case (Cons l ls)
  then obtain w ws where "line_words l = Some (w # ws)"
    by (auto simp: code_only_def)
  then have "include_step L path included l ls = Inr ([l], ls, included)"
    by (simp add: include_step_def code_line_kind(1))
  moreover have "code_only ls"
    using Cons.prems by (simp add: code_only_def)
  ultimately show ?case
    using Cons.IH by (simp add: includes_from.simps [of L path included passed "l # ls"])
qed (simp add: includes_from.simps)

lemma passes_code_only:
  assumes "code_only ls"
  shows "strip_from L ls = ls" "collect_macros L defines macros ls = Inr (ls, macros)"
    "expand_macros L Map.empty ls = Inr ls" "collect_defines L defines ls = Inr (ls, defines)"
    "map_attempt (replace_define L Map.empty) ls = Inr ls" "blocks_from L ls = ls"
    "collect_labels L n labels ls = Inr (ls, labels)" "use_labels L Map.empty n ls = Inr ls"
  using assms
proof (induction ls arbitrary: n)
  case (Cons l ls)
  {
    case 1 with Cons(1) show ?case by (auto simp: code_only_def code_line_kind)
  next
    case 2 with Cons(2) show ?case by (auto simp: code_only_def code_line_kind)
  next
    case 3 with Cons(3) show ?case by (auto simp: code_only_def code_line_kind dest!: code_keywords)
  next
    case 4 with Cons(4) show ?case by (auto simp: code_only_def code_line_kind)
  next
    case 5
    then obtain w ws where w: "line_words l = Some (w # ws)"
      by (auto simp: code_only_def)
    then obtain k ks where "get_keywords L l = Inr (k # ks)"
      using code_keywords by blast
    with w have "replace_define L Map.empty l = Inr l"
      by (simp add: replace_define_def code_line_kind define_line.simps or_no_return_def list_all_iff)
    with 5 Cons(5) show ?case by (simp add: code_only_def)
  next
    case 6 with Cons(6) show ?case by (auto simp: code_only_def code_line_kind)
  next
    case 7 with Cons(7) show ?case by (auto simp: code_only_def code_line_kind)
  next
    case 8
    then obtain w ws where w: "line_words l = Some (w # ws)"
      by (auto simp: code_only_def)
    then obtain k ks where "get_keywords L l = Inr (k # ks)"
      using code_keywords by blast
    moreover have "map_option f \<circ> Map.empty = Map.empty" for f :: "address \<Rightarrow> string"
      by (simp add: fun_eq_iff)
    ultimately show ?case
      using 8 Cons(8) no_keys by (simp add: code_only_def is_label_as_data_def del: replace_keys.simps)
  }
qed simp_all

lemma preprocess_code_only:
  assumes "code_only (file_lines f)"
  shows "preprocess L stripping (source_from_file f) = Inr (source_from_file f)"
  using assms
  by (simp add: preprocess_def source_from_file_def source_new_def replace_includes_def includes_code_only
      or_no_return_def strip_def replace_macros_def replace_defines_def replace_blocks_def replace_labels_def
      passes_code_only)

end

section \<open>The object code of a program\<close>

lemma resized_object:
  assumes "wf_memory m" and "length bs \<le> unat (mem_size m)"
  shows "memory_resize (m\<lparr>mem_bytes := blit (mem_bytes m) 0 bs\<rparr>) (of_nat (length bs)) =
    \<lparr>mem_size = of_nat (length bs), mem_bytes = bs\<rparr>"
proof -
  have n: "unat (of_nat (length bs) :: address) = length bs"
    by (rule unat_of_nat_address) (rule order_le_less_trans [OF assms(2) unat_size_bound])
  have "min (unat (mem_size m)) (length bs) = length bs"
    using assms(2) by simp
  then show ?thesis
    by (simp add: memory_resize_def blit_def Let_def unat_min_le n)
qed

lemma source_compile_run:
  assumes mem: "wf_memory mem" and pre: "preprocess L True s = Inr s'" and bound: "4 * length (src_lines s') < 4294967296"
  shows "source_compile L u e isa mem s = attempt (object_words L u e isa 0 (src_lines s')) (\<lambda>(ws, wn). Inr
    (\<lparr>mem_size = of_nat (4 * length ws), mem_bytes = object_bytes e ws\<rparr>,
     s'\<lparr>src_warnings := src_warnings s' @ wn\<rparr>))"
proof -
  let ?m = "memory_resize mem (4 * of_nat (length (src_lines s')))"
  have size: "unat (mem_size ?m) = 4 * length (src_lines s')"
    using unat_of_nat_address [OF bound] by simp
  have "wf_memory ?m"
    using mem by simp
  from compile_into_run [OF this, of 0 "src_lines s'" L u e isa "src_warnings s'"] size
  have run: "compile_into L u e isa (src_lines s') 0 ?m (src_warnings s') =
      attempt (object_words L u e isa 0 (src_lines s')) (\<lambda>(ws, wn). Inr
        (?m\<lparr>mem_bytes := blit (mem_bytes ?m) 0 (object_bytes e ws)\<rparr>, 4 * of_nat (length ws), src_warnings s' @ wn))"
    by simp
  show ?thesis
  proof (cases "object_words L u e isa 0 (src_lines s')")
    case (Inr r)
    obtain ws wn where r: "r = (ws, wn)"
      by fastforce
    with Inr have "length ws \<le> length (src_lines s')"
      using object_words_length by fastforce
    then show ?thesis
      using Inr r size resized_object [OF \<open>wf_memory ?m\<close>, of "object_bytes e ws"]
      by (simp add: source_compile_def pre run)
  qed (simp add: source_compile_def pre run)
qed

lemma object_words_leftovers:
  assumes "assemblable isa"
  shows "object_words L u e isa k ls = Inl x \<Longrightarrow> object_words L v e isa k ls = Inl x"
    and "object_words L u e isa k ls = Inr (ws, wn) \<Longrightarrow> \<exists>ws'. object_words L v e isa k ls = Inr (ws', wn) \<and>
      length ws' = length ws \<and> ((\<forall>l \<in> set ls. \<not> is_data L l) \<longrightarrow>
        (\<forall>n < length ws. same_code isa (host_bytes e (ws ! n)) (host_bytes e (ws' ! n))))"
proof -
  note line = compile_line_leftovers [OF assms]
  show "object_words L u e isa k ls = Inr (ws, wn) \<Longrightarrow> \<exists>ws'. object_words L v e isa k ls = Inr (ws', wn) \<and>
      length ws' = length ws \<and> ((\<forall>l \<in> set ls. \<not> is_data L l) \<longrightarrow>
        (\<forall>n < length ws. same_code isa (host_bytes e (ws ! n)) (host_bytes e (ws' ! n))))" for k ls ws wn
  proof (induction ls arbitrary: k ws wn)
    case (Cons l ls)
    consider "is_blank L l \<or> is_comment L l" | "\<not> (is_blank L l \<or> is_comment L l)" "is_warning L l"
      | "\<not> (is_blank L l \<or> is_comment L l)" "\<not> is_warning L l"
      by blast
    then show ?case
    proof cases
      case 3
      then obtain w vs where w: "compile_line L (u k) e isa l = Inr w" "object_words L u e isa (k + 4) ls = Inr (vs, wn)"
        "ws = w # vs" "\<not> is_error L l"
        using Cons.prems by (auto simp: attempt_eq_Inr split: if_splits)
      obtain w' where "compile_line L (v k) e isa l = Inr w'" "is_data L l \<or> same_code isa (host_bytes e w) (host_bytes e w')"
        using line(2) [OF w(1)] by blast
      moreover obtain vs' where "object_words L v e isa (k + 4) ls = Inr (vs', wn)" "length vs' = length vs"
        "(\<forall>l \<in> set ls. \<not> is_data L l) \<longrightarrow>
          (\<forall>n < length vs. same_code isa (host_bytes e (vs ! n)) (host_bytes e (vs' ! n)))"
        using Cons.IH [OF w(2)] by blast
      ultimately show ?thesis
        using 3 w(3,4) by (auto simp: nth_Cons split: nat.split)
    next
      case 1
      with Cons.prems Cons.IH [of k ws wn] show ?thesis by auto
    next
      case 2
      then obtain vn where vn: "object_words L u e isa k ls = Inr (ws, vn)" "wn = get_warning L l # vn"
        using Cons.prems by (auto simp: attempt_eq_Inr)
      with 2 Cons.IH [OF vn(1)] show ?thesis by auto
    qed
  qed simp
  show "object_words L u e isa k ls = Inl x \<Longrightarrow> object_words L v e isa k ls = Inl x"
  proof (induction ls arbitrary: k)
    case (Cons l ls)
    consider "is_blank L l \<or> is_comment L l \<or> is_warning L l \<or> is_error L l"
      | "\<not> (is_blank L l \<or> is_comment L l \<or> is_warning L l \<or> is_error L l)"
      by blast
    then show ?case
    proof cases
      case 2
      then consider "compile_line L (u k) e isa l = Inl x"
        | w where "compile_line L (u k) e isa l = Inr w" "object_words L u e isa (k + 4) ls = Inl x"
        using Cons.prems by (auto simp: attempt_eq_Inl)
      then show ?thesis
      proof cases
        case 1
        with 2 line(1) [OF this, of "v k"] show ?thesis by simp
      next
        case (2 w)
        with line(2) [OF this(1), of "v k"] Cons.IH [OF this(2)] \<open>\<not> _\<close> show ?thesis by auto
      qed
    qed (use Cons in \<open>auto simp: attempt_eq_Inl\<close>)
  qed simp
qed

lemma length_concat_words: "(\<And>k. k < n \<Longrightarrow> length (f k) = 4) \<Longrightarrow> length (concat (map f [0..<n])) = 4 * n"
  by (induction n) auto

lemma chunk_concat:
  assumes "\<And>k. k < n \<Longrightarrow> length (f k) = 4" and "k < n"
  shows "chunk (concat (map f [0..<n])) (4 * k) 4 = f k"
proof -
  have len: "length (concat (map f [0..<k])) = 4 * k"
    using assms by (intro length_concat_words) simp
  have "[0..<n] = [0..<k] @ k # [Suc k..<n]"
    using assms(2) upt_add_eq_append [of 0 k "n - k"] by (simp add: upt_conv_Cons)
  then have "concat (map f [0..<n]) = concat (map f [0..<k]) @ f k @ concat (map f [Suc k..<n])"
    by simp
  with len assms show ?thesis
    by (simp add: chunk_def)
qed

lemma chunk_object_bytes:
  assumes "k < length ws"
  shows "chunk (object_bytes e ws) (4 * k) 4 = host_bytes e (ws ! k)"
proof -
  have "map (host_bytes e) ws = map (\<lambda>k. host_bytes e (ws ! k)) [0..<length ws]"
    by (rule nth_equalityI) simp_all
  then show ?thesis
    using chunk_concat [of "length ws" "\<lambda>k. host_bytes e (ws ! k)" k] assms by (simp add: object_bytes_def)
qed


section \<open>Decompiled programs\<close>

lemma decompile_run:
  assumes "wf_memory code" and "unat (mem_size code) = 4 * n"
  shows "object_new isa code = Inr \<lparr>obj_isa = isa, obj_code = code\<rparr>"
    and "decompile e \<lparr>obj_isa = isa, obj_code = code\<rparr> =
      Inr \<lparr>file_lines = map (\<lambda>k. code_line isa (chunk (mem_bytes code) (4 * k) 4)) [0..<n]\<rparr>"
proof -
  have "mem_size code mod 4 = 0"
    using assms(2) by (simp add: word_unat_eq_iff unat_mod)
  then show "object_new isa code = Inr \<lparr>obj_isa = isa, obj_code = code\<rparr>"
    using assms(1) by (simp add: object_new_def memory_copy_id)
  show "decompile e \<lparr>obj_isa = isa, obj_code = code\<rparr> =
      Inr \<lparr>file_lines = map (\<lambda>k. code_line isa (chunk (mem_bytes code) (4 * k) 4)) [0..<n]\<rparr>"
    using decompile_loop_run [OF assms, of 0 file_new e isa] by (simp add: decompile_def file_new_def)
qed

lemma code_line_compiled:
  assumes "match_documented (rx_match L)" and "assemblable isa" and "length bs = 4"
  shows "\<exists>cs. length cs = 4 \<and> compile_line L u e isa (code_line isa bs) = Inr (host_word e cs) \<and>
      (assembly isa (bytes_inst bs) \<noteq> None \<longrightarrow> code_line isa cs = code_line isa bs) \<and>
      (assembly isa (bytes_inst bs) = None \<and> stale u = id \<longrightarrow> cs = bs)"
    and "\<exists>w ws. line_words (code_line isa bs) = Some (w # ws)"
proof -
  show "\<exists>cs. length cs = 4 \<and> compile_line L u e isa (code_line isa bs) = Inr (host_word e cs) \<and>
      (assembly isa (bytes_inst bs) \<noteq> None \<longrightarrow> code_line isa cs = code_line isa bs) \<and>
      (assembly isa (bytes_inst bs) = None \<and> stale u = id \<longrightarrow> cs = bs)"
  proof (cases "assembly isa (bytes_inst bs)")
    case None
    obtain v where v: "compile_line L u e isa (code_line isa bs) = Inr v"
      using None compile_data(3) [OF assms(1), of u e isa "be_word bs"] by (auto simp: code_line_def)
    have "host_bytes e v = bs" if "stale u = id"
    proof -
      have "(case e of BigEndian \<Rightarrow> be_word bs | LittleEndian \<Rightarrow> change_byte_order (be_word bs)) = host_word e bs"
      proof (cases e)
        case LittleEndian
        then show ?thesis
          using swap_host_word_LE [OF assms(3)] change_byte_order_involution by (metis endian.simps(3))
      qed (simp add: host_BE)
      then show ?thesis
        using None v assms(3) compile_data(4) [OF assms(1) that, of e isa "be_word bs"] by (simp add: code_line_def)
    qed
    with v None show ?thesis
      by (intro exI [of _ "host_bytes e v"]) simp
  next
    case (Some ws)
    then obtain j where "compile_line L u e isa (unwords ws) = Inr (host_word e (inst_bytes j))" "assembly isa j = Some ws"
      using compile_assembly(1) [OF assms(1,2)] by blast
    with Some show ?thesis
      by (intro exI [of _ "inst_bytes j"]) (simp add: code_line_def)
  qed
  show "\<exists>w ws. line_words (code_line isa bs) = Some (w # ws)"
    using compile_data(2) [OF assms(1), of "be_word bs"] compile_assembly(2,3) [OF assms(1,2)]
    by (auto simp: code_line_def neq_Nil_conv split: option.split)
qed

lemma object_words_code:
  assumes doc: "match_documented (rx_match L)" "search_documented (rx_search L)"
    and code: "code_only (map f [0..<n])" and line: "\<And>k. k < n \<Longrightarrow> compile_line L (u (4 * k)) e isa (f k) = Inr (w k)"
  shows "m \<le> n \<Longrightarrow> object_words L u e isa (4 * m) (map f [m..<n]) = Inr (map w [m..<n], [])"
proof (induction m rule: inc_induct)
  case (step m)
  have lib: "documented_library L"
    using doc by unfold_locales
  have "\<exists>v vs. line_words (f m) = Some (v # vs)"
    using code step.hyps by (simp add: code_only_def list_all_iff)
  then obtain v vs where "line_words (f m) = Some (v # vs)"
    by blast
  note kind = documented_library.code_line_kind [OF lib this]
  have "[m..<n] = m # [Suc m..<n]"
    using step.hyps by (simp add: upt_conv_Cons)
  moreover have "4 * m + 4 = 4 * Suc m"
    by simp
  ultimately show ?case
    using kind line [of m] step by (simp only: list.map object_words.simps) simp
qed simp

text \<open>A library that follows the documentation, on a machine without files.\<close>

definition plain_library :: libs where
  "plain_library = \<lparr>rx_match = backtrack, rx_search = search_from, rx_replace = replace_text,
     fs_exists = (\<lambda>_. False), fs_join = (\<lambda>dir name. dir @ ''/'' @ name), fs_absolute = id, fs_text = Map.empty\<rparr>"

text \<open>Two runs that find different things.\<close>

definition tidy :: "nat \<Rightarrow> leftovers" where
  "tidy = (\<lambda>_. \<lparr>stale = id, garbage = uninitialised\<rparr>)"

definition dirty :: "nat \<Rightarrow> leftovers" where
  "dirty = (\<lambda>k. \<lparr>stale = (\<lambda>_. []), garbage = \<lparr>i_code = of_nat k, i_first = 15, i_second = 15, i_data = 0xFFFF\<rparr>\<rparr>)"

interpretation plain: documented_library plain_library
  by unfold_locales (simp_all add: plain_library_def backtrack_documented search_from_documented)

text \<open>Lines that compile to given words: the object code, and the lines it decompiles to.\<close>

lemma recompiled:
  assumes doc: "match_documented (rx_match L)" "search_documented (rx_search L)"
    and mem: "wf_memory mem" and size: "unat sz = 4 * n"
    and rows: "file_lines file = map f [0..<n]" and code: "code_only (file_lines file)"
    and cs: "\<And>k. k < n \<Longrightarrow> length (cs k) = 4 \<and> compile_line L (u (4 * k)) e isa (f k) = Inr (host_word e (cs k))"
  defines "c \<equiv> \<lparr>mem_size = sz, mem_bytes = concat (map cs [0..<n])\<rparr>"
  shows "source_compile L u e isa mem (source_from_file file) = Inr (c, source_from_file file)"
    and "object_new isa c = Inr \<lparr>obj_isa = isa, obj_code = c\<rparr>"
    and "decompile e \<lparr>obj_isa = isa, obj_code = c\<rparr> = Inr \<lparr>file_lines = map (\<lambda>k. code_line isa (cs k)) [0..<n]\<rparr>"
proof -
  let ?bytes = "concat (map cs [0..<n])"
  have "documented_library L"
    using doc by unfold_locales
  from documented_library.preprocess_code_only [OF this code]
  have pre: "preprocess L True (source_from_file file) = Inr (source_from_file file)" .
  have "object_words L u e isa 0 (file_lines file) = Inr (map (\<lambda>k. host_word e (cs k)) [0..<n], [])"
    using object_words_code [OF doc(1,2) code [unfolded rows], of u e isa "\<lambda>k. host_word e (cs k)" 0] cs
    by (simp add: rows)
  moreover have "object_bytes e (map (\<lambda>k. host_word e (cs k)) [0..<n]) = ?bytes"
    unfolding object_bytes_def using cs by (auto intro!: arg_cong [of _ _ concat])
  moreover have "of_nat (4 * n) = sz"
    using size unat_size_bound [of c] by (metis (lifting) c_def memory.select_convs(1) unat_of_nat_address word_unat_eq_iff)
  moreover have "4 * length (file_lines file) < 4294967296"
    using size unat_size_bound [of c] by (simp add: rows c_def)
  ultimately show "source_compile L u e isa mem (source_from_file file) = Inr (c, source_from_file file)"
    using source_compile_run [OF mem pre, where u = u and e = e and isa = isa]
    by (simp add: source_from_file_def source_new_def c_def)
  have chunks: "chunk ?bytes (4 * k) 4 = cs k" if "k < n" for k
    using cs that by (intro chunk_concat) auto
  have wf: "wf_memory c"
    using size cs length_concat_words [of n cs] by (simp add: wf_memory_def c_def)
  show "object_new isa c = Inr \<lparr>obj_isa = isa, obj_code = c\<rparr>"
    using decompile_run(1) [OF wf, where isa = isa] size by (simp add: c_def)
  show "decompile e \<lparr>obj_isa = isa, obj_code = c\<rparr> = Inr \<lparr>file_lines = map (\<lambda>k. code_line isa (cs k)) [0..<n]\<rparr>"
    using decompile_run(2) [OF wf, where isa = isa and e = e] size chunks by (auto simp: c_def intro!: map_cong)
qed

text \<open>
  C4: a program the decompiler has written can be assembled, by the instruction set of the CPU and by the
  one of the simulation, whatever the uninitialised memory holds: the object code has the size of the
  original and decompiles again, every line that is an instruction to the same line.  So a program without
  lines of data decompiles to the same text.  (A line of data becomes what is left of a destroyed string.)
\<close>

theorem reassembled_program:
  assumes doc: "match_documented (rx_match L)" "search_documented (rx_search L)"
    and wf: "wf_memory code" "wf_memory mem"
    and isa: "isa = base_isa \<or> isa = world_isa op"
    and obj: "object_new isa code = Inr obj" and decompiled: "decompile e obj = Inr file"
  shows "\<exists>code' obj' file'. source_compile L u e isa mem (source_from_file file) = Inr (code', source_from_file file) \<and>
    mem_size code' = mem_size code \<and> object_new isa code' = Inr obj' \<and> decompile e obj' = Inr file' \<and>
    length (file_lines file') = length (file_lines file) \<and>
    (\<forall>k < unat (mem_size code) div 4. assembly isa (bytes_inst (chunk (mem_bytes code) (4 * k) 4)) \<noteq> None \<longrightarrow>
      file_lines file' ! k = file_lines file ! k) \<and>
    ((\<forall>k < unat (mem_size code) div 4. assembly isa (bytes_inst (chunk (mem_bytes code) (4 * k) 4)) \<noteq> None) \<longrightarrow>
      file' = file)"
proof -
  define n where "n = unat (mem_size code) div 4"
  define bs where "bs k = chunk (mem_bytes code) (4 * k) 4" for k
  have "mem_size code mod 4 = 0"
    using obj by (simp add: object_new_def split: if_splits)
  then have size: "unat (mem_size code) = 4 * n"
    by (simp add: n_def word_unat_eq_iff unat_mod) presburger
  have "assemblable isa"
    using isa base_assemblable world_assemblable by blast
  note line = code_line_compiled [OF doc(1) this]
  have rows: "file_lines file = map (\<lambda>k. code_line isa (bs k)) [0..<n]"
    using decompile_run(1) [OF wf(1) size, where isa = isa] decompile_run(2) [OF wf(1) size, where isa = isa and e = e] obj decompiled by (auto simp: bs_def)
  have len: "length (bs k) = 4" if "k < n" for k
    using that wf(1) size by (simp add: bs_def wf_memory_def)
  let ?same = "\<lambda>k c. length c = 4 \<and> compile_line L (u (4 * k)) e isa (code_line isa (bs k)) = Inr (host_word e c) \<and>
      (assembly isa (bytes_inst (bs k)) \<noteq> None \<longrightarrow> code_line isa c = code_line isa (bs k))"
  have "\<forall>k \<in> {..<n}. \<exists>c. ?same k c"
    using line(1) [OF len] by fastforce
  from bchoice [OF this] obtain cs where cs: "\<And>k. k < n \<Longrightarrow> ?same k (cs k)"
    by blast
  have code: "code_only (file_lines file)"
    unfolding code_only_def rows list_all_iff using line(2) [OF len] by auto
  let ?code = "\<lparr>mem_size = mem_size code, mem_bytes = concat (map cs [0..<n])\<rparr>"
  let ?file = "\<lparr>file_lines = map (\<lambda>k. code_line isa (cs k)) [0..<n]\<rparr>"
  have cs': "length (cs k) = 4 \<and> compile_line L (u (4 * k)) e isa (code_line isa (bs k)) = Inr (host_word e (cs k))"
    if "k < n" for k
    using cs [OF that] by blast
  note again = recompiled [OF doc wf(2) size rows code, of cs u e isa, OF cs']
  have "?file = file" if "\<forall>k < n. assembly isa (bytes_inst (bs k)) \<noteq> None"
    using that cs rows by (cases "file") (auto intro!: map_cong)
  then show ?thesis
    using again cs rows unfolding n_def [symmetric] bs_def [symmetric]
    by (intro exI [of _ ?code] exI [of _ "\<lparr>obj_isa = isa, obj_code = ?code\<rparr>"] exI [of _ ?file]) simp
qed

theorem reassembled_program_witness:
  "\<exists>code' obj'. source_compile plain_library dirty LittleEndian (base_isa :: unit cpu_isa) empty_memory
     (source_from_file \<lparr>file_lines = [''stop'']\<rparr>) = Inr (code', source_from_file \<lparr>file_lines = [''stop'']\<rparr>) \<and>
   object_new (base_isa :: unit cpu_isa) code' = Inr obj' \<and> decompile LittleEndian obj' = Inr \<lparr>file_lines = [''stop'']\<rparr>"
proof -
  let ?code = "\<lparr>mem_size = 4, mem_bytes = [0, 1, 2, 3]\<rparr>" and ?isa = "base_isa :: unit cpu_isa"
  have code: "wf_memory ?code" "unat (mem_size ?code) = 4 * 1"
    by (simp_all add: wf_memory_def)
  have word: "assembly ?isa (bytes_inst (chunk (mem_bytes ?code) (4 * 0) 4)) = Some [''stop'']"
    by (simp add: assembly_def operand_codes_def base_isa_facts bytes_inst_def chunk_def
        base_instructions_def base_entries_def)
  then have "code_line ?isa (chunk (mem_bytes ?code) (4 * 0) 4) = ''stop''"
    by (simp add: code_line_def)
  then have line: "decompile LittleEndian \<lparr>obj_isa = ?isa, obj_code = ?code\<rparr> = Inr \<lparr>file_lines = [''stop'']\<rparr>"
    using decompile_run(2) [OF code, of LittleEndian ?isa] by simp
  have "\<forall>k < unat (mem_size ?code) div 4. assembly ?isa (bytes_inst (chunk (mem_bytes ?code) (4 * k) 4)) \<noteq> None"
    using word by simp
  with reassembled_program [OF plain.documented_match plain.documented_search code(1) wf_empty_memory disjI1 [OF refl]
      decompile_run(1) [OF code] line, of dirty] show ?thesis
    by blast
qed


end
