(* ===== verification/Libraries.thy ===== *)
theory Libraries
  imports Reassembly
begin

text \<open>
  What the assembler needs of a library to work with the words of a line: the search for keywords goes
  from left to right and takes as much as it can, and the replacement of a word replaces the words of
  this name.  The library of \<open>Regex\<close> does both.
\<close>

section \<open>The search for keywords\<close>

text \<open>The first match, and the longest there.\<close>

definition first_longest :: "regex list \<Rightarrow> string \<Rightarrow> string \<Rightarrow> string \<Rightarrow> bool" where
  "first_longest rs s u m \<longleftrightarrow>
     (\<forall>u' m' r' gs'. s = u' @ m' @ r' \<longrightarrow> matches rs m' gs' \<longrightarrow>
       length u < length u' \<or> length u = length u' \<and> length m' \<le> length m)"

definition finds :: "regex list \<Rightarrow> string \<Rightarrow> (string list \<times> string) option \<Rightarrow> bool" where
  "finds rs s result \<longleftrightarrow>
     (case result of
        None \<Rightarrow> \<forall>u m r gs. s = u @ m @ r \<longrightarrow> \<not> matches rs m gs
      | Some (gs, r) \<Rightarrow> \<exists>u m. s = u @ m @ r \<and> matches rs m gs \<and> first_longest rs s u m)"

definition keyword_search :: "(regex list \<Rightarrow> string \<Rightarrow> (string list \<times> string) option) \<Rightarrow> bool" where
  "keyword_search f \<longleftrightarrow> (\<forall>s. finds re_keyword s (f re_keyword s))"

lemma finds_simps:
  "finds rs s None \<longleftrightarrow> (\<forall>u m r gs. s = u @ m @ r \<longrightarrow> \<not> matches rs m gs)"
  "finds rs s (Some (gs, r)) \<longleftrightarrow> (\<exists>u m. s = u @ m @ r \<and> matches rs m gs \<and> first_longest rs s u m)"
  by (simp_all add: finds_def)

lemma longest_first:
  assumes "longest f n = Some x"
  shows "\<exists>k \<le> n. f k = Some x \<and> (\<forall>j. k < j \<longrightarrow> j \<le> n \<longrightarrow> f j = None)"
  using assms
proof (induction n)
  case (Suc n)
  show ?case
  proof (cases "f (Suc n)")
    case None
    with Suc.prems have "longest f n = Some x"
      by simp
    from Suc.IH [OF this] obtain k where "k \<le> n" "f k = Some x" "\<forall>j. k < j \<longrightarrow> j \<le> n \<longrightarrow> f j = None"
      by blast
    with None show ?thesis
      by (intro exI [of _ k]) (auto simp: le_Suc_eq)
  next
    case (Some y)
    with Suc.prems show ?thesis
      by (intro exI [of _ "Suc n"]) auto
  qed
qed auto

lemma search_from_first: "finds rs s (search_from rs s)"
proof (induction rs s rule: search_from.induct)
  case (1 rs s)
  let ?at = "\<lambda>n. map_option (\<lambda>gs. (gs, drop n s)) (backtrack rs (take n s))"
  let ?here = "longest ?at (length s)"
  have found: "?at (length m) \<noteq> None" if "s = m @ r" "matches rs m gs" for m r gs
    using backtrack_complete [OF that(2)] that(1) by simp
  show ?case
  proof (cases ?here)
    case (Some r)
    obtain k where k: "k \<le> length s" "?at k = Some r" "\<forall>j. k < j \<longrightarrow> j \<le> length s \<longrightarrow> ?at j = None"
      using longest_first [OF Some] by blast
    then obtain gs where gs: "backtrack rs (take k s) = Some gs" "r = (gs, drop k s)"
      by auto
    have "length m' \<le> k" if "s = m' @ r'" "matches rs m' gs'" for m' r' gs'
    proof (rule ccontr)
      assume "\<not> length m' \<le> k"
      moreover have "length m' \<le> length s"
        using that(1) by simp
      ultimately show False
        using found [OF that] k(3) by simp
    qed
    then have "first_longest rs s [] (take k s)"
      using k(1) unfolding first_longest_def by fastforce
    then have "s = [] @ take k s @ drop k s \<and> matches rs (take k s) gs \<and> first_longest rs s [] (take k s)"
      using backtrack_sound [OF gs(1)] by simp
    then have "finds rs s (Some (gs, drop k s))"
      unfolding finds_simps by blast
    then show ?thesis
      unfolding search_from.simps [of rs s] Some gs(2) by (simp only: option.case)
  next
    case None
    have here: "\<not> matches rs m gs" if "s = m @ r" for m r gs
    proof
      assume "matches rs m gs"
      from found [OF that this] None that show False
        unfolding longest_eq_None by (metis length_append le_add1)
    qed
    show ?thesis
    proof (cases s)
      case Nil
      then have "search_from rs s = None"
        using None by (simp add: search_from.simps [of rs "[]"])
      with Nil here show ?thesis
        by (simp add: finds_simps)
    next
      case (Cons c cs)
      note IH = "1.IH" [OF None Cons]
      have step: "search_from rs s = search_from rs cs"
        unfolding search_from.simps [of rs s] None by (simp add: Cons)
      have skip: "\<exists>v. u = c # v \<and> cs = v @ m @ r" if "s = u @ m @ r" "matches rs m gs" for u m r gs
        using that here [of m r gs] Cons by (cases u) auto
      show ?thesis
      proof (cases "search_from rs cs")
        case None
        with IH have "finds rs cs None"
          by simp
        then have none: "\<not> matches rs m gs" if "cs = u @ m @ r" for u m r gs
          using that unfolding finds_simps by blast
        have "\<not> matches rs m gs" if "s = u @ m @ r" for u m r gs
          using skip [OF that] none by blast
        then show ?thesis
          unfolding step None finds_simps by blast
      next
        case (Some r)
        obtain gs rest where r: "r = (gs, rest)"
          by fastforce
        then obtain u m where um: "cs = u @ m @ rest" "matches rs m gs" "first_longest rs cs u m"
          using IH Some by (auto simp: finds_simps)
        have "length (c # u) < length u' \<or> length (c # u) = length u' \<and> length m' \<le> length m"
          if "s = u' @ m' @ r'" "matches rs m' gs'" for u' m' r' gs'
          using skip [OF that] um(3) that(2) unfolding first_longest_def by fastforce
        then have "first_longest rs s (c # u) m"
          unfolding first_longest_def by blast
        moreover have "s = (c # u) @ m @ rest"
          using um(1) Cons by simp
        ultimately show ?thesis
          using um(2) unfolding step Some r finds_simps by blast
      qed
    qed
  qed
qed

lemma keyword_search_from: "keyword_search search_from"
  by (simp add: keyword_search_def search_from_first)

text \<open>The words of a line, one by one.\<close>

lemma first_keyword:
  assumes doc: "keyword_search f" and line: "line_words line = Some (w # ws)"
  shows "\<exists>rest. f re_keyword line = Some ([w], rest) \<and> length rest < length line \<and>
    line_words rest = Some ws \<and> (ws = [] \<longrightarrow> rest = [])"
proof -
  obtain u r where parts: "line = u @ w @ r" "list_all (in_class Blank) u" "is_word w" "ends_word r" "line_words r = Some ws"
    using line_words_Cons [OF line] by metis
  define b where "b = takeWhile (in_class Blank) r"
  define t where "t = dropWhile (in_class Blank) r"
  define c where "c = (if t \<noteq> [] \<and> hd t = CHR ''#'' then t else [])"
  define rest where "rest = (if t \<noteq> [] \<and> hd t = CHR ''#'' then [] else t)"
  have r: "r = b @ c @ rest" "list_all (in_class Blank) b" "c = [] \<or> hd c = CHR ''#''"
    by (auto simp: b_def c_def rest_def t_def list_all_iff dest: set_takeWhileD)
  have cand: "matches re_keyword (w @ b @ c) [w]"
    using parts(3) r(2,3) by (auto simp: re_keyword_def matches_keyword matches_optional_space matches_comment)
  have rest: "line_words rest = Some ws" "ws = [] \<longrightarrow> rest = []"
  proof -
    have "line_words r = line_words t"
      by (simp add: t_def line_words.simps [of r] line_words.simps [of "dropWhile (in_class Blank) r"])
    then show "line_words rest = Some ws"
      using parts(5) by (cases t) (auto simp: rest_def)
    show "ws = [] \<longrightarrow> rest = []"
      using parts(5) by (auto simp: rest_def line_words_nil t_def Let_def)
  qed
  have "f re_keyword line \<noteq> None"
  proof
    assume "f re_keyword line = None"
    moreover have "finds re_keyword line (f re_keyword line)"
      using doc by (simp add: keyword_search_def)
    moreover have "line = u @ (w @ b @ c) @ rest"
      using parts(1) r(1) by simp
    ultimately show False
      using cand by (metis finds_simps(1))
  qed
  then obtain gs rest' where found: "f re_keyword line = Some (gs, rest')"
    by fastforce
  with doc have "finds re_keyword line (Some (gs, rest'))"
    by (metis keyword_search_def)
  then obtain u' m' where m': "line = u' @ m' @ rest'" "matches re_keyword m' gs"
    and first: "first_longest re_keyword line u' m'"
    unfolding finds_simps by blast
  obtain v b' c' where v: "gs = [v]" "m' = v @ b' @ c'" "is_word v" "list_all (in_class Blank) b'" "c' = [] \<or> hd c' = CHR ''#''"
    using m'(2) by (auto simp: re_keyword_def matches_keyword matches_optional_space matches_comment)
  have word_hd: "in_class Word (hd v)" "v \<noteq> []" "list_all (in_class Word) v" "list_all (in_class Word) w" "w \<noteq> []"
    using v(3) parts(3) by (auto simp: is_word_def neq_Nil_conv)
  have whole: "line = u @ (w @ b @ c) @ rest" "line = u' @ v @ b' @ c' @ rest'"
    using parts(1) r(1) m'(1) v(2) by simp_all
  have "length u \<le> length u'"
  proof (rule ccontr)
    assume "\<not> length u \<le> length u'"
    then have "line ! length u' \<in> set u"
      using whole(1) by (simp add: nth_append)
    moreover have "line ! length u' = hd v"
      using word_hd(2) by (simp add: whole(2) nth_append hd_conv_nth)
    ultimately show False
      using parts(2) word_hd(1) blank_no_word(1) by (auto simp: list_all_iff)
  qed
  moreover have "length u' < length u \<or> length u' = length u \<and> length (w @ b @ c) \<le> length m'"
    using first cand whole(1) unfolding first_longest_def by blast
  ultimately have len: "length u' = length u" "length (w @ b @ c) \<le> length m'"
    by auto
  then have same: "w @ b @ c @ rest = v @ b' @ c' @ rest'"
    using whole by simp
  have no_word: "takeWhile (in_class Word) x = []" if "x \<noteq> [] \<longrightarrow> in_class Blank (hd x) \<or> hd x = CHR ''#''" for x
    using that blank_no_word by (cases x) auto
  have "takeWhile (in_class Word) (w @ b @ c @ rest) = w"
  proof -
    have "r \<noteq> [] \<longrightarrow> in_class Blank (hd r) \<or> hd r = CHR ''#''"
      using parts(4) by (auto simp: ends_word_def)
    from no_word [OF this] r(1) word_hd(4) show ?thesis
      by (simp add: takeWhile_append2 list_all_iff)
  qed
  moreover have "takeWhile (in_class Word) (v @ b' @ c' @ rest') = v @ takeWhile (in_class Word) (b' @ c' @ rest')"
    using word_hd(3) by (simp add: takeWhile_append2 list_all_iff)
  ultimately have w: "w = v @ takeWhile (in_class Word) (b' @ c' @ rest')"
    using same by simp
  have "v = w"
  proof (cases "b' @ c' = []")
    case True
    with len(2) v(2) have "length w \<le> length v"
      by simp
    with w show ?thesis
      by (metis append_Nil2 append_eq_append_conv length_0_conv le_add1 length_append add_le_same_cancel1 le_zero_eq)
  next
    case False
    have "in_class Blank (hd (b' @ c' @ rest')) \<or> hd (b' @ c' @ rest') = CHR ''#''"
      using False v(4,5) by (cases b') auto
    then have "takeWhile (in_class Word) (b' @ c' @ rest') = []"
      by (intro no_word) simp
    with w show ?thesis
      by simp
  qed
  with same have tails: "b @ c @ rest = b' @ c' @ rest'" and longer: "length (b @ c) \<le> length (b' @ c')"
    using len(2) v(2) by auto
  have "rest' = rest"
  proof (cases "rest = []")
    case True
    with tails longer have "length rest' = 0"
      by (metis add_le_same_cancel1 append.assoc append_Nil2 le_zero_eq length_append)
    with True show ?thesis
      by simp
  next
    case False
    then have rest_t: "rest = t" "t \<noteq> []" "hd t \<noteq> CHR ''#''" "c = []"
      by (auto simp: rest_def c_def split: if_splits)
    then have "\<not> in_class Blank (hd t)"
      unfolding t_def by (metis hd_dropWhile)
    then have drop: "dropWhile (in_class Blank) (b @ rest) = rest"
      using r(2) rest_t(1,2) by (cases t) (auto simp: list_all_iff dropWhile_append2)
    moreover have "dropWhile (in_class Blank) (b' @ c' @ rest') = dropWhile (in_class Blank) (c' @ rest')"
      using v(4) by (auto simp: list_all_iff dropWhile_append2)
    ultimately have rest_eq: "rest = dropWhile (in_class Blank) (c' @ rest')"
      using tails rest_t(4) by simp
    have "c' = []"
    proof (rule ccontr)
      assume "c' \<noteq> []"
      then obtain cs where "c' = CHR ''#'' # cs"
        using v(5) by (cases c') auto
      with rest_eq have "hd rest = CHR ''#''"
        by (simp add: blank_no_word(3))
      with rest_t show False
        by simp
    qed
    with rest_eq have "rest = dropWhile (in_class Blank) rest'"
      by simp
    moreover have "length rest' \<le> length rest"
    proof -
      have "length (b @ rest) = length (b' @ rest')"
        using tails rest_t(4) \<open>c' = []\<close> by simp
      with longer rest_t(4) \<open>c' = []\<close> show ?thesis
        by simp
    qed
    ultimately show ?thesis
      by (cases rest') (auto split: if_splits dest: order_trans [OF _ length_dropWhile_le])
  qed
  with \<open>v = w\<close> v(1) have "f re_keyword line = Some ([w], rest)"
    using found by simp
  moreover have "length rest < length line"
    using whole(1) word_hd(5) by simp
  ultimately show ?thesis
    using rest by simp
qed

lemma line_keywords:
  assumes doc: "keyword_search (rx_search L)"
  shows "line_words line = Some ws \<Longrightarrow> (ws = [] \<longrightarrow> line = []) \<Longrightarrow> get_keywords L line = Inr ws"
proof (induction ws arbitrary: line)
  case Nil
  have "rx_search L re_keyword [] = None"
  proof (rule ccontr)
    assume "rx_search L re_keyword [] \<noteq> None"
    then obtain gs r where "rx_search L re_keyword [] = Some (gs, r)"
      by fastforce
    with doc have "finds re_keyword [] (Some (gs, r))"
      by (metis keyword_search_def)
    then show False
      using matches_re_keyword by (auto simp: finds_simps)
  qed
  with Nil show ?case
    by (simp add: get_keywords.simps [of L "[]"])
next
  case (Cons w ws)
  obtain rest where "rx_search L re_keyword line = Some ([w], rest)" "length rest < length line"
    "line_words rest = Some ws" "ws = [] \<longrightarrow> rest = []"
    using first_keyword [OF doc Cons.prems(1)] by blast
  with Cons.IH [of rest] show ?case
    by (simp add: get_keywords.simps [of L line])
qed

section \<open>The replacement of words\<close>

definition replace_documented :: "(string \<Rightarrow> string \<Rightarrow> string \<Rightarrow> exn + string) \<Rightarrow> bool" where
  "replace_documented f \<longleftrightarrow>
     (\<forall>name vs line ws. is_word name \<longrightarrow> list_all is_word vs \<longrightarrow> vs \<noteq> [] \<longrightarrow> line_words line = Some ws \<longrightarrow>
       (\<exists>line'. f (whole_word name) (unwords vs) line = Inr line' \<and>
         line_words line' = Some (concat (map (\<lambda>w. if w = name then vs else [w]) ws))))"

lemma replace_all_skip:
  assumes "is_word old" and "\<not> in_class Word c"
  shows "replace_all True old new within (c # cs) = c # replace_all True old new False cs"
proof -
  have "take (length old) (c # cs) \<noteq> old"
    using assms by (cases old) (auto simp: is_word_def)
  with assms(2) show ?thesis
    by (simp add: replace_all.simps [of True old new within])
qed

lemma replace_all_inside:
  assumes "list_all (in_class Word) w"
  shows "replace_all True old new True (w @ r) = w @ replace_all True old new True r"
  using assms by (induction w) (simp_all add: replace_all.simps [of True old new True])

lemma replace_all_ends:
  assumes "is_word old" and "ends_word r"
  shows "replace_all True old new within r = replace_all True old new False r"
proof (cases r)
  case (Cons c cs)
  then have "\<not> in_class Word c"
    using assms(2) blank_no_word by (auto simp: ends_word_def)
  with Cons show ?thesis
    by (simp add: replace_all_skip [OF assms(1)])
qed (simp add: replace_all.simps)

lemma replace_all_word:
  assumes "is_word old" and "is_word w" and "ends_word r"
  shows "replace_all True old new False (w @ r) = (if w = old then new else w) @ replace_all True old new False r"
proof -
  have old: "old \<noteq> []" "list_all (in_class Word) old" and w: "w \<noteq> []" "list_all (in_class Word) w"
    using assms(1,2) by (auto simp: is_word_def)
  have ends: "case r of [] \<Rightarrow> True | d # _ \<Rightarrow> \<not> in_class Word d"
    using assms(3) blank_no_word by (auto simp: ends_word_def split: list.split)
  obtain c cs where c: "w = c # cs"
    using w(1) by (cases w) auto
  show ?thesis
  proof (cases "w = old")
    case True
    have "in_class Word (last old)"
      using old by (simp add: list_all_iff)
    moreover obtain d ds where d: "w @ r = d # ds"
      using w(1) by (cases "w @ r") auto
    moreover have "take (length old) (d # ds) = old" "drop (length old) (d # ds) = r"
      unfolding d [symmetric] using True by simp_all
    ultimately have "replace_all True old new False (w @ r) = new @ replace_all True old new True r"
      using ends old(1) by (simp add: replace_all.simps [of True old new False "d # ds"])
    with True replace_all_ends [OF assms(1,3), of new True] show ?thesis
      by simp
  next
    case False
    have stop: "\<not> (take (length old) (w @ r) = old \<and>
        (case drop (length old) (w @ r) of [] \<Rightarrow> True | d # _ \<Rightarrow> \<not> in_class Word d))"
    proof
      assume match: "take (length old) (w @ r) = old \<and>
        (case drop (length old) (w @ r) of [] \<Rightarrow> True | d # _ \<Rightarrow> \<not> in_class Word d)"
      then have "w @ r = old @ drop (length old) (w @ r)"
        by (metis append_take_drop_id)
      moreover have "takeWhile (in_class Word) (old @ drop (length old) (w @ r)) = old"
        using match old(2) by (auto simp: takeWhile_append2 list_all_iff split: list.splits)
      moreover have "takeWhile (in_class Word) (w @ r) = w"
        using ends w(2) by (auto simp: takeWhile_append2 list_all_iff split: list.splits)
      ultimately show False
        using False by metis
    qed
    have "replace_all True old new False (w @ r) = c # replace_all True old new True (cs @ r)"
      using stop w(2) unfolding c by (subst replace_all.simps, simp del: take_append drop_append) blast
    also have "\<dots> = w @ replace_all True old new True r"
      using w(2) by (simp add: c replace_all_inside)
    finally show ?thesis
      using False replace_all_ends [OF assms(1,3), of new True] by simp
  qed
qed

lemma replace_all_blanks:
  "is_word old \<Longrightarrow> list_all (in_class Blank) u \<Longrightarrow>
    replace_all True old new False (u @ r) = u @ replace_all True old new False r"
  by (induction u) (simp_all add: replace_all_skip blank_no_word(1))

lemma line_words_before:
  assumes "ends_word r" and "line_words r = Some ws"
  shows "list_all is_word vs \<Longrightarrow> line_words (unwords vs @ r) = Some (vs @ ws)"
proof (induction vs rule: unwords.induct)
  case (2 v)
  then show ?case
    using line_words_word [of v r] assms by simp
next
  case (3 v w vs)
  then show ?case
    using line_words_word [of v "'' '' @ unwords (w # vs) @ r"] by (simp add: ends_word_def)
qed (use assms in simp)

lemma replace_all_words:
  assumes old: "is_word old" and new: "list_all is_word vs" "vs \<noteq> []"
  shows "line_words line = Some ws \<Longrightarrow>
    line_words (replace_all True old (unwords vs) False line) =
      Some (concat (map (\<lambda>w. if w = old then vs else [w]) ws)) \<and>
    (ends_word line \<longrightarrow> ends_word (replace_all True old (unwords vs) False line))"
proof (induction ws arbitrary: line)
  case Nil
  define u where "u = takeWhile (in_class Blank) line"
  define t where "t = dropWhile (in_class Blank) line"
  have u: "list_all (in_class Blank) u" "line = u @ t" "t = [] \<or> hd t = CHR ''#''"
    using Nil by (auto simp: u_def t_def list_all_iff line_words_nil Let_def dest: set_takeWhileD)
  let ?t = "replace_all True old (unwords vs) False t"
  have "line_words ?t = Some [] \<and> ends_word ?t"
    using u(3) blank_no_word(2)
    by (cases t) (auto simp: replace_all.simps [of True old _ False "[]"] replace_all_skip [OF old] ends_word_def)
  moreover have "replace_all True old (unwords vs) False line = u @ ?t"
    unfolding u(2) by (rule replace_all_blanks [OF old u(1)])
  ultimately show ?case
    using u(1) by (cases u) (auto simp: ends_word_def)
next
  case (Cons w ws)
  obtain u r where parts: "line = u @ w @ r" "list_all (in_class Blank) u" "is_word w" "ends_word r" "line_words r = Some ws"
    using line_words_Cons [OF Cons.prems] by metis
  let ?vs = "if w = old then vs else [w]" and ?r = "replace_all True old (unwords vs) False r"
  have run: "replace_all True old (unwords vs) False line = u @ unwords ?vs @ ?r"
    unfolding parts(1)
    by (simp add: replace_all_blanks [OF old parts(2)] replace_all_word [OF old parts(3,4)])
  have r: "line_words ?r = Some (concat (map (\<lambda>w. if w = old then vs else [w]) ws))" "ends_word ?r"
    using Cons.IH [OF parts(5)] parts(4) by auto
  have "line_words (unwords ?vs @ ?r) = Some (?vs @ concat (map (\<lambda>w. if w = old then vs else [w]) ws))"
    using new(1) parts(3) by (intro line_words_before [OF r(2,1)]) simp
  then have "line_words (u @ unwords ?vs @ ?r) = Some (concat (map (\<lambda>w. if w = old then vs else [w]) (w # ws)))"
    using parts(2) by simp
  moreover have "ends_word line \<longrightarrow> ends_word (u @ unwords ?vs @ ?r)"
    using parts(3) blank_no_word unfolding parts(1) by (cases u; cases w) (auto simp: ends_word_def is_word_def)
  ultimately show ?case
    unfolding run by blast
qed

lemma replace_text_documented: "replace_documented replace_text"
proof -
  have "replace_text (whole_word name) v line = Inr (replace_all True name v False line)" for name v line
    by (simp add: replace_text_def whole_word_def BEGIN_WORD_def END_WORD_def)
  then show ?thesis
    by (simp add: replace_documented_def replace_all_words)
qed

section \<open>Libraries that work with words\<close>

locale word_library = documented_library L for L :: libs +
  assumes documented_keywords: "keyword_search (rx_search L)"
    and documented_replace: "replace_documented (rx_replace L)"
begin

lemma code_words_found: "line_words line = Some ws \<Longrightarrow> ws \<noteq> [] \<Longrightarrow> get_keywords L line = Inr ws"
  using line_keywords [OF documented_keywords] by blast

lemma replaced_words:
  assumes "is_word name" and "list_all is_word vs" and "vs \<noteq> []" and "line_words line = Some ws"
  shows "\<exists>line'. rx_replace L (whole_word name) (unwords vs) line = Inr line' \<and>
    line_words line' = Some (concat (map (\<lambda>w. if w = name then vs else [w]) ws))"
  using documented_replace assms unfolding replace_documented_def by blast

lemma concat_singles: "concat (map (\<lambda>w. if w = name then [v] else [w]) ws) = map (\<lambda>w. if w = name then v else w) ws"
  by (induction ws) simp_all

text \<open>Words that stand for others, none of which stands for another.\<close>

lemma replaced_keys:
  assumes vals: "\<And>k v. m k = Some v \<Longrightarrow> is_word v \<and> m v = None"
    and "list_all is_word keys" and "line_words line = Some ws"
  shows "\<exists>line'. replace_keys L m keys line = Inr line' \<and>
    line_words line' = Some (map (\<lambda>w. if w \<in> set keys then (case m w of None \<Rightarrow> w | Some v \<Rightarrow> v) else w) ws)"
  using assms(2,3)
proof (induction keys arbitrary: line ws)
  case (Cons key keys)
  show ?case
  proof (cases "m key")
    case None
    then have "(if w \<in> set (key # keys) then (case m w of None \<Rightarrow> w | Some v \<Rightarrow> v) else w) =
        (if w \<in> set keys then (case m w of None \<Rightarrow> w | Some v \<Rightarrow> v) else w)" for w
      by simp
    with None Cons show ?thesis
      by (simp only: replace_keys.simps option.case list.pred_inject)
  next
    case (Some v)
    have "is_word key" "is_word v"
      using Cons.prems(1) vals [OF Some] by simp_all
    then obtain line1 where line1: "rx_replace L (whole_word key) v line = Inr line1"
      "line_words line1 = Some (map (\<lambda>w. if w = key then v else w) ws)"
      using replaced_words [of key "[v]" line ws] Cons.prems(2) by (auto simp: concat_singles)
    have "list_all is_word keys"
      using Cons.prems(1) by simp
    from Cons.IH [OF this line1(2)] obtain line2 where "replace_keys L m keys line1 = Inr line2"
      "line_words line2 = Some (map (\<lambda>w. if w \<in> set keys then (case m w of None \<Rightarrow> w | Some v \<Rightarrow> v) else w)
        (map (\<lambda>w. if w = key then v else w) ws))"
      by blast
    moreover have "m v = None"
      using vals [OF Some] by simp
    ultimately show ?thesis
      using Some line1(1) by (auto intro!: map_cong)
  qed
qed simp

text \<open>Words of \<open>S\<close> that stand for words among which there is one of \<open>S\<close> again.\<close>

lemma circular_keys:
  assumes vals: "\<And>k v. m k = Some v \<Longrightarrow> \<exists>vs. v = unwords vs \<and> vs \<noteq> [] \<and> list_all is_word vs \<and>
      (k \<in> S \<longrightarrow> set vs \<inter> S \<noteq> {})"
    and "list_all is_word keys" and "line_words line = Some ws" and "set ws \<inter> S \<noteq> {}"
  shows "\<exists>line' ws'. replace_keys L m keys line = Inr line' \<and> line_words line' = Some ws' \<and> set ws' \<inter> S \<noteq> {}"
  using assms(2-4)
proof (induction keys arbitrary: line ws)
  case (Cons key keys)
  show ?case
  proof (cases "m key")
    case None
    with Cons show ?thesis by auto
  next
    case (Some v)
    then obtain vs where vs: "v = unwords vs" "vs \<noteq> []" "list_all is_word vs" "key \<in> S \<longrightarrow> set vs \<inter> S \<noteq> {}"
      using vals by blast
    let ?ws = "concat (map (\<lambda>w. if w = key then vs else [w]) ws)"
    obtain line1 where line1: "rx_replace L (whole_word key) v line = Inr line1" "line_words line1 = Some ?ws"
      using replaced_words [of key vs line ws] Cons.prems vs by auto
    obtain w where "w \<in> set ws" "w \<in> S"
      using Cons.prems(3) by blast
    then have "set ?ws \<inter> S \<noteq> {}"
      using vs(4) by (cases "w = key") auto
    with Cons.IH [of line1 ?ws] Cons.prems(1) line1 Some show ?thesis
      by simp
  qed
qed auto

end

interpretation plain_words: word_library plain_library
  by unfold_locales (simp_all add: plain_library_def keyword_search_from replace_text_documented)

end
