(* ===== verification/Labels.thy ===== *)
theory Labels
  imports Libraries
begin

text \<open>
  The labels of a program: the address a label gets is the address at which the compilation goes on after
  the lines above it, and an instruction that refers to it gets the distance from its own address.
\<close>

section \<open>Lines of code\<close>

definition code_count :: "string list \<Rightarrow> nat" where
  "code_count ls = length (filter (\<lambda>l. code_words l \<noteq> []) ls)"

lemma code_count_simps [simp]:
  "code_count [] = 0" "code_count (l # ls) = of_bool (code_words l \<noteq> []) + code_count ls"
  by (simp_all add: code_count_def)

text \<open>Specification: the words of a line of code whose labels are replaced.\<close>

definition referred :: "(string \<rightharpoonup> address) \<Rightarrow> nat \<Rightarrow> string list \<Rightarrow> string list" where
  "referred labels n ws =
     map (\<lambda>w. case labels w of None \<Rightarrow> w | Some a \<Rightarrow> if length ws = 1 then address_text a else offset_text n a) ws"

text \<open>The lines after the replacement, for the lines before it and the lines of code above.\<close>

fun linked :: "(string \<rightharpoonup> address) \<Rightarrow> nat \<Rightarrow> string list \<Rightarrow> string list \<Rightarrow> bool" where
  "linked labels n [] ls' \<longleftrightarrow> ls' = []"
| "linked labels n (l # ls) ls' \<longleftrightarrow>
     (\<exists>l' rest. ls' = l' # rest \<and>
       (if code_words l = [] then l' = l else line_words l' = Some (referred labels n (code_words l))) \<and>
       linked labels (n + of_bool (code_words l \<noteq> [])) ls rest)"

lemma linked_length: "linked labels n ls ls' \<Longrightarrow> length ls' = length ls"
  by (induction labels n ls ls' rule: linked.induct) auto

lemma linked_nth:
  "linked labels n (prior @ l # later) ls' \<Longrightarrow>
    (if code_words l = [] then ls' ! length prior = l
     else line_words (ls' ! length prior) = Some (referred labels (n + code_count prior) (code_words l)))"
  by (induction prior arbitrary: n ls') (auto simp: add.commute add.left_commute split: if_splits)

lemma linked_prefix: "linked labels n (prior @ later) ls' \<Longrightarrow> linked labels n prior (take (length prior) ls')"
  by (induction prior arbitrary: n ls') auto

lemma code_words_Some: "code_words l \<noteq> [] \<Longrightarrow> line_words l = Some (code_words l)"
  by (auto simp: code_words_def split: option.splits if_splits)

lemma texts_are_words: "is_word (address_text a)" "is_word (offset_text n a)" "take 2 (address_text a) = ''0x''"
  "take 2 (offset_text n a) = ''0x''"
proof -
  show "is_word (address_text a)"
    unfolding address_text_def using unat_bounds(2) [of a]
    by (intro number_is_word [of 8] number_format(1)) simp_all
  show "is_word (offset_text n a)"
    unfolding offset_text_def using unat_bounds(1)
    by (intro number_is_word [of 4] number_format(1)) simp_all
qed (simp_all add: address_text_def offset_text_def)

section \<open>The two passes\<close>

context word_library
begin

lemma counted: "is_instruction L l \<or> is_data L l \<longleftrightarrow> code_words l \<noteq> []"
proof -
  have "is_data L l \<Longrightarrow> code_words l \<noteq> []"
    unfolding data_words(1) [OF documented_match] by (auto simp: code_words_def)
  then show ?thesis
    using instruction_words(2) [OF documented_match, of l] by blast
qed

lemma label_line: "is_label L l \<Longrightarrow> code_words l = []" "is_label L l \<Longrightarrow> is_word (get_label L l)"
proof -
  assume "is_label L l"
  then obtain gs where gs: "rx_match L re_label l = Some gs"
    by (auto simp: is_label_def is_line_def)
  then have "matches re_label l gs"
    using documented_iff(2) [OF documented_match] by blast
  then have "line_words l = None"
    by (intro directive_no_words [of re_label]) (auto simp: directives_def)
  then show "code_words l = []"
    by (simp add: code_words_def)
  from \<open>matches re_label l gs\<close> obtain w gs' where "gs = w # gs'" "is_word w"
    by (auto simp: re_label_def matches_optional_space matches_space matches_keyword matches_items(1))
  with gs show "is_word (get_label L l)"
    by (simp add: get_label_def captured_def)
qed

lemma label_as_data:
  assumes "labels [] = None"
  shows "is_label_as_data L labels l \<longleftrightarrow> (\<exists>w. line_words l = Some [w] \<and> labels w \<noteq> None)"
proof -
  have re: "matches re_label_as_data l gs \<longleftrightarrow> (\<exists>w. gs = [w] \<and> line_words l = Some [w])" for gs
    using matches_instructions(1) [of l gs] by (auto simp: re_label_as_data_def re_inst0_def length_Suc_conv)
  show ?thesis
  proof (cases "rx_match L re_label_as_data l")
    case None
    then have "\<nexists>w. line_words l = Some [w]"
      using documented_iff(1) [OF documented_match, of re_label_as_data l] re by auto
    with None assms show ?thesis
      by (simp add: is_label_as_data_def captured_def)
  next
    case (Some gs)
    then have "matches re_label_as_data l gs"
      using documented_iff(2) [OF documented_match] by blast
    with Some re show ?thesis
      by (auto simp: is_label_as_data_def captured_def)
  qed
qed

text \<open>One step of the search for labels.\<close>

lemma collect_step:
  assumes "collect_labels L n labels (x # ls) = Inr (ls', labels')"
  obtains (label) "is_label L x" "labels (get_label L x) = None"
      "collect_labels L n (labels(get_label L x \<mapsto> of_nat (4 * n))) ls = Inr (ls', labels')"
  | (other) rest where "\<not> is_label L x" "ls' = x # rest"
      "collect_labels L (n + of_bool (code_words x \<noteq> [])) labels ls = Inr (rest, labels')"
proof (cases "is_label L x")
  case True
  with assms label show ?thesis
    by (simp split: if_splits)
next
  case False
  have "(if is_instruction L x \<or> is_data L x then n + 1 else n) = n + of_bool (code_words x \<noteq> [])"
    using counted [of x] by simp
  with False assms other show ?thesis
    by (auto simp: attempt_eq_Inr simp del: of_bool_eq)
qed

lemma collect_lines: "collect_labels L n labels ls = Inr (ls', labels') \<Longrightarrow> ls' = filter (\<lambda>l. \<not> is_label L l) ls"
proof (induction ls arbitrary: n labels ls')
  case (Cons x ls)
  from Cons.prems show ?case
    by (cases rule: collect_step) (use Cons.IH in auto)
qed simp

lemma collect_keeps: "collect_labels L n labels ls = Inr (ls', labels') \<Longrightarrow> labels k = Some a \<Longrightarrow> labels' k = Some a"
proof (induction ls arbitrary: n labels ls')
  case (Cons x ls)
  from Cons.prems(1) show ?case
  proof (cases rule: collect_step)
    case label
    then show ?thesis
      using Cons.IH [OF label(3)] Cons.prems(2) by (cases "k = get_label L x") simp_all
  next
    case (other rest)
    then show ?thesis
      using Cons.IH [OF other(3)] Cons.prems(2) by simp
  qed
qed simp

lemma collect_new: "collect_labels L n labels ls = Inr (ls', labels') \<Longrightarrow> labels' k = Some a \<Longrightarrow>
    labels k = Some a \<or> (\<exists>l \<in> set ls. is_label L l \<and> get_label L l = k)"
proof (induction ls arbitrary: n labels ls')
  case (Cons x ls)
  from Cons.prems(1) show ?case
  proof (cases rule: collect_step)
    case label
    then show ?thesis
      using Cons.IH [OF label(3) Cons.prems(2)] by (cases "k = get_label L x") auto
  next
    case (other rest)
    then show ?thesis
      using Cons.IH [OF other(3) Cons.prems(2)] by auto
  qed
qed simp

lemma collect_address: "collect_labels L n labels (prior @ l # later) = Inr (ls', labels') \<Longrightarrow> is_label L l \<Longrightarrow>
    labels' (get_label L l) = Some (of_nat (4 * (n + code_count prior)))"
proof (induction prior arbitrary: n labels ls')
  case Nil
  from Nil(1) have "collect_labels L n labels (l # later) = Inr (ls', labels')"
    by simp
  then show ?case
  proof (cases rule: collect_step)
    case label
    then show ?thesis
      using collect_keeps [OF label(3)] by simp
  qed (use Nil(2) in simp)
next
  case (Cons x prior)
  from Cons.prems(1) have "collect_labels L n labels (x # prior @ l # later) = Inr (ls', labels')"
    by simp
  then show ?case
  proof (cases rule: collect_step)
    case label
    then show ?thesis
      using Cons.IH [OF label(3) Cons.prems(2)] label_line(1) by simp
  next
    case (other rest)
    then show ?thesis
      using Cons.IH [OF other(3) Cons.prems(2)] by (simp add: add.assoc)
  qed
qed

lemma use_labels_run:
  assumes none: "labels [] = None" and names: "\<And>k a. labels k = Some a \<Longrightarrow> take 2 k \<noteq> ''0x''"
  shows "use_labels L labels n ls = Inr ls' \<Longrightarrow> linked labels n ls ls'"
proof (induction ls arbitrary: n ls')
  case (Cons l ls)
  have step: "\<exists>l' rest. ls' = l' # rest \<and> use_labels L labels (n + of_bool (code_words l \<noteq> [])) ls = Inr rest \<and>
      (if code_words l = [] then l' = l else line_words l' = Some (referred labels n (code_words l)))"
  proof (cases "code_words l = []")
    case True
    then have "\<not> is_label_as_data L labels l"
      using label_as_data [of labels l, OF none] by (auto simp: code_words_def)
    moreover have "\<not> is_instruction L l" "\<not> is_data L l"
      using True counted by blast+
    ultimately show ?thesis
      using True Cons.prems by (auto simp: attempt_eq_Inr)
  next
    case False
    let ?ws = "code_words l"
    define shown where "shown a = (if length ?ws = 1 then address_text a else offset_text n a)" for a
    have ws: "line_words l = Some ?ws"
      using False by (rule code_words_Some)
    have as_data: "is_label_as_data L labels l \<longleftrightarrow> length ?ws = 1 \<and> labels (hd ?ws) \<noteq> None"
      unfolding label_as_data [of labels l, OF none] ws by (cases ?ws) auto
    have vals: "is_word v \<and> (map_option shown \<circ> labels) v = None" if v: "(map_option shown \<circ> labels) k = Some v" for k v
    proof -
      obtain a where "v = shown a"
        using v by auto
      then have "is_word v" "take 2 v = ''0x''"
        by (simp_all add: shown_def texts_are_words)
      with names show ?thesis
        by (cases "labels v") auto
    qed
    obtain l' where l': "replace_keys L (map_option shown \<circ> labels) ?ws l = Inr l'"
      "line_words l' = Some (map (\<lambda>w. if w \<in> set ?ws then (case (map_option shown \<circ> labels) w of None \<Rightarrow> w | Some v \<Rightarrow> v) else w) ?ws)"
      using replaced_keys [of "map_option shown \<circ> labels", OF _ line_words_words [OF ws] ws] vals by blast
    have "map (\<lambda>w. if w \<in> set ?ws then (case (map_option shown \<circ> labels) w of None \<Rightarrow> w | Some v \<Rightarrow> v) else w) ?ws = referred labels n ?ws"
      unfolding referred_def by (rule map_cong [OF refl]) (simp add: shown_def split: option.split)
    with l' have l'2: "line_words l' = Some (referred labels n ?ws)"
      by simp
    have keys: "get_keywords L l = Inr ?ws"
      using code_words_found [OF ws False] .
    have instr: "is_instruction L l"
      using instruction_words(2) [OF documented_match, of l] False by simp
    show ?thesis
    proof (cases "is_label_as_data L labels l")
      case True
      then have "shown = address_text"
        using as_data by (auto simp: shown_def)
      with True l'(1) keys l'2 False Cons.prems show ?thesis
        by (auto simp: attempt_eq_Inr)
    next
      case no_data: False
      have run: "replace_keys L (map_option (offset_text n) \<circ> labels) ?ws l = Inr l'"
      proof (cases "length ?ws = 1")
        case True
        then obtain w where w: "?ws = [w]" "labels w = None"
          using no_data as_data by (cases ?ws) auto
        with l'(1) show ?thesis
          by simp
      next
        case False
        then have "shown = offset_text n"
          by (auto simp: shown_def)
        with l'(1) show ?thesis
          by simp
      qed
      with no_data keys l'2 False instr Cons.prems show ?thesis
        by (auto simp: attempt_eq_Inr)
    qed
  qed
  with Cons.IH show ?case
    by auto
qed simp

section \<open>The code of the lines\<close>

lemma object_words_append:
  "object_words L u e isa k (xs @ ys) = attempt (object_words L u e isa k xs) (\<lambda>(a, p).
    attempt (object_words L u e isa (k + 4 * length a) ys) (\<lambda>(b, q). Inr (a @ b, p @ q)))"
proof (induction xs arbitrary: k)
  case Nil
  show ?case
    by (cases "object_words L u e isa k ys") auto
next
  case (Cons x xs)
  consider "is_blank L x \<or> is_comment L x" | "is_warning L x" "\<not> (is_blank L x \<or> is_comment L x)"
    | "\<not> (is_blank L x \<or> is_comment L x \<or> is_warning L x)"
    by blast
  then show ?case
  proof cases
    case 1
    with Cons.IH [of k] show ?thesis by auto
  next
    case 2
    with Cons.IH [of k] show ?thesis
      by (auto simp: attempt_def split: sum.split)
  next
    case 3
    with Cons.IH [of "k + 4"] show ?thesis
      by (auto simp: attempt_def algebra_simps split: sum.split)
  qed
qed

lemma object_words_split:
  assumes "object_words L u e isa k (xs @ ys) = Inr (a, p)"
  obtains b q c r where "object_words L u e isa k xs = Inr (b, q)"
    and "object_words L u e isa (k + 4 * length b) ys = Inr (c, r)" and "a = b @ c"
  using assms unfolding object_words_append by (auto simp: attempt_eq_Inr)

lemma word_of_code: "line_words l = Some (w # ws) \<Longrightarrow>
    object_words L u e isa k [l] = attempt (compile_line L (u k) e isa l) (\<lambda>v. Inr ([v], []))"
  using code_line_kind [of l w ws] by (cases "compile_line L (u k) e isa l") simp_all

lemma no_word_without_code:
  assumes "code_words l = []" and "object_words L u e isa k [l] = Inr (a, p)"
  shows "a = []"
proof -
  have "\<not> is_data L l" "get_instruction L l = []"
    using assms(1) counted [of l] instruction_words(1) [OF documented_match, of l] by auto
  then have "compile_line L (u k) e isa l = Inl ParserError"
    by (simp add: compile_line_def)
  with assms(2) show ?thesis
    by (auto split: if_splits)
qed

lemma linked_word:
  assumes "if code_words l = [] then l' = l else line_words l' = Some (referred labels n (code_words l))"
    and "object_words L u e isa k [l'] = Inr (a, p)"
  shows "length a = of_bool (code_words l \<noteq> [])"
    and "code_words l \<noteq> [] \<Longrightarrow> \<exists>v. compile_line L (u k) e isa l' = Inr v"
proof -
  have "length a = 1 \<and> (\<exists>v. compile_line L (u k) e isa l' = Inr v)" if code: "code_words l \<noteq> []"
  proof -
    obtain w ws where "line_words l' = Some (w # ws)"
      using assms(1) code by (cases "code_words l") (auto simp: referred_def)
    from word_of_code [OF this, of u e isa k] assms(2) show ?thesis
      by (cases "compile_line L (u k) e isa l'") auto
  qed
  then show "length a = of_bool (code_words l \<noteq> [])" "code_words l \<noteq> [] \<Longrightarrow> \<exists>v. compile_line L (u k) e isa l' = Inr v"
    using no_word_without_code [of l u e isa k a p] assms by (cases "code_words l = []"; simp)+
qed

lemma object_words_linked:
  "linked labels n ls ls' \<Longrightarrow> object_words L u e isa k ls' = Inr (a, p) \<Longrightarrow> length a = code_count ls"
proof (induction ls arbitrary: n k ls' a p)
  case (Cons l ls)
  obtain l' rest where l': "ls' = l' # rest"
    "if code_words l = [] then l' = l else line_words l' = Some (referred labels n (code_words l))"
    "linked labels (n + of_bool (code_words l \<noteq> [])) ls rest"
    using Cons.prems(1) by auto
  have "object_words L u e isa k ([l'] @ rest) = Inr (a, p)"
    using Cons.prems(2) l'(1) by simp
  then obtain b q c r where b: "object_words L u e isa k [l'] = Inr (b, q)"
    "object_words L u e isa (k + 4 * length b) rest = Inr (c, r)" "a = b @ c"
    by (rule object_words_split)
  with linked_word(1) [OF l'(2) b(1)] Cons.IH [OF l'(3) b(2)] show ?case
    by simp
qed simp

text \<open>The compilation of the lines above, and of a line of code.\<close>

lemma compiled_prefix:
  assumes ls': "linked labels 0 (prior @ later) ls'"
    and mem: "wf_memory mem" "4 * length ls' \<le> unat (mem_size mem)"
    and run: "compile_into L u e isa ls' 0 mem wn = Inr r"
  shows "\<exists>m w. compile_into L u e isa (take (length prior) ls') 0 mem wn = Inr (m, of_nat (4 * code_count prior), w)"
    and "later = l # rest \<Longrightarrow> code_words l \<noteq> [] \<Longrightarrow>
      \<exists>v. compile_line L (u (4 * code_count prior)) e isa (ls' ! length prior) = Inr v"
    and "4 * code_count prior < 2 ^ 32"
proof -
  obtain a p where all: "object_words L u e isa 0 ls' = Inr (a, p)"
    using compile_into_run [OF mem(1), of 0 ls' L u e isa wn] mem(2) run
    by (cases "object_words L u e isa 0 ls'") auto
  then have "object_words L u e isa 0 (take (length prior) ls' @ drop (length prior) ls') = Inr (a, p)"
    by simp
  then obtain b q c x where b: "object_words L u e isa 0 (take (length prior) ls') = Inr (b, q)"
    "object_words L u e isa (0 + 4 * length b) (drop (length prior) ls') = Inr (c, x)"
    by (rule object_words_split)
  have count: "length b = code_count prior"
    using object_words_linked [OF linked_prefix [OF ls'] b(1)] .
  have "length prior \<le> length ls'"
    using linked_length [OF ls'] by simp
  then have "compile_into L u e isa (take (length prior) ls') 0 mem wn =
      Inr (mem\<lparr>mem_bytes := blit (mem_bytes mem) 0 (object_bytes e b)\<rparr>, of_nat (4 * code_count prior), wn @ q)"
    using compile_into_run [OF mem(1), of 0 "take (length prior) ls'" L u e isa wn] mem(2) b(1) count by simp
  then show "\<exists>m w. compile_into L u e isa (take (length prior) ls') 0 mem wn = Inr (m, of_nat (4 * code_count prior), w)"
    by blast
  have "length b \<le> length (take (length prior) ls')"
    using object_words_length [OF b(1)] .
  then have "4 * code_count prior \<le> unat (mem_size mem)"
    using mem(2) count by simp
  then show "4 * code_count prior < 2 ^ 32"
    by (rule order_le_less_trans) simp
  assume later: "later = l # rest" and code: "code_words l \<noteq> []"
  have "length prior < length ls'"
    using linked_length [OF ls'] later by simp
  then have "drop (length prior) ls' = [ls' ! length prior] @ drop (Suc (length prior)) ls'"
    by (simp add: Cons_nth_drop_Suc)
  with b(2) obtain d y where "object_words L u e isa (4 * code_count prior) [ls' ! length prior] = Inr (d, y)"
    unfolding count by (metis add_0 object_words_split)
  then show "\<exists>v. compile_line L (u (4 * code_count prior)) e isa (ls' ! length prior) = Inr v"
    using linked_nth [of labels 0 prior l rest ls'] ls' later code by (intro linked_word(2)) auto
qed

text \<open>The replacement of labels as a whole.\<close>

lemma replace_labels_run:
  assumes "replace_labels L s = Inr s'" and "src_labels s = Map.empty"
    and names: "\<forall>l \<in> set (src_lines s). is_label L l \<longrightarrow> take 2 (get_label L l) \<noteq> ''0x''"
  shows "linked (src_labels s') 0 (filter (\<lambda>l. \<not> is_label L l) (src_lines s)) (src_lines s')"
    and "src_lines s = prior @ l # later \<Longrightarrow> is_label L l \<Longrightarrow>
      src_labels s' (get_label L l) = Some (of_nat (4 * code_count (filter (\<lambda>l. \<not> is_label L l) prior)))"
proof -
  obtain ls where run: "collect_labels L 0 Map.empty (src_lines s) = Inr (ls, src_labels s')"
    "use_labels L (src_labels s') 0 ls = Inr (src_lines s')"
    using assms(1,2) by (auto simp: replace_labels_def attempt_eq_Inr)
  have new: "\<exists>l \<in> set (src_lines s). is_label L l \<and> get_label L l = k" if "src_labels s' k = Some a" for k a
    using collect_new [OF run(1) that] by simp
  have "src_labels s' [] = None"
    using new [of "[]"] label_line(2) by (cases "src_labels s' []") (auto simp: is_word_def)
  moreover have "take 2 k \<noteq> ''0x''" if "src_labels s' k = Some a" for k a
    using new [OF that] names by blast
  ultimately show "linked (src_labels s') 0 (filter (\<lambda>l. \<not> is_label L l) (src_lines s)) (src_lines s')"
    using use_labels_run [OF _ _ run(2)] collect_lines [OF run(1)] by blast
  have "code_count (filter (\<lambda>l. \<not> is_label L l) prior) = code_count prior"
    by (induction prior) (auto dest: label_line(1))
  then show "src_lines s = prior @ l # later \<Longrightarrow> is_label L l \<Longrightarrow>
      src_labels s' (get_label L l) = Some (of_nat (4 * code_count (filter (\<lambda>l. \<not> is_label L l) prior)))"
    using collect_address [of 0 Map.empty prior l later ls "src_labels s'"] run(1) by simp
qed

end

section \<open>Properties\<close>

text \<open>
  C6: a label gets the address at which the compilation goes on after the lines above it, for a library
  that works with words and labels that do not look like numbers.
\<close>

theorem label_addresses:
  assumes library: "word_library L" and labels: "replace_labels L s = Inr s'" "src_labels s = Map.empty"
    and names: "\<forall>l \<in> set (src_lines s). is_label L l \<longrightarrow> take 2 (get_label L l) \<noteq> ''0x''"
    and mem: "wf_memory mem" "4 * length (src_lines s') \<le> unat (mem_size mem)"
    and compiled: "compile_into L u e isa (src_lines s') 0 mem warnings = Inr r"
    and line: "src_lines s = prior @ l # later" "is_label L l"
  shows "\<exists>m a w. compile_into L u e isa (take (length (filter (\<lambda>l. \<not> is_label L l) prior)) (src_lines s')) 0 mem warnings =
      Inr (m, a, w) \<and> src_labels s' (get_label L l) = Some a"
proof -
  note run = word_library.replace_labels_run [OF library labels names]
  have "linked (src_labels s') 0 (filter (\<lambda>l. \<not> is_label L l) prior @ filter (\<lambda>l. \<not> is_label L l) later) (src_lines s')"
    using run(1) line by simp
  from word_library.compiled_prefix(1) [OF library this mem compiled] run(2) [OF line] show ?thesis
    by blast
qed

text \<open>The operands of a line that compiles.\<close>

lemma compiled_operands:
  assumes "compile_line L u e isa l = Inr v" and "\<not> is_data L l" and "get_instruction L l = op # args"
    and "get_instruction_code isa op = Inr c" and "get_instruction_info isa c = Inr info"
  shows "length args = unat (inst_nregs info) + of_bool (inst_has_inmediate info)"
    and "\<exists>j. operands isa info args (garbage u) = Inr j \<and> v = host_word e (inst_bytes j)"
proof -
  have "(if unat (inst_nregs info) + of_bool (inst_has_inmediate info) \<noteq> length args then Inl ParserError
      else attempt (as_parser_error (operands isa info args (garbage u))) (encode e 0)) = Inr v"
    using assms by (simp add: compile_line_def as_parser_error_def)
  then show "length args = unat (inst_nregs info) + of_bool (inst_has_inmediate info)"
    "\<exists>j. operands isa info args (garbage u) = Inr j \<and> v = host_word e (inst_bytes j)"
    by (auto simp: as_parser_error_def encode_host_word split: if_splits sum.splits)
qed

lemma operands_data:
  assumes "operands isa info args g = Inr j" and "inst_has_inmediate info" and "inst_nregs info \<noteq> 3"
  shows "\<exists>n. strtoul (args ! unat (inst_nregs info)) = Some n \<and> i_data j = ucast n \<and> i_code j = inst_code info"
  using assms by (auto simp: operands_def attempt_eq_Inr Let_def split: if_splits option.splits)

lemma short_distance:
  fixes d :: address
  assumes "- (2 ^ 15) \<le> sint d" and "sint d < 2 ^ 15"
  shows "scast (ucast d :: uint16) = d"
proof -
  have "sint (ucast d :: uint16) = signed_take_bit 15 (sint d)"
    by (simp add: sint_uint unsigned_ucast_eq signed_take_bit_take_bit)
  also have "\<dots> = sint d"
    using assms by (intro signed_take_bit_int_eq_self) simp_all
  finally have "scast (ucast d :: uint16) = (word_of_int (sint d) :: address)"
    by (simp add: scast_eq)
  then show ?thesis
    by simp
qed

text \<open>
  C5: an instruction that ends with the name of a label is compiled to an instruction whose offset leads
  from its own address to the address of the label, when that is at most 32767 bytes after it or 32768
  before.
\<close>

theorem references_reach_labels:
  assumes library: "word_library L" and labels: "replace_labels L s = Inr s'" "src_labels s = Map.empty"
    and names: "\<forall>l \<in> set (src_lines s). is_label L l \<longrightarrow> take 2 (get_label L l) \<noteq> ''0x''"
    and mem: "wf_memory mem" "4 * length (src_lines s') \<le> unat (mem_size mem)"
    and compiled: "compile_into L u e isa (src_lines s') 0 mem warnings = Inr r"
    and line: "src_lines s = prior @ l # later" "\<not> is_label L l" "code_words l = op # regs @ [name]"
    and words: "src_labels s' name = Some target" "\<forall>w \<in> set (op # regs). src_labels s' w = None"
    and instr: "get_instruction_code isa op = Inr c" "get_instruction_info isa c = Inr info"
      "inst_has_inmediate info" "inst_nregs info < 3"
  defines "n \<equiv> length (filter (\<lambda>l. \<not> is_label L l) prior)"
  shows "\<exists>m addr w v inst. compile_into L u e isa (take n (src_lines s')) 0 mem warnings = Inr (m, addr, w) \<and>
    compile_line L (u (unat addr)) e isa (src_lines s' ! n) = Inr v \<and> decode e inst0 v = Inr inst \<and> i_code inst = inst_code info \<and>
    (- (2 ^ 15) \<le> sint (target - addr) \<longrightarrow> sint (target - addr) < 2 ^ 15 \<longrightarrow> addr + i_offset inst = target)"
proof -
  define lines1 where "lines1 = filter (\<lambda>l. \<not> is_label L l) prior"
  define k where "k = code_count lines1"
  have docs: "match_documented (rx_match L)"
    using library by (simp add: word_library_def documented_library_def)
  have links: "linked (src_labels s') 0 (lines1 @ l # filter (\<lambda>l. \<not> is_label L l) later) (src_lines s')"
    using word_library.replace_labels_run(1) [OF library labels names] line(1,2) by (simp add: lines1_def)
  note run = word_library.compiled_prefix [OF library links mem compiled]
  obtain m w where prefix: "compile_into L u e isa (take n (src_lines s')) 0 mem warnings = Inr (m, of_nat (4 * k), w)"
    using run(1) by (auto simp: n_def k_def lines1_def)
  have addr: "unat (of_nat (4 * k) :: address) = 4 * k"
    using run(3) unat_of_nat_address [of "4 * k"] by (simp add: k_def lines1_def)
  obtain v where v: "compile_line L (u (unat (of_nat (4 * k) :: address))) e isa (src_lines s' ! n) = Inr v"
    unfolding addr using run(2) line(3) by (auto simp: n_def k_def lines1_def)
  have l': "line_words (src_lines s' ! n) = Some (op # regs @ [offset_text k target])"
  proof -
    have "referred (src_labels s') (0 + k) (code_words l) = op # regs @ [offset_text k target]"
      using words by (auto simp: referred_def line(3) intro!: map_idI)
    then show ?thesis
      using linked_nth [OF links] line(3) by (simp add: n_def lines1_def k_def)
  qed
  have "length (op # regs @ [name]) \<le> 4"
    using line(3) by (auto simp: code_words_def split: option.splits if_splits)
  then have "get_instruction L (src_lines s' ! n) = op # regs @ [offset_text k target]"
    using l' instruction_words(1) [OF docs] by (simp add: code_words_def)
  moreover have "\<not> is_data L (src_lines s' ! n)"
    using l' by (simp add: data_words(1) [OF docs])
  ultimately obtain j where j: "operands isa info (regs @ [offset_text k target]) (garbage (u (unat (of_nat (4 * k) :: address)))) = Inr j"
      "v = host_word e (inst_bytes j)" and len: "length regs = unat (inst_nregs info)"
    using compiled_operands [OF v _ _ instr(1,2)] instr(3) by fastforce
  let ?d = "target - of_nat (4 * k)"
  have "inst_nregs info \<noteq> 3"
    using instr(4) by auto
  from operands_data [OF j(1) instr(3) this] len
  obtain x where x: "strtoul (offset_text k target) = Some x" "i_data j = ucast x" "i_code j = inst_code info"
    by (auto simp: nth_append)
  have "strtoul (offset_text k target) = Some (ucast (ucast ?d :: uint16))"
    using unat_bounds(1) [of "ucast ?d"] strtoul_format [of "unat (ucast ?d :: uint16)" 4]
    by (simp add: offset_text_def)
  with x(1) have "x = ucast (ucast ?d :: uint16)"
    by (simp only: option.inject)
  with x(2) have data: "i_data j = ucast ?d"
    by (simp only: ucast_wide(1))
  have "decode e inst0 v = Inr j"
    using j(2) decode_host_word [of "inst_bytes j" e inst0] by simp
  moreover have "of_nat (4 * k) + i_offset j = target" if "- (2 ^ 15) \<le> sint ?d" "sint ?d < 2 ^ 15"
    using short_distance [OF that] by (simp add: i_offset_def data)
  ultimately show ?thesis
    using prefix v x(3) by blast
qed

section \<open>A program\<close>

definition jump_isa :: "unit isa" where
  "jump_isa = isa_empty\<lparr>instructions := [0x40 \<mapsto> \<lparr>inst_code = 0x40, inst_name = ''b'', inst_nregs = 0,
     inst_has_inmediate = True, inst_func = ()\<rparr>], instruction_names := [''b'' \<mapsto> 0x40]\<rparr>"

definition jump_source :: source where
  "jump_source = source_from_file \<lparr>file_lines = [''b end'', ''0x00000001'', ''.label end'']\<rparr>"

definition jump_compiled :: source where
  "jump_compiled = jump_source\<lparr>src_lines := [''b 0x0008'', ''0x00000001''], src_labels := [''end'' \<mapsto> 8]\<rparr>"

lemma jump_words: "line_words ''b end'' = Some [''b'', ''end'']" "line_words ''0x00000001'' = Some [''0x00000001'']"
proof -
  have "list_all is_word [''b'', ''end'']" "list_all is_word [''0x00000001'']"
    by (simp_all add: is_word_def in_class.simps between_def)
  from this [THEN line_words_unwords] show "line_words ''b end'' = Some [''b'', ''end'']"
    "line_words ''0x00000001'' = Some [''0x00000001'']"
    by simp_all
qed

lemma jump_labels:
  "replace_labels plain_library jump_source = Inr jump_compiled" "src_labels jump_source = Map.empty"
  "\<forall>l \<in> set (src_lines jump_source). is_label plain_library l \<longrightarrow> take 2 (get_label plain_library l) \<noteq> ''0x''"
proof -
  let ?L = plain_library
  have "rx_match ?L re_label ''.label end'' = Some [''end'']"
    by code_simp
  then have label: "is_label ?L ''.label end''" "get_label ?L ''.label end'' = ''end''"
    by (simp_all add: is_label_def is_line_def get_label_def captured_def)
  note kinds = plain.code_line_kind(7) [OF jump_words(1)] plain.code_line_kind(7) [OF jump_words(2)]
  have code: "code_words ''b end'' = [''b'', ''end'']" "code_words ''0x00000001'' = [''0x00000001'']"
    by (simp_all add: code_words_def jump_words)
  have instr: "is_instruction ?L ''b end''" "is_instruction ?L ''0x00000001''"
    using instruction_words(2) [OF plain.documented_match] by (simp_all add: code)
  have collected: "collect_labels ?L 0 Map.empty (src_lines jump_source) = Inr ([''b end'', ''0x00000001''], [''end'' \<mapsto> 8])"
    by (simp add: jump_source_def source_from_file_def label kinds instr)
  have data: "\<not> is_label_as_data ?L [''end'' \<mapsto> 8] ''b end''" "\<not> is_label_as_data ?L [''end'' \<mapsto> 8] ''0x00000001''"
    by (simp_all add: plain_words.label_as_data jump_words)
  have keys: "get_keywords ?L ''b end'' = Inr [''b'', ''end'']" "get_keywords ?L ''0x00000001'' = Inr [''0x00000001'']"
    using plain_words.code_words_found jump_words by simp_all
  have "offset_text 0 8 = ''0x0008''" "rx_replace ?L (whole_word ''end'') ''0x0008'' ''b end'' = Inr ''b 0x0008''"
    by code_simp+
  then have used: "use_labels ?L [''end'' \<mapsto> 8] 0 [''b end'', ''0x00000001''] = Inr [''b 0x0008'', ''0x00000001'']"
    by (simp add: data instr keys)
  show "replace_labels ?L jump_source = Inr jump_compiled" "src_labels jump_source = Map.empty"
    using collected used
    by (simp_all add: replace_labels_def jump_compiled_def jump_source_def source_from_file_def source_new_def)
  show "\<forall>l \<in> set (src_lines jump_source). is_label ?L l \<longrightarrow> take 2 (get_label ?L l) \<noteq> ''0x''"
    by (simp add: jump_source_def source_from_file_def label kinds)
qed

lemma jump_line:
  "line_words ''b 0x0008'' = Some [''b'', ''0x0008'']"
  "\<exists>v. compile_line plain_library u LittleEndian jump_isa ''b 0x0008'' = Inr v"
proof -
  let ?L = plain_library
  show jump: "line_words ''b 0x0008'' = Some [''b'', ''0x0008'']"
    using line_words_unwords [of "[''b'', ''0x0008'']"] by (simp add: is_word_def in_class.simps between_def)
  then have words: "\<not> is_data ?L ''b 0x0008''" "get_instruction ?L ''b 0x0008'' = [''b'', ''0x0008'']"
    by (simp_all add: data_words(1) [OF plain.documented_match] instruction_words(1) [OF plain.documented_match] code_words_def)
  let ?info = "\<lparr>inst_code = 0x40, inst_name = ''b'', inst_nregs = 0, inst_has_inmediate = True, inst_func = ()\<rparr>"
  have info: "attempt (get_instruction_code jump_isa ''b'') (get_instruction_info jump_isa) = Inr ?info"
    by (simp add: jump_isa_def get_instruction_code_def get_instruction_info_def)
  have "format_hex 4 8 = ''0008''"
    by code_simp
  then have "strtoul ''0x0008'' = Some 8"
    using strtoul_format [of 8 4] by simp
  then have "\<exists>i. operands jump_isa ?info [''0x0008''] (garbage u) = Inr i"
    by (simp add: operands_def)
  then obtain i where i: "operands jump_isa ?info [''0x0008''] (garbage u) = Inr i"
    by blast
  show "\<exists>v. compile_line plain_library u LittleEndian jump_isa ''b 0x0008'' = Inr v"
    unfolding compile_line_def words(2) list.case info
    using words(1) i by (simp add: as_parser_error_def encode_host_word)
qed

lemma jump_code: "\<exists>r. compile_into plain_library tidy LittleEndian jump_isa (src_lines jump_compiled) 0 (memory_new 8) [] = Inr r"
proof -
  let ?L = plain_library and ?isa = jump_isa
  obtain v where v: "compile_line ?L (tidy 0) LittleEndian ?isa ''b 0x0008'' = Inr v"
    using jump_line(2) by blast
  have "format_hex 8 1 = ''00000001''"
    by code_simp
  then have "''0x'' @ format_hex 8 (unat (1 :: cpu_word)) = ''0x00000001''"
    by simp
  then obtain w where w: "compile_line ?L (tidy 4) LittleEndian ?isa ''0x00000001'' = Inr w"
    using compile_data(3) [OF plain.documented_match, of "tidy 4" LittleEndian ?isa 1] by auto
  have "object_words ?L tidy LittleEndian ?isa 0 (src_lines jump_compiled) = Inr ([v, w], [])"
    using v w plain.code_line_kind [OF jump_line(1)] plain.code_line_kind [OF jump_words(2)]
    by (simp add: jump_compiled_def)
  then show ?thesis
    using compile_into_run [OF wf_memory_new, of 0 "src_lines jump_compiled" 8 ?L tidy LittleEndian ?isa "[]"]
    by (simp add: jump_compiled_def)
qed

theorem label_addresses_witness:
  "\<exists>m w. compile_into plain_library tidy LittleEndian jump_isa [''b 0x0008'', ''0x00000001''] 0 (memory_new 8) [] = Inr (m, 8, w)"
proof -
  obtain r where r: "compile_into plain_library tidy LittleEndian jump_isa (src_lines jump_compiled) 0 (memory_new 8) [] = Inr r"
    using jump_code by blast
  have label: "is_label plain_library ''.label end''" "get_label plain_library ''.label end'' = ''end''"
    by code_simp+
  have "4 * length (src_lines jump_compiled) \<le> unat (mem_size (memory_new 8))"
    by (simp add: jump_compiled_def)
  moreover have "src_lines jump_source = [''b end'', ''0x00000001''] @ ''.label end'' # []"
    by (simp add: jump_source_def source_from_file_def)
  ultimately show ?thesis
    using label_addresses [OF plain_words.word_library_axioms jump_labels wf_memory_new _ r _ label(1)] label
      plain.code_line_kind(7) [OF jump_words(1)] plain.code_line_kind(7) [OF jump_words(2)]
    by (fastforce simp: jump_compiled_def)
qed

theorem references_reach_labels_witness:
  "\<exists>v inst. compile_line plain_library (tidy 0) LittleEndian jump_isa ''b 0x0008'' = Inr v \<and>
    decode LittleEndian uninitialised v = Inr inst \<and> i_code inst = 0x40 \<and> 0 + i_offset inst = 8"
proof -
  obtain r where r: "compile_into plain_library tidy LittleEndian jump_isa (src_lines jump_compiled) 0 (memory_new 8) [] = Inr r"
    using jump_code by blast
  have size: "4 * length (src_lines jump_compiled) \<le> unat (mem_size (memory_new 8))"
    by (simp add: jump_compiled_def)
  have line: "src_lines jump_source = [] @ ''b end'' # [''0x00000001'', ''.label end'']"
    by (simp add: jump_source_def source_from_file_def)
  have words: "code_words ''b end'' = ''b'' # [] @ [''end'']"
    by (simp add: code_words_def jump_words)
  have labels: "src_labels jump_compiled ''end'' = Some 8" "\<forall>w \<in> set (''b'' # []). src_labels jump_compiled w = None"
    by (simp_all add: jump_compiled_def)
  have instr: "get_instruction_code jump_isa ''b'' = Inr 0x40"
    "get_instruction_info jump_isa 0x40 = Inr \<lparr>inst_code = 0x40, inst_name = ''b'', inst_nregs = 0,
      inst_has_inmediate = True, inst_func = ()\<rparr>"
    by (simp_all add: jump_isa_def get_instruction_code_def get_instruction_info_def)
  from references_reach_labels [OF plain_words.word_library_axioms jump_labels wf_memory_new size r line
      plain.code_line_kind(7) [OF jump_words(1)] words labels instr, of uninitialised]
  show ?thesis
    by (simp add: jump_compiled_def)
qed

end
