(* ===== verification/Preprocessing.thy ===== *)
theory Preprocessing
  imports Labels
begin

text \<open>
  Where the preprocessor ends: the replacement of includes always does, because no file is included
  twice, and the replacement of defines does not on a line with a word of a circle of defines.
\<close>

section \<open>Includes\<close>

lemma lines_of_result: "case lines_of L filename of Inl x \<Rightarrow> x = IOError | Inr ls \<Rightarrow> filename \<in> dom (fs_text L)"
  by (auto simp: lines_of_def file_load_def split: option.split sum.split prod.split)

lemma include_step_cases:
  assumes "include_step L path included l rest = Inr (out, ls, included')"
  shows "included' = included \<and> length ls \<le> length rest \<or>
    (\<exists>file. file \<notin> included \<and> file \<in> dom (fs_text L) \<and> included' = insert file included)"
proof (cases "is_include L l")
  case True
  let ?filename = "find_file L path (get_include L l)"
  let ?file = "fs_absolute L ?filename"
  show ?thesis
  proof (cases "?file \<in> included")
    case False
    with True assms obtain new where "lines_of L ?file = Inr new" "included' = insert ?file included"
      by (auto simp: include_step_def Let_def attempt_eq_Inr split: if_splits)
    with False lines_of_result [where L = L and filename = ?file] show ?thesis
      by auto
  qed (use True assms in \<open>auto simp: include_step_def Let_def split: if_splits\<close>)
qed (use assms in \<open>simp add: include_step_def\<close>)

lemma include_step_error: "include_step L path included l rest = Inl x \<Longrightarrow> x = IOError"
  using lines_of_result [where L = L and filename = "fs_absolute L (find_file L path (get_include L l))"]
  by (cases "lines_of L (fs_absolute L (find_file L path (get_include L l)))")
    (auto simp: include_step_def Let_def split: if_splits)

definition included_well :: "libs \<Rightarrow> string set \<Rightarrow> (exn + string list \<times> string set) option \<Rightarrow> bool" where
  "included_well L included r \<longleftrightarrow>
     (case r of None \<Rightarrow> False
      | Some (Inl x) \<Rightarrow> x = IOError
      | Some (Inr (_, all)) \<Rightarrow> included \<subseteq> all \<and> all - included \<subseteq> dom (fs_text L))"

lemma includes_from_ends:
  assumes fin: "finite (dom (fs_text L))"
  shows "included_well L included (includes_from L path included passed ls)"
proof (induction "card (dom (fs_text L) - included)" arbitrary: included passed ls rule: less_induct)
  case less
  show ?case
  proof (induction "length ls" arbitrary: passed ls rule: less_induct)
    case shorter: less
    show ?case
    proof (cases ls)
      case Nil
      then show ?thesis
        by (simp add: includes_from.simps [of L path included passed "[]"] included_well_def)
    next
      case (Cons l rest)
      show ?thesis
      proof (cases "include_step L path included l rest")
        case (Inl x)
        with include_step_error show ?thesis
          by (simp add: includes_from.simps [of L path included passed "l # rest"] Cons included_well_def)
      next
        case (Inr r)
        obtain out ls' included' where r: "r = (out, ls', included')"
          by (cases r) auto
        then have run: "includes_from L path included passed ls = includes_from L path included' (passed @ out) ls'"
          using Inr Cons by (simp add: includes_from.simps [of L path included passed "l # rest"])
        from include_step_cases Inr r
        consider "included' = included" "length ls' \<le> length rest"
          | name where "name \<notin> included" "name \<in> dom (fs_text L)" "included' = insert name included"
          by blast
        then show ?thesis
        proof cases
          case 1
          then show ?thesis
            using shorter [of ls' "passed @ out"] Cons run by simp
        next
          case 2
          then have "dom (fs_text L) - included' \<subset> dom (fs_text L) - included"
            by auto
          then have "card (dom (fs_text L) - included') < card (dom (fs_text L) - included)"
            using fin by (intro psubset_card_mono) auto
          from less.hyps [OF this, of "passed @ out" ls'] show ?thesis
            using 2 unfolding run included_well_def by (auto split: option.splits sum.splits)
        qed
      qed
    qed
  qed
qed

text \<open>
  C23: the replacement of includes ends, in whatever circles the files include each other: it throws
  only when a file cannot be found or read, and otherwise has included only files that exist.
\<close>

theorem includes_terminate:
  assumes "finite (dom (fs_text L))"
  shows "case replace_includes L s of
      Inl x \<Rightarrow> x = IOError
    | Inr s' \<Rightarrow> src_includes s \<subseteq> src_includes s' \<and> src_includes s' - src_includes s \<subseteq> dom (fs_text L)"
  using includes_from_ends [OF assms, of "src_includes s" "src_path s" "[]" "src_lines s"]
  by (auto simp: replace_includes_def included_well_def or_no_return_def attempt_def split: option.splits sum.splits)

theorem includes_terminate_witness:
  "case replace_includes (plain_library\<lparr>fs_exists := (\<lambda>f. f = ''./circle''),
        fs_text := [''./circle'' \<mapsto> ''.include '' @ quote @ ''circle'' @ quote]\<rparr>)
      (add_include_path ''.'' (source_from_file \<lparr>file_lines = [''.include '' @ quote @ ''circle'' @ quote]\<rparr>)) of
    Inl x \<Rightarrow> x = IOError
  | Inr s' \<Rightarrow> src_includes s' \<subseteq> {''./circle''}"
  using includes_terminate [of "plain_library\<lparr>fs_exists := (\<lambda>f. f = ''./circle''),
        fs_text := [''./circle'' \<mapsto> ''.include '' @ quote @ ''circle'' @ quote]\<rparr>"
      "add_include_path ''.'' (source_from_file \<lparr>file_lines = [''.include '' @ quote @ ''circle'' @ quote]\<rparr>)"]
  by (simp add: add_include_path_def source_from_file_def source_new_def split: sum.splits)

text \<open>
  The first line of an included file is passed over, whatever it is; of an empty file, the line after the
  directive.
\<close>

lemma first_included_line_passed:
  assumes "is_include L l" and "name = find_file L path (get_include L l)" and "name \<noteq> []"
    and "fs_absolute L name \<notin> included" and "lines_of L (fs_absolute L name) = Inr new" and "new @ rest = d # ls"
  shows "include_step L path included l rest = Inr ([d], ls, insert (fs_absolute L name) included)"
  using assms by (simp add: include_step_def Let_def del: take_append drop_append)

section \<open>Defines\<close>

text \<open>The loop keeps a defined word in the line, when the defined words \<open>S\<close> lead back to themselves.\<close>

context word_library
begin

lemma circular_defines:
  assumes vals: "\<And>k v. defines k = Some v \<Longrightarrow> \<exists>vs. v = unwords vs \<and> vs \<noteq> [] \<and> list_all is_word vs \<and>
      (k \<in> S \<longrightarrow> set vs \<inter> S \<noteq> {})"
    and "S \<subseteq> dom defines"
  shows "define_line L' defines' line = Some r \<Longrightarrow> L' = L \<Longrightarrow> defines' = defines \<Longrightarrow>
    line_words line = Some ws \<Longrightarrow> set ws \<inter> S = {}"
proof (induction arbitrary: ws rule: define_line.raw_induct [rotated, consumes 1, case_names step])
  case (step f L' defines' line r)
  show ?case
  proof (rule ccontr)
    assume circle: "set ws \<inter> S \<noteq> {}"
    then have "ws \<noteq> []"
      by auto
    then have keys: "get_keywords L line = Inr ws"
      using code_words_found step.prems(3) by blast
    obtain w where "w \<in> set ws" "w \<in> S"
      using circle by blast
    then have "\<not> list_all (\<lambda>key. defines key = None) ws"
      using assms(2) by (auto simp: list_all_iff dom_def intro!: bexI [of _ w])
    moreover obtain line' ws' where next_line: "replace_keys L defines ws line = Inr line'" "line_words line' = Some ws'"
      "set ws' \<inter> S \<noteq> {}"
      using circular_keys [OF vals line_words_words [OF step.prems(3)] step.prems(3) circle] by blast
    ultimately have "f L defines line' = Some r"
      using step(2) step.prems(1,2) keys by simp
    from step(1) [OF this] next_line show False
      by simp
  qed
qed

end



section \<open>Numbers\<close>

text \<open>
  \<open>strtoul\<close> takes any word that begins with a hexadecimal digit for a number, so that a label that does
  not exist may be one.
\<close>

lemma misspelt_label_accepted: "\<exists>v. compile_line plain_library u LittleEndian jump_isa ''b end'' = Inr v"
proof -
  let ?L = plain_library
  have words: "\<not> is_data ?L ''b end''" "get_instruction ?L ''b end'' = [''b'', ''end'']"
    by (simp_all add: data_words(1) [OF plain.documented_match] instruction_words(1) [OF plain.documented_match]
        code_words_def jump_words(1))
  let ?info = "\<lparr>inst_code = 0x40, inst_name = ''b'', inst_nregs = 0, inst_has_inmediate = True, inst_func = ()\<rparr>"
  have info: "attempt (get_instruction_code jump_isa ''b'') (get_instruction_info jump_isa) = Inr ?info"
    by (simp add: jump_isa_def get_instruction_code_def get_instruction_info_def)
  have "strtoul ''end'' = Some 0xe"
    by (simp add: strtoul_def unsigned_hex_def xdigit_value_def between_def)
  then have "\<exists>i. operands jump_isa ?info [''end''] (garbage u) = Inr i"
    by (simp add: operands_def)
  then obtain i where "operands jump_isa ?info [''end''] (garbage u) = Inr i"
    by blast
  then show ?thesis
    unfolding compile_line_def words(2) list.case info
    using words(1) by (simp add: as_parser_error_def encode_host_word)
qed

end
