(* ===== verification/Spec2Isabelle.thy ===== *)
theory Spec2Isabelle
  imports Execution CPU_Errors World Object DBMemory Mutation Db_Steps Db_World Db_Spawn Db_Stats Sim_Run Sim_Protocol Preprocessing
begin

text \<open>
  A verification development for simpleworld: a simulated world of bugs, each of which runs its own
  machine code on a virtual CPU, with the whole state of the world in a database.

  The program and its parts.  \<open>src/simpleworld/cpu\<close> is a general virtual CPU: words and byte order,
  memory, the instruction format, the table of the instruction set and its operations, the instruction
  cycle with register windows and interrupts, and the assembler and decompiler of its language.
  \<open>src/simpleworld/db\<close> gives every kind of row of the SQLite database a class.  \<open>src/simpleworld\<close> puts
  them together: a \<open>SimpleWorld\<close> holds a grid of elements (bugs, eggs, food), runs the CPU of every bug in
  every cycle, and keeps memories and registers in blobs.  A bug acts through one instruction, \<open>world\<close>,
  whose operation calls back into the simulation, which may interrupt the CPUs of other bugs.

  Conventions (\<open>Prelude\<close>).  A member function that may throw is a \<open>prog\<close>: from a state to an exception
  or a result and the state at that point, so that what was written before a throw stays.  A function that
  changes nothing returns \<open>exn + 'a\<close>.  \<open>exn\<close> has a constructor for each exception class and three for
  what no handler catches: \<open>UndefinedBehaviour\<close>, \<open>NoReturn\<close> and \<open>Terminated\<close>.  Machine integers are
  words of their width; arithmetic that C++ does in \<open>int\<close> is done in \<open>int\<close> with its overflow.  Code under
  \<open>IS_BIG_ENDIAN\<close> and \<open>IS_LITTLE_ENDIAN\<close> takes the byte order as an argument.  \<open>keeps\<close> and \<open>preserves\<close>
  are the invariants of programs, with the rules \<open>pres_intros\<close>; \<open>raises_only\<close> says what may be thrown.

  The CPU.
    \<open>Bytes\<close> is \<open>cpu/word.cpp\<close>; \<open>Memory\<close> is \<open>cpu/memory.cpp\<close> and \<open>cpu/memory_file.cpp\<close>, with the locale
    \<open>word_store\<close> of bounds-checked stores, interpreted for the three widths; \<open>Instruction\<close> is
    \<open>cpu/instruction.cpp\<close>; \<open>ISA\<close> and \<open>ISA_Table\<close> are \<open>cpu/isa.cpp\<close>, with the locale \<open>code_table\<close>
    interpreted for instructions, registers and interrupts; \<open>CPU\<close> is \<open>cpu/cpu.cpp\<close>: \<open>cpu_state\<close> holds
    registers, memory and the flag of the loop, \<open>cpu_class\<close> the byte order and the virtual \<open>interrupt\<close>.
    \<open>Ops_Move\<close>, \<open>Ops_Branch\<close>, \<open>Ops_Function\<close> and \<open>Ops_Arith\<close> are the \<open>operations_*.cpp\<close> files.
    \<open>CPU_Facts\<close> gives the proofs their view of a CPU and the locale \<open>cpu_machine\<close>, a class whose operations
    keep an invariant; \<open>Interrupts\<close>, \<open>CPU_Errors\<close> and \<open>Execution\<close> treat the dispatch of interrupts, the
    exceptions of a cycle and the two loops \<open>execute\<close>.  The properties: calls and interrupts are
    transparent at every depth, a cycle executes the stored instruction, what every branch, shift and
    product computes, which exceptions leave a cycle, when the loops return.

  Object code and the assembler.
    \<open>File\<close> is \<open>cpu/file.cpp\<close>; \<open>Object\<close> is \<open>cpu/object.cpp\<close>, the decompiler; \<open>Source\<close> is
    \<open>cpu/source.cpp\<close>, its five passes and the compilation of lines.  Boost.Regex, Boost.Filesystem and the
    files are the record \<open>libs\<close>, and what a compilation finds in uninitialised or freed memory is a record
  \<open>leftovers\<close> for each word; a loop walks over the lines it has not reached.  \<open>Regex\<close> holds the
    expressions, what a match is (\<open>matches\<close>), and a matcher proved to follow it, for concrete runs.
    \<open>Line_Syntax\<close> derives what the expressions say: a line of code is one to four words.  \<open>Assembler\<close>
    compiles single lines, \<open>Reassembly\<close> whole programs: the locale \<open>documented_library\<close> is what the matching
    functions promise, and decompiled programs can be assembled again, with the same instructions
    whatever the leftovers.  \<open>Libraries\<close> extends it to
    \<open>word_library\<close>, for replacing words, both interpreted on the library of \<open>Regex\<close>; \<open>Labels\<close> shows
    that labels get the addresses of the code and references their distance.  \<open>Preprocessing\<close> shows where
    the passes end and where they do not.

  The database.
    \<open>Schema\<close> is the SQL text of \<open>db/db.cpp\<close> as data; \<open>Tables\<close> gives the statements the classes use over
    tables that are lists of rows, with checks, keys, references, cascades and triggers; \<open>Transaction\<close> is
    \<open>db/transaction.cpp\<close> with the stack of savepoints; \<open>Blob\<close> is \<open>db/blob.cpp\<close>; \<open>Db_Lists\<close>, \<open>Db_Environment\<close>,
    \<open>Db_World\<close>, \<open>Db_Code\<close>, \<open>Db_Bug\<close>, \<open>Db_Mutation\<close>, \<open>Db_Spawn\<close> and \<open>Db_Stats\<close> are the classes of rows.
    \<open>Integrity\<close> says when the tables are sound.  In \<open>Db_Steps\<close> runs of statements on rows are the
    inductive relations \<open>row_step\<close>, \<open>transaction_step\<close> and, between numbered savepoints, \<open>nested_step\<close>: they keep
    the tables sound, and going back to a savepoint or destroying a transaction undoes them.  Changes of the
    key of a row, which the classes offer but no other code calls, are not steps.
    \<open>DBMemory\<close> is \<open>dbmemory.cpp\<close>, which refines \<open>Memory\<close> and keeps its blob up to date; \<open>Random_Numbers\<close>
    and \<open>Mutation\<close> are \<open>mutation.cpp\<close>.

  The simulation.
    \<open>Movement\<close> and \<open>World\<close> are \<open>movement.cpp\<close>, \<open>element.cpp\<close> and \<open>world.cpp\<close>.  \<open>Simulation\<close> is the state
    of a \<open>SimpleWorld\<close>: the database, the grid, the lists of elements and the heap of their objects, with
    \<open>bug.cpp\<close>, \<open>egg.cpp\<close> and \<open>food.cpp\<close>; \<open>Bug_CPU\<close> is \<open>cpu.cpp\<close> and \<open>isa.cpp\<close>, the CPU of a bug with the
    simulation around it; \<open>Simple_World\<close> and \<open>Sim_Run\<close> are \<open>simpleworld.cpp\<close>; \<open>World_Operation\<close> is
    \<open>operations_world.cpp\<close>.  \<open>Sim_Rows\<close> states as the locale \<open>simulation_rows\<close> what a property of the
    database has to allow for every operation of the simulation to keep it, \<open>Sim_Invariant\<close> extends it to
    \<open>simulation_invariant\<close>, for transactions; \<open>Sim_Integrity\<close> interprets it for the integrity of the
    database and \<open>Sim_Transaction\<close> for an open transaction over unchanged environments.  \<open>Sim_Clock\<close> shows
    what a run does to the time and that a failed run is rolled back, \<open>Sim_Example\<close> is a concrete world,
    \<open>Sim_Actions\<close> and \<open>Sim_Protocol\<close> are the life of an action: begun, waited for, completed or cancelled.
    This theory joins the exceptions and the invariant of the base CPU as a whole.

  Parameters and their reading.  \<open>platform\<close> (\<open>Simulation\<close>) holds what the program takes from outside:
  \<open>rand()\<close>, the order in which arguments are evaluated, what uninitialised words and arrays hold and two
  computations on doubles; doubles are kept as bit patterns.  \<open>libs\<close> and \<open>leftovers\<close> (\<open>Source\<close>) are described above.  File
  systems are maps from names to contents; a stream fails where a given predicate says so.

  Loops, fuel and bounds.  No definition uses fuel.  Loops that may run for ever are
  \<open>partial_function (option)\<close>, where \<open>None\<close> says that the loop does not return: \<open>execute()\<close> of the
  CPU, the ancestors of a bug, the random search for a free cell, the growth of a list of mutations,
  includes and defines; where they return, or do not, is proved.  A run is cut into transactions of
  \<open>CYCLES_BY_TRANSACTION\<close> cycles, a constant of the build whose default, 1024, is used.

  Where the model is coarser than the code.  The texts of messages are left out.  After an exception of the
  database has left a run the memories of the objects are not followed any further, as every caller gives
  the simulation up.  The memory of a bug is written to its blob when control leaves its CPU, not at
  each store; only the simulation called from there reads it.  The clients of the assembler give it up
  after an exception, so that its functions return the exception alone.  Rows of a table are kept in
  the order of their ids, which SQLite does not promise for queries without an order.

  Not modelled, and why.  \<open>src/sqlite3\<close> and \<open>src/getopt\<close> are third-party code: the model states what the
  SQLite statements in use are documented to do.  The command line tools of \<open>src/src\<close> parse arguments and print rows around
  the operations modelled here; \<open>swl\<close> is a library written in the assembly language, not in C++.
  Concurrent connections to one database are not modelled: the program opens one.
\<close>

section \<open>The base CPU as a whole\<close>

text \<open>
  C17: no run of the base CPU, by single cycles or by \<open>execute()\<close>, ended by a stop or by an
  exception, changes the sizes of the register file and of the memory or breaks the
  representation of either.
\<close>

theorem base_cpu_invariant:
  "preserves (sized n k) (cpu_next (plain_cpu e base_isa) (base_isa :: 'z cpu_isa)) \<and>
   preserves (sized n k) (execute_cycles (cpu_next (plain_cpu e base_isa) (base_isa :: 'z cpu_isa)) cycles) \<and>
   (\<forall>c r d. execute_all (cpu_next (plain_cpu e base_isa) (base_isa :: 'z cpu_isa)) c = Some (r, d) \<longrightarrow>
      sized n k c \<longrightarrow> sized n k d)"
  using base.keeps_next base.keeps_execute_cycles base.keeps_execute_all by blast

theorem base_cpu_invariant_witness:
  "wf_cpu (snd (cpu_next (plain_cpu LittleEndian base_isa) base_isa fresh_cpu))"
proof -
  have "sized (mem_size (cpu_registers fresh_cpu)) (mem_size (cpu_memory fresh_cpu)) fresh_cpu"
    by (rule sized_refl) simp
  with base_cpu_invariant show ?thesis
    unfolding preserves_iff by (blast intro: sized_wf)
qed

text \<open>
  C15: what a cycle of the base CPU throws.  An unknown instruction never escapes as a
  \<open>CodeError\<close>; a stopped CPU throws \<open>CPUException\<close>; a running one can throw only a
  \<open>MemoryError\<close>, from the dispatch of an interrupt, or meet an undefined shift or product.
\<close>

theorem base_cpu_exceptions:
  assumes "cpu_next (plain_cpu e base_isa) (base_isa :: 'z cpu_isa) c = (Inl x, d)"
  shows "(\<exists>a. cpu_running c \<and> x = MemoryError a) \<or> (cpu_running c \<and> x = UndefinedBehaviour) \<or>
    (\<not> cpu_running c \<and> x = CPUException \<and> d = c)"
proof (cases "cpu_running c")
  case True
  then have "fault x"
    using assms by (rule raises_next)
  with True show ?thesis
    by (cases x) auto
next
  case False
  with assms show ?thesis
    by (simp add: next_stopped)
qed

theorem base_cpu_exceptions_witness:
  "\<exists>x d. cpu_next (plain_cpu BigEndian base_isa) base_isa (fresh_cpu\<lparr>cpu_running := False\<rparr>) = (Inl x, d) \<and>
    x = CPUException"
  using base_cpu_exceptions [OF next_stopped [of "fresh_cpu\<lparr>cpu_running := False\<rparr>"]]
  by (simp add: next_stopped)

text \<open>
  C14: one cycle of any CPU, on any host, executes the instruction whose four bytes, in the
  order of the object format, lie at the program counter; after an operation that answers
  \<open>UpdatePC\<close> the program counter is advanced by one word.
\<close>

theorem cycle_executes_instruction:
  assumes "wf_cpu c" and "cpu_running c" and "at_pc c i"
    and "get_instruction_info isa (i_code i) = Inr info"
    and "inst_func info cls i c = (Inr u, d)" and "wf_cpu d"
  shows "cpu_next cls isa c = (Inr (), case u of
      UpdatePC \<Rightarrow> put_reg d REGISTER_PC (reg d REGISTER_PC + 4)
    | UpdateStop \<Rightarrow> d\<lparr>cpu_running := False\<rparr>
    | _ \<Rightarrow> d)"
proof -
  have "execute_instruction cls isa i c = (Inr (), case u of
      UpdatePC \<Rightarrow> put_reg d REGISTER_PC (reg d REGISTER_PC + 4)
    | UpdateStop \<Rightarrow> d\<lparr>cpu_running := False\<rparr>
    | _ \<Rightarrow> d)"
    using assms(4-6) by (cases u) (simp_all add: execute_instruction_def advance_pc_def)
  then show ?thesis
    by (simp add: next_fetched [OF assms(1-3)])
qed

lemma at_pc_fresh: "at_pc fresh_cpu \<lparr>i_code = 0, i_first = 0, i_second = 0, i_data = 0\<rparr>"
  by (simp add: at_pc_def fresh_memory chunk_def inst_bytes_def numeral_eq_Suc)

theorem cycle_executes_instruction_witness:
  "cpu_next (plain_cpu LittleEndian base_isa) base_isa fresh_cpu =
    (Inr (), fresh_cpu\<lparr>cpu_running := False\<rparr>)"
proof -
  have "\<exists>info. get_instruction_info (base_isa :: unit cpu_isa) 0 = Inr info \<and> inst_func info = stop"
    by (simp add: get_instruction_info_def base_isa_facts base_instructions_def base_entries_def)
  then obtain info where info: "get_instruction_info (base_isa :: unit cpu_isa) 0 = Inr info"
    "inst_func info = stop" by blast
  show ?thesis
    using cycle_executes_instruction [of fresh_cpu "\<lparr>i_code = 0, i_first = 0, i_second = 0, i_data = 0\<rparr>"
        base_isa info "plain_cpu LittleEndian base_isa" UpdateStop fresh_cpu] info at_pc_fresh
    by (simp add: stop_def)
qed

text \<open>
  C16: an instruction code without an operation, and a fetch or an access outside the memory,
  become the corresponding interrupt, with the program counter and the offending code or
  address as its information.
\<close>

theorem faults_become_interrupts:
  assumes "wf_cpu c" and "cpu_running c"
  shows "(\<forall>i. at_pc c i \<and> instructions isa (i_code i) = None \<longrightarrow>
      cpu_next cls isa c =
        vinterrupt cls INTERRUPT_INSTRUCTION (reg c REGISTER_PC) (ucast (i_code i)) c) \<and>
    (\<forall>i info a d. at_pc c i \<and> instructions isa (i_code i) = Some info \<and>
      inst_func info cls i c = (Inl (MemoryError a), d) \<and> wf_cpu d \<longrightarrow>
      cpu_next cls isa c = vinterrupt cls INTERRUPT_MEMORY (reg d REGISTER_PC) a d) \<and>
    (\<not> unat (reg c REGISTER_PC) + 4 \<le> msize c \<longrightarrow>
      cpu_next cls isa c = vinterrupt cls INTERRUPT_MEMORY (reg c REGISTER_PC) (reg c REGISTER_PC) c)"
proof (intro conjI allI impI)
  fix i
  assume i: "at_pc c i \<and> instructions isa (i_code i) = None"
  show "cpu_next cls isa c =
      vinterrupt cls INTERRUPT_INSTRUCTION (reg c REGISTER_PC) (ucast (i_code i)) c"
    using assms i
    by (simp add: next_fetched [of c i] execute_instruction_def get_instruction_info_def code_fault_def)
next
  fix i info a d
  assume i: "at_pc c i \<and> instructions isa (i_code i) = Some info \<and>
      inst_func info cls i c = (Inl (MemoryError a), d) \<and> wf_cpu d"
  show "cpu_next cls isa c = vinterrupt cls INTERRUPT_MEMORY (reg d REGISTER_PC) a d"
    using assms i
    by (simp add: next_fetched [of c i] execute_instruction_def get_instruction_info_def memory_fault_def)
qed (use assms in \<open>simp add: next_unmapped\<close>)

theorem faults_become_interrupts_witness:
  "cpu_next (plain_cpu LittleEndian isa_empty) isa_empty fresh_cpu =
    vinterrupt (plain_cpu LittleEndian isa_empty) INTERRUPT_INSTRUCTION 0 0 fresh_cpu"
  using faults_become_interrupts [of fresh_cpu isa_empty "plain_cpu LittleEndian isa_empty",
      THEN conjunct1] at_pc_fresh
  by auto

end
